(* ===== verification/Go_Base.thy ===== *)
theory Go_Base
  imports Main "HOL-Library.Char_ord" "HOL-Library.List_Lexorder" "HOL-Library.Sublist"
begin

text \<open>
  Shared vocabulary of the development: the error codes of
  \<open>internal/platform/apperr\<close>, results of fallible Go functions, instants and durations,
  the string functions of Go's \<open>strings\<close> package that the code uses, Go maps with string keys
  as key-sorted association lists, and JSON documents as trees.  Lemmas about them are
  declared for the simplifier or collected in named theorem lists.
\<close>

section \<open>Error codes and results\<close>

text \<open>The closed table of \<open>apperr/code.go\<close>, in the order the codes are registered.\<close>

datatype code =
    CodeInvalidRequest | CodeUnauthenticated | CodeForbidden | CodeNotFound | CodeConflict
  | CodeInternal | CodeNotImplemented | CodeInvalidConfiguration
  | CodeAgentIdentityUnverifiable | CodeSessionExpired
  | CodeCapabilityNotOffered | CodeApprovalTimeout
  | CodeCredentialNotAuthorized | CodeProviderUnavailable | CodeProviderNotSupportedOnPlatform
  | CodeProviderLockedTimeout | CodeVaultLocked
  | CodePathNotAllowed | CodeAdapterTimeout | CodeGatewayUnavailable

text \<open>
  A Go function that returns \<open>(T, error)\<close> is a function into \<open>'a result\<close>.  The diagnostic
  text of an error (\<open>WithDetail\<close>, \<open>Wrap\<close>) never reaches a caller, so an error is its code.
  A nil dereference is the separate constructor \<open>Panic\<close>: callers that test
  \<open>err != nil\<close> do not see it, only a deferred \<open>recover\<close> does.
\<close>

datatype go_error = Fail code | Panic

type_synonym 'a result = "go_error + 'a"

abbreviation Ok :: "'a \<Rightarrow> 'a result" where "Ok \<equiv> Inr"

abbreviation Err :: "code \<Rightarrow> 'a result" where "Err c \<equiv> Inl (Fail c)"

definition rbind :: "'a result \<Rightarrow> ('a \<Rightarrow> 'b result) \<Rightarrow> 'b result" where
  "rbind r f = (case r of Inl e \<Rightarrow> Inl e | Inr a \<Rightarrow> f a)"

fun is_ok :: "'a result \<Rightarrow> bool" where
  "is_ok (Inl e) = False"
| "is_ok (Inr a) = True"

lemma rbind_simps [simp]:
  "rbind (Inr a) f = f a"
  "rbind (Inl e) f = Inl e"
  by (simp_all add: rbind_def)

lemma rbind_eq_Inr_iff: "rbind r f = Inr b \<longleftrightarrow> (\<exists>a. r = Inr a \<and> f a = Inr b)"
  by (cases r) auto

lemma rbind_eq_Inl_iff:
  "rbind r f = Inl e \<longleftrightarrow> r = Inl e \<or> (\<exists>a. r = Inr a \<and> f a = Inl e)"
  by (cases r) auto

lemmas rbind_iffs = rbind_eq_Inr_iff rbind_eq_Inl_iff

section \<open>Instants, durations and identifiers\<close>

text \<open>
  An instant (\<open>time.Time\<close>, always UTC here) is the number of nanoseconds since Go's zero
  time; \<open>IsZero\<close> is \<open>t = 0\<close>, \<open>Before\<close> and \<open>After\<close> are \<open><\<close> and \<open>>\<close>, \<open>Add\<close> is \<open>+\<close>.
  A \<open>time.Duration\<close> is a number of nanoseconds.
\<close>

type_synonym instant = int
type_synonym duration = int

definition nanosecond :: duration where "nanosecond = 1"
definition millisecond :: duration where "millisecond = 1000000 * nanosecond"
definition second :: duration where "second = 1000 * millisecond"
definition minute :: duration where "minute = 60 * second"
definition hour :: duration where "hour = 60 * minute"

lemmas duration_defs = nanosecond_def millisecond_def second_def minute_def hour_def

section \<open>Strings\<close>

text \<open>
  A Go string is its bytes.  The functions below are those of package \<open>strings\<close>; case
  mapping is the ASCII part of Unicode (bytes from 128 on map to themselves).
\<close>

definition is_upper_char :: "char \<Rightarrow> bool" where
  "is_upper_char c \<longleftrightarrow> CHR ''A'' \<le> c \<and> c \<le> CHR ''Z''"

definition is_lower_char :: "char \<Rightarrow> bool" where
  "is_lower_char c \<longleftrightarrow> CHR ''a'' \<le> c \<and> c \<le> CHR ''z''"

definition lower_char :: "char \<Rightarrow> char" where
  "lower_char c = (if is_upper_char c then char_of (of_char c + (32::nat)) else c)"

definition upper_char :: "char \<Rightarrow> char" where
  "upper_char c = (if is_lower_char c then char_of (of_char c - (32::nat)) else c)"

definition to_lower :: "string \<Rightarrow> string" where
  "to_lower s = map lower_char s"

definition to_upper :: "string \<Rightarrow> string" where
  "to_upper s = map upper_char s"

definition has_prefix :: "string \<Rightarrow> string \<Rightarrow> bool" where
  "has_prefix s p \<longleftrightarrow> take (length p) s = p"

definition has_suffix :: "string \<Rightarrow> string \<Rightarrow> bool" where
  "has_suffix s p \<longleftrightarrow> length p \<le> length s \<and> drop (length s - length p) s = p"

definition trim_prefix :: "string \<Rightarrow> string \<Rightarrow> string" where
  "trim_prefix s p = (if has_prefix s p then drop (length p) s else s)"

definition trim_suffix :: "string \<Rightarrow> string \<Rightarrow> string" where
  "trim_suffix s p = (if has_suffix s p then take (length s - length p) s else s)"

fun str_contains :: "string \<Rightarrow> string \<Rightarrow> bool" where
  "str_contains [] w = (w = [])"
| "str_contains (c # cs) w = (has_prefix (c # cs) w \<or> str_contains cs w)"

definition contains_any :: "string \<Rightarrow> string \<Rightarrow> bool" where
  "contains_any s chars = list_ex (\<lambda>c. c \<in> set chars) s"

text \<open>\<open>strings.Split(s, sep)\<close> for a one-byte separator: never empty.\<close>

fun split_on :: "char \<Rightarrow> string \<Rightarrow> string list" where
  "split_on sep [] = [[]]"
| "split_on sep (c # cs) =
     (if c = sep then [] # split_on sep cs
      else (case split_on sep cs of [] \<Rightarrow> [[c]] | w # ws \<Rightarrow> (c # w) # ws))"

text \<open>\<open>strings.Join(parts, sep)\<close>.\<close>

fun join_with :: "string \<Rightarrow> string list \<Rightarrow> string" where
  "join_with sep [] = []"
| "join_with sep [w] = w"
| "join_with sep (w # ws) = w @ sep @ join_with sep ws"

definition equal_fold :: "string \<Rightarrow> string \<Rightarrow> bool" where
  "equal_fold s t \<longleftrightarrow> to_lower s = to_lower t"

text \<open>\<open>strings.NewReplacer\<close> with one-byte patterns all replaced by the empty string.\<close>

definition strip_chars :: "string \<Rightarrow> string \<Rightarrow> string" where
  "strip_chars chars s = filter (\<lambda>c. c \<notin> set chars) s"

lemma has_prefix_iff: "has_prefix s p \<longleftrightarrow> (\<exists>t. s = p @ t)"
  by (metis append_eq_conv_conj append_take_drop_id has_prefix_def)

lemma has_suffix_iff: "has_suffix s p \<longleftrightarrow> (\<exists>t. s = t @ p)"
proof
  assume "has_suffix s p"
  then have "s = take (length s - length p) s @ p"
    by (metis append_take_drop_id has_suffix_def)
  then show "\<exists>t. s = t @ p" by blast
qed (auto simp: has_suffix_def)

lemma has_prefix_append [simp]: "has_prefix (p @ t) p"
  by (auto simp: has_prefix_iff)

lemma has_prefix_Nil [simp]: "has_prefix s []"
  by (simp add: has_prefix_def)

lemma trim_prefix_append [simp]: "trim_prefix (p @ t) p = t"
  by (simp add: trim_prefix_def)

lemma str_contains_iff: "str_contains s w \<longleftrightarrow> (\<exists>a b. s = a @ w @ b)"
proof (induction s)
  case Nil
  then show ?case by auto
next
  case (Cons c cs)
  show ?case
  proof
    assume "str_contains (c # cs) w"
    then consider (here) "has_prefix (c # cs) w" | (later) "str_contains cs w" by auto
    then show "\<exists>a b. c # cs = a @ w @ b"
    proof cases
      case here
      then obtain t where "c # cs = [] @ w @ t" by (auto simp: has_prefix_iff)
      then show ?thesis by blast
    next
      case later
      with Cons.IH obtain a b where "cs = a @ w @ b" by blast
      then have "c # cs = (c # a) @ w @ b" by simp
      then show ?thesis by blast
    qed
  next
    assume "\<exists>a b. c # cs = a @ w @ b"
    then obtain a b where eq: "c # cs = a @ w @ b" by blast
    show "str_contains (c # cs) w"
    proof (cases a)
      case Nil
      with eq have "has_prefix (c # cs) w" by (auto simp: has_prefix_iff)
      then show ?thesis by simp
    next
      case (Cons d ds)
      with eq have "cs = ds @ w @ b" by simp
      with Cons.IH show ?thesis by auto
    qed
  qed
qed

lemma cons_split_unique:
  "x \<notin> set a \<Longrightarrow> x \<notin> set a' \<Longrightarrow> a @ x # v = a' @ x # v' \<Longrightarrow> a = a' \<and> v = v'"
proof (induction a arbitrary: a')
  case Nil
  then show ?case by (cases a') auto
next
  case (Cons y a)
  then show ?case by (cases a') auto
qed

lemma snoc_split_unique:
  assumes "x \<notin> set v" "x \<notin> set v'" "a @ x # v = a' @ x # v'"
  shows "a = a' \<and> v = v'"
proof -
  have "rev v @ x # rev a = rev v' @ x # rev a'"
    using arg_cong [OF assms(3), of rev] by simp
  with assms(1,2) have "rev v = rev v' \<and> rev a = rev a'"
    by (intro cons_split_unique) auto
  then show ?thesis by simp
qed

lemma split_on_not_Nil [simp]: "split_on sep s \<noteq> []"
  by (cases s) (auto split: list.splits)

lemma split_on_segments: "w \<in> set (split_on sep s) \<Longrightarrow> sep \<notin> set w"
  by (induction sep s arbitrary: w rule: split_on.induct) (auto split: list.splits if_splits)

lemma split_on_plain: "sep \<notin> set s \<Longrightarrow> split_on sep s = [s]"
  by (induction s) auto

lemma split_on_append: "sep \<notin> set s \<Longrightarrow> split_on sep (s @ sep # t) = s # split_on sep t"
  by (induction s) auto

lemma split_on_join:
  assumes "ws \<noteq> []" and "\<forall>w \<in> set ws. sep \<notin> set w"
  shows "split_on sep (join_with [sep] ws) = ws"
  using assms
  by (induction "[sep]" ws rule: join_with.induct) (auto simp: split_on_plain split_on_append)

lemma length_to_lower [simp]: "length (to_lower s) = length s"
  by (simp add: to_lower_def)

lemma to_lower_Nil_iff [simp]: "to_lower s = [] \<longleftrightarrow> s = []"
  by (simp add: to_lower_def)

section \<open>Go maps with string keys\<close>

text \<open>
  A Go \<open>map[string]V\<close> is an association list sorted strictly by key, so that two maps with
  the same entries are equal and \<open>len\<close> is \<open>length\<close>.  Go leaves the iteration order of a map
  open; the code only folds over a map where the order does not matter or sorts first.
\<close>

type_synonym 'v go_map = "(string \<times> 'v) list"

definition gm_ok :: "'v go_map \<Rightarrow> bool" where
  "gm_ok m \<longleftrightarrow> sorted_wrt (<) (map fst m)"

fun gm_put :: "string \<Rightarrow> 'v \<Rightarrow> 'v go_map \<Rightarrow> 'v go_map" where
  "gm_put k v [] = [(k, v)]"
| "gm_put k v ((k', v') # m) =
     (if k = k' then (k, v) # m
      else if k < k' then (k, v) # (k', v') # m
      else (k', v') # gm_put k v m)"

abbreviation gm_get :: "'v go_map \<Rightarrow> string \<Rightarrow> 'v option" where
  "gm_get m k \<equiv> map_of m k"

definition gm_of_list :: "(string \<times> 'v) list \<Rightarrow> 'v go_map" where
  "gm_of_list kvs = fold (\<lambda>(k, v) m. gm_put k v m) kvs []"

lemma gm_get_put [simp]: "gm_get (gm_put k v m) k' = (if k' = k then Some v else gm_get m k')"
  by (induction k v m rule: gm_put.induct) auto

lemma gm_put_map: "map_of (gm_put k v m) = (map_of m)(k \<mapsto> v)"
  by (rule ext) simp

lemma map_of_append_new:
  "map_of xs k = None \<Longrightarrow> map_of (xs @ [(k, v)]) = (map_of xs)(k \<mapsto> v)"
  by (auto simp: fun_eq_iff map_add_def split: option.splits)

lemma fst_gm_put [simp]: "fst ` set (gm_put k v m) = insert k (fst ` set m)"
  by (induction m rule: gm_put.induct) auto

lemma gm_put_not_Nil [simp]: "gm_put k v m \<noteq> []"
  by (cases "(k, v, m)" rule: gm_put.cases) auto

lemma gm_ok_Nil [simp]: "gm_ok []"
  by (simp add: gm_ok_def)

lemma gm_ok_Cons: "gm_ok (kv # m) \<longleftrightarrow> (\<forall>k \<in> fst ` set m. fst kv < k) \<and> gm_ok m"
  by (auto simp: gm_ok_def)

lemma gm_ok_put [simp]: "gm_ok m \<Longrightarrow> gm_ok (gm_put k v m)"
proof (induction k v m rule: gm_put.induct)
  case (1 k v)
  then show ?case by (simp add: gm_ok_Cons)
next
  case (2 k v k' v' m)
  then have "gm_ok m" and lt: "\<forall>j \<in> fst ` set m. k' < j" by (auto simp: gm_ok_Cons)
  consider "k = k'" | "k < k'" | "k' < k" by (cases k k' rule: linorder_cases) auto
  then show ?case
  proof cases
    case 3
    with 2 \<open>gm_ok m\<close> have "gm_ok (gm_put k v m)" by auto
    with 3 lt show ?thesis by (auto simp: gm_ok_Cons)
  qed (use \<open>gm_ok m\<close> lt in \<open>auto simp: gm_ok_Cons\<close>)
qed

lemma gm_ok_distinct: "gm_ok m \<Longrightarrow> distinct (map fst m)"
  unfolding gm_ok_def using strict_sorted_iff by blast

lemma gm_ok_sorted: "gm_ok m \<Longrightarrow> sorted (map fst m)"
  unfolding gm_ok_def by (simp add: strict_sorted_imp_sorted)

lemma gm_ok_of_list [simp]: "gm_ok (gm_of_list kvs)"
proof -
  have "gm_ok m \<Longrightarrow> gm_ok (fold (\<lambda>(k, v) m. gm_put k v m) kvs m)" for m
    by (induction kvs arbitrary: m) auto
  then show ?thesis by (simp add: gm_of_list_def)
qed

text \<open>Two well-formed maps with the same entries are the same list.\<close>

lemma gm_ext:
  assumes "gm_ok m" and "gm_ok n" and "map_of m = map_of n"
  shows "m = n"
proof (rule map_sorted_distinct_set_unique [where f = fst])
  show "inj_on fst (set m \<union> set n)"
  proof (rule inj_onI)
    fix x y assume "x \<in> set m \<union> set n" "y \<in> set m \<union> set n" "fst x = fst y"
    moreover have "map_of m (fst z) = Some (snd z)" if "z \<in> set m \<union> set n" for z
      using that assms gm_ok_distinct by (metis Un_iff map_of_eq_Some_iff surjective_pairing)
    ultimately show "x = y" by (metis option.inject prod_eqI)
  qed
  show "set m = set n"
    using assms gm_ok_distinct by (metis map_of_inject_set)
qed (use assms gm_ok_sorted gm_ok_distinct in auto)

lemma gm_of_list_id: "gm_ok m \<Longrightarrow> gm_of_list m = m"
proof -
  have fold_get: "map_of (fold (\<lambda>(k, v) m. gm_put k v m) kvs m)
      = map_of m ++ map_of (rev kvs)" for kvs :: "(string \<times> 'b) list" and m
  proof (induction kvs arbitrary: m)
    case (Cons kv kvs)
    obtain k v where kv: "kv = (k, v)" by (cases kv)
    have "map_of (gm_put k v m) = (map_of m)(k \<mapsto> v)" by (rule ext) simp
    with Cons.IH [of "gm_put k v m"] kv show ?case by (simp add: map_add_def fun_eq_iff
          split: option.splits)
  qed simp
  assume ok: "gm_ok m"
  have "map_of (gm_of_list m) = map_of m"
    using fold_get [of m "[]"] ok gm_ok_distinct [OF ok]
    by (simp add: gm_of_list_def map_of_inject_set rev_map [symmetric])
  with ok show ?thesis by (intro gm_ext) auto
qed

end
