(* ===== verification/Agent_Identity.thy ===== *)
theory Agent_Identity
  imports Go_Base
begin

text \<open>
  Data of \<open>internal/core/agentauth/identity.go\<close> and \<open>repository.go\<close>: who issues a request,
  from which device and workspace, and how far it is trusted.  Go's enumerations are string
  types, so each datatype has a constructor for a string outside the declared constants.
\<close>

datatype agent_type = TypeClaudeCode | TypeCodex | TypeGeminiCLI | TypeOpenCode | TypeGeneric
  | TypeOther string

datatype trust_level = TrustUnverified | TrustKnown | TrustTrusted | TrustOther string

datatype agent_status = AgentActive | AgentDisconnected | AgentStatusOther string

datatype device_trust = DeviceTrusted | DeviceUntrusted | DeviceTrustOther string

record device =
  device_ID :: string
  device_Fingerprint :: string
  device_Name :: string
  device_TrustStatus :: device_trust
  device_CreatedAt :: instant
  device_UpdatedAt :: instant

record workspace =
  workspace_ID :: string
  workspace_Path :: string
  workspace_ProjectFingerprint :: string
  workspace_CreatedAt :: instant
  workspace_UpdatedAt :: instant

record agent =
  agent_ID :: string
  agent_Name :: string
  agent_Type :: agent_type
  agent_Version :: string
  agent_ExecutableHash :: string
  agent_ExecutablePath :: string
  agent_PID :: int
  agent_ParentPID :: int
  agent_OSUser :: string
  agent_DeviceID :: string
  agent_WorkspaceID :: string
  agent_StartedAt :: instant
  agent_SessionKeyHash :: string
  agent_SessionExpiresAt :: instant
  agent_TrustLevel :: trust_level
  agent_Status :: agent_status
  agent_LastSeenAt :: instant
  agent_CreatedAt :: instant
  agent_UpdatedAt :: instant

text \<open>The part of an agent that survives a restart, and the part a restart rewrites.\<close>

record agent_binding =
  ab_DeviceID :: string
  ab_WorkspaceID :: string
  ab_ExecutablePath :: string
  ab_OSUser :: string
  ab_ExecutableHash :: string

record rebind =
  rb_PID :: int
  rb_ParentPID :: int
  rb_StartedAt :: instant
  rb_SessionKeyHash :: string
  rb_SessionExpiresAt :: instant
  rb_At :: instant

end
