(* ===== verification/Risk.thy ===== *)
theory Risk
  imports Agent_Identity
begin

text \<open>
  Model of \<open>internal/core/risk\<close>: the thirteen factors of a request, the rule table and the
  evaluation of a risk level.  The level type, the factor record, the rules and \<open>evaluate\<close>
  follow \<open>level.go\<close>, \<open>factors.go\<close> and \<open>engine.go\<close>; the lemmas show that the level never falls
  below the declared label, that it is the maximum of what the triggered rules demand whatever
  the order of the table, and that unrecognised inputs are refused.
\<close>

section \<open>Levels and labels\<close>

datatype level = LevelLow | LevelMedium | LevelHigh | LevelOther string

text \<open>The label an adapter declares for an operation (\<open>adapter/registry/declaration.go\<close>).\<close>

datatype risk_label = RiskLabelLow | RiskLabelMedium | RiskLabelHigh | RiskLabelOther string

fun rank :: "level \<Rightarrow> nat" where
  "rank LevelLow = 1"
| "rank LevelMedium = 2"
| "rank LevelHigh = 3"
| "rank (LevelOther s) = 0"

fun levelOf :: "risk_label \<Rightarrow> level" where
  "levelOf RiskLabelLow = LevelLow"
| "levelOf RiskLabelMedium = LevelMedium"
| "levelOf RiskLabelHigh = LevelHigh"
| "levelOf (RiskLabelOther s) = LevelOther []"

section \<open>Factors\<close>

record factors =
  f_Write :: bool
  f_Production :: bool
  f_Reversible :: bool
  f_ResourceCount :: int
  f_Destructive :: bool
  f_PermissionChange :: bool
  f_SecretAccess :: bool
  f_Billing :: bool
  f_ExternalCommunication :: bool
  f_FirstSeen :: bool
  f_BeyondHistory :: bool
  f_AgentTrust :: trust_level
  f_DeviceTrust :: device_trust
  f_DeclaredLabel :: risk_label

fun validTrustLevel :: "trust_level \<Rightarrow> bool" where
  "validTrustLevel TrustUnverified = True"
| "validTrustLevel TrustKnown = True"
| "validTrustLevel TrustTrusted = True"
| "validTrustLevel (TrustOther s) = False"

fun validDeviceTrust :: "device_trust \<Rightarrow> bool" where
  "validDeviceTrust DeviceTrusted = True"
| "validDeviceTrust DeviceUntrusted = True"
| "validDeviceTrust (DeviceTrustOther s) = False"

definition factors_validate :: "factors \<Rightarrow> unit result" where
  "factors_validate f =
     (if levelOf (f_DeclaredLabel f) = LevelOther [] then Err CodeInvalidRequest
      else if \<not> validTrustLevel (f_AgentTrust f) then Err CodeInvalidRequest
      else if \<not> validDeviceTrust (f_DeviceTrust f) then Err CodeInvalidRequest
      else if f_ResourceCount f < 0 then Err CodeInvalidRequest
      else Ok ())"

section \<open>Rules and evaluation\<close>

datatype factor =
    FactorDeclaredLabel | FactorReadOnly
  | FactorDestructive | FactorIrreversible | FactorPermissionChange | FactorSecretAccess
  | FactorBilling | FactorBulkChange
  | FactorProductionWrite | FactorBeyondHistory | FactorFirstSeen | FactorAgentUnverified
  | FactorUntrustedDevice | FactorExternalCommunication

record assessment =
  as_Level :: level
  as_Factors :: "factor list"

record rule =
  rule_factor :: factor
  rule_triggered :: "factors \<Rightarrow> bool"
  rule_raise :: "level \<Rightarrow> level"

definition toHigh :: "level \<Rightarrow> level" where
  "toHigh l = LevelHigh"

definition atLeastMedium :: "level \<Rightarrow> level" where
  "atLeastMedium baseline = (if rank baseline > rank LevelMedium then baseline else LevelMedium)"

definition oneLevelUp :: "level \<Rightarrow> level" where
  "oneLevelUp baseline = (case baseline of LevelLow \<Rightarrow> LevelMedium | _ \<Rightarrow> LevelHigh)"

definition mk_rule :: "factor \<Rightarrow> (factors \<Rightarrow> bool) \<Rightarrow> (level \<Rightarrow> level) \<Rightarrow> rule" where
  "mk_rule x t r = \<lparr>rule_factor = x, rule_triggered = t, rule_raise = r\<rparr>"

definition rules :: "rule list" where
  "rules = [
     mk_rule FactorDestructive f_Destructive toHigh,
     mk_rule FactorIrreversible (\<lambda>f. f_Write f \<and> \<not> f_Reversible f) toHigh,
     mk_rule FactorPermissionChange f_PermissionChange toHigh,
     mk_rule FactorSecretAccess f_SecretAccess toHigh,
     mk_rule FactorBilling f_Billing toHigh,
     mk_rule FactorBulkChange (\<lambda>f. f_Write f \<and> f_ResourceCount f \<noteq> 1) toHigh,
     mk_rule FactorProductionWrite (\<lambda>f. f_Write f \<and> f_Production f) atLeastMedium,
     mk_rule FactorBeyondHistory (\<lambda>f. f_Write f \<and> f_BeyondHistory f) oneLevelUp,
     mk_rule FactorFirstSeen (\<lambda>f. f_Write f \<and> f_FirstSeen f) atLeastMedium,
     mk_rule FactorAgentUnverified (\<lambda>f. f_Write f \<and> f_AgentTrust f = TrustUnverified)
       atLeastMedium,
     mk_rule FactorUntrustedDevice (\<lambda>f. f_Write f \<and> f_DeviceTrust f = DeviceUntrusted)
       atLeastMedium,
     mk_rule FactorExternalCommunication (\<lambda>f. f_Write f \<and> f_ExternalCommunication f)
       atLeastMedium]"

text \<open>One turn of the loop in \<open>Evaluate\<close>, over the pair of level and reasons.\<close>

definition apply_rule :: "factors \<Rightarrow> level \<Rightarrow> rule \<Rightarrow> level \<times> factor list \<Rightarrow> level \<times> factor list"
where
  "apply_rule f baseline r acc =
     (case acc of (lv, reasons) \<Rightarrow>
        if \<not> rule_triggered r f then (lv, reasons)
        else (let raised = rule_raise r baseline
              in (if rank raised > rank lv then raised else lv, reasons @ [rule_factor r])))"

definition evaluate :: "factors \<Rightarrow> assessment result" where
  "evaluate f =
     (case factors_validate f of
        Inl e \<Rightarrow> Inl e
      | Inr _ \<Rightarrow>
          (let baseline = levelOf (f_DeclaredLabel f);
               reasons = FactorDeclaredLabel # (if \<not> f_Write f then [FactorReadOnly] else []);
               (lv, out) = fold (apply_rule f baseline) rules (baseline, reasons)
           in Ok \<lparr>as_Level = lv, as_Factors = out\<rparr>))"

section \<open>Ranks of levels\<close>

text \<open>
  Three packages carry their own copy of the rank of a level (\<open>risk.rank\<close>,
  \<open>scope.levelRank\<close>, \<open>trust.rank\<close>).  What each must promise is an interface of its own.
\<close>

locale ranked_levels =
  fixes rk :: "level \<Rightarrow> nat"
  assumes unknown_lowest: "rk (LevelOther s) = 0"
    and known_positive: "0 < rk LevelLow"
    and low_medium: "rk LevelLow < rk LevelMedium"
    and medium_high: "rk LevelMedium < rk LevelHigh"
begin

lemma rank_pos_iff: "0 < rk l \<longleftrightarrow> l \<in> {LevelLow, LevelMedium, LevelHigh}"
  using unknown_lowest known_positive low_medium medium_high by (cases l) auto

lemma rank_le_high: "rk l \<le> rk LevelHigh"
  using unknown_lowest known_positive low_medium medium_high by (cases l) auto

lemma rank_high_iff: "rk LevelHigh \<le> rk l \<longleftrightarrow> l = LevelHigh"
  using unknown_lowest known_positive low_medium medium_high by (cases l) auto

lemma rank_inj: "0 < rk l \<Longrightarrow> rk l = rk l' \<Longrightarrow> l = l'"
  using unknown_lowest known_positive low_medium medium_high
  by (cases l; cases l') auto

end

interpretation risk_rank: ranked_levels rank
  by unfold_locales auto

section \<open>The loop computes a maximum\<close>

definition triggered_rules :: "factors \<Rightarrow> rule list \<Rightarrow> rule list" where
  "triggered_rules f rs = filter (\<lambda>r. rule_triggered r f) rs"

lemma fold_apply_rule:
  "fold (apply_rule f b) rs (lv, out) =
     (fold (\<lambda>r l. if rank (rule_raise r b) > rank l then rule_raise r b else l)
        (triggered_rules f rs) lv,
      out @ map rule_factor (triggered_rules f rs))"
  by (induction rs arbitrary: lv out) (auto simp: apply_rule_def triggered_rules_def Let_def)

lemma rank_fold_raise:
  "rank (fold (\<lambda>r l. if rank (rule_raise r b) > rank l then rule_raise r b else l) rs lv)
     = Max (insert (rank lv) ((\<lambda>r. rank (rule_raise r b)) ` set rs))"
proof (induction rs arbitrary: lv)
  case Nil
  then show ?case by simp
next
  case (Cons r rs)
  let ?A = "(\<lambda>r. rank (rule_raise r b)) ` set rs"
  let ?x = "rank (rule_raise r b)"
  have "rank (if ?x > rank lv then rule_raise r b else lv) = max ?x (rank lv)" by auto
  then have "rank (fold (\<lambda>r l. if rank (rule_raise r b) > rank l then rule_raise r b else l)
       (r # rs) lv) = Max (insert (max ?x (rank lv)) ?A)"
    using Cons.IH by simp
  also have "\<dots> = Max (insert (rank lv) (insert ?x ?A))"
    by (cases "?A = {}") (auto simp: max.commute max.left_commute)
  finally show ?case by simp
qed

lemma evaluate_Ok_iff:
  "evaluate f = Ok a \<longleftrightarrow>
     factors_validate f = Ok () \<and>
     a = \<lparr>as_Level = fold (\<lambda>r l. if rank (rule_raise r (levelOf (f_DeclaredLabel f))) > rank l
                             then rule_raise r (levelOf (f_DeclaredLabel f)) else l)
                           (triggered_rules f rules) (levelOf (f_DeclaredLabel f)),
          as_Factors = (FactorDeclaredLabel # (if f_Write f then [] else [FactorReadOnly]))
             @ map rule_factor (triggered_rules f rules)\<rparr>"
  by (auto simp: evaluate_def Let_def fold_apply_rule split: sum.splits prod.splits)

lemma evaluate_rank:
  assumes "evaluate f = Ok a"
  shows "rank (as_Level a) =
    Max (insert (rank (levelOf (f_DeclaredLabel f)))
      ((\<lambda>r. rank (rule_raise r (levelOf (f_DeclaredLabel f)))) ` set (triggered_rules f rules)))"
  using assms by (simp add: evaluate_Ok_iff rank_fold_raise)

lemma levelOf_valid: "levelOf l \<noteq> LevelOther [] \<Longrightarrow> 0 < rank (levelOf l)"
  by (cases l) auto

lemma factors_validate_Ok_iff:
  "factors_validate f = Ok () \<longleftrightarrow>
     levelOf (f_DeclaredLabel f) \<noteq> LevelOther [] \<and> validTrustLevel (f_AgentTrust f)
     \<and> validDeviceTrust (f_DeviceTrust f) \<and> 0 \<le> f_ResourceCount f"
  by (auto simp: factors_validate_def)

lemma factors_validate_cases:
  "factors_validate f = Ok () \<or> factors_validate f = Err CodeInvalidRequest"
  by (auto simp: factors_validate_def)

lemma evaluate_cases: "(\<exists>a. evaluate f = Ok a) \<or> evaluate f = Err CodeInvalidRequest"
  using factors_validate_cases [of f]
  by (auto simp: evaluate_def Let_def fold_apply_rule split: prod.splits)

lemma evaluate_no_lower:
  assumes "evaluate f = Ok a"
  shows "rank (levelOf (f_DeclaredLabel f)) \<le> rank (as_Level a)"
  unfolding evaluate_rank [OF assms] by simp

lemma evaluate_level_known:
  assumes "evaluate f = Ok a"
  shows "as_Level a \<in> {LevelLow, LevelMedium, LevelHigh}"
proof -
  from assms have "levelOf (f_DeclaredLabel f) \<noteq> LevelOther []"
    by (simp add: evaluate_Ok_iff factors_validate_Ok_iff)
  then have "0 < rank (as_Level a)"
    using evaluate_no_lower [OF assms] levelOf_valid by (metis less_le_trans)
  then show ?thesis by (simp add: risk_rank.rank_pos_iff)
qed

text \<open>A request is capped at high exactly when one of the six hard conditions holds, the
  declared label is high, or a write beyond the learned scope starts from medium.\<close>

definition hard_factor :: "factors \<Rightarrow> bool" where
  "hard_factor f \<longleftrightarrow> f_Destructive f \<or> f_PermissionChange f \<or> f_SecretAccess f \<or> f_Billing f
     \<or> f_Write f \<and> (\<not> f_Reversible f \<or> f_ResourceCount f \<noteq> 1)"

definition soft_factor :: "factors \<Rightarrow> bool" where
  "soft_factor f \<longleftrightarrow> f_Write f \<and> (f_Production f \<or> f_BeyondHistory f \<or> f_FirstSeen f
     \<or> f_AgentTrust f = TrustUnverified \<or> f_DeviceTrust f = DeviceUntrusted
     \<or> f_ExternalCommunication f)"

definition spec_level :: "factors \<Rightarrow> level" where
  "spec_level f =
     (if hard_factor f \<or> f_DeclaredLabel f = RiskLabelHigh
         \<or> f_DeclaredLabel f = RiskLabelMedium \<and> f_Write f \<and> f_BeyondHistory f
      then LevelHigh
      else if soft_factor f \<or> f_DeclaredLabel f = RiskLabelMedium then LevelMedium
      else LevelLow)"

lemma rank_atLeastMedium [simp]: "rank (atLeastMedium l) = max 2 (rank l)"
  by (cases l) (auto simp: atLeastMedium_def)

lemma evaluate_rank_ge:
  assumes "evaluate f = Ok a"
  shows "n \<le> rank (as_Level a) \<longleftrightarrow> n \<le> rank (levelOf (f_DeclaredLabel f))
     \<or> (\<exists>r \<in> set rules. rule_triggered r f
           \<and> n \<le> rank (rule_raise r (levelOf (f_DeclaredLabel f))))"
  unfolding evaluate_rank [OF assms] by (auto simp: Max_ge_iff triggered_rules_def)

lemma rules_demand_iff:
  "(\<exists>r \<in> set rules. rule_triggered r f \<and> n \<le> rank (rule_raise r b)) \<longleftrightarrow>
     hard_factor f \<and> n \<le> 3
     \<or> f_Write f \<and> f_BeyondHistory f \<and> n \<le> rank (oneLevelUp b)
     \<or> f_Write f \<and> (f_Production f \<or> f_FirstSeen f \<or> f_AgentTrust f = TrustUnverified
            \<or> f_DeviceTrust f = DeviceUntrusted \<or> f_ExternalCommunication f)
        \<and> n \<le> max 2 (rank b)"
proof (cases "f_Write f")
  case True
  then show ?thesis unfolding rules_def hard_factor_def
    by (simp add: mk_rule_def toHigh_def del: le_max_iff_disj) argo
next
  case False
  then show ?thesis unfolding rules_def hard_factor_def
    by (simp add: mk_rule_def toHigh_def del: le_max_iff_disj) argo
qed

lemma evaluate_spec_level:
  assumes "evaluate f = Ok a"
  shows "as_Level a = spec_level f"
proof -
  let ?b = "levelOf (f_DeclaredLabel f)"
  note ge = evaluate_rank_ge [OF assms, unfolded rules_demand_iff]
  have known: "as_Level a \<in> {LevelLow, LevelMedium, LevelHigh}"
    by (rule evaluate_level_known [OF assms])
  have "?b \<noteq> LevelOther []"
    using assms by (simp add: evaluate_Ok_iff factors_validate_Ok_iff)
  then have "3 \<le> rank (as_Level a) \<longleftrightarrow> spec_level f = LevelHigh"
    and "2 \<le> rank (as_Level a) \<longleftrightarrow> spec_level f \<noteq> LevelLow"
    unfolding ge [of 3] ge [of 2]
    by (cases "f_DeclaredLabel f"; auto simp: spec_level_def soft_factor_def oneLevelUp_def)+
  moreover have "spec_level f \<in> {LevelLow, LevelMedium, LevelHigh}" by (auto simp: spec_level_def)
  ultimately show ?thesis using known by auto
qed

section \<open>The level of a request\<close>

text \<open>C38: The risk level is exact and never below the declared label.  Whenever \<open>Evaluate\<close>
  accepts its input, the level is the one of a direct specification: high for the six hard
  conditions, a high label, or a medium label on a write beyond history; otherwise medium for
  the six soft conditions on writes or a medium label; otherwise low.  It is explained by at
  least one factor, and the same level results from every order of the rule table.\<close>

theorem risk_level_exact:
  assumes "evaluate f = Ok a"
  shows "as_Level a = spec_level f
    \<and> rank (levelOf (f_DeclaredLabel f)) \<le> rank (as_Level a)
    \<and> as_Factors a \<noteq> []
    \<and> (\<forall>rs out. set rs = set rules \<longrightarrow>
         rank (fst (fold (apply_rule f (levelOf (f_DeclaredLabel f))) rs
                     (levelOf (f_DeclaredLabel f), out))) = rank (as_Level a))"
proof -
  have "as_Factors a \<noteq> []" using assms by (simp add: evaluate_Ok_iff)
  moreover have "rank (fst (fold (apply_rule f (levelOf (f_DeclaredLabel f))) rs
                     (levelOf (f_DeclaredLabel f), out))) = rank (as_Level a)"
    if "set rs = set rules" for rs out
    using that unfolding evaluate_rank [OF assms]
    by (simp add: fold_apply_rule rank_fold_raise triggered_rules_def)
  ultimately show ?thesis
    using evaluate_spec_level [OF assms] evaluate_no_lower [OF assms] by blast
qed

definition example_factors :: factors where
  "example_factors = \<lparr>f_Write = True, f_Production = True, f_Reversible = True,
     f_ResourceCount = 1, f_Destructive = False, f_PermissionChange = False,
     f_SecretAccess = False, f_Billing = False, f_ExternalCommunication = False,
     f_FirstSeen = False, f_BeyondHistory = False, f_AgentTrust = TrustKnown,
     f_DeviceTrust = DeviceTrusted, f_DeclaredLabel = RiskLabelLow\<rparr>"

theorem risk_level_exact_witness:
  "evaluate example_factors = Ok \<lparr>as_Level = LevelMedium,
     as_Factors = [FactorDeclaredLabel, FactorProductionWrite]\<rparr>
   \<and> spec_level example_factors = LevelMedium"
proof -
  have e: "evaluate example_factors = Ok \<lparr>as_Level = LevelMedium,
     as_Factors = [FactorDeclaredLabel, FactorProductionWrite]\<rparr>" by code_simp
  with risk_level_exact [OF e] show ?thesis by simp
qed

end
