(* ===== verification/Json_Text.thy ===== *)
theory Json_Text
  imports Go_Base
begin

text \<open>
  JSON documents as \<open>encoding/json\<close> sees them.  A text column or request field is modelled by
  the outcome of parsing it: empty text, blank text, malformed text, or a document.  An object
  keeps its members in textual order, duplicates included.  Instants are written by
  \<open>time.Time.MarshalJSON\<close> as RFC 3339 strings with nanoseconds; \<open>JTime\<close> stands for such a
  string literal and occurs only where the reader expects an instant.  Strings are valid UTF-8.
\<close>

datatype json =
    JNull
  | JBool bool
  | JNum int
  | JStr string
  | JTime instant
  | JArr "json list"
  | JObj "(string \<times> json) list"

datatype jtext = NoText | Blank | Malformed | Parsed json

text \<open>\<open>json_valid\<close> of SQLite, as used in the CHECK constraints.\<close>

definition json_valid :: "jtext \<Rightarrow> bool" where
  "json_valid t = (case t of Parsed _ \<Rightarrow> True | _ \<Rightarrow> False)"

text \<open>Decoding into a Go map keeps the last of several members with the same name.\<close>

definition obj_get :: "(string \<times> json) list \<Rightarrow> string \<Rightarrow> json option" where
  "obj_get kvs k = map_of (rev kvs) k"

text \<open>
  Decoding into a struct assigns the members to the fields in textual order.  A member belongs
  to the field whose name it equals up to case; an absent member leaves the zero value, a value
  of the wrong kind is an \<open>UnmarshalTypeError\<close> (\<open>None\<close>).
\<close>

definition member_values :: "(string \<times> json) list \<Rightarrow> string \<Rightarrow> json list" where
  "member_values kvs name = map snd (filter (\<lambda>(k, v). equal_fold k name) kvs)"

fun assign_all :: "('a \<Rightarrow> json \<Rightarrow> 'a option) \<Rightarrow> 'a \<Rightarrow> json list \<Rightarrow> 'a option" where
  "assign_all step x [] = Some x"
| "assign_all step x (j # js) =
     (case step x j of None \<Rightarrow> None | Some y \<Rightarrow> assign_all step y js)"

definition json_member ::
    "('a \<Rightarrow> json \<Rightarrow> 'a option) \<Rightarrow> 'a \<Rightarrow> (string \<times> json) list \<Rightarrow> string \<Rightarrow> 'a option" where
  "json_member step zero kvs name = assign_all step zero (member_values kvs name)"

text \<open>The assignments of the field types in use; \<open>null\<close> leaves a value field alone and clears
  a pointer, slice or map field; an object merges into a map already there.\<close>

definition assign_str :: "string \<Rightarrow> json \<Rightarrow> string option" where
  "assign_str old j = (case j of JNull \<Rightarrow> Some old | JStr s \<Rightarrow> Some s | _ \<Rightarrow> None)"

definition assign_int :: "int \<Rightarrow> json \<Rightarrow> int option" where
  "assign_int old j = (case j of JNull \<Rightarrow> Some old
     | JNum n \<Rightarrow> if - (2 ^ 63) \<le> n \<and> n < 2 ^ 63 then Some n else None | _ \<Rightarrow> None)"

definition assign_time :: "instant \<Rightarrow> json \<Rightarrow> instant option" where
  "assign_time old j = (case j of JNull \<Rightarrow> Some old | JTime t \<Rightarrow> Some t | _ \<Rightarrow> None)"

definition assign_bool_ptr :: "bool option \<Rightarrow> json \<Rightarrow> bool option option" where
  "assign_bool_ptr old j = (case j of JNull \<Rightarrow> Some None | JBool b \<Rightarrow> Some (Some b) | _ \<Rightarrow> None)"

fun str_elems :: "json list \<Rightarrow> string list option" where
  "str_elems [] = Some []"
| "str_elems (JStr s # js) = map_option ((#) s) (str_elems js)"
| "str_elems (JNull # js) = map_option ((#) []) (str_elems js)"
| "str_elems (_ # js) = None"

definition assign_strs :: "string list \<Rightarrow> json \<Rightarrow> string list option" where
  "assign_strs old j = (case j of JNull \<Rightarrow> Some [] | JArr js \<Rightarrow> str_elems js | _ \<Rightarrow> None)"

fun str_values :: "(string \<times> json) list \<Rightarrow> (string \<times> string) list option" where
  "str_values [] = Some []"
| "str_values ((k, JStr s) # kvs) = map_option ((#) (k, s)) (str_values kvs)"
| "str_values ((k, JNull) # kvs) = map_option ((#) (k, [])) (str_values kvs)"
| "str_values (_ # kvs) = None"

definition assign_strmap :: "string go_map \<Rightarrow> json \<Rightarrow> string go_map option" where
  "assign_strmap old j = (case j of JNull \<Rightarrow> Some []
     | JObj m \<Rightarrow> map_option (\<lambda>kvs. fold (\<lambda>(k, v) m. gm_put k v m) kvs old) (str_values m)
     | _ \<Rightarrow> None)"

text \<open>\<open>json.Marshal\<close> writes the members of a map in key order.\<close>

definition encode_strmap :: "string go_map \<Rightarrow> json" where
  "encode_strmap m = JObj (map (\<lambda>(k, v). (k, JStr v)) m)"

lemma str_values_encode [simp]: "str_values (map (\<lambda>(k, v). (k, JStr v)) m) = Some m"
  by (induction m) auto

lemma str_elems_encode [simp]: "str_elems (map JStr xs) = Some xs"
  by (induction xs) auto

lemma assign_strmap_encode: "gm_ok m \<Longrightarrow> assign_strmap [] (encode_strmap m) = Some m"
  using gm_of_list_id [of m] by (simp add: assign_strmap_def encode_strmap_def gm_of_list_def)

text \<open>Member names written in lower case are told apart by plain equality.\<close>

named_theorems json_names

definition lower_lit :: "string \<Rightarrow> bool" where
  "lower_lit s = list_all (\<lambda>c. \<not> is_upper_char c) s"

lemma to_lower_lit: "lower_lit s \<Longrightarrow> to_lower s = s"
  by (induction s) (auto simp: to_lower_def lower_char_def lower_lit_def)

lemma equal_fold_lit [json_names]:
  "lower_lit s \<Longrightarrow> lower_lit t \<Longrightarrow> equal_fold s t \<longleftrightarrow> s = t"
  by (simp add: equal_fold_def to_lower_lit)

lemmas json_decode_defs = json_member_def member_values_def assign_str_def assign_int_def
  assign_time_def assign_strs_def

end
