(* ===== verification/Adapter_Capability.thy ===== *)
theory Adapter_Capability
  imports Risk Json_Text
begin

text \<open>
  Model of \<open>internal/adapter/registry/capability.go\<close> and the data of \<open>declaration.go\<close>: the
  compile-time contract an adapter declares for one operation and the nine-item validation
  that runs when it is registered.
\<close>

datatype rollback = RollbackNone | RollbackManual | RollbackAutomatic | RollbackOther string

datatype idempotency = Idempotent | NonIdempotent | IdempotencyOther string

record nature =
  n_Destructive :: bool
  n_PermissionChange :: bool
  n_SecretAccess :: bool
  n_Billing :: bool
  n_ExternalCommunication :: bool

record minimum_scope =
  ms_ResourceKeys :: "string list"
  ms_RequiresAccount :: bool

text \<open>\<open>RedactionRules\<close> distinguishes nil (\<open>None\<close>, not declared) from an empty list.\<close>

record adapter_capability =
  ac_Operation :: string
  ac_InputSchema :: jtext
  ac_MinimumScope :: minimum_scope
  ac_RiskLabel :: risk_label
  ac_Method :: string
  ac_Path :: string
  ac_RedactionRules :: "string list option"
  ac_ResponseFields :: "string list"
  ac_Rollback :: rollback
  ac_Idempotency :: idempotency
  ac_Nature :: nature

datatype adapter_status = AdapterEnabled | AdapterDisabled | AdapterStatusOther string

datatype adapter_kind = KindGitHub | KindCloudflare | KindModel | KindGenericHTTP | KindOther string

datatype auth_scheme = AuthNone | AuthBearer | AuthHeader | AuthOther string

record adapter_declaration =
  decl_ID :: string
  decl_Service :: string
  decl_Kind :: adapter_kind
  decl_DisplayName :: string
  decl_BaseURL :: string
  decl_AuthScheme :: auth_scheme
  decl_Capabilities :: jtext
  decl_AllowedPaths :: jtext
  decl_AllowedMethods :: jtext
  decl_RedactionRules :: jtext
  decl_DefaultRiskLevel :: risk_label
  decl_Status :: adapter_status
  decl_CreatedAt :: instant
  decl_UpdatedAt :: instant

definition is_space :: "char \<Rightarrow> bool" where
  "is_space c \<longleftrightarrow> of_char c \<in> {9, 10, 11, 12, 13, 32 :: nat}"

definition is_blank :: "string \<Rightarrow> bool" where
  "is_blank s = list_all is_space s"

definition capability_Write :: "adapter_capability \<Rightarrow> bool" where
  "capability_Write c = (to_upper (ac_Method c) \<notin> {''GET'', ''HEAD''})"

fun validRiskLabel :: "risk_label \<Rightarrow> bool" where
  "validRiskLabel RiskLabelLow = True"
| "validRiskLabel RiskLabelMedium = True"
| "validRiskLabel RiskLabelHigh = True"
| "validRiskLabel (RiskLabelOther s) = False"

fun validRollback :: "rollback \<Rightarrow> bool" where
  "validRollback (RollbackOther s) = False"
| "validRollback _ = True"

fun validIdempotency :: "idempotency \<Rightarrow> bool" where
  "validIdempotency (IdempotencyOther s) = False"
| "validIdempotency _ = True"

definition validMethod :: "string \<Rightarrow> bool" where
  "validMethod m = (m \<in> set [''GET'', ''HEAD'', ''POST'', ''PUT'', ''PATCH'', ''DELETE''])"

definition validatePresence :: "adapter_capability \<Rightarrow> unit result" where
  "validatePresence c =
     (if is_blank (ac_Operation c) then Err CodeInvalidConfiguration
      else if ac_InputSchema c = NoText \<or> ac_InputSchema c = Blank then Err CodeInvalidConfiguration
      else if \<not> json_valid (ac_InputSchema c) then Err CodeInvalidConfiguration
      else if ms_ResourceKeys (ac_MinimumScope c) = [] then Err CodeInvalidConfiguration
      else if \<not> validRiskLabel (ac_RiskLabel c) then Err CodeInvalidConfiguration
      else if \<not> validMethod (ac_Method c) then Err CodeInvalidConfiguration
      else if \<not> has_prefix (ac_Path c) ''/'' then Err CodeInvalidConfiguration
      else if ac_RedactionRules c = None then Err CodeInvalidConfiguration
      else if ac_ResponseFields c = [] then Err CodeInvalidConfiguration
      else if \<not> validRollback (ac_Rollback c) then Err CodeInvalidConfiguration
      else if \<not> validIdempotency (ac_Idempotency c) then Err CodeInvalidConfiguration
      else Ok ())"

definition is_placeholder :: "string \<Rightarrow> bool" where
  "is_placeholder segment \<longleftrightarrow> has_prefix segment ''{'' \<and> has_suffix segment ''}''"

definition placeholder_key :: "string \<Rightarrow> string" where
  "placeholder_key segment = trim_suffix (trim_prefix segment ''{'') ''}''"

fun check_placeholders :: "string list \<Rightarrow> string list \<Rightarrow> unit result" where
  "check_placeholders declared [] = Ok ()"
| "check_placeholders declared (segment # rest) =
     (if \<not> is_placeholder segment then check_placeholders declared rest
      else if placeholder_key segment \<notin> set declared then Err CodeInvalidConfiguration
      else check_placeholders declared rest)"

definition validatePlaceholders :: "adapter_capability \<Rightarrow> unit result" where
  "validatePlaceholders c =
     check_placeholders (ms_ResourceKeys (ac_MinimumScope c))
       (split_on (CHR ''/'') (trim_prefix (ac_Path c) ''/''))"

definition validateConsistency :: "adapter_capability \<Rightarrow> unit result" where
  "validateConsistency c =
     (let n = ac_Nature c; l = ac_RiskLabel c; w = capability_Write c in
      if n_Destructive n \<and> l \<noteq> RiskLabelHigh then Err CodeInvalidConfiguration
      else if n_PermissionChange n \<and> l \<noteq> RiskLabelHigh then Err CodeInvalidConfiguration
      else if n_SecretAccess n \<and> l \<noteq> RiskLabelHigh then Err CodeInvalidConfiguration
      else if n_Billing n \<and> l \<noteq> RiskLabelHigh then Err CodeInvalidConfiguration
      else if w \<and> ac_Rollback c = RollbackNone \<and> l \<noteq> RiskLabelHigh
        then Err CodeInvalidConfiguration
      else if w \<and> n_ExternalCommunication n \<and> l = RiskLabelLow then Err CodeInvalidConfiguration
      else if \<not> w \<and> ac_Idempotency c \<noteq> Idempotent then Err CodeInvalidConfiguration
      else if \<not> w \<and> n_Destructive n then Err CodeInvalidConfiguration
      else validatePlaceholders c)"

definition capability_Validate :: "adapter_capability \<Rightarrow> unit result" where
  "capability_Validate c = rbind (validatePresence c) (\<lambda>_. validateConsistency c)"

section \<open>What a validated capability guarantees\<close>

lemma check_placeholders_Ok_iff:
  "check_placeholders declared segments = Ok () \<longleftrightarrow>
     (\<forall>s \<in> set segments. is_placeholder s \<longrightarrow> placeholder_key s \<in> set declared)"
  by (induction declared segments rule: check_placeholders.induct) auto

lemma capability_Validate_Ok_iff:
  "capability_Validate c = Ok () \<longleftrightarrow> validatePresence c = Ok () \<and> validateConsistency c = Ok ()"
  by (auto simp: capability_Validate_def rbind_def split: sum.splits)

lemma valid_capability_label:
  assumes "capability_Validate c = Ok ()"
  shows "validRiskLabel (ac_RiskLabel c)"
  using assms by (auto simp: capability_Validate_Ok_iff validatePresence_def split: if_splits)

lemma valid_capability_consistent:
  assumes "capability_Validate c = Ok ()"
  shows "n_Destructive (ac_Nature c) \<or> n_PermissionChange (ac_Nature c)
      \<or> n_SecretAccess (ac_Nature c) \<or> n_Billing (ac_Nature c)
      \<or> capability_Write c \<and> ac_Rollback c = RollbackNone
     \<Longrightarrow> ac_RiskLabel c = RiskLabelHigh"
    and "capability_Write c \<Longrightarrow> n_ExternalCommunication (ac_Nature c)
     \<Longrightarrow> ac_RiskLabel c \<noteq> RiskLabelLow"
    and "\<not> capability_Write c \<Longrightarrow> \<not> n_Destructive (ac_Nature c)
      \<and> ac_Idempotency c = Idempotent"
  using assms
  by (auto simp: capability_Validate_Ok_iff validateConsistency_def Let_def split: if_splits)

lemma valid_capability_placeholders:
  assumes "capability_Validate c = Ok ()"
    and "s \<in> set (split_on (CHR ''/'') (trim_prefix (ac_Path c) ''/''))" and "is_placeholder s"
  shows "placeholder_key s \<in> set (ms_ResourceKeys (ac_MinimumScope c))"
proof -
  have "validatePlaceholders c = Ok ()"
    using assms(1) by (auto simp: capability_Validate_Ok_iff validateConsistency_def Let_def
        split: if_splits)
  with assms(2,3) show ?thesis
    by (auto simp: validatePlaceholders_def check_placeholders_Ok_iff)
qed

text \<open>A registered capability cannot understate itself.  A declaration that passes
  \<open>Validate\<close> and is destructive, changes permissions, reads secrets, spends money or is a write
  that cannot be rolled back carries the high label; a write that communicates externally is
  at least medium; a read is idempotent and not destructive; and every placeholder of its path
  is one of its declared resource fields.\<close>

theorem validated_capability_is_honest:
  assumes "capability_Validate c = Ok ()"
  shows "(n_Destructive (ac_Nature c) \<or> n_PermissionChange (ac_Nature c)
        \<or> n_SecretAccess (ac_Nature c) \<or> n_Billing (ac_Nature c)
        \<or> capability_Write c \<and> ac_Rollback c = RollbackNone
      \<longrightarrow> ac_RiskLabel c = RiskLabelHigh)
    \<and> (capability_Write c \<and> n_ExternalCommunication (ac_Nature c)
      \<longrightarrow> ac_RiskLabel c \<in> {RiskLabelMedium, RiskLabelHigh})
    \<and> (\<not> capability_Write c \<longrightarrow> \<not> n_Destructive (ac_Nature c)
        \<and> ac_Idempotency c = Idempotent)
    \<and> (\<forall>s \<in> set (split_on (CHR ''/'') (trim_prefix (ac_Path c) ''/'')).
         is_placeholder s \<longrightarrow> placeholder_key s \<in> set (ms_ResourceKeys (ac_MinimumScope c)))"
proof -
  have "ac_RiskLabel c \<in> {RiskLabelMedium, RiskLabelHigh}" if "ac_RiskLabel c \<noteq> RiskLabelLow"
    using that valid_capability_label [OF assms] by (cases "ac_RiskLabel c") auto
  then show ?thesis
    using valid_capability_consistent [OF assms] valid_capability_placeholders [OF assms] by blast
qed

definition example_delete :: adapter_capability where
  "example_delete = \<lparr>ac_Operation = ''delete_record'', ac_InputSchema = Parsed (JObj []),
     ac_MinimumScope = \<lparr>ms_ResourceKeys = [''zone''], ms_RequiresAccount = False\<rparr>,
     ac_RiskLabel = RiskLabelHigh, ac_Method = ''DELETE'', ac_Path = ''/zones/{zone}'',
     ac_RedactionRules = Some [], ac_ResponseFields = [''id''], ac_Rollback = RollbackNone,
     ac_Idempotency = Idempotent,
     ac_Nature = \<lparr>n_Destructive = True, n_PermissionChange = False, n_SecretAccess = False,
       n_Billing = False, n_ExternalCommunication = False\<rparr>\<rparr>"

theorem validated_capability_is_honest_witness:
  "ac_RiskLabel example_delete = RiskLabelHigh
   \<and> capability_Validate (example_delete\<lparr>ac_RiskLabel := RiskLabelMedium\<rparr>)
       = Err CodeInvalidConfiguration"
proof -
  have ok: "capability_Validate example_delete = Ok ()" by code_simp
  have bad: "capability_Validate (example_delete\<lparr>ac_RiskLabel := RiskLabelMedium\<rparr>)
       = Err CodeInvalidConfiguration" by code_simp
  show ?thesis
    using validated_capability_is_honest [OF ok] bad by (simp add: example_delete_def)
qed

end
