(* ===== verification/Matcher.thy ===== *)
theory Matcher
  imports Go_Base
begin

text \<open>
  Model of \<open>internal/core/matcher\<close>: binding a request to one identity.  \<open>match_identity\<close> is
  \<open>Match\<close> with its five-level order; the lemmas show which level wins, that two candidates at
  a level stop the search, and that the answer is always one of the loaded identities.
\<close>

datatype environment = EnvironmentProduction | EnvironmentNonProduction | EnvironmentOther string

datatype identity_status = IdentityOK | IdentityNeedsReview | IdentityStatusOther string

record identity =
  identity_ID :: string
  identity_Service :: string
  identity_AccountLabel :: string
  identity_Environment :: environment
  identity_IsDefault :: bool
  identity_Status :: identity_status
  identity_CredentialReferenceID :: string
  identity_CreatedAt :: instant
  identity_UpdatedAt :: instant

text \<open>\<open>Identity{}\<close>, the zero value an ambiguous match carries.\<close>

definition zero_identity :: identity where
  "zero_identity = \<lparr>identity_ID = [], identity_Service = [], identity_AccountLabel = [],
     identity_Environment = EnvironmentOther [], identity_IsDefault = False,
     identity_Status = IdentityStatusOther [], identity_CredentialReferenceID = [],
     identity_CreatedAt = 0, identity_UpdatedAt = 0\<rparr>"

datatype binding_kind = BindingWorkspace | BindingResource | BindingOther string

record binding =
  binding_ID :: string
  binding_Kind :: binding_kind
  binding_Service :: string
  binding_WorkspaceID :: string
  binding_ResourceKey :: string
  binding_IdentityID :: string

datatype match_level = MatchWorkspaceBinding | MatchResourceBinding | MatchTrustMemory
  | MatchSoleIdentity | MatchManualSelection | MatchNone

record match_request =
  mr_Service :: string
  mr_WorkspaceID :: string
  mr_ResourceKey :: string

record match_inputs =
  mi_WorkspaceBindings :: "binding list"
  mi_ResourceBindings :: "binding list"
  mi_MemoryIdentityIDs :: "string list"
  mi_Identities :: "identity list"
  mi_ManualSelection :: string

record match_result =
  match_Identity :: identity
  match_Level :: match_level
  match_Ambiguous :: bool
  match_Candidates :: "identity list"
  match_NeedsReview :: bool

definition hit :: "identity \<Rightarrow> match_level \<Rightarrow> match_result" where
  "hit i l = \<lparr>match_Identity = i, match_Level = l, match_Ambiguous = False,
     match_Candidates = [], match_NeedsReview = (identity_Status i = IdentityNeedsReview)\<rparr>"

definition ambiguous :: "identity list \<Rightarrow> match_result" where
  "ambiguous cs = \<lparr>match_Identity = zero_identity, match_Level = MatchNone,
     match_Ambiguous = True, match_Candidates = cs, match_NeedsReview = False\<rparr>"

definition manualOrAmbiguous :: "identity list \<Rightarrow> string \<Rightarrow> match_result" where
  "manualOrAmbiguous cs sel =
     (if sel \<noteq> [] then
        (case find (\<lambda>c. identity_ID c = sel) cs of
           Some c \<Rightarrow> hit c MatchManualSelection
         | None \<Rightarrow> ambiguous cs)
      else ambiguous cs)"

fun availableIdentities :: "string \<Rightarrow> identity list \<Rightarrow> identity list result" where
  "availableIdentities svc [] = Ok []"
| "availableIdentities svc (i # is) =
     (if identity_Service i \<noteq> svc then Err CodeInternal
      else if identity_ID i = [] then Err CodeInternal
      else rbind (availableIdentities svc is) (\<lambda>rest. Ok (i # rest)))"

definition workspaceCandidates :: "match_request \<Rightarrow> binding list \<Rightarrow> string list" where
  "workspaceCandidates req bs =
     (if mr_WorkspaceID req = [] then []
      else map binding_IdentityID
        (filter (\<lambda>b. binding_Kind b = BindingWorkspace \<and> binding_Service b = mr_Service req
                     \<and> binding_WorkspaceID b = mr_WorkspaceID req) bs))"

definition resourceCandidates :: "match_request \<Rightarrow> binding list \<Rightarrow> string list" where
  "resourceCandidates req bs =
     (if mr_ResourceKey req = [] then []
      else map binding_IdentityID
        (filter (\<lambda>b. binding_Kind b = BindingResource \<and> binding_Service b = mr_Service req
                     \<and> binding_ResourceKey b = mr_ResourceKey req) bs))"

definition identityIDs :: "identity list \<Rightarrow> string list" where
  "identityIDs = map identity_ID"

text \<open>The map \<open>byID\<close> of \<open>selectIdentities\<close>: the last identity with a key wins.\<close>

definition by_id :: "identity list \<Rightarrow> string \<Rightarrow> identity option" where
  "by_id available k = map_of (rev (map (\<lambda>i. (identity_ID i, i)) available)) k"

text \<open>The loop over the candidate keys with its \<open>seen\<close> set.\<close>

fun select_loop :: "identity list \<Rightarrow> string list \<Rightarrow> string list \<Rightarrow> identity list" where
  "select_loop available seen [] = []"
| "select_loop available seen (k # ks) =
     (case by_id available k of
        None \<Rightarrow> select_loop available seen ks
      | Some i \<Rightarrow> if k \<in> set seen then select_loop available seen ks
                  else i # select_loop available (k # seen) ks)"

definition selectIdentities :: "string list \<Rightarrow> identity list \<Rightarrow> identity list" where
  "selectIdentities ks available =
     (if ks = [] then [] else sort_key identity_ID (select_loop available [] ks))"

fun match_levels :: "(match_level \<times> string list) list \<Rightarrow> identity list \<Rightarrow> string
    \<Rightarrow> match_result result" where
  "match_levels [] available sel = Err CodeInternal"
| "match_levels ((l, ks) # rest) available sel =
     (case selectIdentities ks available of
        [] \<Rightarrow> match_levels rest available sel
      | [i] \<Rightarrow> Ok (hit i l)
      | cs \<Rightarrow> Ok (manualOrAmbiguous cs sel))"

definition match_identity :: "match_request \<Rightarrow> match_inputs \<Rightarrow> match_result result" where
  "match_identity req inp =
     (if mr_Service req = [] then Err CodeInvalidRequest
      else rbind (availableIdentities (mr_Service req) (mi_Identities inp)) (\<lambda>available.
        if available = [] then Err CodeCredentialNotAuthorized
        else match_levels
          [(MatchWorkspaceBinding, workspaceCandidates req (mi_WorkspaceBindings inp)),
           (MatchResourceBinding, resourceCandidates req (mi_ResourceBindings inp)),
           (MatchTrustMemory, mi_MemoryIdentityIDs inp),
           (MatchSoleIdentity, identityIDs available)]
          available (mi_ManualSelection inp)))"

section \<open>Selecting identities\<close>

lemma by_id_Some: "by_id available k = Some i \<Longrightarrow> i \<in> set available \<and> identity_ID i = k"
  unfolding by_id_def by (auto dest!: map_of_SomeD)

lemma by_id_None_iff: "by_id available k = None \<longleftrightarrow> k \<notin> identity_ID ` set available"
  unfolding by_id_def by (auto simp: map_of_eq_None_iff image_iff)

lemma set_select_loop:
  "identity_ID ` set (select_loop available seen ks)
     = (set ks \<inter> identity_ID ` set available) - set seen"
proof (induction available seen ks rule: select_loop.induct)
  case (1 available seen)
  then show ?case by simp
next
  case (2 available seen k ks)
  show ?case
  proof (cases "by_id available k")
    case None
    then have "k \<notin> identity_ID ` set available" by (simp add: by_id_None_iff)
    with 2 None show ?thesis by auto
  next
    case (Some i)
    then have "identity_ID i = k" and "k \<in> identity_ID ` set available"
      using by_id_Some by force+
    with 2 Some show ?thesis by auto
  qed
qed

lemma select_loop_sub: "set (select_loop available seen ks) \<subseteq> set available"
  by (induction available seen ks rule: select_loop.induct)
    (auto split: option.splits if_splits dest: by_id_Some)

lemma distinct_select_loop: "distinct (map identity_ID (select_loop available seen ks))"
proof (induction available seen ks rule: select_loop.induct)
  case (2 available seen k ks)
  have "identity_ID i = k" if "by_id available k = Some i" for i
    using that by_id_Some by blast
  moreover have "k \<notin> identity_ID ` set (select_loop available (k # seen) ks)"
    by (simp add: set_select_loop)
  ultimately show ?case using 2 by (auto split: option.splits)
qed simp

lemma set_selectIdentities:
  "identity_ID ` set (selectIdentities ks available) = set ks \<inter> identity_ID ` set available"
  by (simp add: selectIdentities_def set_select_loop)

lemma selectIdentities_sub: "set (selectIdentities ks available) \<subseteq> set available"
  using select_loop_sub by (auto simp: selectIdentities_def)

lemma distinct_selectIdentities: "distinct (map identity_ID (selectIdentities ks available))"
  using distinct_select_loop [of available "[]" ks]
  by (simp add: selectIdentities_def distinct_map)

lemma selectIdentities_Nil_iff:
  "selectIdentities ks available = [] \<longleftrightarrow> set ks \<inter> identity_ID ` set available = {}"
  by (metis image_is_empty set_empty set_selectIdentities)

lemma selectIdentities_length:
  "length (selectIdentities ks available) = card (set ks \<inter> identity_ID ` set available)"
  using distinct_card [OF distinct_selectIdentities [of ks available]] set_selectIdentities
  by (metis length_map list.set_map)

lemma availableIdentities_Ok_iff:
  "availableIdentities svc is = Ok av \<longleftrightarrow>
     av = is \<and> (\<forall>i \<in> set is. identity_Service i = svc \<and> identity_ID i \<noteq> [])"
  by (induction svc "is" arbitrary: av rule: availableIdentities.induct)
    (auto simp: rbind_def split: sum.splits)

lemma availableIdentities_cases:
  "(\<exists>av. availableIdentities svc is = Ok av) \<or> availableIdentities svc is = Err CodeInternal"
  by (induction svc "is" rule: availableIdentities.induct)
    (auto simp: rbind_def split: sum.splits)

section \<open>The five levels\<close>

text \<open>The keys a level offers, narrowed to identities that exist.\<close>

definition offered_keys :: "string list \<Rightarrow> identity list \<Rightarrow> string set" where
  "offered_keys ks available = set ks \<inter> identity_ID ` set available"

lemma match_levels_skip:
  "offered_keys ks available = {} \<Longrightarrow>
     match_levels ((l, ks) # rest) available sel = match_levels rest available sel"
  using selectIdentities_Nil_iff [of ks available] by (simp add: offered_keys_def)

lemma match_levels_unique:
  assumes "offered_keys ks available = {k}"
  obtains i where "i \<in> set available" and "identity_ID i = k"
    and "match_levels ((l, ks) # rest) available sel = Ok (hit i l)"
proof -
  have "length (selectIdentities ks available) = 1"
    using assms by (simp add: selectIdentities_length offered_keys_def)
  then obtain i where i: "selectIdentities ks available = [i]"
    by (metis One_nat_def length_0_conv length_Suc_conv)
  moreover have "identity_ID i = k"
    using set_selectIdentities [of ks available] assms i by (simp add: offered_keys_def)
  ultimately show thesis
    using that selectIdentities_sub [of ks available] by simp
qed

lemma match_levels_many:
  assumes "2 \<le> card (offered_keys ks available)"
  shows "match_levels ((l, ks) # rest) available sel
       = Ok (manualOrAmbiguous (selectIdentities ks available) sel)"
proof -
  have "2 \<le> length (selectIdentities ks available)"
    using assms by (simp add: selectIdentities_length offered_keys_def)
  then obtain a b cs where "selectIdentities ks available = a # b # cs"
    by (metis Suc_le_length_iff numeral_2_eq_2)
  then show ?thesis by simp
qed

lemma manualOrAmbiguous_cases:
  "(manualOrAmbiguous cs sel = ambiguous cs \<and> (sel = [] \<or> sel \<notin> identity_ID ` set cs))
   \<or> (\<exists>c \<in> set cs. identity_ID c = sel \<and> sel \<noteq> []
        \<and> manualOrAmbiguous cs sel = hit c MatchManualSelection)"
proof (cases "sel \<noteq> [] \<and> sel \<in> identity_ID ` set cs")
  case True
  then obtain c where c: "find (\<lambda>c. identity_ID c = sel) cs = Some c"
    by (metis (mono_tags, lifting) find_None_iff image_iff option.exhaust)
  then have "c \<in> set cs" and "identity_ID c = sel"
    by (auto simp: find_Some_iff)
  with c True have "\<exists>c \<in> set cs. identity_ID c = sel \<and> sel \<noteq> []
      \<and> manualOrAmbiguous cs sel = hit c MatchManualSelection"
    by (intro bexI [of _ c]) (auto simp: manualOrAmbiguous_def)
  then show ?thesis ..
next
  case False
  then show ?thesis
    by (auto simp: manualOrAmbiguous_def image_iff find_Some_iff split: option.splits)
qed

section \<open>The match\<close>

text \<open>The four levels that are searched, in order.\<close>

definition searched_levels :: "match_request \<Rightarrow> match_inputs \<Rightarrow> (match_level \<times> string list) list"
where
  "searched_levels req inp =
     [(MatchWorkspaceBinding, workspaceCandidates req (mi_WorkspaceBindings inp)),
      (MatchResourceBinding, resourceCandidates req (mi_ResourceBindings inp)),
      (MatchTrustMemory, mi_MemoryIdentityIDs inp),
      (MatchSoleIdentity, identityIDs (mi_Identities inp))]"

text \<open>How the level that decides is read: one key wins, several keys need a manual choice
  among exactly those candidates.\<close>

definition decided_by :: "match_level \<Rightarrow> string set \<Rightarrow> match_inputs \<Rightarrow> match_result \<Rightarrow> bool" where
  "decided_by l ks inp m \<longleftrightarrow>
     (\<exists>i \<in> set (mi_Identities inp). ks = {identity_ID i} \<and> m = hit i l)
     \<or> 2 \<le> card ks
       \<and> ((\<exists>i \<in> set (mi_Identities inp). identity_ID i \<in> ks
             \<and> identity_ID i = mi_ManualSelection inp \<and> m = hit i MatchManualSelection)
          \<or> (\<exists>cs. identity_ID ` set cs = ks \<and> m = ambiguous cs
               \<and> distinct (map identity_ID cs) \<and> set cs \<subseteq> set (mi_Identities inp)
               \<and> mi_ManualSelection inp \<notin> ks - {[]}))"

lemma offered_keys_finite [simp]: "finite (offered_keys ks av)"
  by (simp add: offered_keys_def)

lemma match_levels_decided:
  assumes "match_levels levels (mi_Identities inp) (mi_ManualSelection inp) = Ok m"
  shows "\<exists>pre l ks post. levels = pre @ (l, ks) # post
     \<and> (\<forall>p \<in> set pre. offered_keys (snd p) (mi_Identities inp) = {})
     \<and> decided_by l (offered_keys ks (mi_Identities inp)) inp m"
  using assms
proof (induction levels)
  case (Cons level rest)
  obtain l ks where lv: "level = (l, ks)" by (cases level)
  let ?K = "offered_keys ks (mi_Identities inp)"
  have here: ?case if "decided_by l ?K inp m"
    using that lv by (intro exI [of _ "[]"] exI [of _ l] exI [of _ ks] exI [of _ rest]) simp
  consider "?K = {}" | k where "?K = {k}" | "2 \<le> card ?K"
  proof (cases "card ?K")
    case 0
    then show thesis using that(1) by simp
  next
    case (Suc n)
    then show thesis using that(2,3) by (cases n) (auto simp: card_1_singleton_iff)
  qed
  then show ?case
  proof cases
    case 1
    with Cons.prems lv have "match_levels rest (mi_Identities inp) (mi_ManualSelection inp) = Ok m"
      by (simp only: match_levels_skip)
    from Cons.IH [OF this] obtain pre l' ks' post where
      "rest = pre @ (l', ks') # post"
      "\<forall>p \<in> set pre. offered_keys (snd p) (mi_Identities inp) = {}"
      "decided_by l' (offered_keys ks' (mi_Identities inp)) inp m" by blast
    with 1 lv show ?thesis
      by (intro exI [of _ "level # pre"] exI [of _ l'] exI [of _ ks'] exI [of _ post]) simp
  next
    case 2
    then obtain i where "i \<in> set (mi_Identities inp)" "identity_ID i = k"
      "match_levels (level # rest) (mi_Identities inp) (mi_ManualSelection inp) = Ok (hit i l)"
      unfolding lv by (rule match_levels_unique)
    with 2 Cons.prems show ?thesis by (intro here) (auto simp: decided_by_def)
  next
    case 3
    let ?cs = "selectIdentities ks (mi_Identities inp)"
    from match_levels_many [OF 3] Cons.prems lv
    have m: "m = manualOrAmbiguous ?cs (mi_ManualSelection inp)" by (simp del: match_levels.simps)
    have ids: "identity_ID ` set ?cs = ?K" and sub: "set ?cs \<subseteq> set (mi_Identities inp)"
      and dist: "distinct (map identity_ID ?cs)"
      by (simp_all only: set_selectIdentities offered_keys_def selectIdentities_sub
          distinct_selectIdentities)
    from manualOrAmbiguous_cases [of ?cs "mi_ManualSelection inp"] ids sub dist 3
    show ?thesis unfolding m [symmetric]
      by (intro here) (auto simp: decided_by_def)
  qed
qed simp

lemma match_levels_last:
  assumes "offered_keys ks av \<noteq> {}"
  shows "\<exists>m. match_levels (pre @ [(l, ks)]) av sel = Ok m"
proof (induction pre)
  case Nil
  from assms have "selectIdentities ks av \<noteq> []"
    by (simp add: offered_keys_def selectIdentities_Nil_iff)
  then show ?case by (auto split: list.splits)
next
  case (Cons p pre)
  then show ?case by (cases p) (auto split: list.splits)
qed

text \<open>The first level with a candidate decides the identity.  With identities of the
  requested service loaded, \<open>Match\<close> answers from the first of the four levels (workspace binding,
  resource binding, trust memory, sole identity) that offers an existing identity: a single
  candidate is matched at that level; several candidates are never narrowed by a later level
  but only by the user's manual selection among them, and are reported as ambiguous otherwise.
  Without a loaded identity the request is refused.\<close>

theorem match_first_level_decides:
  assumes "mr_Service req \<noteq> []"
    and "\<forall>i \<in> set (mi_Identities inp). identity_Service i = mr_Service req \<and> identity_ID i \<noteq> []"
  shows "if mi_Identities inp = [] then match_identity req inp = Err CodeCredentialNotAuthorized
    else \<exists>m pre l ks post. match_identity req inp = Ok m
       \<and> searched_levels req inp = pre @ (l, ks) # post
       \<and> (\<forall>p \<in> set pre. offered_keys (snd p) (mi_Identities inp) = {})
       \<and> decided_by l (offered_keys ks (mi_Identities inp)) inp m"
proof -
  let ?L = "searched_levels req inp"
  have av: "availableIdentities (mr_Service req) (mi_Identities inp) = Ok (mi_Identities inp)"
    using assms(2) by (simp add: availableIdentities_Ok_iff)
  have eq: "match_identity req inp = (if mi_Identities inp = [] then Err CodeCredentialNotAuthorized
      else match_levels ?L (mi_Identities inp) (mi_ManualSelection inp))"
    unfolding match_identity_def using assms(1) av by (simp add: searched_levels_def)
  show ?thesis
  proof (cases "mi_Identities inp = []")
    case False
    then have "offered_keys (identityIDs (mi_Identities inp)) (mi_Identities inp) \<noteq> {}"
      by (cases "mi_Identities inp") (auto simp: offered_keys_def identityIDs_def)
    from match_levels_last [OF this, of "take 3 ?L"] obtain m where
      "match_levels ?L (mi_Identities inp) (mi_ManualSelection inp) = Ok m"
      by (auto simp: searched_levels_def)
    with match_levels_decided [OF this] False eq show ?thesis by auto
  qed (simp add: eq)
qed

definition example_ids :: "identity list" where
  "example_ids = [zero_identity\<lparr>identity_ID := ''i1'', identity_Service := ''dns''\<rparr>,
                  zero_identity\<lparr>identity_ID := ''i2'', identity_Service := ''dns''\<rparr>]"

definition example_match_inputs :: match_inputs where
  "example_match_inputs = \<lparr>mi_WorkspaceBindings = [],
     mi_ResourceBindings = [\<lparr>binding_ID = ''b'', binding_Kind = BindingResource,
       binding_Service = ''dns'', binding_WorkspaceID = [], binding_ResourceKey = ''zone=a'',
       binding_IdentityID = ''i2''\<rparr>],
     mi_MemoryIdentityIDs = [''i1''], mi_Identities = example_ids, mi_ManualSelection = []\<rparr>"

definition example_match_request :: match_request where
  "example_match_request = \<lparr>mr_Service = ''dns'', mr_WorkspaceID = ''w'',
     mr_ResourceKey = ''zone=a''\<rparr>"

theorem match_first_level_decides_witness:
  "(\<exists>m pre l ks post. match_identity example_match_request example_match_inputs = Ok m
       \<and> searched_levels example_match_request example_match_inputs = pre @ (l, ks) # post
       \<and> decided_by l (offered_keys ks example_ids) example_match_inputs m)
   \<and> (case match_identity example_match_request example_match_inputs of
        Inr m \<Rightarrow> identity_ID (match_Identity m) = ''i2'' \<and> match_Level m = MatchResourceBinding
      | Inl _ \<Rightarrow> False)"
proof
  have "mr_Service example_match_request \<noteq> []"
    "\<forall>i \<in> set (mi_Identities example_match_inputs).
       identity_Service i = mr_Service example_match_request \<and> identity_ID i \<noteq> []"
    "mi_Identities example_match_inputs = example_ids" "example_ids \<noteq> []"
    by (simp_all add: example_match_request_def example_match_inputs_def example_ids_def)
  with match_first_level_decides [of example_match_request example_match_inputs]
  show "\<exists>m pre l ks post. match_identity example_match_request example_match_inputs = Ok m
       \<and> searched_levels example_match_request example_match_inputs = pre @ (l, ks) # post
       \<and> decided_by l (offered_keys ks example_ids) example_match_inputs m"
    by simp blast
  show "case match_identity example_match_request example_match_inputs of
        Inr m \<Rightarrow> identity_ID (match_Identity m) = ''i2'' \<and> match_Level m = MatchResourceBinding
      | Inl _ \<Rightarrow> False"
    by code_simp
qed

end
