(* ===== verification/Path_Match.thy ===== *)
theory Path_Match
  imports Go_Base
begin

text \<open>
  The pattern language of Go's \<open>path.Match\<close>, which the intent resolver applies to resource
  values (\<open>internal/core/intent/resolver.go\<close>).  A pattern is parsed into chunks separated by
  stars; matching takes the leftmost fit of each chunk, as the library does.  One byte stands
  for one character.
\<close>

datatype gtok = GLit char | GAny | GClass bool "(char \<times> char) list"

text \<open>\<open>getEsc\<close>: a possibly escaped character of a class; the class must continue after it.\<close>

fun get_esc :: "string \<Rightarrow> (char \<times> string) option" where
  "get_esc [] = None"
| "get_esc (c # cs) =
     (if c = CHR ''-'' \<or> c = CHR '']'' then None
      else if c = CHR 0x5C then
        (case cs of [] \<Rightarrow> None | d # ds \<Rightarrow> if ds = [] then None else Some (d, ds))
      else if cs = [] then None else Some (c, cs))"

lemma get_esc_shorter: "get_esc s = Some (c, t) \<Longrightarrow> length t < length s \<and> t \<noteq> []"
  by (cases s) (auto split: if_splits list.splits)

text \<open>The ranges of a class up to the closing bracket; at least one range is required.\<close>

function parse_ranges :: "bool \<Rightarrow> string \<Rightarrow> ((char \<times> char) list \<times> string) option" where
  "parse_ranges seen s =
     (if seen \<and> s \<noteq> [] \<and> hd s = CHR '']'' then Some ([], tl s)
      else (case get_esc s of
          None \<Rightarrow> None
        | Some (lo, s1) \<Rightarrow>
            if hd s1 = CHR ''-'' then
              (case get_esc (tl s1) of
                 None \<Rightarrow> None
               | Some (hi, s2) \<Rightarrow> map_option (map_prod ((#) (lo, hi)) id) (parse_ranges True s2))
            else map_option (map_prod ((#) (lo, lo)) id) (parse_ranges True s1)))"
  by pat_completeness auto
termination
proof (relation "measure (\<lambda>(b, s). length s)", goal_cases)
  case (2 seen s x lo s1 y hi s2)
  then have "length s1 < length s" and "length s2 < length (tl s1)"
    using get_esc_shorter by blast+
  then show ?case by simp
next
  case (3 seen s x lo s1)
  then show ?case using get_esc_shorter by force
qed simp

declare parse_ranges.simps [simp del]

lemma parse_ranges_shorter: "parse_ranges seen s = Some (rs, t) \<Longrightarrow> length t < length s"
proof (induction seen s arbitrary: rs t rule: parse_ranges.induct)
  case (1 seen s)
  show ?case
  proof (cases "seen \<and> s \<noteq> [] \<and> hd s = CHR '']''")
    case True
    then have "parse_ranges seen s = Some ([], tl s)"
      by (subst parse_ranges.simps) simp
    with "1.prems" True show ?thesis by (cases s) auto
  next
    case False
    with "1.prems" obtain lo s1 where lo: "get_esc s = Some (lo, s1)"
      by (auto simp: parse_ranges.simps [of seen s] split: option.splits)
    note l1 = get_esc_shorter [OF lo]
    show ?thesis
    proof (cases "hd s1 = CHR ''-''")
      case True
      with "1.prems" lo \<open>\<not> (seen \<and> s \<noteq> [] \<and> hd s = CHR '']'')\<close> obtain hi s2 rs' where
          hi: "get_esc (tl s1) = Some (hi, s2)" and r: "parse_ranges True s2 = Some (rs', t)"
        by (auto simp: parse_ranges.simps [of seen s] split: option.splits)
      have "length t < length s2"
        using "1.IH"(1) [OF False lo refl True hi refl r] .
      with get_esc_shorter [OF hi] l1 show ?thesis by auto
    next
      case nodash: False
      with "1.prems" lo False obtain rs' where r: "parse_ranges True s1 = Some (rs', t)"
        by (auto simp: parse_ranges.simps [of seen s] split: option.splits)
      have "length t < length s1"
        using "1.IH"(2) [OF False lo refl nodash r] .
      with l1 show ?thesis by simp
    qed
  qed
qed

text \<open>A whole pattern as chunks; \<open>None\<close> is \<open>ErrBadPattern\<close>.\<close>

datatype gelem = GStar | GTok gtok

function parse_glob :: "string \<Rightarrow> gelem list option" where
  "parse_glob [] = Some []"
| "parse_glob (c # cs) =
     (if c = CHR ''*'' then map_option ((#) GStar) (parse_glob cs)
      else if c = CHR ''?'' then map_option ((#) (GTok GAny)) (parse_glob cs)
      else if c = CHR 0x5C then
        (case cs of [] \<Rightarrow> None | d # ds \<Rightarrow> map_option ((#) (GTok (GLit d))) (parse_glob ds))
      else if c = CHR ''['' then
        (let neg = (cs \<noteq> [] \<and> hd cs = CHR ''^'');
             body = (if neg then tl cs else cs)
         in (case parse_ranges False body of
               None \<Rightarrow> None
             | Some (rs, rest) \<Rightarrow> map_option ((#) (GTok (GClass neg rs))) (parse_glob rest)))
      else map_option ((#) (GTok (GLit c))) (parse_glob cs))"
  by pat_completeness auto
termination
proof (relation "measure length", goal_cases)
  case (5 c cs neg body x rs rest)
  then have "length rest < length body" using parse_ranges_shorter by blast
  with 5 show ?case by (auto split: if_splits)
qed auto

fun chunks_of :: "gelem list \<Rightarrow> (bool \<times> gtok list) list" where
  "chunks_of [] = []"
| "chunks_of (GStar # es) =
     (case chunks_of es of
        [] \<Rightarrow> [(True, [])]
      | (s, ts) # rest \<Rightarrow> (True, ts) # rest)"
| "chunks_of (GTok t # es) =
     (case chunks_of es of
        [] \<Rightarrow> [(False, [t])]
      | (s, ts) # rest \<Rightarrow> if s then (False, [t]) # (s, ts) # rest else (False, t # ts) # rest)"

definition in_ranges :: "char \<Rightarrow> (char \<times> char) list \<Rightarrow> bool" where
  "in_ranges c rs = list_ex (\<lambda>(lo, hi). lo \<le> c \<and> c \<le> hi) rs"

fun match_chunk :: "gtok list \<Rightarrow> string \<Rightarrow> string option" where
  "match_chunk [] s = Some s"
| "match_chunk (t # ts) [] = None"
| "match_chunk (GLit c # ts) (d # ds) = (if c = d then match_chunk ts ds else None)"
| "match_chunk (GAny # ts) (d # ds) = (if d = CHR ''/'' then None else match_chunk ts ds)"
| "match_chunk (GClass neg rs # ts) (d # ds) =
     (if in_ranges d rs = neg then None else match_chunk ts ds)"

text \<open>A chunk fits when it matches here and, being the last, leaves nothing over.\<close>

definition chunk_fit :: "gtok list \<Rightarrow> bool \<Rightarrow> string \<Rightarrow> string option" where
  "chunk_fit ts final s = (case match_chunk ts s of
      None \<Rightarrow> None | Some t \<Rightarrow> if final \<and> t \<noteq> [] then None else Some t)"

fun skip_fit :: "gtok list \<Rightarrow> bool \<Rightarrow> string \<Rightarrow> string option" where
  "skip_fit ts final [] = None"
| "skip_fit ts final (c # cs) =
     (if c = CHR ''/'' then None
      else (case chunk_fit ts final cs of Some t \<Rightarrow> Some t | None \<Rightarrow> skip_fit ts final cs))"

fun match_chunks :: "(bool \<times> gtok list) list \<Rightarrow> string \<Rightarrow> bool" where
  "match_chunks [] name = (name = [])"
| "match_chunks ((star, ts) # rest) name =
     (if star \<and> ts = [] then CHR ''/'' \<notin> set name
      else (case chunk_fit ts (rest = []) name of
          Some t \<Rightarrow> match_chunks rest t
        | None \<Rightarrow> if star then
              (case skip_fit ts (rest = []) name of
                 Some t \<Rightarrow> match_chunks rest t | None \<Rightarrow> False)
            else False))"

text \<open>\<open>path.Match\<close>: \<open>None\<close> is \<open>ErrBadPattern\<close>.\<close>

definition path_match :: "string \<Rightarrow> string \<Rightarrow> bool option" where
  "path_match pattern name =
     (case parse_glob pattern of
        None \<Rightarrow> None
      | Some es \<Rightarrow> Some (match_chunks (chunks_of es) name))"

text \<open>Whether a pattern is well formed does not depend on the name it is tried on.\<close>

lemma path_match_None_iff: "path_match p s = None \<longleftrightarrow> path_match p t = None"
  by (auto simp: path_match_def split: option.splits)

end
