(* ===== verification/Intent.thy ===== *)
theory Intent
  imports Adapter_Capability Matcher Path_Match
begin

text \<open>
  Model of \<open>internal/core/intent\<close>: encoding the adapters' capability declarations
  (\<open>declare.go\<close>), the catalog built from the stored declarations (\<open>capability.go\<close>), and the
  resolver that turns a call into an intent (\<open>intent.go\<close>, \<open>resolver.go\<close>).  The lemmas show that
  a catalog only holds complete capabilities with unique tool and operation names, that
  encoding and parsing declarations are inverse, that tool names do not clash, and that the
  resolver yields only declared operations on exactly the declared resource fields.
\<close>

section \<open>Capabilities and the catalog (capability.go)\<close>

text \<open>The three pointer fields distinguish ``not declared'' (nil, \<open>None\<close>) from false.\<close>

record capability =
  cap_Tool :: string
  cap_Operation :: string
  cap_Method :: string
  cap_Path :: string
  cap_Risk :: risk_label
  cap_Idempotent :: "bool option"
  cap_Reversible :: "bool option"
  cap_SensitiveData :: "bool option"
  cap_ResourceKeys :: "string list"

record entry =
  e_service :: string
  e_capability :: capability
  e_segments :: "string list"

record catalog =
  byTool :: "entry go_map"
  byOperation :: "entry go_map"
  byRoute :: "entry list"

text \<open>The risk label as its string, and back.\<close>

fun risk_label_text :: "risk_label \<Rightarrow> string" where
  "risk_label_text RiskLabelLow = ''low''"
| "risk_label_text RiskLabelMedium = ''medium''"
| "risk_label_text RiskLabelHigh = ''high''"
| "risk_label_text (RiskLabelOther s) = s"

definition risk_label_of :: "string \<Rightarrow> risk_label" where
  "risk_label_of s = (if s = ''low'' then RiskLabelLow else if s = ''medium'' then RiskLabelMedium
     else if s = ''high'' then RiskLabelHigh else RiskLabelOther s)"

definition capability_validate :: "capability \<Rightarrow> unit result" where
  "capability_validate c =
     (if cap_Tool c = [] then Err CodeInvalidConfiguration
      else if cap_Operation c = [] then Err CodeInvalidConfiguration
      else if cap_Method c = [] then Err CodeInvalidConfiguration
      else if cap_Path c = [] then Err CodeInvalidConfiguration
      else if \<not> validRiskLabel (cap_Risk c) then Err CodeInvalidConfiguration
      else if cap_Idempotent c = None then Err CodeInvalidConfiguration
      else if cap_Reversible c = None then Err CodeInvalidConfiguration
      else if cap_SensitiveData c = None then Err CodeInvalidConfiguration
      else if cap_ResourceKeys c = [] then Err CodeInvalidConfiguration
      else if list_ex (\<lambda>k. k = []) (cap_ResourceKeys c) then Err CodeInvalidConfiguration
      else Ok ())"

text \<open>\<open>json.Unmarshal\<close> into one \<open>Capability\<close>; \<open>null\<close> leaves the zero value.\<close>

definition decode_capability :: "json \<Rightarrow> capability option" where
  "decode_capability j =
     (let kvs = (case j of JObj m \<Rightarrow> Some m | JNull \<Rightarrow> Some [] | _ \<Rightarrow> None) in
      Option.bind kvs (\<lambda>m.
      Option.bind (json_member assign_str [] m ''tool'') (\<lambda>tool.
      Option.bind (json_member assign_str [] m ''operation'') (\<lambda>operation.
      Option.bind (json_member assign_str [] m ''method'') (\<lambda>method.
      Option.bind (json_member assign_str [] m ''path'') (\<lambda>path.
      Option.bind (json_member assign_str [] m ''risk'') (\<lambda>risk.
      Option.bind (json_member assign_bool_ptr None m ''idempotent'') (\<lambda>idempotent.
      Option.bind (json_member assign_bool_ptr None m ''reversible'') (\<lambda>reversible.
      Option.bind (json_member assign_bool_ptr None m ''sensitive_data'') (\<lambda>sensitive.
      Option.bind (json_member assign_strs [] m ''resource_keys'') (\<lambda>keys.
        Some \<lparr>cap_Tool = tool, cap_Operation = operation, cap_Method = method, cap_Path = path,
              cap_Risk = risk_label_of risk, cap_Idempotent = idempotent,
              cap_Reversible = reversible, cap_SensitiveData = sensitive,
              cap_ResourceKeys = keys\<rparr>)))))))))))"

fun decode_capabilities :: "json list \<Rightarrow> capability list option" where
  "decode_capabilities [] = Some []"
| "decode_capabilities (j # js) =
     (case decode_capability j of
        None \<Rightarrow> None
      | Some c \<Rightarrow> map_option ((#) c) (decode_capabilities js))"

fun validate_all :: "capability list \<Rightarrow> unit result" where
  "validate_all [] = Ok ()"
| "validate_all (c # cs) = rbind (capability_validate c) (\<lambda>_. validate_all cs)"

definition parseCapabilities :: "adapter_declaration \<Rightarrow> capability list result" where
  "parseCapabilities d =
     (case decl_Capabilities d of
        Parsed j \<Rightarrow>
          (case (case j of JArr js \<Rightarrow> decode_capabilities js | JNull \<Rightarrow> Some [] | _ \<Rightarrow> None) of
             None \<Rightarrow> Err CodeInvalidConfiguration
           | Some cs \<Rightarrow>
               if cs = [] then Err CodeInvalidConfiguration
               else rbind (validate_all cs) (\<lambda>_. Ok cs))
      | _ \<Rightarrow> Err CodeInvalidConfiguration)"

definition splitPath :: "string \<Rightarrow> string list" where
  "splitPath p = filter (\<lambda>s. s \<noteq> []) (split_on (CHR ''/'') p)"

fun matchSegments :: "string list \<Rightarrow> string list \<Rightarrow> bool" where
  "matchSegments [] [] = True"
| "matchSegments (t # ts) (a # as) =
     ((has_prefix t ''{'' \<and> has_suffix t ''}'' \<or> t = a) \<and> matchSegments ts as)"
| "matchSegments _ _ = False"

definition operationKeyOf :: "string \<Rightarrow> string \<Rightarrow> string" where
  "operationKeyOf svc operation = svc @ [CHR 0x00] @ operation"

text \<open>The body of the inner loop of \<open>NewCatalog\<close>.\<close>

definition add_capability :: "string \<Rightarrow> capability \<Rightarrow> catalog \<Rightarrow> catalog result" where
  "add_capability svc c cat =
     (let added = \<lparr>e_service = svc, e_capability = c, e_segments = splitPath (cap_Path c)\<rparr>;
          key = operationKeyOf svc (cap_Operation c)
      in if gm_get (byTool cat) (cap_Tool c) \<noteq> None then Err CodeInvalidConfiguration
         else if gm_get (byOperation cat) key \<noteq> None then Err CodeInvalidConfiguration
         else Ok (cat\<lparr>byTool := gm_put (cap_Tool c) added (byTool cat),
                       byOperation := gm_put key added (byOperation cat),
                       byRoute := byRoute cat @ [added]\<rparr>))"

fun add_capabilities :: "string \<Rightarrow> capability list \<Rightarrow> catalog \<Rightarrow> catalog result" where
  "add_capabilities svc [] cat = Ok cat"
| "add_capabilities svc (c # cs) cat =
     rbind (add_capability svc c cat) (add_capabilities svc cs)"

fun add_declarations :: "adapter_declaration list \<Rightarrow> catalog \<Rightarrow> catalog result" where
  "add_declarations [] cat = Ok cat"
| "add_declarations (d # ds) cat =
     (if decl_Status d \<noteq> AdapterEnabled then add_declarations ds cat
      else rbind (parseCapabilities d) (\<lambda>cs.
           rbind (add_capabilities (decl_Service d) cs cat) (add_declarations ds)))"

definition empty_catalog :: catalog where
  "empty_catalog = \<lparr>byTool = [], byOperation = [], byRoute = []\<rparr>"

definition NewCatalog :: "adapter_declaration list \<Rightarrow> catalog result" where
  "NewCatalog ds = add_declarations ds empty_catalog"

definition catalog_Size :: "catalog \<Rightarrow> nat" where
  "catalog_Size cat = length (byTool cat)"

definition ToolFor :: "catalog \<Rightarrow> string \<Rightarrow> string \<Rightarrow> string option" where
  "ToolFor cat svc operation =
     (case gm_get (byOperation cat) (operationKeyOf svc operation) of
        None \<Rightarrow> None
      | Some e \<Rightarrow> Some (cap_Tool (e_capability e)))"

definition lookupTool :: "catalog \<Rightarrow> string \<Rightarrow> entry option" where
  "lookupTool cat tool = gm_get (byTool cat) tool"

definition lookupRoute :: "catalog \<Rightarrow> string \<Rightarrow> string \<Rightarrow> entry option result" where
  "lookupRoute cat method path =
     (let matched = filter (\<lambda>e. cap_Method (e_capability e) = to_upper method
                               \<and> matchSegments (e_segments e) (splitPath path)) (byRoute cat)
      in (case matched of
            [] \<Rightarrow> Ok None
          | [e] \<Rightarrow> Ok (Some e)
          | _ \<Rightarrow> Err CodeCapabilityNotOffered))"

section \<open>Encoding declarations (declare.go)\<close>

definition verbs :: "string list" where
  "verbs = [''bulk_update'', ''create'', ''delete'', ''manage'', ''merge'', ''purge'', ''read'',
     ''update'']"

fun tool_name_loop :: "string list \<Rightarrow> string \<Rightarrow> string \<Rightarrow> string result" where
  "tool_name_loop [] svc operation = Err CodeInvalidConfiguration"
| "tool_name_loop (verb # vs) svc operation =
     (if operation = verb then Err CodeInvalidConfiguration
      else if \<not> has_prefix operation (verb @ ''_'') then tool_name_loop vs svc operation
      else if trim_prefix operation (verb @ ''_'') = [] then Err CodeInvalidConfiguration
      else Ok (svc @ ''.'' @ trim_prefix operation (verb @ ''_'') @ ''.'' @ verb))"

definition ToolName :: "string \<Rightarrow> string \<Rightarrow> string result" where
  "ToolName svc operation = tool_name_loop verbs svc operation"

definition encode_capability :: "string \<Rightarrow> adapter_capability \<Rightarrow> capability" where
  "encode_capability tool c =
     \<lparr>cap_Tool = tool, cap_Operation = ac_Operation c, cap_Method = ac_Method c,
      cap_Path = ac_Path c, cap_Risk = ac_RiskLabel c,
      cap_Idempotent = Some (ac_Idempotency c = Idempotent),
      cap_Reversible = Some (ac_Rollback c \<noteq> RollbackNone),
      cap_SensitiveData = Some (n_SecretAccess (ac_Nature c)),
      cap_ResourceKeys = ms_ResourceKeys (ac_MinimumScope c)\<rparr>"

fun encode_loop :: "string \<Rightarrow> adapter_capability list \<Rightarrow> capability list result" where
  "encode_loop svc [] = Ok []"
| "encode_loop svc (c # cs) =
     rbind (capability_Validate c) (\<lambda>_.
     rbind (ToolName svc (ac_Operation c)) (\<lambda>tool.
     rbind (encode_loop svc cs) (\<lambda>rest. Ok (encode_capability tool c # rest))))"

text \<open>\<open>json.Marshal\<close> of a \<open>Capability\<close>, in field order.\<close>

definition json_bool_ptr :: "bool option \<Rightarrow> json" where
  "json_bool_ptr p = (case p of None \<Rightarrow> JNull | Some b \<Rightarrow> JBool b)"

definition json_capability :: "capability \<Rightarrow> json" where
  "json_capability c = JObj [
     (''tool'', JStr (cap_Tool c)), (''operation'', JStr (cap_Operation c)),
     (''method'', JStr (cap_Method c)), (''path'', JStr (cap_Path c)),
     (''risk'', JStr (risk_label_text (cap_Risk c))),
     (''idempotent'', json_bool_ptr (cap_Idempotent c)),
     (''reversible'', json_bool_ptr (cap_Reversible c)),
     (''sensitive_data'', json_bool_ptr (cap_SensitiveData c)),
     (''resource_keys'', JArr (map JStr (cap_ResourceKeys c)))]"

definition EncodeCapabilities :: "string \<Rightarrow> adapter_capability list \<Rightarrow> jtext result" where
  "EncodeCapabilities svc declared =
     (if declared = [] then Err CodeInvalidConfiguration
      else rbind (encode_loop svc declared) (\<lambda>cs. Ok (Parsed (JArr (map json_capability cs)))))"

definition encodeSet :: "string list \<Rightarrow> jtext result" where
  "encodeSet seen = Ok (Parsed (JArr (map JStr (sort (remdups seen)))))"

definition encodeSorted ::
    "adapter_capability list \<Rightarrow> (adapter_capability \<Rightarrow> string) \<Rightarrow> jtext result" where
  "encodeSorted declared pick = encodeSet (map pick declared)"

definition EncodePaths :: "adapter_capability list \<Rightarrow> jtext result" where
  "EncodePaths declared = encodeSorted declared ac_Path"

definition EncodeMethods :: "adapter_capability list \<Rightarrow> jtext result" where
  "EncodeMethods declared = encodeSorted declared (\<lambda>c. to_upper (ac_Method c))"

definition EncodeRedactionRules :: "adapter_capability list \<Rightarrow> jtext result" where
  "EncodeRedactionRules declared =
     encodeSet (concat (map (\<lambda>c. case ac_RedactionRules c of None \<Rightarrow> [] | Some rs \<Rightarrow> rs) declared))"

fun default_risk_loop :: "risk_label \<Rightarrow> adapter_capability list \<Rightarrow> risk_label" where
  "default_risk_loop highest [] = highest"
| "default_risk_loop highest (c # cs) =
     (case ac_RiskLabel c of
        RiskLabelHigh \<Rightarrow> RiskLabelHigh
      | RiskLabelMedium \<Rightarrow> default_risk_loop RiskLabelMedium cs
      | _ \<Rightarrow> default_risk_loop highest cs)"

definition DefaultRiskOf :: "adapter_capability list \<Rightarrow> risk_label" where
  "DefaultRiskOf declared = default_risk_loop RiskLabelLow declared"

section \<open>Intents (intent.go)\<close>

record intent =
  intent_Service :: string
  intent_Operation :: string
  intent_Resource :: "string go_map"
  intent_ResourceKey :: string
  intent_IgnoredFields :: "string list"
  intent_Environment :: environment
  intent_EnvironmentAssumed :: bool
  intent_DesiredChange :: string
  intent_Reversible :: bool
  intent_SensitiveData :: bool
  intent_Idempotent :: bool
  intent_RiskLabel :: risk_label
  intent_ResourceAmbiguous :: bool

definition intent_validate :: "intent \<Rightarrow> unit result" where
  "intent_validate i =
     (if intent_Service i = [] then Err CodeCapabilityNotOffered
      else if intent_Operation i = [] then Err CodeCapabilityNotOffered
      else if intent_Resource i = [] \<or> intent_ResourceKey i = [] then Err CodeCapabilityNotOffered
      else if intent_Environment i \<noteq> EnvironmentProduction
           \<and> intent_Environment i \<noteq> EnvironmentNonProduction then Err CodeCapabilityNotOffered
      else if \<not> validRiskLabel (intent_RiskLabel i) then Err CodeCapabilityNotOffered
      else Ok ())"

text \<open>The map is sorted by key, as the code sorts before joining.\<close>

definition ResourceKeyOf :: "string go_map \<Rightarrow> string" where
  "ResourceKeyOf r = join_with '';'' (map (\<lambda>(k, v). k @ ''='' @ v) r)"

section \<open>The resolver (resolver.go)\<close>

record call =
  call_Tool :: string
  call_Method :: string
  call_Path :: string
  call_Resource :: jtext
  call_DesiredChange :: string
  call_IdentityEnvironment :: environment

record resolver =
  r_production :: "string list"
  r_nonProduction :: "string list"

fun validatePatterns :: "string list \<Rightarrow> unit result" where
  "validatePatterns [] = Ok ()"
| "validatePatterns (p # ps) =
     (if p = [] then Err CodeInvalidConfiguration
      else if path_match p [] = None then Err CodeInvalidConfiguration
      else validatePatterns ps)"

definition NewResolver :: "string list \<Rightarrow> string list \<Rightarrow> resolver result" where
  "NewResolver production nonProduction =
     rbind (validatePatterns production) (\<lambda>_.
     rbind (validatePatterns nonProduction) (\<lambda>_.
       Ok \<lparr>r_production = production, r_nonProduction = nonProduction\<rparr>))"

definition matchesAny :: "string list \<Rightarrow> string go_map \<Rightarrow> bool" where
  "matchesAny patterns r =
     list_ex (\<lambda>p. list_ex (\<lambda>(k, v). path_match p v = Some True) r) patterns"

definition resolveEnvironment ::
    "resolver \<Rightarrow> environment \<Rightarrow> string go_map \<Rightarrow> environment \<times> bool" where
  "resolveEnvironment r declared resource =
     (case declared of
        EnvironmentProduction \<Rightarrow> (declared, False)
      | EnvironmentNonProduction \<Rightarrow> (declared, False)
      | EnvironmentOther _ \<Rightarrow>
          if matchesAny (r_production r) resource then (EnvironmentProduction, False)
          else if matchesAny (r_nonProduction r) resource then (EnvironmentNonProduction, False)
          else (EnvironmentProduction, True))"

text \<open>The loop over the declared resource keys.\<close>

fun extract_keys :: "(string \<times> json) list \<Rightarrow> string list \<Rightarrow> string go_map \<Rightarrow> bool
    \<Rightarrow> (string go_map \<times> bool) result" where
  "extract_keys members [] resource amb = Ok (resource, amb)"
| "extract_keys members (k # ks) resource amb =
     (case obj_get members k of
        Some (JStr text) \<Rightarrow>
          if text = [] then Err CodeInvalidRequest
          else extract_keys members ks (gm_put k text resource)
                 (amb \<or> contains_any text ''*?'')
      | _ \<Rightarrow> Err CodeInvalidRequest)"

definition extractResource ::
    "jtext \<Rightarrow> string list \<Rightarrow> (string go_map \<times> string list \<times> bool) result" where
  "extractResource raw keys =
     (case (case raw of Parsed (JObj m) \<Rightarrow> Some m | Parsed JNull \<Rightarrow> Some [] | _ \<Rightarrow> None) of
        None \<Rightarrow> Err CodeInvalidRequest
      | Some members \<Rightarrow>
          rbind (extract_keys members keys [] False) (\<lambda>(resource, amb).
            Ok (resource,
                sort (remdups (filter (\<lambda>k. k \<notin> set keys) (map fst members))), amb)))"

definition resolver_lookup :: "catalog \<Rightarrow> call \<Rightarrow> entry result" where
  "resolver_lookup cat c =
     (if call_Tool c \<noteq> [] then
        (case lookupTool cat (call_Tool c) of
           None \<Rightarrow> Err CodeCapabilityNotOffered
         | Some e \<Rightarrow> Ok e)
      else if call_Method c = [] \<or> call_Path c = [] then Err CodeInvalidRequest
      else rbind (lookupRoute cat (call_Method c) (call_Path c)) (\<lambda>found.
        (case found of None \<Rightarrow> Err CodeCapabilityNotOffered | Some e \<Rightarrow> Ok e)))"

definition deref :: "'a option \<Rightarrow> 'a result" where
  "deref p = (case p of None \<Rightarrow> Inl Panic | Some x \<Rightarrow> Ok x)"

definition resolve :: "resolver \<Rightarrow> catalog option \<Rightarrow> call \<Rightarrow> intent result" where
  "resolve r catp c =
     (case catp of
        None \<Rightarrow> Err CodeCapabilityNotOffered
      | Some cat \<Rightarrow>
          rbind (resolver_lookup cat c) (\<lambda>found.
          rbind (extractResource (call_Resource c) (cap_ResourceKeys (e_capability found)))
            (\<lambda>(resource, ignored, amb).
          case resolveEnvironment r (call_IdentityEnvironment c) resource of (env, assumed) \<Rightarrow>
          rbind (deref (cap_Reversible (e_capability found))) (\<lambda>reversible.
          rbind (deref (cap_SensitiveData (e_capability found))) (\<lambda>sensitive.
          rbind (deref (cap_Idempotent (e_capability found))) (\<lambda>idempotent.
          let resolved =
            \<lparr>intent_Service = e_service found,
             intent_Operation = cap_Operation (e_capability found),
             intent_Resource = resource, intent_ResourceKey = ResourceKeyOf resource,
             intent_IgnoredFields = ignored, intent_Environment = env,
             intent_EnvironmentAssumed = assumed,
             intent_DesiredChange = call_DesiredChange c,
             intent_Reversible = reversible, intent_SensitiveData = sensitive,
             intent_Idempotent = idempotent,
             intent_RiskLabel = cap_Risk (e_capability found),
             intent_ResourceAmbiguous = amb\<rparr>
          in rbind (intent_validate resolved) (\<lambda>_. Ok resolved)))))))"

section \<open>The catalog invariant\<close>

lemma capability_validate_Ok_iff:
  "capability_validate c = Ok () \<longleftrightarrow>
     cap_Tool c \<noteq> [] \<and> cap_Operation c \<noteq> [] \<and> cap_Method c \<noteq> [] \<and> cap_Path c \<noteq> []
     \<and> validRiskLabel (cap_Risk c) \<and> cap_Idempotent c \<noteq> None \<and> cap_Reversible c \<noteq> None
     \<and> cap_SensitiveData c \<noteq> None \<and> cap_ResourceKeys c \<noteq> [] \<and> [] \<notin> set (cap_ResourceKeys c)"
  by (auto simp: capability_validate_def list_ex_iff)

lemma validate_all_Ok_iff:
  "validate_all cs = Ok () \<longleftrightarrow> (\<forall>c \<in> set cs. capability_validate c = Ok ())"
  by (induction cs) (auto simp: rbind_iffs)

definition mk_entry :: "string \<Rightarrow> capability \<Rightarrow> entry" where
  "mk_entry svc c = \<lparr>e_service = svc, e_capability = c, e_segments = splitPath (cap_Path c)\<rparr>"

text \<open>
  Every entry is complete and appears once, under its tool name, under the key of its service
  and operation, and in the list of routes.
\<close>

definition catalog_ok :: "catalog \<Rightarrow> bool" where
  "catalog_ok cat \<longleftrightarrow>
     gm_ok (byTool cat) \<and> gm_ok (byOperation cat)
     \<and> (\<forall>e \<in> set (byRoute cat). capability_validate (e_capability e) = Ok ()
            \<and> e_segments e = splitPath (cap_Path (e_capability e)))
     \<and> distinct (map (\<lambda>e. cap_Tool (e_capability e)) (byRoute cat))
     \<and> distinct (map (\<lambda>e. operationKeyOf (e_service e) (cap_Operation (e_capability e)))
                    (byRoute cat))
     \<and> map_of (byTool cat) = map_of (map (\<lambda>e. (cap_Tool (e_capability e), e)) (byRoute cat))
     \<and> map_of (byOperation cat)
         = map_of (map (\<lambda>e. (operationKeyOf (e_service e) (cap_Operation (e_capability e)), e))
                       (byRoute cat))"

lemma catalog_ok_empty [simp]: "catalog_ok empty_catalog"
  by (simp add: catalog_ok_def empty_catalog_def)

lemma add_capability_Ok:
  assumes ok: "catalog_ok cat" and valid: "capability_validate c = Ok ()"
    and add: "add_capability svc c cat = Ok cat'"
  shows "catalog_ok cat' \<and> byRoute cat' = byRoute cat @ [mk_entry svc c]"
proof -
  let ?t = "\<lambda>e. cap_Tool (e_capability e)"
  let ?o = "\<lambda>e. operationKeyOf (e_service e) (cap_Operation (e_capability e))"
  let ?T = "map (\<lambda>e. (?t e, e)) (byRoute cat)"
  let ?O = "map (\<lambda>e. (?o e, e)) (byRoute cat)"
  let ?e = "mk_entry svc c"
  from add have noT: "map_of (byTool cat) (?t ?e) = None"
    and noO: "map_of (byOperation cat) (?o ?e) = None"
    and cat': "cat' = cat\<lparr>byTool := gm_put (?t ?e) ?e (byTool cat),
       byOperation := gm_put (?o ?e) ?e (byOperation cat), byRoute := byRoute cat @ [?e]\<rparr>"
    by (auto simp: add_capability_def mk_entry_def Let_def split: if_splits)
  from ok have T: "map_of (byTool cat) = map_of ?T" and O: "map_of (byOperation cat) = map_of ?O"
    by (simp_all add: catalog_ok_def)
  have "map_of (gm_put (?t ?e) ?e (byTool cat)) = map_of (?T @ [(?t ?e, ?e)])"
    using noT unfolding gm_put_map T by (rule map_of_append_new [symmetric])
  moreover have "map_of (gm_put (?o ?e) ?e (byOperation cat)) = map_of (?O @ [(?o ?e, ?e)])"
    using noO unfolding gm_put_map O by (rule map_of_append_new [symmetric])
  moreover have "?t ?e \<notin> ?t ` set (byRoute cat)"
    using noT unfolding T by (auto simp: map_of_eq_None_iff image_image)
  moreover have "?o ?e \<notin> ?o ` set (byRoute cat)"
    using noO unfolding O by (auto simp: map_of_eq_None_iff image_image)
  moreover have "capability_validate (e_capability ?e) = Ok ()"
    and "e_segments ?e = splitPath (cap_Path (e_capability ?e))"
    using valid by (simp_all add: mk_entry_def)
  ultimately show ?thesis
    using ok unfolding catalog_ok_def cat' by auto
qed

lemma add_capabilities_Ok:
  assumes "catalog_ok cat" and "\<forall>c \<in> set cs. capability_validate c = Ok ()"
    and "add_capabilities svc cs cat = Ok cat'"
  shows "catalog_ok cat' \<and> byRoute cat' = byRoute cat @ map (mk_entry svc) cs"
  using assms
proof (induction svc cs cat arbitrary: cat' rule: add_capabilities.induct)
  case (2 svc c cs cat)
  then obtain cat1 where 1: "add_capability svc c cat = Ok cat1"
    and r: "add_capabilities svc cs cat1 = Ok cat'" by (auto simp: rbind_iffs)
  with "2.prems" have "catalog_ok cat1 \<and> byRoute cat1 = byRoute cat @ [mk_entry svc c]"
    by (intro add_capability_Ok) auto
  with "2.IH" [OF _ _ r] "2.prems" show ?case by simp
qed simp

lemma parseCapabilities_Ok:
  assumes "parseCapabilities d = Ok cs"
  shows "cs \<noteq> [] \<and> (\<forall>c \<in> set cs. capability_validate c = Ok ())"
  using assms
  by (auto simp: parseCapabilities_def rbind_iffs validate_all_Ok_iff
      split: jtext.splits option.splits if_splits)

text \<open>The entries that a list of declarations contributes, in order.\<close>

fun declared_entries :: "adapter_declaration list \<Rightarrow> entry list" where
  "declared_entries [] = []"
| "declared_entries (d # ds) =
     (if decl_Status d = AdapterEnabled then
        (case parseCapabilities d of
           Inr cs \<Rightarrow> map (mk_entry (decl_Service d)) cs | Inl _ \<Rightarrow> [])
      else []) @ declared_entries ds"

lemma add_declarations_Ok:
  assumes "catalog_ok cat" and "add_declarations ds cat = Ok cat'"
  shows "catalog_ok cat' \<and> byRoute cat' = byRoute cat @ declared_entries ds"
  using assms
proof (induction ds cat arbitrary: cat' rule: add_declarations.induct)
  case (2 d ds cat)
  show ?case
  proof (cases "decl_Status d = AdapterEnabled")
    case True
    with "2.prems" obtain cs cat1 where cs: "parseCapabilities d = Ok cs"
      and 1: "add_capabilities (decl_Service d) cs cat = Ok cat1"
      and r: "add_declarations ds cat1 = Ok cat'" by (auto simp: rbind_iffs)
    with "2.prems" parseCapabilities_Ok [OF cs]
    have c1: "catalog_ok cat1 \<and> byRoute cat1 = byRoute cat @ map (mk_entry (decl_Service d)) cs"
      by (intro add_capabilities_Ok) auto
    show ?thesis
      using "2.IH"(2) [OF _ _ r] c1 True cs by simp
  next
    case False
    with 2 show ?thesis by simp
  qed
qed simp

lemma NewCatalog_Ok:
  assumes "NewCatalog ds = Ok cat"
  shows "catalog_ok cat" and "byRoute cat = declared_entries ds"
  using add_declarations_Ok [OF catalog_ok_empty, of ds cat] assms
  by (simp_all add: NewCatalog_def) (simp add: empty_catalog_def)

lemma lookupTool_Some:
  assumes "catalog_ok cat" and "lookupTool cat t = Some e"
  shows "e \<in> set (byRoute cat)" and "cap_Tool (e_capability e) = t"
  using assms by (auto simp: catalog_ok_def lookupTool_def dest!: map_of_SomeD)

lemma lookupTool_iff:
  assumes "catalog_ok cat"
  shows "lookupTool cat t = Some e \<longleftrightarrow> e \<in> set (byRoute cat) \<and> cap_Tool (e_capability e) = t"
proof
  assume "e \<in> set (byRoute cat) \<and> cap_Tool (e_capability e) = t"
  with assms show "lookupTool cat t = Some e"
    unfolding lookupTool_def catalog_ok_def by (auto intro!: map_of_is_SomeI simp: comp_def)
qed (use lookupTool_Some [OF assms] in auto)

lemma lookupRoute_Some:
  assumes "lookupRoute cat m p = Ok (Some e)"
  shows "e \<in> set (byRoute cat)"
proof -
  let ?P = "\<lambda>e. cap_Method (e_capability e) = to_upper m
      \<and> matchSegments (e_segments e) (splitPath p)"
  from assms have "filter ?P (byRoute cat) = [e]"
    by (auto simp: lookupRoute_def Let_def split: list.splits)
  then have "e \<in> set (filter ?P (byRoute cat))" by simp
  then show ?thesis by simp
qed

lemma resolver_lookup_Ok:
  assumes "catalog_ok cat" and "resolver_lookup cat c = Ok e"
  shows "e \<in> set (byRoute cat)"
  using assms lookupTool_Some lookupRoute_Some
  by (auto simp: resolver_lookup_def rbind_iffs split: if_splits option.splits)

section \<open>Declarations are read back as they were written\<close>

lemma capability_member_names [json_names]:
  "lower_lit ''tool''" "lower_lit ''operation''" "lower_lit ''method''" "lower_lit ''path''"
  "lower_lit ''risk''" "lower_lit ''idempotent''" "lower_lit ''reversible''"
  "lower_lit ''sensitive_data''" "lower_lit ''resource_keys''"
  by code_simp+

lemma risk_label_roundtrip [simp]: "validRiskLabel l \<Longrightarrow> risk_label_of (risk_label_text l) = l"
  by (cases l) (auto simp: risk_label_of_def)

lemma assign_bool_ptr_json [simp]: "assign_bool_ptr p (json_bool_ptr q) = Some q"
  by (simp add: assign_bool_ptr_def json_bool_ptr_def split: option.splits)

lemma decode_json_capability:
  "validRiskLabel (cap_Risk c) \<Longrightarrow> decode_capability (json_capability c) = Some c"
  by (simp add: decode_capability_def json_capability_def json_decode_defs json_names)

lemma decode_json_capabilities:
  "\<forall>c \<in> set cs. validRiskLabel (cap_Risk c) \<Longrightarrow>
     decode_capabilities (map json_capability cs) = Some cs"
  by (induction cs) (auto simp: decode_json_capability)

lemma verb_facts:
  "v \<in> set verbs \<Longrightarrow> v \<noteq> [] \<and> CHR ''.'' \<notin> set v"
  by (auto simp: verbs_def)

lemma tool_name_loop_Ok:
  assumes "tool_name_loop vs svc operation = Ok t"
  shows "\<exists>v \<in> set vs. \<exists>r. r \<noteq> [] \<and> operation = v @ ''_'' @ r \<and> t = svc @ ''.'' @ r @ ''.'' @ v"
  using assms
proof (induction vs svc operation rule: tool_name_loop.induct)
  case (2 verb vs svc operation)
  show ?case
  proof (cases "has_prefix operation (verb @ ''_'')")
    case True
    then obtain r where r: "operation = (verb @ ''_'') @ r" by (auto simp: has_prefix_iff)
    then have "trim_prefix operation (verb @ ''_'') = r"
      using trim_prefix_append [of "verb @ ''_''" r] by simp
    with "2.prems" True have "r \<noteq> []" and "t = svc @ ''.'' @ r @ ''.'' @ verb"
      by (auto split: if_splits)
    with r show ?thesis by auto
  next
    case False
    with 2 show ?thesis by (auto split: if_splits)
  qed
qed simp

lemma ToolName_Ok:
  assumes "ToolName svc operation = Ok t"
  obtains v r where "v \<in> set verbs" "r \<noteq> []" "operation = v @ ''_'' @ r"
    "t = svc @ ''.'' @ r @ ''.'' @ v"
  using tool_name_loop_Ok [of verbs svc operation t] assms that unfolding ToolName_def by blast

lemma encode_capability_validate:
  assumes "capability_Validate c = Ok ()" and "ToolName svc (ac_Operation c) = Ok tool"
  shows "capability_validate (encode_capability tool c) = Ok ()
     \<longleftrightarrow> [] \<notin> set (ms_ResourceKeys (ac_MinimumScope c))"
proof -
  from assms(1) have "ms_ResourceKeys (ac_MinimumScope c) \<noteq> []" "validRiskLabel (ac_RiskLabel c)"
    "validMethod (ac_Method c)" "has_prefix (ac_Path c) ''/''"
    by (auto simp: capability_Validate_Ok_iff validatePresence_def split: if_splits)
  moreover from assms(2) have "tool \<noteq> [] \<and> ac_Operation c \<noteq> []"
    by (rule ToolName_Ok) (auto dest: verb_facts)
  ultimately show ?thesis
    by (auto simp: capability_validate_Ok_iff encode_capability_def validMethod_def has_prefix_def)
qed

lemma capability_validate_cases:
  "capability_validate c = Ok () \<or> capability_validate c = Err CodeInvalidConfiguration"
  by (auto simp: capability_validate_def)

lemma validate_all_cases:
  "validate_all cs = Ok () \<or> validate_all cs = Err CodeInvalidConfiguration"
proof (induction cs)
  case (Cons c cs)
  then show ?case using capability_validate_cases [of c] by auto
qed simp

lemma encode_loop_Ok:
  assumes "encode_loop svc declared = Ok cs"
  shows "list_all2 (\<lambda>c e. capability_Validate c = Ok () \<and> ToolName svc (ac_Operation c) = Ok (cap_Tool e)
      \<and> e = encode_capability (cap_Tool e) c) declared cs"
  using assms
  by (induction svc declared arbitrary: cs rule: encode_loop.induct)
    (auto simp: rbind_iffs encode_capability_def)

text \<open>The capability list a set of adapter declarations stands for.\<close>

definition encoded_as :: "string \<Rightarrow> adapter_capability list \<Rightarrow> capability list \<Rightarrow> bool" where
  "encoded_as svc declared cs \<longleftrightarrow>
     list_all2 (\<lambda>c e. ToolName svc (ac_Operation c) = Ok (cap_Tool e)
                    \<and> e = encode_capability (cap_Tool e) c) declared cs"

text \<open>Round trip of the stored declarations.  Whatever \<open>EncodeCapabilities\<close> writes for a
  service, \<open>parseCapabilities\<close> reads back as the same list of capabilities, except that a
  declaration with an empty resource field name, which the encoder lets through, is refused
  as invalid configuration when it is read.\<close>

theorem capability_declaration_roundtrip:
  assumes "EncodeCapabilities svc declared = Ok tx"
  shows "\<exists>cs. encoded_as svc declared cs
     \<and> parseCapabilities (d\<lparr>decl_Capabilities := tx\<rparr>)
        = (if \<exists>c \<in> set declared. [] \<in> set (ms_ResourceKeys (ac_MinimumScope c))
           then Err CodeInvalidConfiguration else Ok cs)"
proof -
  from assms obtain cs where ne: "declared \<noteq> []" and cs: "encode_loop svc declared = Ok cs"
    and tx: "tx = Parsed (JArr (map json_capability cs))"
    by (auto simp: EncodeCapabilities_def rbind_iffs split: if_splits)
  note l2 = encode_loop_Ok [OF cs]
  then have enc: "encoded_as svc declared cs"
    unfolding encoded_as_def by (auto elim!: list_all2_mono)
  have lab: "\<forall>c \<in> set cs. validRiskLabel (cap_Risk c)"
    using l2
  proof (induction rule: list_all2_induct)
    case (Cons c declared e cs)
    then have "cap_Risk e = ac_RiskLabel c"
      by (metis capability.select_convs(5) encode_capability_def)
    with Cons valid_capability_label show ?case by auto
  qed simp
  have val: "validate_all cs = Ok () \<longleftrightarrow>
      \<not> (\<exists>c \<in> set declared. [] \<in> set (ms_ResourceKeys (ac_MinimumScope c)))"
    using l2 unfolding validate_all_Ok_iff
  proof (induction rule: list_all2_induct)
    case (Cons c declared e cs)
    with encode_capability_validate [of c svc "cap_Tool e"] show ?case by auto
  qed simp
  have "cs \<noteq> []" using l2 ne by auto
  with val validate_all_cases [of cs] enc decode_json_capabilities [OF lab]
  show ?thesis by (intro exI [of _ cs]) (auto simp: parseCapabilities_def tx)
qed

text \<open>A declaration used for the concrete instances below: updating a DNS record.\<close>

definition example_declared :: adapter_capability where
  "example_declared = \<lparr>ac_Operation = ''update_record'', ac_InputSchema = Parsed (JObj []),
     ac_MinimumScope = \<lparr>ms_ResourceKeys = [''zone''], ms_RequiresAccount = False\<rparr>,
     ac_RiskLabel = RiskLabelMedium, ac_Method = ''PUT'', ac_Path = ''/zones/{zone}'',
     ac_RedactionRules = Some [], ac_ResponseFields = [''id''], ac_Rollback = RollbackManual,
     ac_Idempotency = Idempotent,
     ac_Nature = \<lparr>n_Destructive = False, n_PermissionChange = False, n_SecretAccess = False,
       n_Billing = False, n_ExternalCommunication = False\<rparr>\<rparr>"

definition example_encoded :: jtext where
  "example_encoded = Parsed (JArr [json_capability
     (encode_capability ''dns.record.update'' example_declared)])"

definition example_declaration :: adapter_declaration where
  "example_declaration = \<lparr>decl_ID = ''d1'', decl_Service = ''dns'', decl_Kind = KindCloudflare,
     decl_DisplayName = ''dns'', decl_BaseURL = ''https://dns.example'', decl_AuthScheme = AuthBearer,
     decl_Capabilities = example_encoded, decl_AllowedPaths = NoText,
     decl_AllowedMethods = NoText, decl_RedactionRules = NoText,
     decl_DefaultRiskLevel = RiskLabelMedium, decl_Status = AdapterEnabled,
     decl_CreatedAt = 0, decl_UpdatedAt = 0\<rparr>"

lemma example_encoded_eq: "EncodeCapabilities ''dns'' [example_declared] = Ok example_encoded"
  by code_simp

theorem capability_declaration_roundtrip_witness:
  "EncodeCapabilities ''dns'' [example_declared] = Ok example_encoded
   \<and> (\<exists>cs. encoded_as ''dns'' [example_declared] cs
        \<and> parseCapabilities example_declaration = Ok cs)"
proof -
  have "\<not> (\<exists>c \<in> set [example_declared]. [] \<in> set (ms_ResourceKeys (ac_MinimumScope c)))"
    by (simp add: example_declared_def)
  moreover have "example_declaration\<lparr>decl_Capabilities := example_encoded\<rparr> = example_declaration"
    by (simp add: example_declaration_def)
  ultimately show ?thesis
    using capability_declaration_roundtrip [OF example_encoded_eq, of example_declaration]
      example_encoded_eq by auto
qed

text \<open>Tool names identify operations.  Two operations that \<open>ToolName\<close> gives the same name
  are the same operation of the same service, as long as the service names contain no dot.\<close>

theorem ToolName_injective:
  assumes "ToolName svc operation = Ok t" and "ToolName svc' operation' = Ok t"
    and "CHR ''.'' \<notin> set svc" and "CHR ''.'' \<notin> set svc'"
  shows "svc = svc' \<and> operation = operation'"
proof -
  obtain v r where v: "v \<in> set verbs" and op: "operation = v @ ''_'' @ r"
    and t: "t = svc @ ''.'' @ r @ ''.'' @ v" using assms(1) by (rule ToolName_Ok)
  obtain v' r' where v': "v' \<in> set verbs" and op': "operation' = v' @ ''_'' @ r'"
    and t': "t = svc' @ ''.'' @ r' @ ''.'' @ v'" using assms(2) by (rule ToolName_Ok)
  from t t' assms(3,4) have "svc = svc' \<and> r @ ''.'' @ v = r' @ ''.'' @ v'"
    by (intro cons_split_unique [of "CHR ''.''"]) auto
  moreover from this have "r = r' \<and> v = v'"
    using verb_facts [OF v] verb_facts [OF v']
    by (intro snoc_split_unique [of "CHR ''.''"]) auto
  ultimately show ?thesis by (simp add: op op')
qed

theorem ToolName_injective_witness:
  "ToolName ''dns'' ''bulk_update_record'' = Ok ''dns.record.bulk_update''
   \<and> ToolName ''dns'' ''update_record'' \<noteq> Ok ''dns.record.bulk_update''"
proof -
  have name: "ToolName ''dns'' ''bulk_update_record'' = Ok ''dns.record.bulk_update''"
    by code_simp
  have nodot: "CHR ''.'' \<notin> set ''dns''" by simp
  show ?thesis
    using name ToolName_injective [OF _ name nodot nodot, of "''update_record''"] by auto
qed

section \<open>Resolving a call\<close>

lemma extract_keys_Ok:
  assumes "extract_keys members ks r amb = Ok (r', amb')"
  shows "(\<forall>k \<in> set ks. \<exists>v. obj_get members k = Some (JStr v) \<and> v \<noteq> [] \<and> map_of r' k = Some v)
     \<and> (\<forall>k. k \<notin> set ks \<longrightarrow> map_of r' k = map_of r k)
     \<and> fst ` set r' = set ks \<union> fst ` set r \<and> (gm_ok r \<longrightarrow> gm_ok r')
     \<and> (amb' \<longleftrightarrow> amb \<or> (\<exists>k \<in> set ks. \<exists>v. map_of r' k = Some v \<and> contains_any v ''*?''))"
  using assms
proof (induction members ks r amb arbitrary: r' amb' rule: extract_keys.induct)
  case (2 members k ks r amb)
  from "2.prems" obtain v where v: "obj_get members k = Some (JStr v)" "v \<noteq> []"
    and rec: "extract_keys members ks (gm_put k v r) (amb \<or> contains_any v ''*?'') = Ok (r', amb')"
    by (auto split: option.splits json.splits if_splits)
  note IH = "2.IH" [OF v(1) refl v(2) rec]
  have mk: "map_of r' k = Some v"
  proof (cases "k \<in> set ks")
    case True
    with IH obtain w where "obj_get members k = Some (JStr w)" "map_of r' k = Some w" by blast
    with v(1) show ?thesis by simp
  next
    case False
    with IH show ?thesis by simp
  qed
  with IH v show ?case by auto
qed auto

lemma extract_keys_cases:
  "(\<exists>p. extract_keys members ks r amb = Ok p)
   \<or> extract_keys members ks r amb = Err CodeInvalidRequest"
  by (induction members ks r amb rule: extract_keys.induct)
    (auto split: option.splits json.splits)

lemma extractResource_Ok:
  assumes "extractResource raw keys = Ok (r, ignored, amb)"
  obtains members where "raw = Parsed (JObj members) \<or> raw = Parsed JNull \<and> members = []"
    and "extract_keys members keys [] False = Ok (r, amb)"
    and "set ignored = fst ` set members - set keys"
  using assms that
  by (auto simp: extractResource_def rbind_iffs set_diff_eq
      split: option.splits jtext.splits json.splits)

lemma extractResource_cases:
  "(\<exists>p. extractResource raw keys = Ok p) \<or> extractResource raw keys = Err CodeInvalidRequest"
proof -
  have "(\<exists>p. rbind (extract_keys members keys [] False) (\<lambda>(r, amb). Ok (f r amb)) = Ok p)
     \<or> rbind (extract_keys members keys [] False) (\<lambda>(r, amb). Ok (f r amb))
        = Err CodeInvalidRequest"
    for members and f :: "string go_map \<Rightarrow> bool \<Rightarrow> string go_map \<times> string list \<times> bool"
    using extract_keys_cases [of members keys "[]" False] by (auto simp: prod_eq_iff)
  then show ?thesis by (auto simp: extractResource_def split: option.splits)
qed

lemma resolver_lookup_no_panic:
  "resolver_lookup cat c \<noteq> Inl Panic"
  by (auto simp: resolver_lookup_def lookupRoute_def rbind_iffs Let_def
      split: option.splits list.splits if_splits)

lemma intent_validate_cases:
  "intent_validate i = Ok () \<or> intent_validate i = Err CodeCapabilityNotOffered"
  by (auto simp: intent_validate_def)

lemma resolve_Ok:
  assumes "resolve r (Some cat) c = Ok i" and "catalog_ok cat"
  obtains e where "resolver_lookup cat c = Ok e" and "e \<in> set (byRoute cat)"
    and "intent_Service i = e_service e"
    and "intent_Operation i = cap_Operation (e_capability e)"
    and "extractResource (call_Resource c) (cap_ResourceKeys (e_capability e))
           = Ok (intent_Resource i, intent_IgnoredFields i, intent_ResourceAmbiguous i)"
    and "resolveEnvironment r (call_IdentityEnvironment c) (intent_Resource i)
           = (intent_Environment i, intent_EnvironmentAssumed i)"
    and "intent_ResourceKey i = ResourceKeyOf (intent_Resource i)"
    and "intent_DesiredChange i = call_DesiredChange c"
    and "cap_Reversible (e_capability e) = Some (intent_Reversible i)"
    and "cap_SensitiveData (e_capability e) = Some (intent_SensitiveData i)"
    and "cap_Idempotent (e_capability e) = Some (intent_Idempotent i)"
    and "intent_RiskLabel i = cap_Risk (e_capability e)"
    and "intent_validate i = Ok ()"
proof -
  from assms(1) obtain e resource ignored amb env assumed rv sd idm where
    l: "resolver_lookup cat c = Ok e"
    and x: "extractResource (call_Resource c) (cap_ResourceKeys (e_capability e))
        = Ok (resource, ignored, amb)"
    and env: "env = fst (resolveEnvironment r (call_IdentityEnvironment c) resource)"
      "assumed = snd (resolveEnvironment r (call_IdentityEnvironment c) resource)"
    and d: "cap_Reversible (e_capability e) = Some rv"
      "cap_SensitiveData (e_capability e) = Some sd" "cap_Idempotent (e_capability e) = Some idm"
    and i: "i = \<lparr>intent_Service = e_service e,
             intent_Operation = cap_Operation (e_capability e),
             intent_Resource = resource, intent_ResourceKey = ResourceKeyOf resource,
             intent_IgnoredFields = ignored, intent_Environment = env,
             intent_EnvironmentAssumed = assumed,
             intent_DesiredChange = call_DesiredChange c,
             intent_Reversible = rv, intent_SensitiveData = sd, intent_Idempotent = idm,
             intent_RiskLabel = cap_Risk (e_capability e), intent_ResourceAmbiguous = amb\<rparr>"
    and v: "intent_validate i = Ok ()"
    by (auto simp: resolve_def rbind_iffs deref_def Let_def split_beta split: option.split_asm)
  show thesis
    by (rule that [OF l resolver_lookup_Ok [OF assms(2) l]]) (use x env d v i in simp_all)
qed

lemma resolve_no_panic:
  assumes "catalog_ok cat"
  shows "resolve r (Some cat) c \<noteq> Inl Panic"
proof (cases "resolver_lookup cat c")
  case (Inl err)
  with resolver_lookup_no_panic [of cat c] show ?thesis by (simp add: resolve_def)
next
  case (Inr e)
  from resolver_lookup_Ok [OF assms Inr] assms
  have "capability_validate (e_capability e) = Ok ()" by (auto simp: catalog_ok_def)
  then obtain rv sd idm where d: "cap_Reversible (e_capability e) = Some rv"
      "cap_SensitiveData (e_capability e) = Some sd" "cap_Idempotent (e_capability e) = Some idm"
    by (auto simp: capability_validate_Ok_iff)
  have v: "rbind (intent_validate i) (\<lambda>_. Ok i) \<noteq> Inl Panic" for i
    using intent_validate_cases [of i] by auto
  show ?thesis
    using extractResource_cases [of "call_Resource c" "cap_ResourceKeys (e_capability e)"] Inr d v
    by (auto simp: resolve_def deref_def Let_def split_beta)
qed

lemma resolve_resource:
  assumes "extractResource raw keys = Ok (r, ignored, amb)"
  shows "fst ` set r = set keys" and "gm_ok r"
    and "\<forall>v \<in> snd ` set r. v \<noteq> []"
    and "amb \<longleftrightarrow> (\<exists>v \<in> snd ` set r. contains_any v ''*?'')"
    and "set ignored \<inter> set keys = {}"
proof -
  obtain members where x: "extract_keys members keys [] False = Ok (r, amb)"
    and ig: "set ignored = fst ` set members - set keys"
    using assms by (rule extractResource_Ok)
  note E = extract_keys_Ok [OF x]
  show keys: "fst ` set r = set keys" using E by (elim conjE) simp
  show ok: "gm_ok r" using E by (elim conjE) (erule mp, simp)
  from ig show "set ignored \<inter> set keys = {}" by blast
  have of: "map_of r (fst p) = Some (snd p)" if "p \<in> set r" for p
    using that gm_ok_distinct [OF ok] by (simp add: map_of_eq_Some_iff)
  have key: "fst p \<in> set keys" if "p \<in> set r" for p
    using that keys by auto
  have val: "obj_get members (fst p) = Some (JStr (snd p)) \<and> snd p \<noteq> []" if "p \<in> set r" for p
    using conjunct1 [OF E] key [OF that] of [OF that] by force
  show "\<forall>v \<in> snd ` set r. v \<noteq> []" using val by (metis imageE)
  show "amb \<longleftrightarrow> (\<exists>v \<in> snd ` set r. contains_any v ''*?'')"
  proof
    assume amb
    with E obtain k v where "map_of r k = Some v" "contains_any v ''*?''" by auto
    then show "\<exists>v \<in> snd ` set r. contains_any v ''*?''" by (force dest: map_of_SomeD)
  next
    assume "\<exists>v \<in> snd ` set r. contains_any v ''*?''"
    then obtain p where "p \<in> set r" "contains_any (snd p) ''*?''" by auto
    with E of key show amb by blast
  qed
qed

text \<open>What an intent keeps of the catalog entry it was resolved to.\<close>

definition intent_of_entry :: "call \<Rightarrow> intent \<Rightarrow> entry \<Rightarrow> bool" where
  "intent_of_entry c i e \<longleftrightarrow>
     (call_Tool c \<noteq> [] \<longrightarrow> call_Tool c = cap_Tool (e_capability e))
     \<and> intent_Service i = e_service e \<and> intent_Operation i = cap_Operation (e_capability e)
     \<and> intent_RiskLabel i = cap_Risk (e_capability e)
     \<and> Some (intent_Reversible i) = cap_Reversible (e_capability e)
     \<and> Some (intent_SensitiveData i) = cap_SensitiveData (e_capability e)
     \<and> fst ` set (intent_Resource i) = set (cap_ResourceKeys (e_capability e))
     \<and> [] \<notin> snd ` set (intent_Resource i)
     \<and> set (intent_IgnoredFields i) \<inter> fst ` set (intent_Resource i) = {}
     \<and> (intent_ResourceAmbiguous i
          \<longleftrightarrow> (\<exists>v \<in> snd ` set (intent_Resource i). contains_any v ''*?''))"

text \<open>C39: Only declared operations come out of the resolver.  On a catalog built from the stored
  declarations, \<open>resolve\<close> never dereferences a nil pointer, and every intent it returns is an
  entry of an enabled declaration: its service, operation, label and flags are the declared
  ones, its resource has exactly the declared fields with non-empty values, fields outside the
  declaration are only reported as ignored, and a wildcard value marks it ambiguous.\<close>

theorem resolve_declared_only:
  assumes "NewCatalog ds = Ok cat"
  shows "resolve r (Some cat) c \<noteq> Inl Panic
    \<and> (\<forall>i. resolve r (Some cat) c = Ok i \<longrightarrow>
          (\<exists>e \<in> set (declared_entries ds). intent_of_entry c i e))"
proof (intro conjI allI impI)
  note ok = NewCatalog_Ok [OF assms]
  show "resolve r (Some cat) c \<noteq> Inl Panic" by (rule resolve_no_panic [OF ok(1)])
  fix i assume i: "resolve r (Some cat) c = Ok i"
  from resolve_Ok [OF i ok(1)] obtain e where l: "resolver_lookup cat c = Ok e"
    and e: "e \<in> set (declared_entries ds)"
    and s: "intent_Service i = e_service e" "intent_Operation i = cap_Operation (e_capability e)"
      "cap_Reversible (e_capability e) = Some (intent_Reversible i)"
      "cap_SensitiveData (e_capability e) = Some (intent_SensitiveData i)"
      "intent_RiskLabel i = cap_Risk (e_capability e)"
    and x: "extractResource (call_Resource c) (cap_ResourceKeys (e_capability e))
           = Ok (intent_Resource i, intent_IgnoredFields i, intent_ResourceAmbiguous i)"
    unfolding ok(2) by metis
  from l lookupTool_Some(2) [OF ok(1)]
  have "call_Tool c \<noteq> [] \<longrightarrow> call_Tool c = cap_Tool (e_capability e)"
    by (auto simp: resolver_lookup_def split: option.splits)
  with s resolve_resource [OF x] have "intent_of_entry c i e"
    unfolding intent_of_entry_def by (simp add: image_iff) metis
  with e show "\<exists>e \<in> set (declared_entries ds). intent_of_entry c i e" ..
qed

text \<open>The example declaration as a catalog, a call on it and what it resolves to.\<close>

definition example_catalog :: catalog where
  "example_catalog = (case NewCatalog [example_declaration] of
     Inr cat \<Rightarrow> cat | Inl _ \<Rightarrow> empty_catalog)"

definition example_resolver :: resolver where
  "example_resolver = \<lparr>r_production = [''prod*''], r_nonProduction = [''*.test'']\<rparr>"

definition example_call :: call where
  "example_call = \<lparr>call_Tool = ''dns.record.update'', call_Method = [], call_Path = [],
     call_Resource = Parsed (JObj [(''zone'', JStr ''a.test''), (''ttl'', JStr ''60'')]),
     call_DesiredChange = ''set'', call_IdentityEnvironment = EnvironmentOther []\<rparr>"

definition example_intent :: intent where
  "example_intent = \<lparr>intent_Service = ''dns'', intent_Operation = ''update_record'',
     intent_Resource = [(''zone'', ''a.test'')], intent_ResourceKey = ''zone=a.test'',
     intent_IgnoredFields = [''ttl''], intent_Environment = EnvironmentNonProduction,
     intent_EnvironmentAssumed = False, intent_DesiredChange = ''set'',
     intent_Reversible = True, intent_SensitiveData = False, intent_Idempotent = True,
     intent_RiskLabel = RiskLabelMedium, intent_ResourceAmbiguous = False\<rparr>"

lemma example_catalog_eq: "NewCatalog [example_declaration] = Ok example_catalog"
  by code_simp

lemma example_resolve:
  "resolve example_resolver (Some example_catalog) example_call = Ok example_intent"
  by code_simp

theorem resolve_declared_only_witness:
  "resolve example_resolver (Some example_catalog) example_call = Ok example_intent
   \<and> (\<exists>e \<in> set (declared_entries [example_declaration]).
        intent_of_entry example_call example_intent e)"
  using resolve_declared_only [OF example_catalog_eq, of example_resolver example_call]
    example_resolve by blast

text \<open>The environment errs on the side of production.  An intent counts as
  non-production only if the matched identity is marked so, or the identity is unmarked and a
  non-production pattern matches a resource value while no production pattern does; and an
  environment that was merely assumed is production.\<close>

theorem environment_defaults_to_production:
  assumes "NewCatalog ds = Ok cat" and "resolve r (Some cat) c = Ok i"
  shows "(intent_Environment i = EnvironmentNonProduction \<longleftrightarrow>
       call_IdentityEnvironment c = EnvironmentNonProduction
       \<or> call_IdentityEnvironment c \<noteq> EnvironmentProduction
         \<and> \<not> matchesAny (r_production r) (intent_Resource i)
         \<and> matchesAny (r_nonProduction r) (intent_Resource i))
     \<and> intent_Environment i \<in> {EnvironmentProduction, EnvironmentNonProduction}
     \<and> (intent_EnvironmentAssumed i \<longrightarrow> intent_Environment i = EnvironmentProduction)"
proof -
  from resolve_Ok [OF assms(2) NewCatalog_Ok(1) [OF assms(1)]]
  have "resolveEnvironment r (call_IdentityEnvironment c) (intent_Resource i)
           = (intent_Environment i, intent_EnvironmentAssumed i)" by metis
  then show ?thesis
    by (auto simp: resolveEnvironment_def split: environment.splits if_splits)
qed

theorem environment_defaults_to_production_witness:
  "intent_Environment example_intent = EnvironmentNonProduction
   \<and> \<not> matchesAny (r_production example_resolver) (intent_Resource example_intent)
   \<and> matchesAny (r_nonProduction example_resolver) (intent_Resource example_intent)"
  using environment_defaults_to_production [OF example_catalog_eq example_resolve]
  by (simp add: example_intent_def example_call_def)

lemma e_service_mk_entry [simp]: "e_service (mk_entry svc c) = svc"
  by (simp add: mk_entry_def)

lemma declared_entries_Cons:
  "declared_entries (d # ds) =
     (if decl_Status d \<noteq> AdapterEnabled \<or> \<not> is_ok (parseCapabilities d) then []
      else map (mk_entry (decl_Service d)) (projr (parseCapabilities d))) @ declared_entries ds"
  by (cases "parseCapabilities d") simp_all

lemma declared_entries_service:
  "e \<in> set (declared_entries ds) \<Longrightarrow> e_service e \<in> decl_Service ` set ds"
proof (induction ds)
  case (Cons d ds)
  then show ?case
    unfolding declared_entries_Cons by (auto simp del: declared_entries.simps split: if_split_asm)
qed simp

text \<open>The two ways of naming an operation agree.  If \<open>ToolFor\<close> names a tool for a service
  and operation, that tool is in the catalog and every call of it resolves to exactly that
  service and operation (service names contain no NUL byte).\<close>

theorem ToolFor_resolves:
  assumes "NewCatalog ds = Ok cat" and "ToolFor cat svc operation = Some tool"
    and "CHR 0x00 \<notin> set svc" and "\<forall>d \<in> set ds. CHR 0x00 \<notin> set (decl_Service d)"
  shows "(\<exists>e. lookupTool cat tool = Some e) \<and>
    (\<forall>r c i. call_Tool c = tool \<longrightarrow> resolve r (Some cat) c = Ok i \<longrightarrow>
       intent_Service i = svc \<and> intent_Operation i = operation)"
proof -
  note ok = NewCatalog_Ok [OF assms(1)]
  let ?key = "\<lambda>e. operationKeyOf (e_service e) (cap_Operation (e_capability e))"
  have svc: "CHR 0x00 \<notin> set (e_service e)" if "e \<in> set (declared_entries ds)" for e
    using declared_entries_service [OF that] assms(4) by auto
  from assms(2) obtain e where "map_of (byOperation cat) (operationKeyOf svc operation) = Some e"
    and tool: "tool = cap_Tool (e_capability e)"
    by (auto simp: ToolFor_def split: option.splits)
  with ok(1) have e: "e \<in> set (byRoute cat)" and "operationKeyOf svc operation = ?key e"
    by (auto simp: catalog_ok_def dest!: map_of_SomeD)
  then have same: "svc = e_service e \<and> operation = cap_Operation (e_capability e)"
    using svc [of e] assms(3) unfolding ok(2) operationKeyOf_def
    by (intro cons_split_unique [of "CHR 0x00"]) auto
  have lookup: "lookupTool cat tool = Some e"
    using lookupTool_iff [OF ok(1)] e tool by simp
  have "intent_Service i = svc \<and> intent_Operation i = operation"
    if "call_Tool c = tool" and "resolve r (Some cat) c = Ok i" for r c i
  proof -
    from resolve_Ok [OF that(2) ok(1)] obtain e' where "resolver_lookup cat c = Ok e'"
      "intent_Service i = e_service e'" "intent_Operation i = cap_Operation (e_capability e')"
      by metis
    moreover have "tool \<noteq> []"
      using ok(1) e tool by (auto simp: catalog_ok_def capability_validate_Ok_iff)
    ultimately show ?thesis using same lookup that(1) by (simp add: resolver_lookup_def)
  qed
  with lookup show ?thesis by blast
qed

theorem ToolFor_resolves_witness:
  "ToolFor example_catalog ''dns'' ''update_record'' = Some ''dns.record.update''
   \<and> (\<exists>e. lookupTool example_catalog ''dns.record.update'' = Some e)
   \<and> resolve example_resolver (Some example_catalog) example_call = Ok example_intent
   \<and> intent_Service example_intent = ''dns'' \<and> intent_Operation example_intent = ''update_record''"
proof -
  have tool: "ToolFor example_catalog ''dns'' ''update_record'' = Some ''dns.record.update''"
    by code_simp
  have nul: "CHR 0x00 \<notin> set ''dns''"
    "\<forall>d \<in> set [example_declaration]. CHR 0x00 \<notin> set (decl_Service d)"
    by (simp_all add: example_declaration_def)
  have "call_Tool example_call = ''dns.record.update''"
    by (simp add: example_call_def)
  then show ?thesis
    using ToolFor_resolves [OF example_catalog_eq tool nul] tool example_resolve by blast
qed

section \<open>The canonical text of a resource\<close>

text \<open>The canonical resource text does not identify a resource: two different resources with
  the same two fields have the same \<open>ResourceKeyOf\<close>, because neither the separator nor the
  equals sign is escaped in a value.\<close>

theorem ResourceKeyOf_collision:
  "gm_ok [(''a'', ''1;b=2''), (''b'', ''3'')] \<and> gm_ok [(''a'', ''1''), (''b'', ''2;b=3'')]
   \<and> ResourceKeyOf [(''a'', ''1;b=2''), (''b'', ''3'')]
      = ResourceKeyOf [(''a'', ''1''), (''b'', ''2;b=3'')]"
  by code_simp

end
