(* ===== verification/Scope.thy ===== *)
theory Scope
  imports Intent
begin

text \<open>
  Model of \<open>internal/core/scope\<close>: the ten dimensions of an authorization, their validation, the
  cover relation between scopes (\<open>scope.go\<close>) and the resolver that narrows a request to its
  minimal scope (\<open>resolver.go\<close>).  Scopes travel through the store as JSON, so their encoding is
  modelled too.  The lemmas show that covering is a preorder on well-formed scopes that never
  widens a dimension, that the encoding round-trips, and what the resolver fills in.
\<close>

section \<open>Scopes (scope.go)\<close>

record scope =
  scope_AgentID :: string
  scope_WorkspaceID :: string
  scope_Service :: string
  scope_IdentityID :: string
  scope_Account :: string
  scope_Resource :: "string go_map"
  scope_ResourceKey :: string
  scope_Operation :: string
  scope_NotBefore :: instant
  scope_ExpiresAt :: instant
  scope_RequestLimit :: int
  scope_Environment :: environment
  scope_RiskCeiling :: level

datatype dimension = DimensionAgent | DimensionWorkspace | DimensionService | DimensionAccount
  | DimensionResource | DimensionOperation | DimensionTime | DimensionRequestCount
  | DimensionEnvironment | DimensionRisk

fun validEnvironment :: "environment \<Rightarrow> bool" where
  "validEnvironment EnvironmentProduction = True"
| "validEnvironment EnvironmentNonProduction = True"
| "validEnvironment (EnvironmentOther s) = False"

fun levelRank :: "level \<Rightarrow> nat" where
  "levelRank LevelLow = 1"
| "levelRank LevelMedium = 2"
| "levelRank LevelHigh = 3"
| "levelRank (LevelOther s) = 0"

definition validLevel :: "level \<Rightarrow> bool" where
  "validLevel l \<longleftrightarrow> levelRank l > 0"

definition dimensionChecks :: "scope \<Rightarrow> (dimension \<times> bool) list" where
  "dimensionChecks s = [
     (DimensionAgent, scope_AgentID s \<noteq> []),
     (DimensionWorkspace, scope_WorkspaceID s \<noteq> []),
     (DimensionService, scope_Service s \<noteq> []),
     (DimensionAccount, scope_IdentityID s \<noteq> [] \<and> scope_Account s \<noteq> []),
     (DimensionResource, scope_Resource s \<noteq> [] \<and> scope_ResourceKey s \<noteq> []),
     (DimensionOperation, scope_Operation s \<noteq> []),
     (DimensionTime, scope_NotBefore s \<noteq> 0 \<and> scope_ExpiresAt s > scope_NotBefore s),
     (DimensionRequestCount, scope_RequestLimit s > 0),
     (DimensionEnvironment, validEnvironment (scope_Environment s)),
     (DimensionRisk, validLevel (scope_RiskCeiling s))]"

definition scope_Validate :: "scope \<Rightarrow> unit result" where
  "scope_Validate s =
     (if list_all snd (dimensionChecks s) then Ok () else Err CodeInvalidRequest)"

definition sameResource :: "string go_map \<Rightarrow> string go_map \<Rightarrow> bool" where
  "sameResource l r \<longleftrightarrow> length l = length r
     \<and> list_all (\<lambda>(k, v). (case gm_get r k of None \<Rightarrow> [] | Some w \<Rightarrow> w) = v) l"

definition hasWildcard :: "string go_map \<Rightarrow> bool" where
  "hasWildcard r = list_ex (\<lambda>(k, v). contains_any v ''*?'') r"

definition covers :: "scope \<Rightarrow> scope \<Rightarrow> bool" where
  "covers s t =
     (if scope_Validate s \<noteq> Ok () \<or> scope_Validate t \<noteq> Ok () then False
      else if hasWildcard (scope_Resource s) \<or> hasWildcard (scope_Resource t) then False
      else if scope_AgentID s \<noteq> scope_AgentID t \<or> scope_WorkspaceID s \<noteq> scope_WorkspaceID t
           \<or> scope_Service s \<noteq> scope_Service t \<or> scope_IdentityID s \<noteq> scope_IdentityID t
           \<or> scope_Account s \<noteq> scope_Account t \<or> scope_Operation s \<noteq> scope_Operation t
           \<or> scope_Environment s \<noteq> scope_Environment t then False
      else if \<not> sameResource (scope_Resource s) (scope_Resource t) then False
      else if scope_NotBefore t < scope_NotBefore s \<or> scope_ExpiresAt t > scope_ExpiresAt s
        then False
      else if scope_RequestLimit t > scope_RequestLimit s then False
      else levelRank (scope_RiskCeiling t) \<le> levelRank (scope_RiskCeiling s))"

definition CoversIgnoringWindow :: "scope \<Rightarrow> scope \<Rightarrow> bool" where
  "CoversIgnoringWindow s t =
     covers s (t\<lparr>scope_NotBefore := scope_NotBefore s, scope_ExpiresAt := scope_ExpiresAt s\<rparr>)"

section \<open>The resolver (resolver.go)\<close>

definition DefaultDuration :: duration where
  "DefaultDuration = 15 * minute"

definition DefaultRequestLimit :: int where
  "DefaultRequestLimit = 1"

definition TaskRequestLimit :: int where
  "TaskRequestLimit = 20"

record scope_input =
  si_Intent :: intent
  si_AgentID :: string
  si_WorkspaceID :: string
  si_Identity :: identity
  si_Duration :: duration
  si_RequestLimit :: int

record scope_result =
  sr_Scope :: scope
  sr_Injection :: "string list"
  sr_IgnoredFields :: "string list"
  sr_Ambiguous :: bool
  sr_EnvironmentAssumed :: bool

definition checkInput :: "scope_input \<Rightarrow> unit result" where
  "checkInput inp =
     (if identity_ID (si_Identity inp) \<noteq> [] \<and> intent_Service (si_Intent inp) \<noteq> []
         \<and> identity_Service (si_Identity inp) \<noteq> intent_Service (si_Intent inp)
        then Err CodeInternal
      else if identity_Environment (si_Identity inp) \<noteq> EnvironmentOther []
         \<and> identity_Environment (si_Identity inp) \<noteq> intent_Environment (si_Intent inp)
        then Err CodeInternal
      else if si_Duration inp < 0 then Err CodeInvalidRequest
      else if si_RequestLimit inp < 0 then Err CodeInvalidRequest
      else Ok ())"

fun ceilingOf :: "risk_label \<Rightarrow> level" where
  "ceilingOf RiskLabelLow = LevelLow"
| "ceilingOf RiskLabelMedium = LevelMedium"
| "ceilingOf RiskLabelHigh = LevelHigh"
| "ceilingOf (RiskLabelOther s) = LevelOther []"

definition injectionWords :: "string list" where
  "injectionWords = [''scope'', ''permission'', ''privilege'', ''grant'', ''role'', ''policy'',
     ''risklevel'', ''lease'', ''expires'', ''ttl'', ''requestlimit'', ''environment'',
     ''approval'', ''approve'', ''autoallow'', ''allow'', ''deny'', ''trust'', ''bypass'',
     ''override'', ''elevate'', ''escalate'']"

definition normalizeField :: "string \<Rightarrow> string" where
  "normalizeField f = strip_chars ''-_. '' (to_lower f)"

definition isInjection :: "string \<Rightarrow> bool" where
  "isInjection f = list_ex (str_contains (normalizeField f)) injectionWords"

definition injectionFields :: "string list \<Rightarrow> string list" where
  "injectionFields ignored = filter isInjection ignored"

text \<open>\<open>Resolve\<close>; \<open>now\<close> is what the resolver's clock answers.\<close>

definition scope_resolve :: "instant \<Rightarrow> scope_input \<Rightarrow> scope_result result" where
  "scope_resolve now inp =
     rbind (checkInput inp) (\<lambda>_.
       let duration = (if si_Duration inp = 0 then DefaultDuration else si_Duration inp);
           limit = (if si_RequestLimit inp = 0 then DefaultRequestLimit else si_RequestLimit inp);
           i = si_Intent inp;
           resolved =
             \<lparr>scope_AgentID = si_AgentID inp, scope_WorkspaceID = si_WorkspaceID inp,
              scope_Service = intent_Service i,
              scope_IdentityID = identity_ID (si_Identity inp),
              scope_Account = identity_AccountLabel (si_Identity inp),
              scope_Resource = intent_Resource i, scope_ResourceKey = intent_ResourceKey i,
              scope_Operation = intent_Operation i, scope_NotBefore = now,
              scope_ExpiresAt = now + duration, scope_RequestLimit = limit,
              scope_Environment = intent_Environment i,
              scope_RiskCeiling = ceilingOf (intent_RiskLabel i)\<rparr>
       in rbind (scope_Validate resolved) (\<lambda>_.
            let ignored = sort (intent_IgnoredFields i)
            in Ok \<lparr>sr_Scope = resolved, sr_Injection = injectionFields ignored,
                   sr_IgnoredFields = ignored, sr_Ambiguous = intent_ResourceAmbiguous i,
                   sr_EnvironmentAssumed = intent_EnvironmentAssumed i\<rparr>))"

section \<open>Scopes as JSON\<close>

fun environment_text :: "environment \<Rightarrow> string" where
  "environment_text EnvironmentProduction = ''production''"
| "environment_text EnvironmentNonProduction = ''non-production''"
| "environment_text (EnvironmentOther s) = s"

definition environment_of :: "string \<Rightarrow> environment" where
  "environment_of s = (if s = ''production'' then EnvironmentProduction
     else if s = ''non-production'' then EnvironmentNonProduction else EnvironmentOther s)"

fun level_text :: "level \<Rightarrow> string" where
  "level_text LevelLow = ''low''"
| "level_text LevelMedium = ''medium''"
| "level_text LevelHigh = ''high''"
| "level_text (LevelOther s) = s"

definition level_of :: "string \<Rightarrow> level" where
  "level_of s = (if s = ''low'' then LevelLow else if s = ''medium'' then LevelMedium
     else if s = ''high'' then LevelHigh else LevelOther s)"

text \<open>\<open>json.Marshal\<close> of a scope, in field order.\<close>

definition encode_scope :: "scope \<Rightarrow> jtext" where
  "encode_scope s = Parsed (JObj [
     (''agent_id'', JStr (scope_AgentID s)),
     (''workspace_id'', JStr (scope_WorkspaceID s)),
     (''service'', JStr (scope_Service s)),
     (''identity_id'', JStr (scope_IdentityID s)),
     (''account'', JStr (scope_Account s)),
     (''resource'', encode_strmap (scope_Resource s)),
     (''resource_key'', JStr (scope_ResourceKey s)),
     (''operation'', JStr (scope_Operation s)),
     (''not_before'', JTime (scope_NotBefore s)),
     (''expires_at'', JTime (scope_ExpiresAt s)),
     (''request_limit'', JNum (scope_RequestLimit s)),
     (''environment'', JStr (environment_text (scope_Environment s))),
     (''risk_ceiling'', JStr (level_text (scope_RiskCeiling s)))])"

text \<open>\<open>json.Unmarshal\<close> into a scope; \<open>None\<close> is an error.\<close>

definition decode_scope :: "jtext \<Rightarrow> scope option" where
  "decode_scope tx =
     Option.bind (case tx of Parsed (JObj m) \<Rightarrow> Some m | Parsed JNull \<Rightarrow> Some [] | _ \<Rightarrow> None) (\<lambda>m.
     Option.bind (json_member assign_str [] m ''agent_id'') (\<lambda>agent_id.
     Option.bind (json_member assign_str [] m ''workspace_id'') (\<lambda>workspace_id.
     Option.bind (json_member assign_str [] m ''service'') (\<lambda>svc.
     Option.bind (json_member assign_str [] m ''identity_id'') (\<lambda>identity_id.
     Option.bind (json_member assign_str [] m ''account'') (\<lambda>account.
     Option.bind (json_member assign_strmap [] m ''resource'') (\<lambda>resource.
     Option.bind (json_member assign_str [] m ''resource_key'') (\<lambda>resource_key.
     Option.bind (json_member assign_str [] m ''operation'') (\<lambda>operation.
     Option.bind (json_member assign_time 0 m ''not_before'') (\<lambda>not_before.
     Option.bind (json_member assign_time 0 m ''expires_at'') (\<lambda>expires_at.
     Option.bind (json_member assign_int 0 m ''request_limit'') (\<lambda>request_limit.
     Option.bind (json_member assign_str [] m ''environment'') (\<lambda>env.
     Option.bind (json_member assign_str [] m ''risk_ceiling'') (\<lambda>ceiling.
       Some \<lparr>scope_AgentID = agent_id, scope_WorkspaceID = workspace_id, scope_Service = svc,
             scope_IdentityID = identity_id, scope_Account = account, scope_Resource = resource,
             scope_ResourceKey = resource_key, scope_Operation = operation,
             scope_NotBefore = not_before, scope_ExpiresAt = expires_at,
             scope_RequestLimit = request_limit, scope_Environment = environment_of env,
             scope_RiskCeiling = level_of ceiling\<rparr>))))))))))))))"

lemma scope_member_names [json_names]:
  "lower_lit ''agent_id''" "lower_lit ''workspace_id''" "lower_lit ''service''"
  "lower_lit ''identity_id''" "lower_lit ''account''" "lower_lit ''resource''"
  "lower_lit ''resource_key''" "lower_lit ''not_before''" "lower_lit ''expires_at''"
  "lower_lit ''request_limit''" "lower_lit ''environment''" "lower_lit ''risk_ceiling''"
  by code_simp+

section \<open>Validation and resources\<close>

interpretation scope_rank: ranked_levels levelRank
  by unfold_locales auto

lemma levelRank_rank: "levelRank = rank"
proof
  fix l show "levelRank l = rank l" by (cases l) auto
qed

lemma scope_Validate_Ok_iff:
  "scope_Validate s = Ok () \<longleftrightarrow>
     scope_AgentID s \<noteq> [] \<and> scope_WorkspaceID s \<noteq> [] \<and> scope_Service s \<noteq> []
     \<and> scope_IdentityID s \<noteq> [] \<and> scope_Account s \<noteq> []
     \<and> scope_Resource s \<noteq> [] \<and> scope_ResourceKey s \<noteq> [] \<and> scope_Operation s \<noteq> []
     \<and> scope_NotBefore s \<noteq> 0 \<and> scope_NotBefore s < scope_ExpiresAt s
     \<and> 0 < scope_RequestLimit s \<and> validEnvironment (scope_Environment s)
     \<and> validLevel (scope_RiskCeiling s)"
  by (auto simp: scope_Validate_def dimensionChecks_def)

lemma scope_Validate_cases:
  "scope_Validate s = Ok () \<or> scope_Validate s = Err CodeInvalidRequest"
  by (simp add: scope_Validate_def)

text \<open>What the intent resolver guarantees of a resource: a proper map without empty values.\<close>

definition clean_resource :: "string go_map \<Rightarrow> bool" where
  "clean_resource r \<longleftrightarrow> gm_ok r \<and> [] \<notin> snd ` set r"

lemma sameResource_refl:
  assumes "gm_ok r"
  shows "sameResource r r"
proof -
  have "map_of r k = Some v" if "(k, v) \<in> set r" for k v
    using that gm_ok_distinct [OF assms] by (simp add: map_of_eq_Some_iff)
  then show ?thesis by (auto simp: sameResource_def list_all_iff)
qed

lemma sameResource_clean:
  assumes l: "clean_resource l" and r: "gm_ok r"
  shows "sameResource l r \<longleftrightarrow> l = r"
proof
  assume same: "sameResource l r"
  then have len: "length l = length r" by (simp add: sameResource_def)
  have mem: "map_of r (fst p) = Some (snd p)" if "p \<in> set l" for p
  proof -
    have "(case map_of r (fst p) of None \<Rightarrow> [] | Some w \<Rightarrow> w) = snd p"
      using same that by (auto simp: sameResource_def list_all_iff)
    moreover have "snd p \<noteq> []"
      using l that by (metis clean_resource_def imageI)
    ultimately show ?thesis by (auto split: option.splits)
  qed
  then have "set l \<subseteq> set r" by (metis map_of_SomeD prod.collapse subsetI)
  moreover have "card (set l) = length l" and "card (set r) = length r"
    using l r gm_ok_distinct distinct_card distinct_map unfolding clean_resource_def by metis+
  ultimately have "set l = set r" by (simp add: card_subset_eq len)
  then show "l = r"
    using l r gm_ok_distinct unfolding clean_resource_def
    by (metis gm_ext map_of_inject_set)
next
  assume "l = r"
  with r show "sameResource l r" by (simp add: sameResource_refl)
qed

definition scope_wf :: "scope \<Rightarrow> bool" where
  "scope_wf s \<longleftrightarrow> scope_Validate s = Ok () \<and> clean_resource (scope_Resource s)
     \<and> scope_RequestLimit s < 2 ^ 63"

section \<open>The cover relation\<close>

lemma covers_iff:
  assumes "clean_resource (scope_Resource s)" and "clean_resource (scope_Resource t)"
  shows "covers s t \<longleftrightarrow>
     scope_Validate s = Ok () \<and> scope_Validate t = Ok () \<and> \<not> hasWildcard (scope_Resource s)
     \<and> scope_AgentID t = scope_AgentID s \<and> scope_WorkspaceID t = scope_WorkspaceID s
     \<and> scope_Service t = scope_Service s \<and> scope_IdentityID t = scope_IdentityID s
     \<and> scope_Account t = scope_Account s \<and> scope_Operation t = scope_Operation s
     \<and> scope_Environment t = scope_Environment s \<and> scope_Resource t = scope_Resource s
     \<and> scope_NotBefore s \<le> scope_NotBefore t \<and> scope_ExpiresAt t \<le> scope_ExpiresAt s
     \<and> scope_RequestLimit t \<le> scope_RequestLimit s
     \<and> levelRank (scope_RiskCeiling t) \<le> levelRank (scope_RiskCeiling s)"
proof -
  have "sameResource (scope_Resource s) (scope_Resource t)
      \<longleftrightarrow> scope_Resource t = scope_Resource s"
    using sameResource_clean assms by (auto simp: clean_resource_def)
  then show ?thesis unfolding covers_def by (simp add: not_less) argo
qed

lemma CoversIgnoringWindow_iff:
  assumes "clean_resource (scope_Resource s)" and "clean_resource (scope_Resource t)"
    and "scope_NotBefore t < scope_ExpiresAt t" and "scope_NotBefore t \<noteq> 0"
  shows "CoversIgnoringWindow s t \<longleftrightarrow>
     scope_Validate s = Ok () \<and> scope_Validate t = Ok () \<and> \<not> hasWildcard (scope_Resource s)
     \<and> scope_AgentID t = scope_AgentID s \<and> scope_WorkspaceID t = scope_WorkspaceID s
     \<and> scope_Service t = scope_Service s \<and> scope_IdentityID t = scope_IdentityID s
     \<and> scope_Account t = scope_Account s \<and> scope_Operation t = scope_Operation s
     \<and> scope_Environment t = scope_Environment s \<and> scope_Resource t = scope_Resource s
     \<and> scope_RequestLimit t \<le> scope_RequestLimit s
     \<and> levelRank (scope_RiskCeiling t) \<le> levelRank (scope_RiskCeiling s)"
proof -
  let ?t = "t\<lparr>scope_NotBefore := scope_NotBefore s, scope_ExpiresAt := scope_ExpiresAt s\<rparr>"
  have clean: "clean_resource (scope_Resource ?t)" using assms(2) by simp
  have valid: "scope_Validate ?t = Ok () \<longleftrightarrow> scope_Validate t = Ok ()"
    if "scope_Validate s = Ok ()"
    using that assms(3,4) by (simp add: scope_Validate_Ok_iff)
  show ?thesis
    unfolding CoversIgnoringWindow_def covers_iff [OF assms(1) clean]
    by (simp add: valid cong: conj_cong)
qed

text \<open>
  What a cover relation must promise to whoever compares a new request with an earlier
  authorization: a preorder on the well-formed scopes.
\<close>

locale cover_order =
  fixes wf :: "'s \<Rightarrow> bool" and cov :: "'s \<Rightarrow> 's \<Rightarrow> bool"
  assumes cov_refl: "wf s \<Longrightarrow> cov s s"
    and cov_trans: "wf a \<Longrightarrow> wf b \<Longrightarrow> wf c \<Longrightarrow> cov a b \<Longrightarrow> cov b c \<Longrightarrow> cov a c"
begin

text \<open>A chain of authorizations, each covered by the one before it, stays within the first.\<close>

lemma chain_within_first:
  "\<forall>x \<in> set (a # xs). wf x \<Longrightarrow> successively cov (a # xs) \<Longrightarrow> x \<in> set (a # xs) \<Longrightarrow> cov a x"
proof (induction xs arbitrary: a)
  case Nil
  then show ?case using cov_refl by simp
next
  case (Cons b xs)
  show ?case
  proof (cases "x = a")
    case True
    with Cons.prems show ?thesis using cov_refl by simp
  next
    case False
    with Cons.prems have "cov b x" by (intro Cons.IH) auto
    with Cons.prems show ?thesis using cov_trans [of a b x] by auto
  qed
qed

end

definition scope_coverable :: "scope \<Rightarrow> bool" where
  "scope_coverable s \<longleftrightarrow> scope_wf s \<and> \<not> hasWildcard (scope_Resource s)"

lemma covers_refl: "scope_coverable s \<Longrightarrow> covers s s"
  by (simp add: covers_iff scope_coverable_def scope_wf_def)

lemma covers_trans:
  "scope_coverable a \<Longrightarrow> scope_coverable b \<Longrightarrow> scope_coverable c \<Longrightarrow> covers a b \<Longrightarrow> covers b c
   \<Longrightarrow> covers a c"
  by (simp add: covers_iff scope_coverable_def scope_wf_def)

lemma CoversIgnoringWindow_wf_iff:
  assumes "scope_wf s" and "scope_wf t"
  shows "CoversIgnoringWindow s t \<longleftrightarrow> \<not> hasWildcard (scope_Resource s)
     \<and> scope_AgentID t = scope_AgentID s \<and> scope_WorkspaceID t = scope_WorkspaceID s
     \<and> scope_Service t = scope_Service s \<and> scope_IdentityID t = scope_IdentityID s
     \<and> scope_Account t = scope_Account s \<and> scope_Operation t = scope_Operation s
     \<and> scope_Environment t = scope_Environment s \<and> scope_Resource t = scope_Resource s
     \<and> scope_RequestLimit t \<le> scope_RequestLimit s
     \<and> levelRank (scope_RiskCeiling t) \<le> levelRank (scope_RiskCeiling s)"
proof -
  have "scope_NotBefore t < scope_ExpiresAt t" "scope_NotBefore t \<noteq> 0"
    using assms by (auto simp: scope_wf_def scope_Validate_Ok_iff)
  then show ?thesis
    using CoversIgnoringWindow_iff [of s t] assms by (simp add: scope_wf_def)
qed

interpretation cover: cover_order scope_coverable covers
  using covers_refl covers_trans by unfold_locales blast+

interpretation cover_nowindow: cover_order scope_coverable CoversIgnoringWindow
  by unfold_locales (auto simp: CoversIgnoringWindow_wf_iff scope_coverable_def)


definition example_scope :: scope where
  "example_scope = \<lparr>scope_AgentID = ''agent'', scope_WorkspaceID = ''ws'', scope_Service = ''dns'',
     scope_IdentityID = ''id1'', scope_Account = ''acct'',
     scope_Resource = [(''zone'', ''a.test'')], scope_ResourceKey = ''zone=a.test'',
     scope_Operation = ''update_record'', scope_NotBefore = 1000, scope_ExpiresAt = 2000,
     scope_RequestLimit = 5, scope_Environment = EnvironmentNonProduction,
     scope_RiskCeiling = LevelMedium\<rparr>"

lemma example_scope_coverable:
  "scope_coverable example_scope"
  "scope_coverable (example_scope\<lparr>scope_RequestLimit := 2, scope_ExpiresAt := 1500\<rparr>)"
  by (simp_all add: scope_coverable_def scope_wf_def scope_Validate_Ok_iff example_scope_def
      clean_resource_def gm_ok_def hasWildcard_def contains_any_def validLevel_def)


section \<open>Encoding\<close>

lemma environment_roundtrip [simp]:
  "validEnvironment e \<Longrightarrow> environment_of (environment_text e) = e"
  by (cases e) (auto simp: environment_of_def)

lemma level_roundtrip [simp]: "validLevel l \<Longrightarrow> level_of (level_text l) = l"
  by (cases l) (auto simp: level_of_def validLevel_def)

lemma decode_encode_scope:
  assumes "scope_wf s"
  shows "decode_scope (encode_scope s) = Some s"
proof -
  have "gm_ok (scope_Resource s)" and "validEnvironment (scope_Environment s)"
    and "validLevel (scope_RiskCeiling s)" and "0 < scope_RequestLimit s"
    and "scope_RequestLimit s < 9223372036854775808"
    using assms by (auto simp: scope_wf_def clean_resource_def scope_Validate_Ok_iff)
  then show ?thesis
    by (simp add: decode_scope_def encode_scope_def json_decode_defs json_names
        assign_strmap_encode)
qed

text \<open>Round trip of stored scopes.  A well-formed scope written to a decision or a lease as
  JSON is read back unchanged, its instants included.\<close>

theorem scope_json_roundtrip:
  assumes "scope_wf s"
  shows "decode_scope (encode_scope s) = Some s"
  using assms by (rule decode_encode_scope)

theorem scope_json_roundtrip_witness:
  "decode_scope (encode_scope example_scope) = Some example_scope"
  using scope_json_roundtrip example_scope_coverable(1) by (simp add: scope_coverable_def)

section \<open>Resolving a scope\<close>

lemma checkInput_cases:
  "checkInput inp = Ok () \<or> checkInput inp = Err CodeInternal
   \<or> checkInput inp = Err CodeInvalidRequest"
  by (simp add: checkInput_def)

lemma scope_resolve_no_panic: "scope_resolve now inp \<noteq> Inl Panic"
proof -
  have "rbind (scope_Validate t) (\<lambda>_. Ok x) \<noteq> Inl Panic" for t and x :: scope_result
    using scope_Validate_cases [of t] by auto
  then show ?thesis
    using checkInput_cases [of inp] unfolding scope_resolve_def Let_def by auto
qed

lemma ceilingOf_levelOf: "ceilingOf l = levelOf l"
  by (cases l) auto

lemma scope_resolve_Ok:
  assumes "scope_resolve now inp = Ok r"
  shows "checkInput inp = Ok ()" and "scope_Validate (sr_Scope r) = Ok ()"
    and "sr_Scope r =
       \<lparr>scope_AgentID = si_AgentID inp, scope_WorkspaceID = si_WorkspaceID inp,
        scope_Service = intent_Service (si_Intent inp),
        scope_IdentityID = identity_ID (si_Identity inp),
        scope_Account = identity_AccountLabel (si_Identity inp),
        scope_Resource = intent_Resource (si_Intent inp),
        scope_ResourceKey = intent_ResourceKey (si_Intent inp),
        scope_Operation = intent_Operation (si_Intent inp), scope_NotBefore = now,
        scope_ExpiresAt =
          now + (if si_Duration inp = 0 then DefaultDuration else si_Duration inp),
        scope_RequestLimit =
          (if si_RequestLimit inp = 0 then DefaultRequestLimit else si_RequestLimit inp),
        scope_Environment = intent_Environment (si_Intent inp),
        scope_RiskCeiling = levelOf (intent_RiskLabel (si_Intent inp))\<rparr>"
    and "sr_IgnoredFields r = sort (intent_IgnoredFields (si_Intent inp))"
    and "sr_Injection r = filter isInjection (sort (intent_IgnoredFields (si_Intent inp)))"
    and "sr_Ambiguous r = intent_ResourceAmbiguous (si_Intent inp)"
  using assms
  by (auto simp: scope_resolve_def rbind_iffs Let_def ceilingOf_levelOf injectionFields_def)

text \<open>The resolver grants the minimum.  A resolved scope has all ten dimensions; it names one
  operation on the resolved resource under the matched identity, starts now, lasts fifteen
  minutes and one request unless the gateway asked for other figures, and is capped at the
  declared label.  Nothing the agent sends beside the declared fields changes it: such fields
  are only listed, and those that name authority are listed as injection attempts.\<close>

theorem scope_resolve_minimal:
  assumes "scope_resolve now inp = Ok r" and "si_Duration inp = 0" and "si_RequestLimit inp = 0"
  shows "scope_Validate (sr_Scope r) = Ok ()
    \<and> scope_NotBefore (sr_Scope r) = now
    \<and> scope_ExpiresAt (sr_Scope r) = now + 15 * minute
    \<and> scope_RequestLimit (sr_Scope r) = 1
    \<and> scope_Operation (sr_Scope r) = intent_Operation (si_Intent inp)
    \<and> scope_Resource (sr_Scope r) = intent_Resource (si_Intent inp)
    \<and> scope_IdentityID (sr_Scope r) = identity_ID (si_Identity inp)
    \<and> identity_Service (si_Identity inp) = scope_Service (sr_Scope r)
    \<and> scope_RiskCeiling (sr_Scope r) = levelOf (intent_RiskLabel (si_Intent inp))
    \<and> (\<forall>extra. \<exists>r'. scope_resolve now
            (inp\<lparr>si_Intent := (si_Intent inp)\<lparr>intent_IgnoredFields := extra\<rparr>\<rparr>) = Ok r'
          \<and> sr_Scope r' = sr_Scope r
          \<and> set (sr_IgnoredFields r') = set extra
          \<and> set (sr_Injection r') = {x \<in> set extra. isInjection x})"
proof -
  note R = scope_resolve_Ok [OF assms(1)]
  have svc: "identity_Service (si_Identity inp) = intent_Service (si_Intent inp)"
    using R(1,2) unfolding R(3)
    by (auto simp: checkInput_def scope_Validate_Ok_iff split: if_splits)
  have extra: "\<exists>r'. scope_resolve now
            (inp\<lparr>si_Intent := (si_Intent inp)\<lparr>intent_IgnoredFields := extra\<rparr>\<rparr>) = Ok r'
          \<and> sr_Scope r' = sr_Scope r
          \<and> set (sr_IgnoredFields r') = set extra
          \<and> set (sr_Injection r') = {x \<in> set extra. isInjection x}" for extra
    using assms(1)
    by (auto simp: scope_resolve_def checkInput_def rbind_iffs Let_def injectionFields_def
        split: if_split_asm)
  show ?thesis
    using R(2) svc extra assms(2,3)
    by (simp add: R(3) DefaultDuration_def DefaultRequestLimit_def)
qed

definition example_identity :: identity where
  "example_identity = \<lparr>identity_ID = ''id1'', identity_Service = ''dns'',
     identity_AccountLabel = ''acct'', identity_Environment = EnvironmentNonProduction,
     identity_IsDefault = True, identity_Status = IdentityOK,
     identity_CredentialReferenceID = ''cred'', identity_CreatedAt = 1,
     identity_UpdatedAt = 1\<rparr>"

definition example_input :: scope_input where
  "example_input = \<lparr>si_Intent = example_intent, si_AgentID = ''agent'', si_WorkspaceID = ''ws'',
     si_Identity = example_identity, si_Duration = 0, si_RequestLimit = 0\<rparr>"

theorem scope_resolve_minimal_witness:
  "\<exists>r r'. scope_resolve 1000 example_input = Ok r
     \<and> scope_ExpiresAt (sr_Scope r) = 1000 + 15 * minute
     \<and> scope_resolve 1000 (example_input\<lparr>si_Intent :=
          (si_Intent example_input)\<lparr>intent_IgnoredFields := [''Requested-Scope'']\<rparr>\<rparr>) = Ok r'
     \<and> sr_Scope r' = sr_Scope r \<and> set (sr_Injection r') = {''Requested-Scope''}"
proof -
  have "is_ok (scope_resolve 1000 example_input)" by code_simp
  then obtain r where r: "scope_resolve 1000 example_input = Ok r"
    by (cases "scope_resolve 1000 example_input") auto
  have inj: "{x \<in> set [''Requested-Scope'']. isInjection x} = {''Requested-Scope''}"
    by code_simp
  have zero: "si_Duration example_input = 0" "si_RequestLimit example_input = 0"
    by (simp_all add: example_input_def)
  note M = scope_resolve_minimal [OF r zero]
  then have ex: "scope_ExpiresAt (sr_Scope r) = 1000 + 15 * minute" by simp
  from M obtain r' where "scope_resolve 1000 (example_input\<lparr>si_Intent :=
          (si_Intent example_input)\<lparr>intent_IgnoredFields := [''Requested-Scope'']\<rparr>\<rparr>) = Ok r'"
    "sr_Scope r' = sr_Scope r" "set (sr_Injection r') = {''Requested-Scope''}"
    unfolding inj [symmetric] by (elim conjE) (erule allE [of _ "[''Requested-Scope'']"], blast)
  with ex r show ?thesis by blast
qed

text \<open>Comparing resources does not tell an absent field from an empty one: \<open>sameResource\<close>
  accepts two resources with different fields when a value is the empty string, and it does
  not accept them the other way round.\<close>

theorem sameResource_confuses_absent_and_empty:
  "sameResource [(''a'', [])] [(''b'', ''x'')] \<and> \<not> sameResource [(''b'', ''x'')] [(''a'', [])]"
  by (simp add: sameResource_def)

end
