(* ===== verification/Decision.thy ===== *)
theory Decision
  imports Scope
begin

text \<open>
  Model of \<open>internal/core/decision\<close>: the fail-closed blockers (\<open>failclosed.go\<close>), the forbidden
  list (\<open>forbidden.go\<close>) and the branch table of \<open>Decide\<close> (\<open>engine.go\<close>).  The lemmas give the
  exact conditions of every verdict.
\<close>

section \<open>Verdicts, modes, blockers (decision.go, engine.go, failclosed.go)\<close>

datatype verdict = VerdictAutoAllow | VerdictRequireApproval | VerdictDeny | VerdictOther string

datatype approval_requirement = ApprovalNone | ApprovalStandard | ApprovalStrongAuth
  | ApprovalRequirementOther string

datatype mode = ModeCautious | ModeBalanced | ModeAutomatic | ModeOther string

datatype reason = ReasonFailClosed | ReasonForbidden | ReasonHighRisk | ReasonBeyondLearnedScope
  | ReasonIdentityAmbiguous | ReasonLowRisk | ReasonTrustMemoryMatch | ReasonActiveLease
  | ReasonRequiresConfirmation

datatype blocker = BlockerAgentUnidentified | BlockerServiceUndetermined
  | BlockerIdentityAmbiguityUnresolvable | BlockerScopeUndeterminable
  | BlockerCapabilityNotOffered | BlockerRiskUnknown | BlockerPolicyEngineFailure
  | BlockerGatewayOffline | BlockerCredentialSourceUnavailable | BlockerAuditWriteFailed
  | BlockerOther string

definition blockers :: "blocker list" where
  "blockers = [BlockerAgentUnidentified, BlockerServiceUndetermined,
     BlockerIdentityAmbiguityUnresolvable, BlockerScopeUndeterminable,
     BlockerCapabilityNotOffered, BlockerRiskUnknown, BlockerPolicyEngineFailure,
     BlockerGatewayOffline, BlockerCredentialSourceUnavailable, BlockerAuditWriteFailed]"

definition validBlocker :: "blocker \<Rightarrow> bool" where
  "validBlocker b = list_ex (\<lambda>known. b = known) blockers"

definition modes :: "mode list" where
  "modes = [ModeCautious, ModeBalanced, ModeAutomatic]"

definition ValidMode :: "mode \<Rightarrow> bool" where
  "ValidMode m = list_ex (\<lambda>known. known = m) modes"

datatype forbidden = ForbiddenCredentialRequest | ForbiddenVaultExport
  | ForbiddenPrivilegeEscalation | ForbiddenAuditDisable | ForbiddenSelfConfiguration
  | NotForbidden

section \<open>The forbidden list (forbidden.go)\<close>

definition SelfService :: string where "SelfService = ''opendelo''"

definition credentialNouns :: "string list" where
  "credentialNouns = [''credential'', ''secret'', ''token'', ''apikey'', ''password'',
     ''privatekey'', ''passphrase'']"

definition vaultNouns :: "string list" where
  "vaultNouns = [''vault'', ''keychain'', ''keyring'']"

definition readVerbs :: "string list" where
  "readVerbs = [''read'', ''get'', ''export'', ''reveal'', ''show'', ''dump'', ''fetch'',
     ''download'', ''list'', ''unlock'']"

definition auditWords :: "string list" where
  "auditWords = [''audit'', ''ledger'']"

definition privilegeWords :: "string list" where
  "privilegeWords = [''scope'', ''permission'', ''privilege'', ''grant'', ''role'', ''policy'',
     ''lease'', ''trust'', ''approval'', ''automation'']"

definition longestKeyword :: nat where
  "longestKeyword = length ''privatekey''"

text \<open>The closure \<open>flush\<close> of \<open>segmentsOf\<close>, as the words it appends.\<close>

definition flush :: "string \<Rightarrow> string list" where
  "flush current =
     (if current = [] then []
      else (let word = to_lower current
            in [if length word > 3 \<and> has_suffix word ''s'' then trim_suffix word ''s'' else word]))"

fun segments_loop :: "string \<Rightarrow> string \<Rightarrow> string list" where
  "segments_loop current [] = flush current"
| "segments_loop current (c # cs) =
     (if c \<in> set ''-_./ '' then flush current @ segments_loop [] cs
      else if is_upper_char c then flush current @ segments_loop [c] cs
      else segments_loop (current @ [c]) cs)"

definition segmentsOf :: "string \<Rightarrow> string list" where
  "segmentsOf operation = segments_loop [] operation"

text \<open>The inner loop of \<open>mentionsAny\<close>, with its early exit.\<close>

fun joined_mentions :: "string list \<Rightarrow> string \<Rightarrow> string list \<Rightarrow> bool" where
  "joined_mentions keywords joined [] = False"
| "joined_mentions keywords joined (w # ws) =
     (if joined @ w \<in> set keywords then True
      else if length (joined @ w) > longestKeyword then False
      else joined_mentions keywords (joined @ w) ws)"

fun mentionsAny :: "string list \<Rightarrow> string list \<Rightarrow> bool" where
  "mentionsAny [] keywords = False"
| "mentionsAny (w # ws) keywords =
     (joined_mentions keywords [] (w # ws) \<or> mentionsAny ws keywords)"

definition classifyForbidden :: "string \<Rightarrow> string \<Rightarrow> forbidden" where
  "classifyForbidden svc operation =
     (let ws = segmentsOf operation; reading = mentionsAny ws readVerbs in
      if reading \<and> mentionsAny ws vaultNouns then ForbiddenVaultExport
      else if reading \<and> mentionsAny ws credentialNouns then ForbiddenCredentialRequest
      else if \<not> equal_fold svc SelfService then NotForbidden
      else if mentionsAny ws auditWords then ForbiddenAuditDisable
      else if mentionsAny ws privilegeWords then ForbiddenPrivilegeEscalation
      else ForbiddenSelfConfiguration)"

section \<open>Deciding (engine.go)\<close>

record grant =
  grant_MemoryID :: string
  grant_Scope :: scope
  grant_AlwaysAsk :: bool

record active_lease =
  al_LeaseID :: string
  al_Scope :: scope

record decision_input =
  di_Mode :: mode
  di_AgentID :: string
  di_AgentTrust :: trust_level
  di_Write :: bool
  di_Match :: match_result
  di_Scope :: scope_result
  di_Assessment :: assessment
  di_ReadOnlyAutoAllow :: bool
  di_NewService :: bool
  di_IdentityChanged :: bool
  di_NewIdentity :: bool
  di_NewResource :: bool
  di_Learned :: "grant list"
  di_Active :: "active_lease list"
  di_Blockers :: "blocker list"

record outcome =
  out_Verdict :: verdict
  out_ApprovalRequirement :: approval_requirement
  out_Reason :: reason
  out_Confirmations :: nat
  out_Blocker :: blocker
  out_Forbidden :: forbidden
  out_MatchedMemoryID :: string
  out_MatchedLeaseID :: string

record mode_rule =
  lowRisk :: "decision_input \<Rightarrow> bool"
  learnedMedium :: "decision_input \<Rightarrow> bool"
  doubleConfirmation :: bool

definition cautiousAutoAllow :: "decision_input \<Rightarrow> bool" where
  "cautiousAutoAllow i \<longleftrightarrow>
     \<not> di_Write i \<and> di_ReadOnlyAutoAllow i \<and> \<not> di_NewService i \<and> \<not> di_IdentityChanged i"

fun modeRules :: "mode \<Rightarrow> mode_rule option" where
  "modeRules ModeCautious = Some \<lparr>lowRisk = cautiousAutoAllow, learnedMedium = cautiousAutoAllow,
     doubleConfirmation = True\<rparr>"
| "modeRules ModeBalanced = Some \<lparr>lowRisk = (\<lambda>i. \<not> di_Write i), learnedMedium = (\<lambda>i. True),
     doubleConfirmation = False\<rparr>"
| "modeRules ModeAutomatic = Some \<lparr>
     lowRisk = (\<lambda>i. \<not> di_Write i \<or> \<not> di_NewIdentity i \<and> \<not> di_NewResource i),
     learnedMedium = (\<lambda>i. True), doubleConfirmation = False\<rparr>"
| "modeRules (ModeOther s) = None"

abbreviation request_scope :: "decision_input \<Rightarrow> scope" where
  "request_scope i \<equiv> sr_Scope (di_Scope i)"

definition matchedGrant :: "decision_input \<Rightarrow> grant option" where
  "matchedGrant i = find (\<lambda>g. CoversIgnoringWindow (grant_Scope g) (request_scope i)) (di_Learned i)"

definition matchedLease :: "decision_input \<Rightarrow> active_lease option" where
  "matchedLease i = find (\<lambda>l. CoversIgnoringWindow (al_Scope l) (request_scope i)) (di_Active i)"

definition asksAlways :: "decision_input \<Rightarrow> bool" where
  "asksAlways i = list_ex (\<lambda>g. grant_AlwaysAsk g
     \<and> CoversIgnoringWindow (grant_Scope g) (request_scope i)) (di_Learned i)"

definition automatable :: "decision_input \<Rightarrow> bool" where
  "automatable i = (if match_NeedsReview (di_Match i) \<or> sr_Ambiguous (di_Scope i)
       \<or> di_Write i \<and> di_AgentTrust i = TrustUnverified \<or> asksAlways i then False else True)"

definition resolvableMatch :: "match_result \<Rightarrow> bool" where
  "resolvableMatch m =
     (if match_Ambiguous m then
        2 \<le> length (match_Candidates m) \<and> identity_ID (match_Identity m) = []
        \<and> match_Level m = MatchNone
      else identity_ID (match_Identity m) \<noteq> [] \<and> match_Level m \<noteq> MatchNone)"

definition validAssessment :: "assessment \<Rightarrow> bool" where
  "validAssessment a = (if as_Factors a = [] then False
     else as_Level a \<in> set [LevelLow, LevelMedium, LevelHigh])"

definition selfDetected :: "decision_input \<Rightarrow> blocker option" where
  "selfDetected i = map_option fst (find snd [
     (BlockerAgentUnidentified, di_AgentID i = []),
     (BlockerServiceUndetermined, scope_Service (request_scope i) = []),
     (BlockerScopeUndeterminable, scope_Validate (request_scope i) \<noteq> Ok ()),
     (BlockerIdentityAmbiguityUnresolvable, \<not> resolvableMatch (di_Match i)),
     (BlockerRiskUnknown, \<not> validAssessment (di_Assessment i))])"

definition blocked :: "decision_input \<Rightarrow> blocker option" where
  "blocked i =
     (if modeRules (di_Mode i) = None then Some BlockerPolicyEngineFailure
      else if list_ex (\<lambda>b. \<not> validBlocker b) (di_Blockers i) then Some BlockerPolicyEngineFailure
      else (case di_Blockers i of b # bs \<Rightarrow> Some b | [] \<Rightarrow> selfDetected i))"

definition failClosed :: "blocker \<Rightarrow> outcome" where
  "failClosed b = \<lparr>out_Verdict = VerdictDeny, out_ApprovalRequirement = ApprovalNone,
     out_Reason = ReasonFailClosed, out_Confirmations = 0, out_Blocker = b,
     out_Forbidden = NotForbidden, out_MatchedMemoryID = [], out_MatchedLeaseID = []\<rparr>"

definition RequiredConfirmations :: "mode \<Rightarrow> level \<Rightarrow> nat" where
  "RequiredConfirmations m l =
     (if l \<noteq> LevelHigh then 1
      else (case modeRules m of
              None \<Rightarrow> 2
            | Some r \<Rightarrow> if doubleConfirmation r then 2 else 1))"

definition conclude :: "decision_input \<Rightarrow> verdict \<Rightarrow> reason \<Rightarrow> outcome" where
  "conclude i v r =
     (let o0 = \<lparr>out_Verdict = v, out_ApprovalRequirement = ApprovalNone, out_Reason = r,
            out_Confirmations = 0, out_Blocker = BlockerOther [], out_Forbidden = NotForbidden,
            out_MatchedMemoryID =
              (case matchedGrant i of Some g \<Rightarrow> grant_MemoryID g | None \<Rightarrow> []),
            out_MatchedLeaseID =
              (if r = ReasonActiveLease
               then (case matchedLease i of Some l \<Rightarrow> al_LeaseID l | None \<Rightarrow> []) else [])\<rparr>
      in if v \<noteq> VerdictRequireApproval then o0
         else o0\<lparr>out_ApprovalRequirement :=
                    (if as_Level (di_Assessment i) = LevelHigh then ApprovalStrongAuth
                     else ApprovalStandard),
                  out_Confirmations :=
                    RequiredConfirmations (di_Mode i) (as_Level (di_Assessment i))\<rparr>)"

text \<open>
  The branch table.  Calling a condition of a mode that has no rule is a nil function call:
  the branch then panics, which \<open>Decide\<close> recovers from.
\<close>

definition mode_condition :: "(mode_rule \<Rightarrow> decision_input \<Rightarrow> bool) \<Rightarrow> decision_input \<Rightarrow> bool result"
where
  "mode_condition f i = (case modeRules (di_Mode i) of None \<Rightarrow> Inl Panic | Some r \<Rightarrow> Ok (f r i))"

definition branches :: "(reason \<times> (decision_input \<Rightarrow> bool \<Rightarrow> bool result) \<times> verdict) list" where
  "branches = [
     (ReasonHighRisk, \<lambda>i auto. Ok (as_Level (di_Assessment i) = LevelHigh),
        VerdictRequireApproval),
     (ReasonBeyondLearnedScope, \<lambda>i auto. Ok (di_Learned i \<noteq> [] \<and> matchedGrant i = None),
        VerdictRequireApproval),
     (ReasonIdentityAmbiguous, \<lambda>i auto. Ok (match_Ambiguous (di_Match i)),
        VerdictRequireApproval),
     (ReasonActiveLease, \<lambda>i auto. Ok (auto \<and> as_Level (di_Assessment i) \<noteq> LevelHigh
          \<and> matchedLease i \<noteq> None), VerdictAutoAllow),
     (ReasonLowRisk, \<lambda>i auto. if auto \<and> as_Level (di_Assessment i) = LevelLow
          then mode_condition lowRisk i else Ok False, VerdictAutoAllow),
     (ReasonTrustMemoryMatch, \<lambda>i auto. if auto \<and> as_Level (di_Assessment i) = LevelMedium
            \<and> matchedGrant i \<noteq> None
          then mode_condition learnedMedium i else Ok False, VerdictAutoAllow)]"

fun run_branches :: "(reason \<times> (decision_input \<Rightarrow> bool \<Rightarrow> bool result) \<times> verdict) list
    \<Rightarrow> decision_input \<Rightarrow> bool \<Rightarrow> outcome result" where
  "run_branches [] i auto = Ok (conclude i VerdictRequireApproval ReasonRequiresConfirmation)"
| "run_branches ((r, hits, v) # rest) i auto =
     rbind (hits i auto) (\<lambda>h. if h then Ok (conclude i v r) else run_branches rest i auto)"

definition decide :: "decision_input \<Rightarrow> outcome" where
  "decide i =
     (case blocked i of
        Some b \<Rightarrow> failClosed b
      | None \<Rightarrow>
          (case classifyForbidden (scope_Service (request_scope i))
                  (scope_Operation (request_scope i)) of
             NotForbidden \<Rightarrow>
               (case run_branches branches i (automatable i) of
                  Inr out \<Rightarrow> out
                | Inl _ \<Rightarrow> failClosed BlockerPolicyEngineFailure)
           | category \<Rightarrow>
               \<lparr>out_Verdict = VerdictDeny, out_ApprovalRequirement = ApprovalNone,
                out_Reason = ReasonForbidden, out_Confirmations = 0,
                out_Blocker = BlockerOther [], out_Forbidden = category,
                out_MatchedMemoryID = [], out_MatchedLeaseID = []\<rparr>))"

section \<open>The forbidden list as a specification\<close>

lemma joined_mentions_iff:
  assumes "\<forall>k \<in> set kws. length k \<le> longestKeyword"
  shows "joined_mentions kws j ws \<longleftrightarrow>
     (\<exists>us vs. ws = us @ vs \<and> us \<noteq> [] \<and> j @ concat us \<in> set kws)"
proof (induction ws arbitrary: j)
  case Nil
  then show ?case by simp
next
  case (Cons w ws)
  have split: "(\<exists>us vs. w # ws = us @ vs \<and> us \<noteq> [] \<and> j @ concat us \<in> set kws) \<longleftrightarrow>
      j @ w \<in> set kws \<or> (\<exists>us vs. ws = us @ vs \<and> us \<noteq> [] \<and> (j @ w) @ concat us \<in> set kws)"
    (is "?L \<longleftrightarrow> ?R")
  proof
    assume ?L
    then obtain us vs where u: "w # ws = us @ vs" "us \<noteq> []" "j @ concat us \<in> set kws" by blast
    then obtain us' where us': "us = w # us'" "ws = us' @ vs" by (cases us) auto
    show ?R
    proof (cases "us' = []")
      case True
      with u(3) us' show ?thesis by simp
    next
      case False
      with u(3) us' have "ws = us' @ vs \<and> us' \<noteq> [] \<and> (j @ w) @ concat us' \<in> set kws" by simp
      then show ?thesis by blast
    qed
  next
    assume ?R
    then consider "j @ w \<in> set kws"
      | us vs where "ws = us @ vs" "us \<noteq> []" "(j @ w) @ concat us \<in> set kws" by blast
    then show ?L
    proof cases
      case 1
      then show ?thesis by (intro exI [of _ "[w]"] exI [of _ ws]) simp
    next
      case 2
      then show ?thesis by (intro exI [of _ "w # us"] exI [of _ vs]) simp
    qed
  qed
  have "\<not> (\<exists>us vs. ws = us @ vs \<and> us \<noteq> [] \<and> (j @ w) @ concat us \<in> set kws)"
    if "length (j @ w) > longestKeyword"
    using that assms by fastforce
  then show ?case unfolding split using Cons.IH [of "j @ w"] by auto
qed

text \<open>The early exit on long joins loses nothing: a keyword is found exactly when some run of
  neighbouring segments spells it.\<close>

lemma mentionsAny_iff:
  assumes "\<forall>k \<in> set kws. length k \<le> longestKeyword"
  shows "mentionsAny ws kws \<longleftrightarrow>
     (\<exists>us. us \<noteq> [] \<and> sublist us ws \<and> concat us \<in> set kws)"
proof (induction ws)
  case Nil
  then show ?case by (auto simp: sublist_def)
next
  case (Cons w ws)
  have "joined_mentions kws [] (w # ws) \<longleftrightarrow>
      (\<exists>us. us \<noteq> [] \<and> prefix us (w # ws) \<and> concat us \<in> set kws)"
    unfolding joined_mentions_iff [OF assms] by (auto simp: prefix_def)
  with Cons show ?case by (auto simp: sublist_Cons_right)
qed

lemma keyword_lengths:
  "\<forall>k \<in> set readVerbs. length k \<le> longestKeyword"
  "\<forall>k \<in> set vaultNouns. length k \<le> longestKeyword"
  "\<forall>k \<in> set credentialNouns. length k \<le> longestKeyword"
  "\<forall>k \<in> set auditWords. length k \<le> longestKeyword"
  "\<forall>k \<in> set privilegeWords. length k \<le> longestKeyword"
  by (auto simp: readVerbs_def vaultNouns_def credentialNouns_def auditWords_def
      privilegeWords_def longestKeyword_def)

definition spells :: "string list \<Rightarrow> string \<Rightarrow> bool" where
  "spells kws operation \<longleftrightarrow>
     (\<exists>us. us \<noteq> [] \<and> sublist us (segmentsOf operation) \<and> concat us \<in> set kws)"

lemmas mentions_spells = keyword_lengths [THEN mentionsAny_iff, of "segmentsOf operation",
    folded spells_def] for operation

lemma classify_iff:
  "classifyForbidden svc operation \<noteq> NotForbidden \<longleftrightarrow>
     equal_fold svc SelfService
     \<or> spells readVerbs operation \<and> (spells vaultNouns operation \<or> spells credentialNouns operation)"
  unfolding classifyForbidden_def Let_def mentions_spells by (auto split: if_splits)

section \<open>What each verdict means\<close>

lemma run_branches_eq:
  assumes "modeRules (di_Mode i) = Some r"
  shows "run_branches branches i auto = Ok
    (if as_Level (di_Assessment i) = LevelHigh
     then conclude i VerdictRequireApproval ReasonHighRisk
     else if di_Learned i \<noteq> [] \<and> matchedGrant i = None
     then conclude i VerdictRequireApproval ReasonBeyondLearnedScope
     else if match_Ambiguous (di_Match i)
     then conclude i VerdictRequireApproval ReasonIdentityAmbiguous
     else if auto \<and> matchedLease i \<noteq> None then conclude i VerdictAutoAllow ReasonActiveLease
     else if auto \<and> as_Level (di_Assessment i) = LevelLow \<and> lowRisk r i
     then conclude i VerdictAutoAllow ReasonLowRisk
     else if auto \<and> as_Level (di_Assessment i) = LevelMedium \<and> matchedGrant i \<noteq> None
         \<and> learnedMedium r i
     then conclude i VerdictAutoAllow ReasonTrustMemoryMatch
     else conclude i VerdictRequireApproval ReasonRequiresConfirmation)"
  using assms by (auto simp: branches_def mode_condition_def)

lemma blocked_None_mode: "blocked i = None \<Longrightarrow> \<exists>r. modeRules (di_Mode i) = Some r"
  by (auto simp: blocked_def split: if_splits)

lemma blocked_None_iff:
  "blocked i = None \<longleftrightarrow> modeRules (di_Mode i) \<noteq> None \<and> di_Blockers i = [] \<and> di_AgentID i \<noteq> []
     \<and> scope_Validate (request_scope i) = Ok () \<and> resolvableMatch (di_Match i)
     \<and> validAssessment (di_Assessment i)"
  by (auto simp: blocked_def selfDetected_def scope_Validate_Ok_iff split: list.splits if_splits)

lemma conclude_Verdict [simp]:
  "out_Verdict (conclude i v r) = v" "out_Reason (conclude i v r) = r"
  "out_Blocker (conclude i v r) = BlockerOther []" "out_Forbidden (conclude i v r) = NotForbidden"
  by (simp_all add: conclude_def Let_def)

lemma failClosed_simps [simp]:
  "out_Verdict (failClosed b) = VerdictDeny" "out_Reason (failClosed b) = ReasonFailClosed"
  "out_ApprovalRequirement (failClosed b) = ApprovalNone" "out_Confirmations (failClosed b) = 0"
  "out_MatchedLeaseID (failClosed b) = []" "out_MatchedMemoryID (failClosed b) = []"
  "out_Blocker (failClosed b) = b"
  by (simp_all add: failClosed_def)

text \<open>The branch table after the blockers and the forbidden list.\<close>

definition open_request :: "decision_input \<Rightarrow> bool" where
  "open_request i \<longleftrightarrow> blocked i = None
     \<and> classifyForbidden (scope_Service (request_scope i)) (scope_Operation (request_scope i))
         = NotForbidden"

lemma decide_open:
  assumes "open_request i"
  obtains r where "modeRules (di_Mode i) = Some r"
    and "run_branches branches i (automatable i) = Ok (decide i)"
proof -
  from assms obtain r where r: "modeRules (di_Mode i) = Some r"
    using blocked_None_mode by (auto simp: open_request_def)
  with assms that [OF r] show thesis
    by (simp add: decide_def open_request_def run_branches_eq [OF r])
qed

lemma decide_not_open:
  assumes "\<not> open_request i"
  shows "out_Verdict (decide i) = VerdictDeny \<and> out_ApprovalRequirement (decide i) = ApprovalNone
    \<and> out_Reason (decide i) \<in> {ReasonFailClosed, ReasonForbidden}
    \<and> out_Confirmations (decide i) = 0 \<and> out_MatchedLeaseID (decide i) = []
    \<and> out_MatchedMemoryID (decide i) = []"
  using assms by (auto simp: decide_def open_request_def split: option.splits forbidden.splits)

text \<open>The conditions under which a request may pass without a human.\<close>

definition auto_allowable :: "decision_input \<Rightarrow> bool" where
  "auto_allowable i \<longleftrightarrow> open_request i \<and> automatable i
     \<and> as_Level (di_Assessment i) \<noteq> LevelHigh
     \<and> (di_Learned i = [] \<or> matchedGrant i \<noteq> None) \<and> \<not> match_Ambiguous (di_Match i)
     \<and> (matchedLease i \<noteq> None
        \<or> (\<exists>r. modeRules (di_Mode i) = Some r
             \<and> (as_Level (di_Assessment i) = LevelLow \<and> lowRisk r i
                \<or> as_Level (di_Assessment i) = LevelMedium \<and> matchedGrant i \<noteq> None
                  \<and> learnedMedium r i)))"

lemma decide_AutoAllow_iff: "out_Verdict (decide i) = VerdictAutoAllow \<longleftrightarrow> auto_allowable i"
proof (cases "open_request i")
  case True
  then obtain r where r: "modeRules (di_Mode i) = Some r"
    and d: "run_branches branches i (automatable i) = Ok (decide i)" by (rule decide_open)
  from d [unfolded run_branches_eq [OF r]] r True show ?thesis
    unfolding auto_allowable_def by (auto split: if_split_asm dest: sym)
next
  case False
  then show ?thesis using decide_not_open [of i] by (simp add: auto_allowable_def)
qed

lemma decide_Deny_iff: "out_Verdict (decide i) = VerdictDeny \<longleftrightarrow> \<not> open_request i"
proof (cases "open_request i")
  case True
  then obtain r where r: "modeRules (di_Mode i) = Some r"
    and d: "run_branches branches i (automatable i) = Ok (decide i)" by (rule decide_open)
  from d [unfolded run_branches_eq [OF r]] True show ?thesis
    by (auto split: if_split_asm dest: sym)
qed (simp add: decide_not_open)

section \<open>Properties of the engine\<close>

definition example_decision :: decision_input where
  "example_decision = \<lparr>di_Mode = ModeBalanced, di_AgentID = ''agent'', di_AgentTrust = TrustKnown,
     di_Write = True, di_Match = hit example_identity MatchSoleIdentity,
     di_Scope = \<lparr>sr_Scope = example_scope\<lparr>scope_RequestLimit := 1\<rparr>, sr_Injection = [],
        sr_IgnoredFields = [], sr_Ambiguous = False, sr_EnvironmentAssumed = False\<rparr>,
     di_Assessment = \<lparr>as_Level = LevelMedium, as_Factors = [FactorDeclaredLabel]\<rparr>,
     di_ReadOnlyAutoAllow = False, di_NewService = False, di_IdentityChanged = False,
     di_NewIdentity = False, di_NewResource = False,
     di_Learned = [\<lparr>grant_MemoryID = ''m1'', grant_Scope = example_scope,
        grant_AlwaysAsk = False\<rparr>],
     di_Active = [], di_Blockers = []\<rparr>"

text \<open>C14: The engine fails closed.  An unknown mode, any blocker reported by the caller, an
  unidentified agent, an incomplete scope, a match that names neither one identity nor two
  candidates, or an unknown or unexplained risk level each lead to a denial with reason
  \<open>fail_closed\<close>: nothing to approve, no memory and no lease reported.\<close>

theorem decide_fails_closed:
  assumes "modeRules (di_Mode i) = None \<or> di_Blockers i \<noteq> [] \<or> di_AgentID i = []
    \<or> scope_Validate (request_scope i) \<noteq> Ok () \<or> \<not> resolvableMatch (di_Match i)
    \<or> \<not> validAssessment (di_Assessment i)"
  shows "\<exists>b. decide i = failClosed b \<and> out_Verdict (decide i) = VerdictDeny
    \<and> out_ApprovalRequirement (decide i) = ApprovalNone
    \<and> out_MatchedMemoryID (decide i) = [] \<and> out_MatchedLeaseID (decide i) = []"
proof -
  from assms have "blocked i \<noteq> None" unfolding blocked_None_iff by argo
  then obtain b where "blocked i = Some b" by blast
  then show ?thesis by (auto simp: decide_def)
qed

theorem decide_fails_closed_witness:
  "\<exists>b. decide (example_decision\<lparr>di_Blockers := [BlockerGatewayOffline]\<rparr>) = failClosed b"
  using decide_fails_closed [of "example_decision\<lparr>di_Blockers := [BlockerGatewayOffline]\<rparr>"]
  by auto

text \<open>C2: The exact conditions of an automatic approval.  \<open>Decide\<close> answers \<open>auto_allow\<close> if and
  only if nothing blocks the request and it is not forbidden, it is not high risk, it does not
  exceed what was learned, its identity is unambiguous, none of the four gates (identity under
  review, ambiguous resource, write by an unverified agent, a covering always-ask memory) is
  closed, and a covering lease exists, or the risk is low and the mode lets it pass, or the
  risk is medium and a covering memory exists and the mode lets it pass.\<close>

theorem decide_auto_allow_iff:
  "out_Verdict (decide i) = VerdictAutoAllow \<longleftrightarrow> auto_allowable i"
  by (rule decide_AutoAllow_iff)

text \<open>C35: High risk always meets a human.  Whatever mode, memory or lease there is, a high-risk
  request is denied or needs approval, and then by strong authentication, twice in cautious
  mode.\<close>

theorem high_risk_never_auto_allowed:
  assumes "as_Level (di_Assessment i) = LevelHigh"
  shows "out_Verdict (decide i) = VerdictDeny
    \<or> out_Verdict (decide i) = VerdictRequireApproval
      \<and> out_ApprovalRequirement (decide i) = ApprovalStrongAuth
      \<and> out_Confirmations (decide i) = (if di_Mode i = ModeCautious then 2 else 1)"
proof (cases "open_request i")
  case True
  then obtain r where r: "modeRules (di_Mode i) = Some r"
    and d: "run_branches branches i (automatable i) = Ok (decide i)" by (rule decide_open)
  from d [unfolded run_branches_eq [OF r]] assms
  have "decide i = conclude i VerdictRequireApproval ReasonHighRisk" by simp
  with assms r show ?thesis
    by (cases "di_Mode i") (auto simp: conclude_def Let_def RequiredConfirmations_def)
qed (use decide_not_open [of i] in blast)

theorem high_risk_never_auto_allowed_witness:
  "out_ApprovalRequirement (decide (example_decision\<lparr>di_Mode := ModeCautious,
     di_Assessment := \<lparr>as_Level = LevelHigh, as_Factors = [FactorDestructive]\<rparr>\<rparr>))
     = ApprovalStrongAuth
   \<and> out_Confirmations (decide (example_decision\<lparr>di_Mode := ModeCautious,
     di_Assessment := \<lparr>as_Level = LevelHigh, as_Factors = [FactorDestructive]\<rparr>\<rparr>)) = 2"
proof -
  let ?i = "example_decision\<lparr>di_Mode := ModeCautious,
     di_Assessment := \<lparr>as_Level = LevelHigh, as_Factors = [FactorDestructive]\<rparr>\<rparr>"
  have "out_Verdict (decide ?i) \<noteq> VerdictDeny" by code_simp
  then show ?thesis using high_risk_never_auto_allowed [of ?i] by simp
qed

text \<open>Modes only loosen.  Whatever is allowed automatically in cautious mode is allowed in
  balanced mode, and whatever is allowed in balanced mode is allowed in automatic mode; the set
  of denied requests is the same in all three.\<close>

theorem modes_monotone:
  assumes "out_Verdict (decide (i\<lparr>di_Mode := m\<rparr>)) = VerdictAutoAllow"
    and "(m, m') \<in> {(ModeCautious, ModeBalanced), (ModeBalanced, ModeAutomatic)}"
  shows "out_Verdict (decide (i\<lparr>di_Mode := m'\<rparr>)) = VerdictAutoAllow
    \<and> (\<forall>j. (out_Verdict (decide (j\<lparr>di_Mode := m\<rparr>)) = VerdictDeny)
         = (out_Verdict (decide (j\<lparr>di_Mode := m'\<rparr>)) = VerdictDeny))"
proof -
  have same: "matchedGrant (j\<lparr>di_Mode := n\<rparr>) = matchedGrant j"
    "matchedLease (j\<lparr>di_Mode := n\<rparr>) = matchedLease j"
    "automatable (j\<lparr>di_Mode := n\<rparr>) = automatable j" for j n
    by (simp_all add: matchedGrant_def matchedLease_def automatable_def asksAlways_def)
  have opn: "open_request (j\<lparr>di_Mode := m\<rparr>) = open_request (j\<lparr>di_Mode := m'\<rparr>)" for j
    using assms(2) by (auto simp: open_request_def blocked_None_iff)
  show ?thesis
    using assms opn unfolding decide_AutoAllow_iff decide_Deny_iff
    by (auto simp: auto_allowable_def same cautiousAutoAllow_def)
qed

theorem modes_monotone_witness:
  "out_Verdict (decide (example_decision\<lparr>di_Mode := ModeAutomatic\<rparr>)) = VerdictAutoAllow"
proof -
  have "out_Verdict (decide (example_decision\<lparr>di_Mode := ModeBalanced\<rparr>)) = VerdictAutoAllow"
    by code_simp
  from modes_monotone [OF this, of ModeAutomatic] show ?thesis by simp
qed

text \<open>C36: The forbidden list cannot be approved away.  A request against the gateway itself, or
  one whose operation name spells a reading verb together with a vault or credential noun (as
  one segment or as neighbouring segments), is denied whatever else the input says, with no
  approval to ask for.\<close>

theorem forbidden_always_denied:
  assumes "equal_fold (scope_Service (request_scope i)) SelfService
    \<or> spells readVerbs (scope_Operation (request_scope i))
      \<and> (spells vaultNouns (scope_Operation (request_scope i))
         \<or> spells credentialNouns (scope_Operation (request_scope i)))"
  shows "out_Verdict (decide i) = VerdictDeny
    \<and> out_ApprovalRequirement (decide i) = ApprovalNone \<and> out_Confirmations (decide i) = 0"
proof -
  from assms have "\<not> open_request i" by (simp add: open_request_def classify_iff [symmetric])
  then show ?thesis using decide_not_open [of i] by blast
qed

theorem forbidden_always_denied_witness:
  "out_Verdict (decide (example_decision\<lparr>di_Scope := (di_Scope example_decision)\<lparr>
     sr_Scope := example_scope\<lparr>scope_Operation := ''getAPIKeys''\<rparr>\<rparr>\<rparr>)) = VerdictDeny"
proof -
  have seg: "segmentsOf ''getAPIKeys'' = [''get'', ''a'', ''p'', ''i'', ''key'']" by code_simp
  have "spells readVerbs ''getAPIKeys''" unfolding spells_def seg
    by (rule exI [of _ "[''get'']"]) (auto simp: sublist_Cons_right readVerbs_def)
  moreover have "spells credentialNouns ''getAPIKeys''" unfolding spells_def seg
    by (rule exI [of _ "[''a'', ''p'', ''i'', ''key'']"])
      (auto simp: sublist_Cons_right credentialNouns_def)
  ultimately show ?thesis
    using forbidden_always_denied [of "example_decision\<lparr>di_Scope := (di_Scope example_decision)\<lparr>
     sr_Scope := example_scope\<lparr>scope_Operation := ''getAPIKeys''\<rparr>\<rparr>\<rparr>"] by simp
qed

text \<open>A reported lease really covers the request.  When the outcome names a lease to reuse,
  the verdict is an automatic approval, the lease is one of the active leases passed in, and
  its scope covers the request in the nine dimensions besides time.\<close>

theorem matched_lease_covers:
  assumes "out_MatchedLeaseID (decide i) \<noteq> []"
  shows "out_Verdict (decide i) = VerdictAutoAllow
    \<and> out_Reason (decide i) = ReasonActiveLease
    \<and> (\<exists>l \<in> set (di_Active i). al_LeaseID l = out_MatchedLeaseID (decide i)
          \<and> CoversIgnoringWindow (al_Scope l) (request_scope i))"
proof -
  from assms have opn: "open_request i" using decide_not_open [of i] by blast
  then obtain r where r: "modeRules (di_Mode i) = Some r"
    and d: "run_branches branches i (automatable i) = Ok (decide i)" by (rule decide_open)
  have none: "out_MatchedLeaseID (conclude i v x) = []" if "x \<noteq> ReasonActiveLease" for v x
    using that by (simp add: conclude_def Let_def)
  from d [unfolded run_branches_eq [OF r]] assms none obtain l where
    l: "matchedLease i = Some l" and dec: "decide i = conclude i VerdictAutoAllow ReasonActiveLease"
    by (auto split: if_split_asm dest: sym)
  from l have "l \<in> set (di_Active i)" "CoversIgnoringWindow (al_Scope l) (request_scope i)"
    by (auto simp: matchedLease_def find_Some_iff)
  with l show ?thesis unfolding dec by (auto simp: conclude_def Let_def)
qed

theorem matched_lease_covers_witness:
  "out_Reason (decide (example_decision\<lparr>di_Active :=
     [\<lparr>al_LeaseID = ''l1'', al_Scope = example_scope\<rparr>]\<rparr>)) = ReasonActiveLease"
proof -
  have "out_MatchedLeaseID (decide (example_decision\<lparr>di_Active :=
     [\<lparr>al_LeaseID = ''l1'', al_Scope = example_scope\<rparr>]\<rparr>)) \<noteq> []" by code_simp
  from matched_lease_covers [OF this] show ?thesis by simp
qed

text \<open>A learned risk ceiling does not bound what is allowed automatically.  In balanced mode
  a request assessed as medium is allowed by a memory whose scope is capped at low: the branch
  compares the ceiling of the memory with the declared label, never with the assessed level.\<close>

theorem learned_ceiling_not_enforced:
  "\<exists>i g. out_Verdict (decide i) = VerdictAutoAllow
     \<and> out_Reason (decide i) = ReasonTrustMemoryMatch \<and> matchedGrant i = Some g
     \<and> rank (scope_RiskCeiling (grant_Scope g)) < rank (as_Level (di_Assessment i))"
proof -
  let ?s = "example_scope\<lparr>scope_RiskCeiling := LevelLow\<rparr>"
  let ?g = "\<lparr>grant_MemoryID = ''m1'', grant_Scope = ?s, grant_AlwaysAsk = False\<rparr>"
  let ?i = "example_decision\<lparr>di_Learned := [?g],
     di_Scope := (di_Scope example_decision)\<lparr>sr_Scope := ?s\<rparr>\<rparr>"
  have "out_Verdict (decide ?i) = VerdictAutoAllow"
    and "out_Reason (decide ?i) = ReasonTrustMemoryMatch" and "matchedGrant ?i = Some ?g"
    and "rank (scope_RiskCeiling (grant_Scope ?g)) < rank (as_Level (di_Assessment ?i))"
    by code_simp+
  then show ?thesis by blast
qed

end
