(* ===== verification/Records.thy ===== *)
theory Records
  imports Decision
begin

text \<open>
  The records the gateway keeps: leases (\<open>core/lease/lease.go\<close>), approvals
  (\<open>core/approval/approval.go\<close>), trust memories (\<open>core/trust/memory.go\<close>), capability requests
  (\<open>core/pipeline/request.go\<close>), decisions (\<open>core/decision/decision.go\<close>), ledger entries
  (\<open>platform/audit/event.go\<close>) and credential references.  A JSON text column is a \<open>jtext\<close>; an optional text column is
  the empty string when it is NULL.
\<close>

section \<open>Leases\<close>

datatype lease_status = LeaseActive | LeaseExpired | LeaseExhausted | LeaseRevoked
  | LeaseStatusOther string

text \<open>\<open>Unlimited\<close> as a request limit: NULL in the table.\<close>

definition Unlimited :: int where "Unlimited = 0"

record lease =
  lease_ID :: string
  lease_AgentID :: string
  lease_IdentityID :: string
  lease_Service :: string
  lease_ResourceScope :: jtext
  lease_Capabilities :: jtext
  lease_ExpiresAt :: instant
  lease_RequestLimit :: int
  lease_UsedRequests :: int
  lease_Status :: lease_status
  lease_ApprovalID :: string
  lease_IsSessionBound :: bool
  lease_SourceMemoryID :: string
  lease_CreatedAt :: instant
  lease_UpdatedAt :: instant

section \<open>Approvals\<close>

text \<open>\<open>ActionOther []\<close> is the action of a pending approval.\<close>

datatype action = ActionDeny | ActionAllowOnce | ActionAllowUntilTaskEnd
  | ActionAutoAllowInProject | ActionAlwaysAsk | ActionOther string

datatype approval_status = ApprovalPending | ApprovalApproved | ApprovalRejected
  | ApprovalExpired | ApprovalCancelled | ApprovalStatusOther string

record approval =
  approval_ID :: string
  approval_DecisionID :: string
  approval_Action :: action
  approval_Status :: approval_status
  approval_ExpiresAt :: instant
  approval_DecidedAt :: instant
  approval_CreatedAt :: instant
  approval_UpdatedAt :: instant

section \<open>Trust memories\<close>

datatype behavior = BehaviorAutoAllow | BehaviorAlwaysAsk | BehaviorOther string

datatype memory_status = MemoryActive | MemoryInvalidated | MemoryStatusOther string

datatype invalidation_reason = ReasonProviderDisconnected | ReasonIdentityScopeChanged
  | ReasonAgentExecutableChanged | ReasonProjectFingerprintChanged | ReasonDeviceUntrusted
  | ReasonUnusedTooLong | ReasonCautiousModeSelected | ReasonAdapterRiskUpgraded
  | InvalidationReasonOther string

record memory =
  memory_ID :: string
  memory_AgentID :: string
  memory_WorkspaceID :: string
  memory_IdentityID :: string
  memory_Service :: string
  memory_ResourceScope :: jtext
  memory_CapabilityScope :: jtext
  memory_Environment :: environment
  memory_RiskCeiling :: level
  memory_Behavior :: behavior
  memory_CreatedFrom :: string
  memory_Status :: memory_status
  memory_InvalidationReason :: invalidation_reason
  memory_LastUsedAt :: instant
  memory_ExpiresAt :: instant
  memory_CreatedAt :: instant
  memory_UpdatedAt :: instant

section \<open>Capability requests\<close>

datatype request_status = StatusReceived | StatusResolving | StatusDeciding | StatusAutoAllowed
  | StatusAwaitingApproval | StatusDenied | StatusApproved | StatusRejected | StatusExpired
  | StatusCancelled | StatusExecuting | StatusSucceeded | StatusFailed | StatusOther string

record capability_request =
  request_ID :: string
  request_OperationID :: string
  request_AgentID :: string
  request_WorkspaceID :: string
  request_Service :: string
  request_Operation :: string
  request_Resource :: jtext
  request_DesiredChange :: jtext
  request_Reason :: string
  request_Status :: request_status
  request_ChangePreview :: jtext
  request_CreatedAt :: instant
  request_UpdatedAt :: instant

section \<open>Decisions\<close>

fun reason_text :: "reason \<Rightarrow> string" where
  "reason_text ReasonFailClosed = ''fail_closed''"
| "reason_text ReasonForbidden = ''forbidden''"
| "reason_text ReasonHighRisk = ''high_risk''"
| "reason_text ReasonBeyondLearnedScope = ''beyond_learned_scope''"
| "reason_text ReasonIdentityAmbiguous = ''identity_ambiguous''"
| "reason_text ReasonLowRisk = ''low_risk''"
| "reason_text ReasonTrustMemoryMatch = ''trust_memory_match''"
| "reason_text ReasonActiveLease = ''active_lease''"
| "reason_text ReasonRequiresConfirmation = ''requires_confirmation''"

fun blocker_text :: "blocker \<Rightarrow> string" where
  "blocker_text BlockerAgentUnidentified = ''agent_unidentified''"
| "blocker_text BlockerServiceUndetermined = ''service_undetermined''"
| "blocker_text BlockerIdentityAmbiguityUnresolvable = ''identity_ambiguity_unresolvable''"
| "blocker_text BlockerScopeUndeterminable = ''scope_undeterminable''"
| "blocker_text BlockerCapabilityNotOffered = ''capability_not_offered''"
| "blocker_text BlockerRiskUnknown = ''risk_unknown''"
| "blocker_text BlockerPolicyEngineFailure = ''policy_engine_failure''"
| "blocker_text BlockerGatewayOffline = ''gateway_offline''"
| "blocker_text BlockerCredentialSourceUnavailable = ''credential_source_unavailable''"
| "blocker_text BlockerAuditWriteFailed = ''audit_write_failed''"
| "blocker_text (BlockerOther s) = s"

fun factor_text :: "factor \<Rightarrow> string" where
  "factor_text FactorDeclaredLabel = ''adapter_declared_label''"
| "factor_text FactorReadOnly = ''read_only''"
| "factor_text FactorDestructive = ''destructive''"
| "factor_text FactorIrreversible = ''irreversible''"
| "factor_text FactorPermissionChange = ''permission_change''"
| "factor_text FactorSecretAccess = ''secret_access''"
| "factor_text FactorBilling = ''billing''"
| "factor_text FactorBulkChange = ''bulk_change''"
| "factor_text FactorProductionWrite = ''production_write''"
| "factor_text FactorBeyondHistory = ''beyond_history''"
| "factor_text FactorFirstSeen = ''first_seen''"
| "factor_text FactorAgentUnverified = ''agent_unverified''"
| "factor_text FactorUntrustedDevice = ''untrusted_device''"
| "factor_text FactorExternalCommunication = ''external_communication''"

record decision_record =
  decision_ID :: string
  decision_CapabilityRequestID :: string
  decision_Verdict :: verdict
  decision_RiskLevel :: level
  decision_RiskFactors :: jtext
  decision_IdentityID :: string
  decision_MatchLevel :: match_level
  decision_ResolvedScope :: jtext
  decision_ApprovalRequirement :: approval_requirement
  decision_ReasonCode :: string
  decision_TrustMemoryID :: string
  decision_CreatedAt :: instant

section \<open>Ledger entries\<close>

datatype event_type = EventAutoAllowed | EventUserAllowed | EventDenied | EventLeaseCreated
  | EventLeaseExpired | EventLeaseRevoked | EventAdapterExecuted | EventError
  | EventIdentityMatched | EventRiskChanged | EventScopeInjectionIgnored
  | EventSecretRequestBlocked | EventIdentityMismatch | EventAgentTrusted | EventTrustCleared
  | EventStrongAuthLocked | EventPruned | EventApprovalExpired | EventTypeOther string

datatype event_outcome = OutcomeSucceeded | OutcomeFailed | OutcomeBlocked
  | OutcomeOther string

text \<open>The ledger's own string types for verdict, risk level and lease status are the core's;
  the empty string is \<open>VerdictOther []\<close>, \<open>LevelOther []\<close> and \<open>LeaseStatusOther []\<close>.\<close>

record audit_event =
  event_ID :: string
  event_OperationID :: string
  event_Type :: event_type
  event_AgentID :: string
  event_DeviceID :: string
  event_WorkspaceID :: string
  event_IdentityID :: string
  event_CredentialProviderID :: string
  event_Service :: string
  event_Operation :: string
  event_Resource :: jtext
  event_ResolvedScope :: jtext
  event_Verdict :: verdict
  event_RiskLevel :: level
  event_DecisionID :: string
  event_ApprovalID :: string
  event_LeaseID :: string
  event_LeaseStatus :: lease_status
  event_Outcome :: event_outcome
  event_ResponseStatus :: int
  event_Duration :: duration
  event_IsRedacted :: bool
  event_Metadata :: jtext
  event_CreatedAt :: instant

definition empty_event :: audit_event where
  "empty_event = \<lparr>event_ID = [], event_OperationID = [], event_Type = EventTypeOther [],
     event_AgentID = [], event_DeviceID = [], event_WorkspaceID = [], event_IdentityID = [],
     event_CredentialProviderID = [], event_Service = [], event_Operation = [],
     event_Resource = NoText, event_ResolvedScope = NoText, event_Verdict = VerdictOther [],
     event_RiskLevel = LevelOther [], event_DecisionID = [], event_ApprovalID = [],
     event_LeaseID = [], event_LeaseStatus = LeaseStatusOther [],
     event_Outcome = OutcomeOther [], event_ResponseStatus = 0, event_Duration = 0,
     event_IsRedacted = False, event_Metadata = NoText, event_CreatedAt = 0\<rparr>"

section \<open>Credential providers and references\<close>

text \<open>\<open>credential/registry/reference.go\<close>: where a secret is fetched from; neither record holds one.\<close>

datatype provider_kind = KindOnePassword | KindMacOSKeychain | KindLocalVault | ProviderKindOther string

datatype health_status = HealthOK | HealthNeedsReauth | HealthUnavailable | HealthOther string

record credential_provider =
  cp_ID :: string
  cp_Kind :: provider_kind
  cp_Label :: string
  cp_CreatedAt :: instant
  cp_UpdatedAt :: instant

record credential_reference =
  cr_ID :: string
  cr_ProviderID :: string
  cr_ItemRef :: string
  cr_Field :: string
  cr_Service :: string
  cr_AccountLabel :: string
  cr_Metadata :: jtext
  cr_Capabilities :: jtext
  cr_HealthStatus :: health_status
  cr_LastVerifiedAt :: instant
  cr_CreatedAt :: instant
  cr_UpdatedAt :: instant

section \<open>Preferences\<close>

text \<open>\<open>platform/settings\<close>: one named value.\<close>

record setting =
  setting_ID :: string
  setting_Name :: string
  setting_Value :: string
  setting_CreatedAt :: instant
  setting_UpdatedAt :: instant

end
