(* ===== verification/World.thy ===== *)
theory World
  imports Records
begin

text \<open>
  The database, the clock and the identifier generator the stateful components share, and the
  computations that run on them.  Every SQL statement is one atomic step that may fail: the
  world carries the schedule of failures, of clock readings and of generated identifiers, so a
  theorem about all worlds speaks of every way a run can be cut short.  Tables are row lists in
  insertion order.  The locale \<open>db_history\<close> is the interface between the components: a reflexive
  and transitive relation between database states that a computation keeps to whatever fails.
\<close>

section \<open>Database and world\<close>

record db =
  db_agents :: "agent list"
  db_devices :: "device list"
  db_workspaces :: "workspace list"
  db_providers :: "credential_provider list"
  db_references :: "credential_reference list"
  db_identities :: "identity list"
  db_declarations :: "adapter_declaration list"
  db_settings :: "setting list"
  db_requests :: "capability_request list"
  db_decisions :: "decision_record list"
  db_approvals :: "approval list"
  db_leases :: "lease list"
  db_memories :: "memory list"
  db_audit :: "audit_event list"

record world =
  w_db :: db
  w_tick :: nat
  w_clock :: "nat \<Rightarrow> instant"
  w_ids :: "nat \<Rightarrow> string option"
  w_fault :: "nat \<Rightarrow> bool"

type_synonym 'a io = "world \<Rightarrow> 'a result \<times> world"

abbreviation tick :: "world \<Rightarrow> world" where
  "tick w \<equiv> w\<lparr>w_tick := Suc (w_tick w)\<rparr>"

definition io_return :: "'a \<Rightarrow> 'a io" where
  "io_return a = (\<lambda>w. (Ok a, w))"

definition io_lift :: "'a result \<Rightarrow> 'a io" where
  "io_lift r = (\<lambda>w. (r, w))"

definition io_fail :: "code \<Rightarrow> 'a io" where
  "io_fail c = (\<lambda>w. (Err c, w))"

definition io_bind :: "'a io \<Rightarrow> ('a \<Rightarrow> 'b io) \<Rightarrow> 'b io" where
  "io_bind m f = (\<lambda>w. case m w of (Inl e, w') \<Rightarrow> (Inl e, w') | (Inr a, w') \<Rightarrow> f a w')"

text \<open>Handling an error, and recovering from a panic only.\<close>

definition io_catch :: "'a io \<Rightarrow> (code \<Rightarrow> 'a io) \<Rightarrow> 'a io" where
  "io_catch m h = (\<lambda>w. case m w of (Inl (Fail c), w') \<Rightarrow> h c w' | other \<Rightarrow> other)"

definition io_recover :: "'a io \<Rightarrow> 'a io \<Rightarrow> 'a io" where
  "io_recover m h = (\<lambda>w. case m w of (Inl Panic, w') \<Rightarrow> h w' | other \<Rightarrow> other)"

text \<open>An error becomes a value: Go code that inspects \<open>err\<close> and goes on.\<close>

definition io_try :: "'a io \<Rightarrow> (code + 'a) io" where
  "io_try m = (\<lambda>w. case m w of
      (Inl (Fail c), w') \<Rightarrow> (Ok (Inl c), w')
    | (Inl Panic, w') \<Rightarrow> (Inl Panic, w')
    | (Inr a, w') \<Rightarrow> (Ok (Inr a), w'))"

definition io_now :: "instant io" where
  "io_now = (\<lambda>w. (Ok (w_clock w (w_tick w)), tick w))"

definition io_new_id :: "string io" where
  "io_new_id = (\<lambda>w. ((case w_ids w (w_tick w) of None \<Rightarrow> Err CodeInternal | Some i \<Rightarrow> Ok i), tick w))"

definition io_read :: "(db \<Rightarrow> 'a result) \<Rightarrow> 'a io" where
  "io_read f = (\<lambda>w. if w_fault w (w_tick w) then (Err CodeInternal, tick w)
                   else (f (w_db w), tick w))"

text \<open>A statement that writes: either it fails and leaves the database as it was, or it
  applies as a whole.\<close>

definition io_write :: "(db \<Rightarrow> ('a \<times> db) result) \<Rightarrow> 'a io" where
  "io_write f = (\<lambda>w. if w_fault w (w_tick w) then (Err CodeInternal, tick w)
     else (case f (w_db w) of
             Inl e \<Rightarrow> (Inl e, tick w)
           | Inr (a, d) \<Rightarrow> (Ok a, tick (w\<lparr>w_db := d\<rparr>))))"

fun io_mapM :: "('a \<Rightarrow> 'b io) \<Rightarrow> 'a list \<Rightarrow> 'b list io" where
  "io_mapM f [] = io_return []"
| "io_mapM f (x # xs) = io_bind (f x) (\<lambda>y. io_bind (io_mapM f xs) (\<lambda>ys. io_return (y # ys)))"

section \<open>SQL on row lists\<close>

text \<open>\<open>SELECT ... WHERE key = ?\<close> of a unique key.\<close>

definition row_by :: "('r \<Rightarrow> 'k) \<Rightarrow> 'k \<Rightarrow> 'r list \<Rightarrow> 'r option" where
  "row_by key k rows = find (\<lambda>r. key r = k) rows"

text \<open>\<open>UPDATE ... SET ... WHERE id = ? AND condition RETURNING ...\<close>: \<open>None\<close> when no row
  qualifies; a row that violates a CHECK rolls the statement back.\<close>

definition sql_update ::
    "('r \<Rightarrow> bool) \<Rightarrow> ('r \<Rightarrow> bool) \<Rightarrow> ('r \<Rightarrow> 'r) \<Rightarrow> 'r list \<Rightarrow> ('r \<times> 'r list) option result" where
  "sql_update check selected upd rows =
     (case find selected rows of
        None \<Rightarrow> Ok None
      | Some r \<Rightarrow>
          if check (upd r) then Ok (Some (upd r, map (\<lambda>x. if selected x then upd x else x) rows))
          else Err CodeInvalidRequest)"

text \<open>\<open>INSERT\<close>: CHECK constraints, then unique keys, then foreign keys, as \<open>writeError\<close>
  translates them.\<close>

definition sql_insert :: "bool \<Rightarrow> bool \<Rightarrow> bool \<Rightarrow> 'r \<Rightarrow> 'r list \<Rightarrow> ('r \<times> 'r list) result" where
  "sql_insert check unique refs r rows =
     (if \<not> check then Err CodeInvalidRequest
      else if \<not> unique then Err CodeConflict
      else if \<not> refs then Err CodeInvalidRequest
      else Ok (r, rows @ [r]))"

definition ref_ok :: "string \<Rightarrow> string list \<Rightarrow> bool" where
  "ref_ok k keys \<longleftrightarrow> k \<in> set keys"

text \<open>A nullable reference column: the empty string is NULL.\<close>

definition opt_ref_ok :: "string \<Rightarrow> string list \<Rightarrow> bool" where
  "opt_ref_ok k keys \<longleftrightarrow> k = [] \<or> k \<in> set keys"

section \<open>Column encodings (store/repo/repo.go)\<close>

text \<open>Time columns keep milliseconds; the fixed-width text orders like the instants.\<close>

definition encodeTime :: "instant \<Rightarrow> instant" where
  "encodeTime t = (t div millisecond) * millisecond"

definition optionalCount :: "int \<Rightarrow> int" where
  "optionalCount n = (if n \<le> 0 then 0 else n)"

definition optionalTime :: "instant \<Rightarrow> instant" where
  "optionalTime t = (if t = 0 then 0 else encodeTime t)"

definition decodeCount :: "int \<Rightarrow> int result" where
  "decodeCount n = (if n < 0 \<or> n > 2147483647 then Err CodeInternal else Ok n)"

definition invalidLimit :: "'a result" where
  "invalidLimit = Err CodeInvalidRequest"

text \<open>\<open>readError\<close> on a missing row.\<close>

definition found :: "'r option \<Rightarrow> 'r result" where
  "found r = (case r of None \<Rightarrow> Err CodeNotFound | Some x \<Rightarrow> Ok x)"

section \<open>Basic laws\<close>

lemma encodeTime_le: "encodeTime t \<le> t"
  by (simp add: encodeTime_def duration_defs minus_mod_eq_div_mult [symmetric])

lemma encodeTime_idem [simp]: "encodeTime (encodeTime t) = encodeTime t"
  by (simp add: encodeTime_def duration_defs)

lemma encodeTime_less_iff: "encodeTime s < encodeTime t \<longleftrightarrow> s < encodeTime t"
proof -
  have "s div 1000000 < t div 1000000 \<longleftrightarrow> s < t div 1000000 * (1000000 :: int)"
    using div_mult_mod_eq [of s 1000000] pos_mod_bound [of 1000000 s] pos_mod_sign [of 1000000 s]
    by linarith
  then show ?thesis by (simp add: encodeTime_def duration_defs)
qed

lemma encodeTime_mono: "s \<le> t \<Longrightarrow> encodeTime s \<le> encodeTime t"
  by (simp add: encodeTime_def duration_defs zdiv_mono1)

lemma sql_update_Some:
  assumes "sql_update check selected upd rows = Ok (Some (r', rows'))"
  obtains r where "find selected rows = Some r" "r' = upd r" "check (upd r)"
    "rows' = map (\<lambda>x. if selected x then upd x else x) rows"
  using assms that by (auto simp: sql_update_def split: option.splits if_splits)

text \<open>The row an update returns is in the table it leaves.\<close>

lemma sql_update_row:
  assumes "sql_update check selected upd rows = Ok (Some (r', rows'))"
  obtains r where "r \<in> set rows" "selected r" "r' = upd r" "check r'" "r' \<in> set rows'"
    "rows' = map (\<lambda>x. if selected x then upd x else x) rows"
proof -
  from assms obtain r where r: "find selected rows = Some r" "r' = upd r" "check (upd r)"
    "rows' = map (\<lambda>x. if selected x then upd x else x) rows" by (elim sql_update_Some)
  then have "r \<in> set rows" "selected r" by (auto simp: find_Some_iff)
  with r that show thesis by force
qed

lemma sql_insert_Ok:
  "sql_insert check unique refs r rows = Ok (r', rows') \<longleftrightarrow>
     check \<and> unique \<and> refs \<and> r' = r \<and> rows' = rows @ [r]"
  by (auto simp: sql_insert_def)

lemma io_bind_return [simp]: "io_bind (io_return a) f = f a"
  by (simp add: io_bind_def io_return_def)

lemma io_bind_Ok:
  assumes "io_bind m f w = (Inr b, w')"
  obtains a w1 where "m w = (Inr a, w1)" "f a w1 = (Inr b, w')"
  using assms by (auto simp: io_bind_def split: prod.splits sum.splits)

lemma io_lift_Ok: "io_lift r w = (Inr b, w') \<longleftrightarrow> r = Inr b \<and> w' = w"
  by (auto simp: io_lift_def)

lemma io_return_Ok: "io_return a w = (Inr b, w') \<longleftrightarrow> b = a \<and> w' = w"
  by (auto simp: io_return_def)

lemma io_fail_Ok: "io_fail c w = (Inr b, w') \<longleftrightarrow> False"
  by (simp add: io_fail_def)

lemma io_now_Ok: "io_now w = (Inr t, w') \<longleftrightarrow> t = w_clock w (w_tick w) \<and> w' = tick w"
  by (auto simp: io_now_def)

lemma io_read_Ok:
  "io_read f w = (Inr b, w') \<longleftrightarrow> \<not> w_fault w (w_tick w) \<and> f (w_db w) = Inr b \<and> w' = tick w"
  by (auto simp: io_read_def)

lemma io_write_Ok:
  "io_write f w = (Inr b, w') \<longleftrightarrow> \<not> w_fault w (w_tick w)
     \<and> (\<exists>d. f (w_db w) = Inr (b, d) \<and> w' = tick (w\<lparr>w_db := d\<rparr>))"
  by (auto simp: io_write_def split: sum.splits)

lemma io_bind_Ok_iff:
  "io_bind m f w = (Inr b, w') \<longleftrightarrow> (\<exists>a w1. m w = (Inr a, w1) \<and> f a w1 = (Inr b, w'))"
  by (auto simp: io_bind_def split: prod.splits sum.splits)

text \<open>What a computation that returned without an error has done, step by step.\<close>

lemmas io_Ok_iffs = io_bind_Ok_iff io_lift_Ok io_return_Ok io_fail_Ok io_now_Ok io_read_Ok
  io_write_Ok

section \<open>Histories\<close>

text \<open>
  What one run of a computation does to the database, whatever statement fails.  A component
  states its guarantee as a relation between the database before and after; the laws below let
  guarantees of statements compose into guarantees of whole operations.
\<close>

locale db_history =
  fixes R :: "db \<Rightarrow> db \<Rightarrow> bool"
  assumes hist_refl: "R d d"
    and hist_trans: "R a b \<Longrightarrow> R b c \<Longrightarrow> R a c"
begin

definition keeps :: "'a io \<Rightarrow> bool" where
  "keeps m \<longleftrightarrow> (\<forall>w. R (w_db w) (w_db (snd (m w))))"

lemma keeps_pure:
  "keeps (io_return a)" "keeps (io_lift r)" "keeps (io_fail c)" "keeps io_now"
  "keeps io_new_id" "keeps (io_read g)"
  by (simp_all add: keeps_def io_return_def io_lift_def io_fail_def io_now_def io_new_id_def
      io_read_def hist_refl)

lemma keeps_bind:
  assumes "keeps m" and "\<And>a. keeps (f a)"
  shows "keeps (io_bind m f)"
  unfolding keeps_def
proof
  fix w
  obtain r w1 where m: "m w = (r, w1)" by (cases "m w")
  then have 1: "R (w_db w) (w_db w1)" using assms(1) by (metis keeps_def snd_conv)
  show "R (w_db w) (w_db (snd (io_bind m f w)))"
  proof (cases r)
    case (Inl e)
    with m 1 show ?thesis by (simp add: io_bind_def)
  next
    case (Inr a)
    have "R (w_db w1) (w_db (snd (f a w1)))" using assms(2) by (simp add: keeps_def)
    with hist_trans [OF 1] m Inr show ?thesis by (simp add: io_bind_def)
  qed
qed

lemma keeps_catch:
  assumes "keeps m" and "\<And>c. keeps (h c)"
  shows "keeps (io_catch m h)"
  unfolding keeps_def
proof
  fix w
  obtain r w1 where m: "m w = (r, w1)" by (cases "m w")
  then have 1: "R (w_db w) (w_db w1)" using assms(1) by (metis keeps_def snd_conv)
  have "R (w_db w1) (w_db (snd (h c w1)))" for c using assms(2) by (simp add: keeps_def)
  with m 1 show "R (w_db w) (w_db (snd (io_catch m h w)))"
    using hist_trans by (auto simp: io_catch_def split: sum.split go_error.split)
qed

lemma keeps_try:
  assumes "keeps m"
  shows "keeps (io_try m)"
  unfolding keeps_def
proof
  fix w
  obtain r w1 where m: "m w = (r, w1)" by (cases "m w")
  then have "R (w_db w) (w_db w1)" using assms(1) by (metis keeps_def snd_conv)
  with m show "R (w_db w) (w_db (snd (io_try m w)))"
    by (auto simp: io_try_def split: sum.split go_error.split)
qed

lemma keeps_recover:
  assumes "keeps m" and "keeps h"
  shows "keeps (io_recover m h)"
  unfolding keeps_def
proof
  fix w
  obtain r w1 where m: "m w = (r, w1)" by (cases "m w")
  then have 1: "R (w_db w) (w_db w1)" using assms(1) by (metis keeps_def snd_conv)
  have "R (w_db w1) (w_db (snd (h w1)))" using assms(2) by (simp add: keeps_def)
  with m 1 show "R (w_db w) (w_db (snd (io_recover m h w)))"
    using hist_trans by (auto simp: io_recover_def split: sum.split go_error.split)
qed

lemma keeps_write:
  assumes "\<And>d a d'. f d = Ok (a, d') \<Longrightarrow> R d d'"
  shows "keeps (io_write f)"
  unfolding keeps_def io_write_def using assms hist_refl by (auto split: sum.split)

lemma keeps_mapM: "(\<And>x. keeps (f x)) \<Longrightarrow> keeps (io_mapM f xs)"
  by (induction xs) (auto intro!: keeps_bind keeps_pure)

lemma keeps_if: "keeps m \<Longrightarrow> keeps n \<Longrightarrow> keeps (if b then m else n)"
  by simp

lemma keeps_option:
  "keeps m \<Longrightarrow> (\<And>x. keeps (f x)) \<Longrightarrow> keeps (case v of None \<Rightarrow> m | Some x \<Rightarrow> f x)"
  by (cases v) auto

lemma keeps_sum:
  "(\<And>x. keeps (f x)) \<Longrightarrow> (\<And>x. keeps (g x))
   \<Longrightarrow> keeps (case v of Inl x \<Rightarrow> f x | Inr x \<Rightarrow> g x)"
  by (cases v) auto

lemma keeps_prod: "(\<And>x y. keeps (f x y)) \<Longrightarrow> keeps (case v of (x, y) \<Rightarrow> f x y)"
  by (cases v) auto

lemmas keeps_rules = keeps_pure keeps_bind keeps_catch keeps_try keeps_recover
  keeps_mapM keeps_if keeps_option keeps_sum keeps_prod

lemma keepsD: "keeps m \<Longrightarrow> m w = (r, w') \<Longrightarrow> R (w_db w) (w_db w')"
  by (metis keeps_def snd_conv)

end

section \<open>Tables that only grow\<close>

text \<open>A table from which no row is deleted: rows keep their place, and each evolves by \<open>E\<close>.\<close>

definition rows_evolve :: "('r \<Rightarrow> 'r \<Rightarrow> bool) \<Rightarrow> 'r list \<Rightarrow> 'r list \<Rightarrow> bool" where
  "rows_evolve E xs ys \<longleftrightarrow> length xs \<le> length ys \<and> (\<forall>i < length xs. E (xs ! i) (ys ! i))"

locale growing_table =
  fixes E :: "'r \<Rightarrow> 'r \<Rightarrow> bool"
  assumes row_refl: "E r r"
    and row_trans: "E a b \<Longrightarrow> E b c \<Longrightarrow> E a c"
begin

lemma evolve_refl: "rows_evolve E xs xs"
  by (simp add: rows_evolve_def row_refl)

lemma evolve_trans: "rows_evolve E xs ys \<Longrightarrow> rows_evolve E ys zs \<Longrightarrow> rows_evolve E xs zs"
  unfolding rows_evolve_def using row_trans by (meson le_trans less_le_trans)

lemma evolve_append: "rows_evolve E xs (xs @ ys)"
  by (simp add: rows_evolve_def nth_append row_refl)

lemma evolve_update:
  "(\<And>x. P x \<Longrightarrow> E x (f x)) \<Longrightarrow> rows_evolve E xs (map (\<lambda>x. if P x then f x else x) xs)"
  by (simp add: rows_evolve_def row_refl)

lemma evolve_sql_update:
  assumes "sql_update check P f rows = Ok (Some (r, rows'))" and "\<And>x. P x \<Longrightarrow> E x (f x)"
  shows "rows_evolve E rows rows'"
  using assms by (elim sql_update_Some) (auto intro!: evolve_update)

lemma evolve_member:
  assumes "rows_evolve E xs ys" and "x \<in> set xs"
  obtains y where "y \<in> set ys" "E x y"
  using assms by (metis in_set_conv_nth less_le_trans rows_evolve_def)

end

end
