(* ===== verification/Tables.thy ===== *)
theory Tables
  imports World
begin

text \<open>
  Tables with a primary key and CHECK constraints: what inserts and conditional updates keep of
  them, and what a run that failed has left behind.
\<close>

definition table_ok :: "('r \<Rightarrow> 'k) \<Rightarrow> ('r \<Rightarrow> bool) \<Rightarrow> 'r list \<Rightarrow> bool" where
  "table_ok key check rows \<longleftrightarrow> distinct (map key rows) \<and> list_all check rows"

lemma table_ok_same:
  "table_ok key check rows \<Longrightarrow> x \<in> set rows \<Longrightarrow> y \<in> set rows \<Longrightarrow> key x = key y \<Longrightarrow> x = y"
  unfolding table_ok_def by (metis distinct_map inj_onD)

lemma table_ok_check: "table_ok key check rows \<Longrightarrow> x \<in> set rows \<Longrightarrow> check x"
  by (auto simp: table_ok_def list_all_iff)

lemma table_ok_insert:
  "table_ok key check rows \<Longrightarrow> check r \<Longrightarrow> key r \<notin> key ` set rows \<Longrightarrow> table_ok key check (rows @ [r])"
  by (auto simp: table_ok_def)

lemma table_ok_filter: "table_ok key check rows \<Longrightarrow> table_ok key check (filter P rows)"
  by (auto simp: table_ok_def list_all_iff distinct_map_filter)

lemma table_ok_update:
  assumes ok: "table_ok key check rows"
    and u: "sql_update check P f rows = Ok (Some (r', rows'))"
    and key: "\<And>y. P y \<Longrightarrow> key y = k" and id: "\<And>y. key (f y) = key y"
  shows "table_ok key check rows'"
proof -
  from u obtain r where r: "r \<in> set rows" "P r" "r' = f r" "check r'"
    and rows': "rows' = map (\<lambda>x. if P x then f x else x) rows"
    by (elim sql_update_row) blast
  have "check (if P x then f x else x)" if "x \<in> set rows" for x
    using that ok r key table_ok_same [OF ok that r(1)] table_ok_check [OF ok that] by auto
  then have "list_all check rows'" unfolding rows' list_all_iff set_map by blast
  moreover have "map key rows' = map key rows" using id rows' by simp
  ultimately show ?thesis using ok by (simp add: table_ok_def)
qed

text \<open>A failing write has left the database as it was.\<close>

lemma io_write_Err: "io_write f w = (Inl e, w') \<Longrightarrow> w_db w' = w_db w"
  by (auto simp: io_write_def split: sum.splits if_splits)

lemma io_read_db: "w_db (snd (io_read f w)) = w_db w"
  by (simp add: io_read_def)

lemma io_new_id_Ok: "io_new_id w = (Inr i, w') \<longleftrightarrow> w_ids w (w_tick w) = Some i \<and> w' = tick w"
  by (auto simp: io_new_id_def split: option.splits)

lemma io_try_Ok: "io_try m w = (Inr r, w') \<longleftrightarrow>
    (\<exists>c. r = Inl c \<and> m w = (Inl (Fail c), w')) \<or> (\<exists>x. r = Inr x \<and> m w = (Inr x, w'))"
  by (cases "m w"; cases "fst (m w)") (auto simp: io_try_def split: go_error.splits)

lemma found_row_by_Ok:
  "found (row_by key k rows) = Ok r \<Longrightarrow> r \<in> set rows \<and> key r = k"
  by (auto simp: found_def row_by_def find_Some_iff split: option.splits)

section \<open>Closing rows\<close>

text \<open>
  The contract of a step that closes the row with the key of the item it works on: after it
  succeeded, a row that is still open was open before and has another key.  Sweeps and cascades
  run such a step over a list.
\<close>

locale closing =
  fixes rows :: "db \<Rightarrow> 'r list" and key :: "'r \<Rightarrow> string" and opened :: "'r \<Rightarrow> bool"
    and shut :: "'x \<Rightarrow> 'a io" and ident :: "'x \<Rightarrow> string"
  assumes shut_Ok: "shut x w = (Ok a, w') \<Longrightarrow> r \<in> set (rows (w_db w')) \<Longrightarrow> opened r
      \<Longrightarrow> r \<in> set (rows (w_db w)) \<and> key r \<noteq> ident x"
begin

lemma shut_all:
  assumes "io_mapM shut xs w = (Ok as, w')"
    and "r \<in> set (rows (w_db w'))" and "opened r"
  shows "r \<in> set (rows (w_db w)) \<and> key r \<notin> ident ` set xs"
  using assms(1)
proof (induction xs arbitrary: w as)
  case Nil
  with assms(2) show ?case by (simp add: io_return_def)
next
  case (Cons x xs)
  then obtain a w1 bs where x: "shut x w = (Ok a, w1)"
    and xs: "io_mapM shut xs w1 = (Ok bs, w')" by (auto simp: io_Ok_iffs)
  from Cons.IH [OF xs] shut_Ok [OF x _ assms(3)] show ?case by auto
qed

text \<open>A pass over every open row of interest leaves none of them open.\<close>

lemma shut_complete:
  assumes run: "io_mapM shut xs w = (Ok as, w')"
    and all: "\<And>r. r \<in> set (rows (w_db w)) \<Longrightarrow> opened r \<Longrightarrow> P r \<Longrightarrow> key r \<in> ident ` set xs"
    and r: "r \<in> set (rows (w_db w'))" "P r"
  shows "\<not> opened r"
  using shut_all [OF run r(1)] all r(2) by blast

end

text \<open>A list of at most \<open>limit\<close> rows is not cut.\<close>

lemma select_all:
  "int (length (filter P rows)) \<le> limit
   \<Longrightarrow> set (take (nat limit) (sort_key k (filter P rows))) = {r \<in> set rows. P r}"
  by (simp add: take_all)

lemma select_subset: "set (take n (sort_key k (filter P rows))) \<subseteq> {r \<in> set rows. P r}"
  using set_take_subset [of n "sort_key k (filter P rows)"] by auto

section \<open>Sample worlds\<close>

text \<open>A world over a given database in which nothing fails: the clock ticks once a millisecond,
  identifiers are fresh.\<close>

definition empty_db :: db where
  "empty_db = \<lparr>db_agents = [], db_devices = [], db_workspaces = [], db_providers = [], db_references = [],
     db_identities = [], db_declarations = [], db_settings = [], db_requests = [], db_decisions = [], db_approvals = [],
     db_leases = [], db_memories = [], db_audit = []\<rparr>"

definition sample_world :: "db \<Rightarrow> world" where
  "sample_world d = \<lparr>w_db = d, w_tick = 1, w_clock = (\<lambda>n. int n * millisecond),
     w_ids = (\<lambda>n. Some (replicate n CHR ''x'')), w_fault = (\<lambda>n. False)\<rparr>"

lemma is_ok_result: "is_ok (fst p) \<Longrightarrow> \<exists>a w. p = (Inr a, w)"
  by (metis is_ok.simps(1) prod.collapse sum.exhaust)

end
