(* ===== verification/Lease_Repo.thy ===== *)
theory Lease_Repo
  imports Tables
begin

text \<open>
  The lease table and its repository (\<open>internal/store/repo/lease.go\<close>, with the statements of
  \<open>internal/store/queries/leases.sql.go\<close>).  Every statement is a function on the row list; the
  repository operations wrap it with the checks and the error translation of the Go code.
\<close>

section \<open>Constraints\<close>

definition lease_check :: "lease \<Rightarrow> bool" where
  "lease_check l \<longleftrightarrow> json_valid (lease_ResourceScope l) \<and> json_valid (lease_Capabilities l)
     \<and> 0 \<le> lease_RequestLimit l \<and> 0 \<le> lease_UsedRequests l
     \<and> lease_Status l \<in> {LeaseActive, LeaseExpired, LeaseExhausted, LeaseRevoked}
     \<and> (lease_RequestLimit l = 0 \<or> lease_UsedRequests l \<le> lease_RequestLimit l)"

definition lease_unique :: "lease \<Rightarrow> lease list \<Rightarrow> bool" where
  "lease_unique l rows \<longleftrightarrow> lease_ID l \<notin> lease_ID ` set rows
     \<and> (lease_ApprovalID l = [] \<or> lease_ApprovalID l \<notin> lease_ApprovalID ` set rows)"

definition lease_refs :: "lease \<Rightarrow> db \<Rightarrow> bool" where
  "lease_refs l d \<longleftrightarrow> ref_ok (lease_AgentID l) (map agent_ID (db_agents d))
     \<and> ref_ok (lease_IdentityID l) (map identity_ID (db_identities d))
     \<and> opt_ref_ok (lease_ApprovalID l) (map approval_ID (db_approvals d))
     \<and> opt_ref_ok (lease_SourceMemoryID l) (map memory_ID (db_memories d))"

section \<open>Statements\<close>

text \<open>The row that \<open>CreateLease\<close> inserts.\<close>

definition lease_row :: "lease \<Rightarrow> lease" where
  "lease_row l = l\<lparr>lease_ExpiresAt := encodeTime (lease_ExpiresAt l),
     lease_RequestLimit := optionalCount (lease_RequestLimit l),
     lease_CreatedAt := encodeTime (lease_CreatedAt l),
     lease_UpdatedAt := encodeTime (lease_UpdatedAt l)\<rparr>"

definition createLease :: "lease \<Rightarrow> db \<Rightarrow> (lease \<times> db) result" where
  "createLease l d =
     rbind (sql_insert (lease_check l) (lease_unique l (db_leases d)) (lease_refs l d) l (db_leases d))
       (\<lambda>(r, rows). Ok (r, d\<lparr>db_leases := rows\<rparr>))"

definition consumable :: "string \<Rightarrow> instant \<Rightarrow> lease \<Rightarrow> bool" where
  "consumable i now l \<longleftrightarrow> lease_ID l = i \<and> lease_Status l = LeaseActive \<and> lease_ExpiresAt l > now
     \<and> (lease_RequestLimit l = 0 \<or> lease_UsedRequests l < lease_RequestLimit l)"

definition consumeLease :: "string \<Rightarrow> instant \<Rightarrow> lease list \<Rightarrow> (lease \<times> lease list) option result"
where
  "consumeLease i now rows =
     sql_update lease_check (consumable i now)
       (\<lambda>l. l\<lparr>lease_UsedRequests := lease_UsedRequests l + 1, lease_UpdatedAt := now\<rparr>) rows"

definition closeLease ::
    "string \<Rightarrow> lease_status \<Rightarrow> instant \<Rightarrow> lease list \<Rightarrow> (lease \<times> lease list) option result" where
  "closeLease i st at rows =
     sql_update lease_check (\<lambda>l. lease_ID l = i \<and> lease_Status l = LeaseActive)
       (\<lambda>l. l\<lparr>lease_Status := st, lease_UpdatedAt := at\<rparr>) rows"

definition shortenLease ::
    "string \<Rightarrow> instant \<Rightarrow> instant \<Rightarrow> lease list \<Rightarrow> (lease \<times> lease list) option result" where
  "shortenLease i expiresAt at rows =
     sql_update lease_check
       (\<lambda>l. lease_ID l = i \<and> lease_Status l = LeaseActive \<and> lease_ExpiresAt l > expiresAt)
       (\<lambda>l. l\<lparr>lease_ExpiresAt := expiresAt, lease_UpdatedAt := at\<rparr>) rows"

text \<open>\<open>ORDER BY expires_at LIMIT ?\<close>.\<close>

definition select_leases :: "(lease \<Rightarrow> bool) \<Rightarrow> int \<Rightarrow> lease list \<Rightarrow> lease list" where
  "select_leases P limit rows = take (nat limit) (sort_key lease_ExpiresAt (filter P rows))"

section \<open>The repository\<close>

text \<open>\<open>toLease\<close>: the counts must fit; times and flags written by the repository decode.\<close>

definition toLease :: "lease \<Rightarrow> lease result" where
  "toLease l = rbind (decodeCount (lease_RequestLimit l)) (\<lambda>_.
     rbind (decodeCount (lease_UsedRequests l)) (\<lambda>_. Ok l))"

fun toLeases :: "lease list \<Rightarrow> lease list result" where
  "toLeases [] = Ok []"
| "toLeases (l # ls) = rbind (toLease l) (\<lambda>x. rbind (toLeases ls) (\<lambda>xs. Ok (x # xs)))"

text \<open>A conditional update of the lease table; no row is the given error.\<close>

definition update_lease ::
    "(lease list \<Rightarrow> (lease \<times> lease list) option result) \<Rightarrow> code \<Rightarrow> db \<Rightarrow> (lease \<times> db) result" where
  "update_lease stmt none d =
     rbind (stmt (db_leases d)) (\<lambda>res. case res of
        None \<Rightarrow> Err none
      | Some (r, rows) \<Rightarrow> Ok (r, d\<lparr>db_leases := rows\<rparr>))"

definition IssueLease :: "lease \<Rightarrow> lease io" where
  "IssueLease l = io_bind (io_write (createLease (lease_row l))) (\<lambda>r. io_lift (toLease r))"

definition LeaseByID :: "string \<Rightarrow> lease io" where
  "LeaseByID i = io_read (\<lambda>d. rbind (found (row_by lease_ID i (db_leases d))) toLease)"

definition LeaseByApprovalID :: "string \<Rightarrow> lease io" where
  "LeaseByApprovalID a =
     (if a = [] then io_fail CodeNotFound
      else io_read (\<lambda>d. rbind (found (row_by lease_ApprovalID a (db_leases d))) toLease))"

definition list_leases :: "(lease \<Rightarrow> bool) \<Rightarrow> int \<Rightarrow> lease list io" where
  "list_leases P limit =
     (if limit \<le> 0 then io_lift invalidLimit
      else io_read (\<lambda>d. toLeases (select_leases P limit (db_leases d))))"

definition ActiveLeasesByIdentity :: "string \<Rightarrow> int \<Rightarrow> lease list io" where
  "ActiveLeasesByIdentity i limit =
     list_leases (\<lambda>l. lease_IdentityID l = i \<and> lease_Status l = LeaseActive) limit"

definition ActiveSessionBoundLeasesByAgent :: "string \<Rightarrow> int \<Rightarrow> lease list io" where
  "ActiveSessionBoundLeasesByAgent a limit =
     list_leases (\<lambda>l. lease_AgentID l = a \<and> lease_Status l = LeaseActive \<and> lease_IsSessionBound l)
       limit"

definition LeasesByStatus :: "lease_status \<Rightarrow> int \<Rightarrow> lease list io" where
  "LeasesByStatus st limit = list_leases (\<lambda>l. lease_Status l = st) limit"

definition ActiveLeasesDueBefore :: "instant \<Rightarrow> int \<Rightarrow> lease list io" where
  "ActiveLeasesDueBefore deadline limit =
     list_leases (\<lambda>l. lease_Status l = LeaseActive \<and> lease_ExpiresAt l \<le> encodeTime deadline) limit"

definition Consume :: "string \<Rightarrow> instant \<Rightarrow> lease io" where
  "Consume i now =
     io_bind (io_write (update_lease (consumeLease i (encodeTime now)) CodeConflict))
       (\<lambda>r. io_lift (toLease r))"

definition Close :: "string \<Rightarrow> lease_status \<Rightarrow> instant \<Rightarrow> lease io" where
  "Close i st at =
     (if st = LeaseActive then io_fail CodeInvalidRequest
      else io_bind (io_write (update_lease (closeLease i st (encodeTime at)) CodeConflict))
        (\<lambda>r. io_lift (toLease r)))"

definition Shorten :: "string \<Rightarrow> instant \<Rightarrow> instant \<Rightarrow> lease io" where
  "Shorten i expiresAt at =
     io_bind (io_write (update_lease
         (shortenLease i (encodeTime expiresAt) (encodeTime at)) CodeInvalidRequest))
       (\<lambda>r. io_lift (toLease r))"

definition revocationLimit :: int where "revocationLimit = 1000"

text \<open>The join of \<open>ListActiveLeasesByCredentialReference\<close>.\<close>

definition uses_reference :: "string \<Rightarrow> db \<Rightarrow> lease \<Rightarrow> bool" where
  "uses_reference ref d l \<longleftrightarrow> lease_Status l = LeaseActive
     \<and> list_ex (\<lambda>i. identity_ID i = lease_IdentityID l \<and> identity_CredentialReferenceID i = ref)
         (db_identities d)"

definition RevokeLeasesByCredentialReference :: "string \<Rightarrow> instant \<Rightarrow> string list io" where
  "RevokeLeasesByCredentialReference ref at =
     (if ref = [] then io_fail CodeInvalidRequest
      else io_bind (io_read (\<lambda>d. Ok (select_leases (uses_reference ref d) revocationLimit
              (db_leases d))))
        (\<lambda>rows. io_mapM (\<lambda>row. io_bind (Close (lease_ID row) LeaseRevoked at)
              (\<lambda>_. io_return (lease_ID row))) rows))"

end
