(* ===== verification/Lease.thy ===== *)
theory Lease
  imports Lease_Repo
begin

text \<open>
  Model of \<open>internal/core/lease/manager.go\<close> on top of the lease repository: issuing, using,
  revoking, shortening and sweeping leases.  The lemmas show that no interleaving of statements
  on the lease table spends a lease more often than its limit allows or after it expired, that
  a lease's scope never changes, its expiry never moves later and a closed lease never opens
  again, whatever statement fails, and what a successful use or issue has done.
\<close>

section \<open>The manager (manager.go)\<close>

record issue_request =
  ir_Granted :: scope
  ir_ApprovalID :: string
  ir_SourceMemoryID :: string
  ir_IsSessionBound :: bool

definition encodeGrant :: "scope \<Rightarrow> jtext \<times> jtext" where
  "encodeGrant g = (encode_scope g, Parsed (JArr [JStr (scope_Operation g)]))"

definition decodeGrant :: "jtext \<Rightarrow> scope result" where
  "decodeGrant tx = (case decode_scope tx of
      None \<Rightarrow> Err CodeInternal
    | Some g \<Rightarrow> rbind (scope_Validate g) (\<lambda>_. Ok g))"

definition lease_ScopeOf :: "lease \<Rightarrow> scope result" where
  "lease_ScopeOf l = decodeGrant (lease_ResourceScope l)"

definition lease_Issue :: "issue_request \<Rightarrow> lease io" where
  "lease_Issue req =
     io_bind (io_lift (scope_Validate (ir_Granted req))) (\<lambda>_.
     io_bind io_now (\<lambda>now.
       if scope_ExpiresAt (ir_Granted req) \<le> now then io_fail CodeInvalidRequest
       else io_bind io_new_id (\<lambda>i.
         IssueLease
          \<lparr>lease_ID = i, lease_AgentID = scope_AgentID (ir_Granted req),
           lease_IdentityID = scope_IdentityID (ir_Granted req),
           lease_Service = scope_Service (ir_Granted req),
           lease_ResourceScope = fst (encodeGrant (ir_Granted req)),
           lease_Capabilities = snd (encodeGrant (ir_Granted req)),
           lease_ExpiresAt = scope_ExpiresAt (ir_Granted req),
           lease_RequestLimit = scope_RequestLimit (ir_Granted req), lease_UsedRequests = 0,
           lease_Status = LeaseActive, lease_ApprovalID = ir_ApprovalID req,
           lease_IsSessionBound = ir_IsSessionBound req,
           lease_SourceMemoryID = ir_SourceMemoryID req,
           lease_CreatedAt = now, lease_UpdatedAt = now\<rparr>)))"

definition lease_Use :: "string \<Rightarrow> scope \<Rightarrow> lease io" where
  "lease_Use i requested =
     io_bind (io_lift (scope_Validate requested)) (\<lambda>_.
     io_bind (LeaseByID i) (\<lambda>current.
     io_bind (io_lift (decodeGrant (lease_ResourceScope current))) (\<lambda>granted.
       if \<not> CoversIgnoringWindow granted requested then io_fail CodeCredentialNotAuthorized
       else io_bind io_now (\<lambda>now.
            io_bind (Consume i now) (\<lambda>used.
              if lease_RequestLimit used \<noteq> Unlimited
                 \<and> lease_UsedRequests used \<ge> lease_RequestLimit used
              then io_bind io_now (\<lambda>at. Close i LeaseExhausted at)
              else io_return used)))))"

definition lease_Revoke :: "string \<Rightarrow> lease io" where
  "lease_Revoke i = io_bind io_now (\<lambda>at. Close i LeaseRevoked at)"

definition lease_Shorten :: "string \<Rightarrow> instant \<Rightarrow> lease io" where
  "lease_Shorten i expiresAt =
     (if expiresAt = 0 then io_fail CodeInvalidRequest
      else io_bind io_now (\<lambda>at. Shorten i expiresAt at))"

definition lease_Sweep :: "int \<Rightarrow> lease list io" where
  "lease_Sweep limit =
     io_bind io_now (\<lambda>now.
     io_bind (ActiveLeasesDueBefore now limit) (\<lambda>due.
       io_mapM (\<lambda>l. Close (lease_ID l) LeaseExpired now) due))"

definition lease_ByID :: "string \<Rightarrow> lease io" where
  "lease_ByID i = LeaseByID i"

definition lease_IssuedFor :: "string \<Rightarrow> lease io" where
  "lease_IssuedFor a = LeaseByApprovalID a"

definition lease_IssuedTo :: "string \<Rightarrow> int \<Rightarrow> lease list io" where
  "lease_IssuedTo i limit = ActiveLeasesByIdentity i limit"

definition lease_BoundToSessionOf :: "string \<Rightarrow> int \<Rightarrow> lease list io" where
  "lease_BoundToSessionOf a limit = ActiveSessionBoundLeasesByAgent a limit"

definition lease_Active :: "int \<Rightarrow> lease list io" where
  "lease_Active limit = LeasesByStatus LeaseActive limit"

section \<open>How a lease may change\<close>

text \<open>Nothing about the grant changes; the expiry may only move earlier, the count only up,
  and a closed lease is frozen.\<close>

definition lease_evolves :: "lease \<Rightarrow> lease \<Rightarrow> bool" where
  "lease_evolves l l' \<longleftrightarrow>
     l' = l\<lparr>lease_ExpiresAt := lease_ExpiresAt l', lease_UsedRequests := lease_UsedRequests l',
            lease_Status := lease_Status l', lease_UpdatedAt := lease_UpdatedAt l'\<rparr>
     \<and> lease_ExpiresAt l' \<le> lease_ExpiresAt l \<and> lease_UsedRequests l \<le> lease_UsedRequests l'
     \<and> (lease_Status l \<noteq> LeaseActive \<longrightarrow> l' = l)"

lemma lease_evolves_fields:
  assumes "lease_evolves l l'"
  shows "lease_ID l' = lease_ID l" and "lease_RequestLimit l' = lease_RequestLimit l"
    and "lease_ResourceScope l' = lease_ResourceScope l"
    and "lease_Capabilities l' = lease_Capabilities l"
    and "lease_ApprovalID l' = lease_ApprovalID l" and "lease_AgentID l' = lease_AgentID l"
    and "lease_IdentityID l' = lease_IdentityID l"
    and "lease_ExpiresAt l' \<le> lease_ExpiresAt l"
    and "lease_UsedRequests l \<le> lease_UsedRequests l'"
    and "lease_Status l \<noteq> LeaseActive \<Longrightarrow> l' = l"
  using assms by (cases l; cases l'; simp add: lease_evolves_def)+

lemma lease_evolves_refl: "lease_evolves l l"
  by (simp add: lease_evolves_def)

lemma lease_evolves_trans: "lease_evolves a b \<Longrightarrow> lease_evolves b c \<Longrightarrow> lease_evolves a c"
proof -
  assume ab: "lease_evolves a b" and bc: "lease_evolves b c"
  have "c = a\<lparr>lease_ExpiresAt := lease_ExpiresAt c, lease_UsedRequests := lease_UsedRequests c,
            lease_Status := lease_Status c, lease_UpdatedAt := lease_UpdatedAt c\<rparr>"
    using ab bc unfolding lease_evolves_def by (cases a; cases b; cases c) simp
  moreover have "lease_Status a \<noteq> LeaseActive \<longrightarrow> c = a"
    using ab bc unfolding lease_evolves_def by auto
  ultimately show "lease_evolves a c"
    using ab bc unfolding lease_evolves_def by (meson order_trans)
qed

interpretation lease_rows: growing_table lease_evolves
  using lease_evolves_refl lease_evolves_trans by unfold_locales blast+

definition lease_history :: "db \<Rightarrow> db \<Rightarrow> bool" where
  "lease_history d d' \<longleftrightarrow> rows_evolve lease_evolves (db_leases d) (db_leases d')"

interpretation leases: db_history lease_history
  using lease_rows.evolve_refl lease_rows.evolve_trans
  by unfold_locales (unfold lease_history_def, blast+)

lemma createLease_history: "createLease l d = Ok (r, d') \<Longrightarrow> lease_history d d'"
  by (auto simp: createLease_def rbind_iffs sql_insert_Ok lease_history_def
      lease_rows.evolve_append)

lemma update_lease_history:
  assumes "update_lease stmt c d = Ok (r, d')"
    and "\<And>rows r rows'. stmt rows = Ok (Some (r, rows')) \<Longrightarrow> rows_evolve lease_evolves rows rows'"
  shows "lease_history d d'"
  using assms by (auto simp: update_lease_def rbind_iffs lease_history_def split: option.splits)

lemma consumeLease_evolves:
  assumes "consumeLease i now rows = Ok (Some (r, rows'))"
  shows "rows_evolve lease_evolves rows rows'"
  using assms unfolding consumeLease_def
  by (rule lease_rows.evolve_sql_update) (auto simp: lease_evolves_def consumable_def)

lemma closeLease_evolves:
  assumes "closeLease i st at rows = Ok (Some (r, rows'))"
  shows "rows_evolve lease_evolves rows rows'"
  using assms unfolding closeLease_def
  by (rule lease_rows.evolve_sql_update) (auto simp: lease_evolves_def consumable_def)

lemma shortenLease_evolves:
  assumes "shortenLease i e at rows = Ok (Some (r, rows'))"
  shows "rows_evolve lease_evolves rows rows'"
  using assms unfolding shortenLease_def
  by (rule lease_rows.evolve_sql_update) (auto simp: lease_evolves_def consumable_def)

lemma lease_write_keeps:
  "leases.keeps (io_write (createLease l))"
  "leases.keeps (io_write (update_lease (consumeLease i now) c))"
  "leases.keeps (io_write (update_lease (closeLease i st at) c))"
  "leases.keeps (io_write (update_lease (shortenLease i e at) c))"
  by (auto intro!: leases.keeps_write createLease_history
      elim!: update_lease_history consumeLease_evolves closeLease_evolves shortenLease_evolves)

lemma lease_repo_keeps:
  "leases.keeps (IssueLease l)" "leases.keeps (LeaseByID i)" "leases.keeps (LeaseByApprovalID a)"
  "leases.keeps (list_leases P n)" "leases.keeps (Consume i now)" "leases.keeps (Close i st at)"
  "leases.keeps (Shorten i e at)"
  by (auto simp: IssueLease_def LeaseByID_def LeaseByApprovalID_def list_leases_def Consume_def
      Close_def Shorten_def intro!: leases.keeps_rules lease_write_keeps)

lemma lease_manager_keeps:
  "leases.keeps (lease_Issue req)" "leases.keeps (lease_Use i s)" "leases.keeps (lease_Revoke i)"
  "leases.keeps (lease_Shorten i e)" "leases.keeps (lease_Sweep n)" "leases.keeps (lease_ByID i)"
  "leases.keeps (lease_IssuedFor a)" "leases.keeps (lease_IssuedTo i n)"
  "leases.keeps (lease_BoundToSessionOf a n)" "leases.keeps (lease_Active n)"
  "leases.keeps (RevokeLeasesByCredentialReference ref at)"
  by (auto simp: lease_Issue_def lease_Use_def lease_Revoke_def lease_Shorten_def lease_Sweep_def
      lease_ByID_def lease_IssuedFor_def lease_IssuedTo_def lease_BoundToSessionOf_def
      lease_Active_def ActiveLeasesDueBefore_def ActiveLeasesByIdentity_def
      ActiveSessionBoundLeasesByAgent_def LeasesByStatus_def
      RevokeLeasesByCredentialReference_def
      intro!: leases.keeps_rules lease_repo_keeps)

section \<open>Interleavings of statements\<close>

text \<open>Concurrent callers reach the lease table one statement at a time; an interleaving of
  their work is a list of statements.\<close>

datatype lease_stmt = SCreate lease | SConsume string instant
  | SClose string lease_status instant | SShorten string instant instant

definition after_update :: "(lease \<times> lease list) option result \<Rightarrow> lease list \<Rightarrow> lease list" where
  "after_update res rows = (case res of Inr (Some (r, rows')) \<Rightarrow> rows' | _ \<Rightarrow> rows)"

fun lease_exec :: "lease_stmt \<Rightarrow> lease list \<Rightarrow> lease list" where
  "lease_exec (SCreate l) rows =
     (if lease_check l \<and> lease_unique l rows then rows @ [l] else rows)"
| "lease_exec (SConsume i now) rows = after_update (consumeLease i now rows) rows"
| "lease_exec (SClose i st at) rows = after_update (closeLease i st at rows) rows"
| "lease_exec (SShorten i e at) rows = after_update (shortenLease i e at rows) rows"

text \<open>The instants at which a lease was successfully consumed along an interleaving.\<close>

fun consumed :: "string \<Rightarrow> lease_stmt list \<Rightarrow> lease list \<Rightarrow> instant list" where
  "consumed i [] rows = []"
| "consumed i (s # ss) rows =
     (case s of
        SConsume j now \<Rightarrow>
          (if j = i \<and> (\<exists>r rows'. consumeLease j now rows = Ok (Some (r, rows'))) then [now] else [])
      | _ \<Rightarrow> []) @ consumed i ss (lease_exec s rows)"

definition lease_table_ok :: "lease list \<Rightarrow> bool" where
  "lease_table_ok rows \<longleftrightarrow> table_ok lease_ID lease_check rows"

lemma after_update_ok:
  assumes "lease_table_ok rows" and "\<And>y. P y \<Longrightarrow> lease_ID y = i"
    and "\<And>y. lease_ID (f y) = lease_ID y"
  shows "lease_table_ok (after_update (sql_update lease_check P f rows) rows)"
  using assms table_ok_update [of lease_ID lease_check rows P f _ _ i]
  by (auto simp: after_update_def lease_table_ok_def split: sum.split option.split)

lemma lease_exec_ok: "lease_table_ok rows \<Longrightarrow> lease_table_ok (lease_exec s rows)"
proof (induction s rows rule: lease_exec.induct)
  case (1 l rows)
  then show ?case by (auto simp: lease_table_ok_def lease_unique_def intro!: table_ok_insert)
qed (auto simp: consumeLease_def closeLease_def shortenLease_def consumable_def
    intro!: after_update_ok)

text \<open>The row of a lease after one statement.\<close>

lemma lease_exec_row:
  assumes "l \<in> set rows"
  shows "\<exists>l' \<in> set (lease_exec s rows). lease_evolves l l'"
proof -
  have "rows_evolve lease_evolves rows (lease_exec s rows)"
    by (cases s) (auto simp: after_update_def lease_rows.evolve_append lease_rows.evolve_refl
        split: sum.split option.split
        intro: consumeLease_evolves closeLease_evolves shortenLease_evolves)
  with assms show ?thesis by (meson lease_rows.evolve_member)
qed

lemma consume_row:
  assumes ok: "lease_table_ok rows" and l: "l \<in> set rows"
    and c: "consumeLease (lease_ID l) now rows = Ok (Some (r, rows'))"
  shows "consumable (lease_ID l) now l"
    and "l\<lparr>lease_UsedRequests := lease_UsedRequests l + 1, lease_UpdatedAt := now\<rparr> \<in> set rows'"
proof -
  let ?P = "consumable (lease_ID l) now"
  let ?f = "\<lambda>l. l\<lparr>lease_UsedRequests := lease_UsedRequests l + 1, lease_UpdatedAt := now\<rparr>"
  from c obtain x where x: "find ?P rows = Some x"
    and rows': "rows' = map (\<lambda>x. if ?P x then ?f x else x) rows"
    unfolding consumeLease_def by (elim sql_update_Some) blast
  from x have "x \<in> set rows" and P: "?P x" by (auto simp: find_Some_iff)
  then have "x = l" using ok l
    by (metis consumable_def lease_table_ok_def table_ok_same)
  with P show "?P l" by simp
  then show "?f l \<in> set rows'" using l rows' by force
qed

lemma lease_exec_same_id:
  assumes "lease_table_ok rows" and "x \<in> set rows" and "y \<in> set rows" and "lease_ID x = lease_ID y"
  shows "x = y"
  using assms by (metis lease_table_ok_def table_ok_same)

lemma consumed_bound:
  assumes "lease_table_ok rows" and "l \<in> set rows" and "lease_ID l = i"
  shows "(lease_RequestLimit l > 0 \<longrightarrow>
            lease_UsedRequests l + int (length (consumed i ss rows)) \<le> lease_RequestLimit l)
     \<and> (\<forall>t \<in> set (consumed i ss rows). t < lease_ExpiresAt l)
     \<and> (lease_Status l \<noteq> LeaseActive \<longrightarrow> consumed i ss rows = [])"
  using assms
proof (induction ss arbitrary: rows l)
  case Nil
  then show ?case by (auto simp: lease_table_ok_def table_ok_def list_all_iff lease_check_def)
next
  case (Cons s ss)
  let ?rows = "lease_exec s rows"
  have ok: "lease_table_ok ?rows" using Cons.prems lease_exec_ok by blast
  show ?case
  proof (cases "\<exists>now r rows'. s = SConsume i now \<and> consumeLease i now rows = Ok (Some (r, rows'))")
    case True
    then obtain now r rows' where s: "s = SConsume i now"
      and c: "consumeLease i now rows = Ok (Some (r, rows'))" by blast
    let ?l = "l\<lparr>lease_UsedRequests := lease_UsedRequests l + 1, lease_UpdatedAt := now\<rparr>"
    have rows': "?rows = rows'" using s c by (simp add: after_update_def)
    note row = consume_row [OF Cons.prems(1,2), of now r rows', unfolded Cons.prems(3), OF c]
    have IH: "(lease_RequestLimit ?l > 0 \<longrightarrow>
            lease_UsedRequests ?l + int (length (consumed i ss ?rows)) \<le> lease_RequestLimit ?l)
     \<and> (\<forall>t \<in> set (consumed i ss ?rows). t < lease_ExpiresAt ?l)"
      using Cons.IH [OF ok, of ?l] row(2) rows' Cons.prems(3) by simp
    have "consumed i (s # ss) rows = now # consumed i ss ?rows" using s c by simp
    with IH row(1) show ?thesis by (auto simp: consumable_def)
  next
    case False
    obtain l' where l': "l' \<in> set ?rows" "lease_evolves l l'"
      using lease_exec_row [OF Cons.prems(2)] by blast
    have eq: "consumed i (s # ss) rows = consumed i ss ?rows"
      using False by (cases s) auto
    have i': "lease_ID l' = i"
      using lease_evolves_fields [OF l'(2)] Cons.prems(3) by simp
    with Cons.IH [OF ok l'(1) i'] lease_evolves_fields [OF l'(2)] eq show ?thesis
      by (auto dest: less_le_trans)
  qed
qed

text \<open>C3: A lease is never overspent.  Whatever sequence of statements concurrent callers run
  against the lease table, the number of successful uses of a lease together with those already
  counted stays within its request limit, every one of them happened before the lease's expiry,
  and a lease that is not active is not used at all.\<close>

theorem lease_never_overspent:
  assumes "lease_table_ok rows" and "l \<in> set rows"
  shows "(lease_RequestLimit l > 0 \<longrightarrow>
       lease_UsedRequests l + int (length (consumed (lease_ID l) ss rows)) \<le> lease_RequestLimit l)
    \<and> (\<forall>t \<in> set (consumed (lease_ID l) ss rows). t < lease_ExpiresAt l)
    \<and> (lease_Status l \<noteq> LeaseActive \<longrightarrow> consumed (lease_ID l) ss rows = [])
    \<and> lease_table_ok (fold lease_exec ss rows)"
proof -
  have "lease_table_ok (fold lease_exec ss rows)"
    using assms(1) by (induction ss arbitrary: rows) (auto simp: lease_exec_ok)
  then show ?thesis using consumed_bound [OF assms refl, of ss] by blast
qed

definition example_lease :: lease where
  "example_lease = \<lparr>lease_ID = ''l1'', lease_AgentID = ''agent'', lease_IdentityID = ''id1'',
     lease_Service = ''dns'', lease_ResourceScope = encode_scope example_scope,
     lease_Capabilities = Parsed (JArr [JStr ''update_record'']),
     lease_ExpiresAt = 2000 * millisecond, lease_RequestLimit = 2, lease_UsedRequests = 0,
     lease_Status = LeaseActive, lease_ApprovalID = [], lease_IsSessionBound = True,
     lease_SourceMemoryID = [], lease_CreatedAt = 1, lease_UpdatedAt = 1\<rparr>"

lemma example_lease_ok: "lease_table_ok [example_lease]"
  by (simp add: lease_table_ok_def table_ok_def example_lease_def lease_check_def json_valid_def
      encode_scope_def)

theorem lease_never_overspent_witness:
  "consumed ''l1'' [SConsume ''l1'' 5, SConsume ''l1'' 6, SConsume ''l1'' 7] [example_lease] = [5, 6]
   \<and> lease_UsedRequests example_lease + int (length (consumed ''l1''
        [SConsume ''l1'' 5, SConsume ''l1'' 6, SConsume ''l1'' 7] [example_lease]))
      \<le> lease_RequestLimit example_lease"
proof
  let ?ss = "[SConsume ''l1'' 5, SConsume ''l1'' 6, SConsume ''l1'' 7]"
  show "consumed ''l1'' ?ss [example_lease] = [5, 6]"
    by (simp add: consumeLease_def sql_update_def consumable_def example_lease_def lease_check_def
        after_update_def duration_defs json_valid_def encode_scope_def)
  have "lease_ID example_lease = ''l1''" "lease_RequestLimit example_lease > 0"
    by (simp_all add: example_lease_def)
  with lease_never_overspent [OF example_lease_ok, of example_lease ?ss]
  show "lease_UsedRequests example_lease + int (length (consumed ''l1'' ?ss [example_lease]))
      \<le> lease_RequestLimit example_lease" by simp
qed

section \<open>The manager's operations\<close>

datatype lease_op = OpIssue issue_request | OpUse string scope | OpRevoke string
  | OpShorten string instant | OpSweep int | OpRevokeReference string instant

text \<open>One operation of the manager; its own result is dropped, the world it leaves is kept.\<close>

fun run_lease_op :: "lease_op \<Rightarrow> world \<Rightarrow> world" where
  "run_lease_op (OpIssue req) w = snd (lease_Issue req w)"
| "run_lease_op (OpUse i s) w = snd (lease_Use i s w)"
| "run_lease_op (OpRevoke i) w = snd (lease_Revoke i w)"
| "run_lease_op (OpShorten i e) w = snd (lease_Shorten i e w)"
| "run_lease_op (OpSweep n) w = snd (lease_Sweep n w)"
| "run_lease_op (OpRevokeReference ref at) w = snd (RevokeLeasesByCredentialReference ref at w)"

lemma run_lease_op_history: "lease_history (w_db w) (w_db (run_lease_op op w))"
  using lease_manager_keeps by (cases op) (simp_all add: leases.keeps_def)

lemma run_lease_ops_history: "lease_history (w_db w) (w_db (fold run_lease_op ops w))"
  by (induction ops arbitrary: w)
    (use leases.hist_refl leases.hist_trans run_lease_op_history in \<open>simp, metis fold_simps(2)\<close>)

text \<open>A grant is immutable and only ever shrinks.  Whatever sequence of operations the manager
  is asked for, and whichever of their statements fail, every lease that was there before is there
  afterwards with the same holder, identity, scope, capabilities, limit and approval; its expiry
  has not moved later, its count has not gone down, and if it was closed it is exactly as it
  was.\<close>

theorem lease_operations_only_shrink:
  assumes "l \<in> set (db_leases (w_db w))"
  shows "\<exists>l' \<in> set (db_leases (w_db (fold run_lease_op ops w))).
     lease_ID l' = lease_ID l \<and> lease_AgentID l' = lease_AgentID l
     \<and> lease_IdentityID l' = lease_IdentityID l \<and> lease_ResourceScope l' = lease_ResourceScope l
     \<and> lease_Capabilities l' = lease_Capabilities l
     \<and> lease_RequestLimit l' = lease_RequestLimit l \<and> lease_ApprovalID l' = lease_ApprovalID l
     \<and> lease_ExpiresAt l' \<le> lease_ExpiresAt l \<and> lease_UsedRequests l \<le> lease_UsedRequests l'
     \<and> (lease_Status l \<noteq> LeaseActive \<longrightarrow> l' = l)"
proof -
  obtain l' where "l' \<in> set (db_leases (w_db (fold run_lease_op ops w)))" "lease_evolves l l'"
    using run_lease_ops_history assms lease_rows.evolve_member unfolding lease_history_def by metis
  with lease_evolves_fields [OF this(2)] show ?thesis by (intro bexI [of _ l']) simp_all
qed

definition example_db :: db where
  "example_db = empty_db\<lparr>db_leases := [example_lease]\<rparr>"

definition example_world :: world where
  "example_world = sample_world example_db"

lemmas example_world_defs = example_world_def example_db_def sample_world_def empty_db_def

theorem lease_operations_only_shrink_witness:
  "\<exists>l' \<in> set (db_leases (w_db (fold run_lease_op
      [OpShorten ''l1'' (500 * millisecond), OpUse ''l1'' example_scope, OpRevoke ''l1'']
      example_world))).
     lease_ResourceScope l' = lease_ResourceScope example_lease
     \<and> lease_ExpiresAt l' \<le> lease_ExpiresAt example_lease"
proof -
  have "example_lease \<in> set (db_leases (w_db example_world))"
    by (simp add: example_world_defs)
  from lease_operations_only_shrink [OF this] show ?thesis by blast
qed

section \<open>What a use and an issue have done\<close>

lemma toLease_Ok [simp]: "toLease l = Ok l' \<longleftrightarrow> l' = l
    \<and> 0 \<le> lease_RequestLimit l \<and> lease_RequestLimit l \<le> 2147483647
    \<and> 0 \<le> lease_UsedRequests l \<and> lease_UsedRequests l \<le> 2147483647"
  by (auto simp: toLease_def decodeCount_def)

lemma update_lease_Ok:
  "update_lease stmt c d = Ok (r, d') \<longleftrightarrow>
     (\<exists>rows. stmt (db_leases d) = Ok (Some (r, rows)) \<and> d' = d\<lparr>db_leases := rows\<rparr>)"
  by (auto simp: update_lease_def rbind_iffs split: option.splits)

lemma LeaseByID_Ok:
  assumes "LeaseByID i w = (Ok l, w')"
  shows "l \<in> set (db_leases (w_db w))" and "lease_ID l = i" and "w_db w' = w_db w"
  using assms by (auto simp: LeaseByID_def io_Ok_iffs rbind_iffs found_def row_by_def find_Some_iff
      split: option.splits)

lemma Consume_Ok:
  assumes "Consume i now w = (Ok l', w')"
  obtains l where "l \<in> set (db_leases (w_db w))" "consumable i (encodeTime now) l"
    "l' = l\<lparr>lease_UsedRequests := lease_UsedRequests l + 1, lease_UpdatedAt := encodeTime now\<rparr>"
    "l' \<in> set (db_leases (w_db w'))"
proof -
  from assms obtain rows where c: "consumeLease i (encodeTime now) (db_leases (w_db w))
      = Ok (Some (l', rows))" and w': "db_leases (w_db w') = rows"
    by (auto simp: Consume_def io_Ok_iffs update_lease_Ok)
  from c show thesis unfolding consumeLease_def
    by (rule sql_update_row) (rule that, simp_all add: w')
qed

lemma Close_Ok:
  assumes "Close i st at w = (Ok l', w')"
  obtains l where "l \<in> set (db_leases (w_db w))" "lease_ID l = i" "lease_Status l = LeaseActive"
    "l' = l\<lparr>lease_Status := st, lease_UpdatedAt := encodeTime at\<rparr>" "st \<noteq> LeaseActive"
    "l' \<in> set (db_leases (w_db w'))"
proof -
  from assms obtain rows where c: "closeLease i st (encodeTime at) (db_leases (w_db w))
      = Ok (Some (l', rows))" and w': "db_leases (w_db w') = rows" and st: "st \<noteq> LeaseActive"
    by (auto simp: Close_def io_Ok_iffs update_lease_Ok split: if_splits)
  from c show thesis unfolding closeLease_def
    by (rule sql_update_row) (rule that, simp_all add: w' st)
qed

lemma Close_same_table:
  "lease_table_ok (db_leases (w_db w)) \<Longrightarrow> Close i st at w = (Ok l', w')
   \<Longrightarrow> l \<in> set (db_leases (w_db w)) \<Longrightarrow> lease_ID l = i
   \<Longrightarrow> l' = l\<lparr>lease_Status := st, lease_UpdatedAt := encodeTime at\<rparr>"
  by (elim Close_Ok) (metis lease_exec_same_id)

text \<open>A use is authorised and counted.  When using a lease succeeds, the lease was stored,
  active and not expired at the moment of the use, its stored scope decodes to a valid grant that
  covers the requested scope, and the count went up by exactly one and is within the limit; the
  lease is closed as exhausted exactly when that use was the last one the limit allows.\<close>

lemma lease_Use_Ok:
  assumes ok: "lease_table_ok (db_leases (w_db w))" and use: "lease_Use i requested w = (Ok l', w')"
  shows "\<exists>l \<in> set (db_leases (w_db w)). \<exists>granted. lease_ID l = i \<and> lease_Status l = LeaseActive
     \<and> decodeGrant (lease_ResourceScope l) = Ok granted \<and> scope_Validate granted = Ok ()
     \<and> CoversIgnoringWindow granted requested
     \<and> encodeTime (w_clock w (Suc (w_tick w))) < lease_ExpiresAt l
     \<and> lease_UsedRequests l' = lease_UsedRequests l + 1
     \<and> (lease_RequestLimit l > 0 \<longrightarrow> lease_UsedRequests l' \<le> lease_RequestLimit l)
     \<and> lease_Status l' = (if lease_RequestLimit l > 0 \<and> lease_UsedRequests l' = lease_RequestLimit l
          then LeaseExhausted else LeaseActive)
     \<and> l' \<in> set (db_leases (w_db w'))"
proof -
  from use obtain l w1 granted used w3 where
    read: "LeaseByID i w = (Ok l, w1)" and g: "decodeGrant (lease_ResourceScope l) = Ok granted"
    and cov: "CoversIgnoringWindow granted requested"
    and con: "Consume i (w_clock w1 (w_tick w1)) (tick w1) = (Ok used, w3)"
    and rest: "(if lease_RequestLimit used \<noteq> Unlimited
         \<and> lease_UsedRequests used \<ge> lease_RequestLimit used
       then io_bind io_now (\<lambda>at. Close i LeaseExhausted at) else io_return used) w3 = (Ok l', w')"
    unfolding lease_Use_def by (auto simp: io_Ok_iffs split: if_splits)
  have w1: "w1 = tick w" using read by (auto simp: LeaseByID_def io_Ok_iffs)
  let ?now = "encodeTime (w_clock w (Suc (w_tick w)))"
  note L = LeaseByID_Ok [OF read]
  from con obtain m where m: "m \<in> set (db_leases (w_db w))" "consumable i ?now m"
    "used = m\<lparr>lease_UsedRequests := lease_UsedRequests m + 1, lease_UpdatedAt := ?now\<rparr>"
    "used \<in> set (db_leases (w_db w3))"
    using w1 by (elim Consume_Ok) auto
  with L ok have lm: "m = l" by (metis consumable_def lease_exec_same_id)
  have c: "lease_check l" using L(1) ok by (auto simp: lease_table_ok_def table_ok_def list_all_iff)
  have ok3: "lease_table_ok (db_leases (w_db w3))"
    using con w1 lease_exec_ok [OF ok, of "SConsume i ?now"]
    by (auto simp: Consume_def io_Ok_iffs update_lease_Ok after_update_def)
  have st: "l' \<in> set (db_leases (w_db w')) \<and> lease_UsedRequests l' = lease_UsedRequests used
     \<and> lease_Status l' = (if lease_RequestLimit used \<noteq> 0
          \<and> lease_UsedRequests used \<ge> lease_RequestLimit used
        then LeaseExhausted else lease_Status used)"
  proof (cases "lease_RequestLimit used \<noteq> 0 \<and> lease_UsedRequests used \<ge> lease_RequestLimit used")
    case True
    with rest have "Close i LeaseExhausted (w_clock w3 (w_tick w3)) (tick w3) = (Ok l', w')"
      by (simp add: Unlimited_def io_Ok_iffs)
    moreover from this have "l' \<in> set (db_leases (w_db w'))" by (elim Close_Ok)
    ultimately show ?thesis
      using True m(2-4) ok3 lm L(2) 
        Close_same_table [of "tick w3" i LeaseExhausted "w_clock w3 (w_tick w3)" l' w' used]
      by simp
  next
    case False
    with rest show ?thesis using m(4) by (auto simp: Unlimited_def io_Ok_iffs)
  qed
  have "scope_Validate granted = Ok ()"
    using g by (auto simp: decodeGrant_def rbind_iffs split: option.splits)
  then show ?thesis
    using st m(2,3) lm L g cov c
    by (intro bexI [of _ l] exI [of _ granted]) (auto simp: consumable_def lease_check_def)
qed

theorem lease_Use_Ok_witness:
  "\<exists>l' w'. lease_Use ''l1'' example_scope example_world = (Ok l', w')
     \<and> lease_UsedRequests l' = 1 \<and> l' \<in> set (db_leases (w_db w'))"
proof -
  have "is_ok (fst (lease_Use ''l1'' example_scope example_world))" by code_simp
  then obtain l' w' where u: "lease_Use ''l1'' example_scope example_world = (Ok l', w')"
    by (metis is_ok.simps(1) prod.collapse sum.exhaust)
  have "lease_table_ok (db_leases (w_db example_world))"
    using example_lease_ok by (simp add: example_world_defs)
  from lease_Use_Ok [OF this u] u show ?thesis
    by (auto simp: example_world_defs example_lease_def)
qed

text \<open>What is issued is what was granted.  Issuing a lease for a well-formed scope whose
  limit fits the count column (\<open>math.MaxInt32\<close>) either fails
  and leaves every table as it was, or appends exactly one lease: active, unused, held by the
  scope's agent for the scope's identity, expiring no later than the scope, and whose stored text
  decodes back to the granted scope, so that later uses are checked against exactly what was
  granted.\<close>

theorem lease_Issue_grants_exactly:
  assumes "scope_wf (ir_Granted req)" and max: "scope_RequestLimit (ir_Granted req) \<le> 2147483647"
    and issue: "lease_Issue req w = (r, w')"
  shows "case r of
      Inl e \<Rightarrow> w_db w' = w_db w
    | Inr l \<Rightarrow> w_db w' = (w_db w)\<lparr>db_leases := db_leases (w_db w) @ [l]\<rparr>
        \<and> decodeGrant (lease_ResourceScope l) = Ok (ir_Granted req)
        \<and> lease_AgentID l = scope_AgentID (ir_Granted req)
        \<and> lease_IdentityID l = scope_IdentityID (ir_Granted req)
        \<and> lease_Service l = scope_Service (ir_Granted req)
        \<and> lease_ExpiresAt l \<le> scope_ExpiresAt (ir_Granted req)
        \<and> lease_RequestLimit l = scope_RequestLimit (ir_Granted req)
        \<and> lease_UsedRequests l = 0 \<and> lease_Status l = LeaseActive
        \<and> lease_ApprovalID l = ir_ApprovalID req"
proof -
  let ?g = "ir_Granted req"
  have v: "scope_Validate ?g = Ok ()" and lim: "0 < scope_RequestLimit ?g"
    using assms(1) by (auto simp: scope_wf_def scope_Validate_Ok_iff)
  have "decode_scope (encode_scope ?g) = Some ?g" using assms(1) by (rule decode_encode_scope)
  then have "decodeGrant (encode_scope ?g) = Ok ?g" using v by (simp add: decodeGrant_def)
  with issue v lim max encodeTime_le show ?thesis
    by (auto simp: lease_Issue_def io_bind_def io_lift_def io_now_def io_fail_def io_new_id_def
        IssueLease_def io_write_def createLease_def sql_insert_def lease_row_def optionalCount_def
        encodeGrant_def toLease_def decodeCount_def
        split: sum.splits option.splits if_splits)
qed

definition example_issue :: issue_request where
  "example_issue = \<lparr>ir_Granted = example_scope\<lparr>scope_ExpiresAt := 3000 * millisecond\<rparr>,
     ir_ApprovalID = [], ir_SourceMemoryID = [], ir_IsSessionBound = True\<rparr>"

definition example_agent :: agent where
  "example_agent = \<lparr>agent_ID = ''agent'', agent_Name = ''a'', agent_Type = TypeCodex,
     agent_Version = [], agent_ExecutableHash = ''h'', agent_ExecutablePath = ''/a'', agent_PID = 1,
     agent_ParentPID = 0, agent_OSUser = ''u'', agent_DeviceID = ''dev'',
     agent_WorkspaceID = ''ws'', agent_StartedAt = 1, agent_SessionKeyHash = ''k'',
     agent_SessionExpiresAt = 10, agent_TrustLevel = TrustTrusted, agent_Status = AgentActive,
     agent_LastSeenAt = 1, agent_CreatedAt = 1, agent_UpdatedAt = 1\<rparr>"

definition example_world2 :: world where
  "example_world2 = example_world\<lparr>w_db := example_db\<lparr>db_agents := [example_agent],
     db_identities := [example_identity]\<rparr>\<rparr>"

theorem lease_Issue_grants_exactly_witness:
  "\<exists>l w'. lease_Issue example_issue example_world2 = (Ok l, w')
     \<and> decodeGrant (lease_ResourceScope l) = Ok (ir_Granted example_issue)
     \<and> length (db_leases (w_db w')) = 2"
proof -
  have "is_ok (fst (lease_Issue example_issue example_world2))" by code_simp
  then obtain l w' where u: "lease_Issue example_issue example_world2 = (Ok l, w')"
    by (metis is_ok.simps(1) prod.collapse sum.exhaust)
  have "scope_wf (ir_Granted example_issue)"
    using example_scope_coverable(1)
    by (auto simp: example_issue_def scope_coverable_def scope_wf_def scope_Validate_Ok_iff
        example_scope_def duration_defs)
  from lease_Issue_grants_exactly [OF this _ u] u show ?thesis
    by (auto simp: example_world2_def example_world_defs example_issue_def
        example_scope_def)
qed

end
