(* ===== verification/Approval_Repo.thy ===== *)
theory Approval_Repo
  imports Tables
begin

text \<open>
  The approval table and its repository (\<open>internal/store/repo/approval.go\<close>, with the statements
  of \<open>internal/store/queries/approvals.sql.go\<close>).  Settling is one conditional update that only
  applies to a pending row.
\<close>

section \<open>Constraints and statements\<close>

definition approval_check :: "approval \<Rightarrow> bool" where
  "approval_check a \<longleftrightarrow>
     approval_Action a \<in> {ActionOther [], ActionDeny, ActionAllowOnce, ActionAllowUntilTaskEnd,
        ActionAutoAllowInProject, ActionAlwaysAsk}
     \<and> approval_Status a \<in> {ApprovalPending, ApprovalApproved, ApprovalRejected, ApprovalExpired,
        ApprovalCancelled}
     \<and> (approval_Status a = ApprovalPending \<longleftrightarrow> approval_Action a = ActionOther [])
     \<and> (approval_Status a = ApprovalPending \<longleftrightarrow> approval_DecidedAt a = 0)"

definition approval_unique :: "approval \<Rightarrow> approval list \<Rightarrow> bool" where
  "approval_unique a rows \<longleftrightarrow> approval_ID a \<notin> approval_ID ` set rows
     \<and> approval_DecisionID a \<notin> approval_DecisionID ` set rows"

definition approval_row :: "approval \<Rightarrow> approval" where
  "approval_row a = a\<lparr>approval_ExpiresAt := encodeTime (approval_ExpiresAt a),
     approval_DecidedAt := optionalTime (approval_DecidedAt a),
     approval_CreatedAt := encodeTime (approval_CreatedAt a),
     approval_UpdatedAt := encodeTime (approval_UpdatedAt a)\<rparr>"

definition createApproval :: "approval \<Rightarrow> db \<Rightarrow> (approval \<times> db) result" where
  "createApproval a d =
     rbind (sql_insert (approval_check a) (approval_unique a (db_approvals d))
         (ref_ok (approval_DecisionID a) (map decision_ID (db_decisions d))) a (db_approvals d))
       (\<lambda>(r, rows). Ok (r, d\<lparr>db_approvals := rows\<rparr>))"

definition settleApproval ::
    "string \<Rightarrow> action \<Rightarrow> approval_status \<Rightarrow> instant \<Rightarrow> instant \<Rightarrow> approval list
     \<Rightarrow> (approval \<times> approval list) option result" where
  "settleApproval i act st decided at rows =
     sql_update approval_check (\<lambda>a. approval_ID a = i \<and> approval_Status a = ApprovalPending)
       (\<lambda>a. a\<lparr>approval_Action := act, approval_Status := st, approval_DecidedAt := decided,
             approval_UpdatedAt := at\<rparr>) rows"

definition select_approvals :: "(approval \<Rightarrow> bool) \<Rightarrow> int \<Rightarrow> approval list \<Rightarrow> approval list" where
  "select_approvals P limit rows = take (nat limit) (sort_key approval_ExpiresAt (filter P rows))"

section \<open>The repository\<close>

definition CreateApproval :: "approval \<Rightarrow> approval io" where
  "CreateApproval a = io_write (createApproval (approval_row a))"

definition ApprovalByID :: "string \<Rightarrow> approval io" where
  "ApprovalByID i = io_read (\<lambda>d. found (row_by approval_ID i (db_approvals d)))"

definition ApprovalByDecisionID :: "string \<Rightarrow> approval io" where
  "ApprovalByDecisionID i = io_read (\<lambda>d. found (row_by approval_DecisionID i (db_approvals d)))"

definition list_approvals :: "(approval \<Rightarrow> bool) \<Rightarrow> int \<Rightarrow> approval list io" where
  "list_approvals P limit =
     (if limit \<le> 0 then io_lift invalidLimit
      else io_read (\<lambda>d. Ok (select_approvals P limit (db_approvals d))))"

definition ApprovalsByStatus :: "approval_status \<Rightarrow> int \<Rightarrow> approval list io" where
  "ApprovalsByStatus st limit = list_approvals (\<lambda>a. approval_Status a = st) limit"

definition PendingApprovalsDueBefore :: "instant \<Rightarrow> int \<Rightarrow> approval list io" where
  "PendingApprovalsDueBefore deadline limit =
     list_approvals (\<lambda>a. approval_Status a = ApprovalPending
        \<and> approval_ExpiresAt a \<le> encodeTime deadline) limit"

text \<open>\<open>Approvals.Settle\<close>: no pending row of that id is a conflict.\<close>

definition settle_row :: "string \<Rightarrow> action \<Rightarrow> approval_status \<Rightarrow> instant \<Rightarrow> db \<Rightarrow> (approval \<times> db) result"
where
  "settle_row i act st at d =
     rbind (settleApproval i act st (optionalTime at) (encodeTime at) (db_approvals d)) (\<lambda>res.
       case res of
         None \<Rightarrow> Err CodeConflict
       | Some (r, rows) \<Rightarrow> Ok (r, d\<lparr>db_approvals := rows\<rparr>))"

definition SettleRow :: "string \<Rightarrow> action \<Rightarrow> approval_status \<Rightarrow> instant \<Rightarrow> approval io" where
  "SettleRow i act st at = io_write (settle_row i act st at)"

section \<open>What a settled row keeps\<close>

text \<open>An approval keeps its decision and its deadline; once settled it never changes.\<close>

definition approval_evolves :: "approval \<Rightarrow> approval \<Rightarrow> bool" where
  "approval_evolves a a' \<longleftrightarrow>
     approval_ID a' = approval_ID a \<and> approval_DecisionID a' = approval_DecisionID a
     \<and> approval_ExpiresAt a' = approval_ExpiresAt a
     \<and> (approval_Status a \<noteq> ApprovalPending \<longrightarrow> a' = a)"

interpretation approval_rows: growing_table approval_evolves
  by unfold_locales (auto simp: approval_evolves_def)

definition approval_history :: "db \<Rightarrow> db \<Rightarrow> bool" where
  "approval_history d d' \<longleftrightarrow> rows_evolve approval_evolves (db_approvals d) (db_approvals d')"

interpretation approvals: db_history approval_history
  using approval_rows.evolve_refl approval_rows.evolve_trans
  by unfold_locales (unfold approval_history_def, blast+)

lemma settleApproval_evolves:
  assumes "settleApproval i act st dec at rows = Ok (Some (r, rows'))"
  shows "rows_evolve approval_evolves rows rows'"
  using assms unfolding settleApproval_def
  by (rule approval_rows.evolve_sql_update) (simp add: approval_evolves_def)

text \<open>The constraints of the table hold whatever happens.\<close>

abbreviation approval_table_ok :: "approval list \<Rightarrow> bool" where
  "approval_table_ok \<equiv> table_ok approval_ID approval_check"

definition approvals_stay_ok :: "db \<Rightarrow> db \<Rightarrow> bool" where
  "approvals_stay_ok d d' \<longleftrightarrow>
     (approval_table_ok (db_approvals d) \<longrightarrow> approval_table_ok (db_approvals d'))"

interpretation approvals_ok: db_history approvals_stay_ok
  by unfold_locales (auto simp: approvals_stay_ok_def)

lemma settle_row_Ok:
  assumes "settle_row i act st at d = Ok (r, d')"
  obtains rows where "settleApproval i act st (optionalTime at) (encodeTime at) (db_approvals d)
      = Ok (Some (r, rows))" "d' = d\<lparr>db_approvals := rows\<rparr>"
  using assms that by (auto simp: settle_row_def rbind_iffs split: option.splits)

lemma approval_repo_keeps:
  "approvals.keeps (CreateApproval a)" "approvals.keeps (ApprovalByID i)"
  "approvals.keeps (ApprovalByDecisionID i)" "approvals.keeps (list_approvals P n)"
  "approvals.keeps (SettleRow i act st at)"
proof -
  show "approvals.keeps (CreateApproval a)"
    unfolding CreateApproval_def
    by (rule approvals.keeps_write) (auto simp: createApproval_def rbind_iffs sql_insert_Ok
        approval_history_def approval_rows.evolve_append)
  show "approvals.keeps (SettleRow i act st at)"
    unfolding SettleRow_def
    by (rule approvals.keeps_write)
      (auto simp: approval_history_def elim!: settle_row_Ok settleApproval_evolves)
qed (auto simp: ApprovalByID_def ApprovalByDecisionID_def list_approvals_def
    intro!: approvals.keeps_rules)

lemma settleApproval_table_ok:
  assumes "approval_table_ok rows" and "settleApproval i act st dec at rows = Ok (Some (r, rows'))"
  shows "approval_table_ok rows'"
  using assms unfolding settleApproval_def by (rule table_ok_update) auto

lemma approval_repo_table_ok:
  "approvals_ok.keeps (CreateApproval a)" "approvals_ok.keeps (ApprovalByID i)"
  "approvals_ok.keeps (ApprovalByDecisionID i)" "approvals_ok.keeps (list_approvals P n)"
  "approvals_ok.keeps (SettleRow i act st at)"
proof -
  show "approvals_ok.keeps (CreateApproval a)"
    unfolding CreateApproval_def
    by (rule approvals_ok.keeps_write) (auto simp: createApproval_def rbind_iffs sql_insert_Ok
        approvals_stay_ok_def approval_unique_def intro!: table_ok_insert)
  show "approvals_ok.keeps (SettleRow i act st at)"
    unfolding SettleRow_def
    by (rule approvals_ok.keeps_write)
      (auto simp: approvals_stay_ok_def elim!: settle_row_Ok intro: settleApproval_table_ok)
qed (auto simp: ApprovalByID_def ApprovalByDecisionID_def list_approvals_def
    intro!: approvals_ok.keeps_rules)

lemma ApprovalByID_Ok:
  "ApprovalByID i w = (Ok a, w')
   \<Longrightarrow> a \<in> set (db_approvals (w_db w)) \<and> approval_ID a = i \<and> w_db w' = w_db w"
  by (auto simp: ApprovalByID_def io_Ok_iffs dest: found_row_by_Ok)

end
