(* ===== verification/Approval.thy ===== *)
theory Approval
  imports Approval_Repo
begin

text \<open>
  Model of \<open>internal/core/approval/manager.go\<close>: opening an approval for a decision, the five
  actions and their consequences, settling with its preconditions, replays and timeouts.  The
  lemmas show that an approval is decided at most once whatever is submitted in whatever order,
  that a denial can never become an allowance, and what a settlement required.
\<close>

section \<open>The manager (manager.go)\<close>

definition DefaultTimeout :: duration where "DefaultTimeout = 5 * minute"
definition MinTimeout :: duration where "MinTimeout = 30 * second"
definition MaxTimeout :: duration where "MaxTimeout = 30 * minute"

text \<open>The timeout \<open>NewManager\<close> keeps.\<close>

definition approval_NewManager :: "duration \<Rightarrow> duration result" where
  "approval_NewManager t =
     (let timeout = (if t = 0 then DefaultTimeout else t) in
      if timeout < MinTimeout \<or> timeout > MaxTimeout then Err CodeInvalidConfiguration
      else Ok timeout)"

definition approval_Open :: "duration \<Rightarrow> string \<Rightarrow> approval io" where
  "approval_Open timeout decisionID =
     (if decisionID = [] then io_fail CodeInvalidRequest
      else io_bind (io_try (ApprovalByDecisionID decisionID)) (\<lambda>existing.
        case existing of
          Inr a \<Rightarrow> io_return a
        | Inl c \<Rightarrow>
            if c \<noteq> CodeNotFound then io_fail c
            else io_bind io_new_id (\<lambda>i. io_bind io_now (\<lambda>now.
              CreateApproval
               \<lparr>approval_ID = i, approval_DecisionID = decisionID, approval_Action = ActionOther [],
                approval_Status = ApprovalPending, approval_ExpiresAt = now + timeout,
                approval_DecidedAt = 0, approval_CreatedAt = now, approval_UpdatedAt = now\<rparr>))))"

definition Actions :: "level \<Rightarrow> action list" where
  "Actions l =
     (let always = [ActionDeny, ActionAllowOnce, ActionAllowUntilTaskEnd] in
      if l = LevelHigh then always else always @ [ActionAutoAllowInProject, ActionAlwaysAsk])"

record settle_request =
  set_ApprovalID :: string
  set_Action :: action
  set_RiskLevel :: level
  set_StrongAuthCompleted :: bool
  set_Requirement :: approval_requirement
  set_RequiredConfirmations :: int
  set_Confirmations :: int

record settlement =
  st_Approval :: "approval option"
  st_Allowed :: bool
  st_RequestLimit :: int
  st_SessionBound :: bool
  st_Learn :: behavior
  st_Replayed :: bool

definition zero_settlement :: settlement where
  "zero_settlement = \<lparr>st_Approval = None, st_Allowed = False, st_RequestLimit = 0,
     st_SessionBound = False, st_Learn = BehaviorOther [], st_Replayed = False\<rparr>"

fun consequences :: "action \<Rightarrow> settlement option" where
  "consequences ActionDeny = Some zero_settlement"
| "consequences ActionAllowOnce =
     Some (zero_settlement\<lparr>st_Allowed := True, st_RequestLimit := 1\<rparr>)"
| "consequences ActionAllowUntilTaskEnd =
     Some (zero_settlement\<lparr>st_Allowed := True, st_SessionBound := True,
                           st_RequestLimit := TaskRequestLimit\<rparr>)"
| "consequences ActionAutoAllowInProject =
     Some (zero_settlement\<lparr>st_Allowed := True, st_Learn := BehaviorAutoAllow\<rparr>)"
| "consequences ActionAlwaysAsk =
     Some (zero_settlement\<lparr>st_Allowed := True, st_Learn := BehaviorAlwaysAsk\<rparr>)"
| "consequences (ActionOther s) = None"

text \<open>A missing key of the Go map yields the zero value.\<close>

definition Allows :: "action \<Rightarrow> bool" where
  "Allows a = (case consequences a of None \<Rightarrow> False | Some s \<Rightarrow> st_Allowed s)"

definition required :: "int \<Rightarrow> int" where
  "required n = (if n < 1 then 1 else n)"

definition offered :: "level \<Rightarrow> action \<Rightarrow> bool" where
  "offered l a = list_ex (\<lambda>x. x = a) (Actions l)"

definition checkSettle :: "settle_request \<Rightarrow> settlement result" where
  "checkSettle req =
     (case consequences (set_Action req) of
        None \<Rightarrow> Err CodeInvalidRequest
      | Some consequence \<Rightarrow>
          if \<not> offered (set_RiskLevel req) (set_Action req) then Err CodeForbidden
          else if \<not> st_Allowed consequence then Ok consequence
          else if set_Requirement req = ApprovalStrongAuth \<and> \<not> set_StrongAuthCompleted req
          then Err CodeUnauthenticated
          else if set_Confirmations req < required (set_RequiredConfirmations req)
          then Err CodeInvalidRequest
          else Ok consequence)"

definition replay :: "settle_request \<Rightarrow> settlement \<Rightarrow> settlement io" where
  "replay req consequence =
     io_bind (ApprovalByID (set_ApprovalID req)) (\<lambda>settled.
       if approval_Action settled \<noteq> set_Action req \<or> approval_Status settled = ApprovalExpired
       then io_fail CodeConflict
       else io_return (consequence\<lparr>st_Approval := Some settled, st_Replayed := True\<rparr>))"

definition approval_Settle :: "settle_request \<Rightarrow> settlement io" where
  "approval_Settle req =
     io_bind (io_lift (checkSettle req)) (\<lambda>consequence.
     io_bind io_now (\<lambda>now.
     io_bind (io_try (SettleRow (set_ApprovalID req) (set_Action req)
         (if st_Allowed consequence then ApprovalApproved else ApprovalRejected) now)) (\<lambda>res.
       case res of
         Inl c \<Rightarrow> if c \<noteq> CodeConflict then io_fail c else replay req consequence
       | Inr settled \<Rightarrow> io_return (consequence\<lparr>st_Approval := Some settled\<rparr>))))"

text \<open>\<open>Expire\<close>; when one update fails the caller gets the error (the approvals closed before it
  stay closed, and no caller looks at the partial list).\<close>

definition approval_Expire :: "int \<Rightarrow> approval list io" where
  "approval_Expire limit =
     io_bind io_now (\<lambda>now.
     io_bind (PendingApprovalsDueBefore now limit) (\<lambda>due.
       io_mapM (\<lambda>waiting. SettleRow (approval_ID waiting) ActionDeny ApprovalExpired now) due))"

definition approval_ByID :: "string \<Rightarrow> approval io" where
  "approval_ByID i = ApprovalByID i"

definition approval_Pending :: "int \<Rightarrow> approval list io" where
  "approval_Pending limit = ApprovalsByStatus ApprovalPending limit"

section \<open>Histories\<close>

lemma approval_manager_keeps:
  "approvals.keeps (approval_Open t i)" "approvals.keeps (replay req c)"
  "approvals.keeps (approval_Settle req)" "approvals.keeps (approval_Expire n)"
  "approvals.keeps (approval_ByID i)" "approvals.keeps (approval_Pending n)"
  by (auto simp: approval_Open_def replay_def approval_Settle_def approval_Expire_def
      approval_ByID_def approval_Pending_def ApprovalsByStatus_def PendingApprovalsDueBefore_def
      intro!: approvals.keeps_rules approval_repo_keeps)

section \<open>Settling\<close>

lemma consequences_Allowed:
  "consequences a = Some c \<Longrightarrow> st_Allowed c \<longleftrightarrow> a \<noteq> ActionDeny"
  by (cases a) (auto simp: zero_settlement_def)

lemma consequences_fresh:
  "consequences a = Some c \<Longrightarrow> \<not> st_Replayed c \<and> st_Approval c = None"
  by (cases a) (auto simp: zero_settlement_def)

lemma checkSettle_Ok:
  "checkSettle req = Ok c \<longleftrightarrow> consequences (set_Action req) = Some c
     \<and> set_Action req \<in> set (Actions (set_RiskLevel req))
     \<and> (st_Allowed c \<longrightarrow>
          (set_Requirement req = ApprovalStrongAuth \<longrightarrow> set_StrongAuthCompleted req)
          \<and> 1 \<le> set_Confirmations req \<and> set_RequiredConfirmations req \<le> set_Confirmations req)"
  by (auto simp: checkSettle_def offered_def list_ex_iff required_def split: option.splits)

lemma SettleRow_Ok:
  assumes "SettleRow i act st at w = (Ok a', w')"
  obtains a where "a \<in> set (db_approvals (w_db w))" "approval_ID a = i"
    "approval_Status a = ApprovalPending"
    "a' = a\<lparr>approval_Action := act, approval_Status := st, approval_DecidedAt := optionalTime at,
            approval_UpdatedAt := encodeTime at\<rparr>"
    "a' \<in> set (db_approvals (w_db w'))" "db_leases (w_db w') = db_leases (w_db w)"
proof -
  from assms obtain rows where s: "settleApproval i act st (optionalTime at) (encodeTime at)
      (db_approvals (w_db w)) = Ok (Some (a', rows))"
    and w': "w_db w' = (w_db w)\<lparr>db_approvals := rows\<rparr>"
    by (auto simp: SettleRow_def io_Ok_iffs elim!: settle_row_Ok)
  from s show thesis unfolding settleApproval_def
    by (rule sql_update_row) (rule that, simp_all add: w')
qed

lemma approval_Settle_fresh:
  assumes "approval_Settle req w = (Ok s, w')" and "\<not> st_Replayed s"
  obtains a a' c where "checkSettle req = Ok c" "s = c\<lparr>st_Approval := Some a'\<rparr>"
    "a \<in> set (db_approvals (w_db w))" "approval_ID a = set_ApprovalID req"
    "approval_Status a = ApprovalPending" "a' \<in> set (db_approvals (w_db w'))"
    "approval_ID a' = set_ApprovalID req" "approval_DecisionID a' = approval_DecisionID a"
    "approval_Action a' = set_Action req"
    "approval_Status a' = (if st_Allowed c then ApprovalApproved else ApprovalRejected)"
proof -
  from assms obtain c where c: "checkSettle req = Ok c"
    and run: "io_bind (io_try (SettleRow (set_ApprovalID req) (set_Action req)
         (if st_Allowed c then ApprovalApproved else ApprovalRejected) (w_clock w (w_tick w))))
       (\<lambda>res. case res of
         Inl e \<Rightarrow> if e \<noteq> CodeConflict then io_fail e else replay req c
       | Inr settled \<Rightarrow> io_return (c\<lparr>st_Approval := Some settled\<rparr>)) (tick w) = (Ok s, w')"
    by (auto simp: approval_Settle_def io_Ok_iffs)
  let ?st = "if st_Allowed c then ApprovalApproved else ApprovalRejected"
  obtain r w1 where r: "SettleRow (set_ApprovalID req) (set_Action req) ?st
      (w_clock w (w_tick w)) (tick w) = (r, w1)" by (metis prod.exhaust)
  have "\<exists>a'. r = Ok a' \<and> s = c\<lparr>st_Approval := Some a'\<rparr> \<and> w1 = w'"
    using run r assms(2)
    by (auto simp: io_bind_def io_try_def replay_def io_return_def io_fail_def
        split: sum.splits go_error.splits prod.splits if_splits)
  then obtain a' where a': "r = Ok a'" "s = c\<lparr>st_Approval := Some a'\<rparr>" "w1 = w'" by blast
  with r have "SettleRow (set_ApprovalID req) (set_Action req) ?st (w_clock w (w_tick w)) (tick w)
      = (Ok a', w')" by simp
  then show thesis by (rule SettleRow_Ok) (rule that [OF c a'(2)], auto)
qed

lemma approval_Settle_replayed:
  assumes "approval_Settle req w = (Ok s, w')" and "st_Replayed s"
  obtains a c where "checkSettle req = Ok c" "w_db w' = w_db w"
    "s = c\<lparr>st_Approval := Some a, st_Replayed := True\<rparr>"
    "a \<in> set (db_approvals (w_db w))" "approval_ID a = set_ApprovalID req"
    "approval_Action a = set_Action req" "approval_Status a \<noteq> ApprovalExpired"
proof -
  from assms obtain c where c: "checkSettle req = Ok c"
    and run: "io_bind (io_try (SettleRow (set_ApprovalID req) (set_Action req)
         (if st_Allowed c then ApprovalApproved else ApprovalRejected) (w_clock w (w_tick w))))
       (\<lambda>res. case res of
         Inl e \<Rightarrow> if e \<noteq> CodeConflict then io_fail e else replay req c
       | Inr settled \<Rightarrow> io_return (c\<lparr>st_Approval := Some settled\<rparr>)) (tick w) = (Ok s, w')"
    by (auto simp: approval_Settle_def io_Ok_iffs)
  have fresh: "\<not> st_Replayed c" using c consequences_fresh by (auto simp: checkSettle_Ok)
  let ?st = "if st_Allowed c then ApprovalApproved else ApprovalRejected"
  obtain r w1 where r: "SettleRow (set_ApprovalID req) (set_Action req) ?st
      (w_clock w (w_tick w)) (tick w) = (r, w1)" by (metis prod.exhaust)
  have "r = Err CodeConflict \<and> replay req c w1 = (Ok s, w')"
    using run r assms(2) fresh
    by (auto simp: io_bind_def io_try_def io_return_def io_fail_def
        split: sum.splits go_error.splits prod.splits if_splits)
  moreover from this r have "w_db w1 = w_db w"
    by (auto simp: SettleRow_def io_write_def split: sum.splits prod.splits if_splits)
  ultimately show thesis
    by (auto simp: replay_def io_Ok_iffs split: if_splits dest!: ApprovalByID_Ok
        intro!: that [OF c])
qed

lemma Settle_fresh_rows:
  assumes "approval_Settle req w = (Ok s, w')" and "\<not> st_Replayed s"
  shows "\<exists>a \<in> set (db_approvals (w_db w)). approval_ID a = set_ApprovalID req
      \<and> approval_Status a = ApprovalPending"
    and "\<exists>a' \<in> set (db_approvals (w_db w')). approval_ID a' = set_ApprovalID req
      \<and> approval_Action a' = set_Action req \<and> approval_Status a' \<noteq> ApprovalPending"
  using approval_Settle_fresh [OF assms] by (metis approval_status.distinct(1,3))+

lemma Settle_replayed_row:
  assumes "approval_Settle req w = (Ok s, w')" and "st_Replayed s"
  shows "\<exists>a \<in> set (db_approvals (w_db w)). approval_ID a = set_ApprovalID req
      \<and> approval_Action a = set_Action req" and "w_db w' = w_db w"
  using approval_Settle_replayed [OF assms] by metis+

lemma Settle_checked:
  assumes "approval_Settle req w = (Ok s, w')"
  obtains c where "checkSettle req = Ok c"
  using assms by (auto simp: approval_Settle_def io_Ok_iffs)

lemma approval_manager_table_ok:
  "approvals_ok.keeps (approval_Open t i)" "approvals_ok.keeps (replay req c)"
  "approvals_ok.keeps (approval_Settle req)" "approvals_ok.keeps (approval_Expire n)"
  "approvals_ok.keeps (approval_ByID i)" "approvals_ok.keeps (approval_Pending n)"
  by (auto simp: approval_Open_def replay_def approval_Settle_def approval_Expire_def
      approval_ByID_def approval_Pending_def ApprovalsByStatus_def PendingApprovalsDueBefore_def
      intro!: approvals_ok.keeps_rules approval_repo_table_ok)

section \<open>Sequences of operations\<close>

datatype approval_op = OpOpen duration string | OpSettle settle_request | OpExpire int

fun run_approval_op :: "approval_op \<Rightarrow> world \<Rightarrow> world" where
  "run_approval_op (OpOpen t i) w = snd (approval_Open t i w)"
| "run_approval_op (OpSettle req) w = snd (approval_Settle req w)"
| "run_approval_op (OpExpire n) w = snd (approval_Expire n w)"

text \<open>The settlements a sequence of operations reports, in order.\<close>

fun settlements :: "approval_op list \<Rightarrow> world \<Rightarrow> (string \<times> action \<times> settlement) list" where
  "settlements [] w = []"
| "settlements (op # ops) w =
     (case op of
        OpSettle req \<Rightarrow> (case fst (approval_Settle req w) of
            Inl e \<Rightarrow> [] | Inr s \<Rightarrow> [(set_ApprovalID req, set_Action req, s)])
      | _ \<Rightarrow> []) @ settlements ops (run_approval_op op w)"

lemma run_approval_op_history:
  "approval_history (w_db w) (w_db (run_approval_op op w))"
  "approvals_stay_ok (w_db w) (w_db (run_approval_op op w))"
  using approval_manager_keeps approval_manager_table_ok
  by (cases op; simp add: approvals.keeps_def approvals_ok.keeps_def)+

text \<open>Once a row is settled with an action, every later settlement repeats that action and is a
  replay.\<close>

definition settled_as :: "string \<Rightarrow> action \<Rightarrow> db \<Rightarrow> bool" where
  "settled_as i act d \<longleftrightarrow> approval_table_ok (db_approvals d)
     \<and> (\<exists>a \<in> set (db_approvals d). approval_ID a = i \<and> approval_Action a = act
          \<and> approval_Status a \<noteq> ApprovalPending)"

lemma settled_as_step:
  assumes "settled_as i act (w_db w)"
  shows "settled_as i act (w_db (run_approval_op op w))"
proof -
  from assms obtain a where a: "a \<in> set (db_approvals (w_db w))" "approval_ID a = i"
    "approval_Action a = act" "approval_Status a \<noteq> ApprovalPending"
    and ok: "approval_table_ok (db_approvals (w_db w))" by (auto simp: settled_as_def)
  from run_approval_op_history(1) a(1) obtain a'
    where "a' \<in> set (db_approvals (w_db (run_approval_op op w)))" "approval_evolves a a'"
    unfolding approval_history_def by (metis approval_rows.evolve_member)
  with a ok run_approval_op_history(2) [of w op] show ?thesis
    by (auto simp: settled_as_def approval_evolves_def approvals_stay_ok_def)
qed

lemma settled_as_settle:
  assumes "settled_as i act (w_db w)" and "approval_Settle req w = (Ok s, w')"
    and "set_ApprovalID req = i"
  shows "set_Action req = act \<and> st_Replayed s"
proof (cases "st_Replayed s")
  case True
  with Settle_replayed_row(1) [OF assms(2)] assms(1,3) show ?thesis
    unfolding settled_as_def by (metis table_ok_same)
next
  case False
  with Settle_fresh_rows(1) [OF assms(2)] assms(1,3) show ?thesis
    unfolding settled_as_def by (metis table_ok_same)
qed

lemma settle_makes_settled:
  assumes ok: "approval_table_ok (db_approvals (w_db w))"
    and s: "approval_Settle req w = (Ok s, w')"
  shows "settled_as (set_ApprovalID req) (set_Action req) (w_db w')"
proof -
  have ok': "approval_table_ok (db_approvals (w_db w'))"
    using ok approvals_ok.keepsD [OF approval_manager_table_ok(3) s]
    by (simp add: approvals_stay_ok_def)
  show ?thesis
  proof (cases "st_Replayed s")
    case True
    then obtain a where a: "a \<in> set (db_approvals (w_db w))" "approval_ID a = set_ApprovalID req"
      "approval_Action a = set_Action req" using Settle_replayed_row(1) [OF s] by blast
    moreover have "set_Action req \<noteq> ActionOther []"
      using s by (rule Settle_checked) (auto simp: checkSettle_Ok)
    ultimately show ?thesis
      using ok table_ok_check [OF ok a(1)] Settle_replayed_row(2) [OF s True]
      by (auto simp: settled_as_def approval_check_def)
  next
    case False
    with Settle_fresh_rows(2) [OF s] ok' show ?thesis by (auto simp: settled_as_def)
  qed
qed

lemma settlements_after_settled:
  assumes "settled_as i act (w_db w)" and "(i, act', s) \<in> set (settlements ops w)"
  shows "act' = act \<and> st_Replayed s"
  using assms
proof (induction ops arbitrary: w)
  case (Cons op ops)
  show ?case
  proof (cases "(i, act', s) \<in> set (settlements ops (run_approval_op op w))")
    case True
    with Cons.IH [OF settled_as_step [OF Cons.prems(1)]] show ?thesis by blast
  next
    case False
    with Cons.prems(2) obtain req w' where req: "op = OpSettle req" "set_ApprovalID req = i"
      "set_Action req = act'" "approval_Settle req w = (Ok s, w')"
      by (auto split: approval_op.splits sum.splits) (metis prod.collapse)
    with settled_as_settle [OF Cons.prems(1)] show ?thesis by blast
  qed
qed simp

text \<open>C4: An approval is decided once.  Whatever approvals are opened, settled and swept in whatever
  order, and whichever statements fail: after the first settlement of an approval that succeeds,
  every later one that succeeds submitted the same action and is marked as a replay.  In
  particular a denial can never be turned into an allowance.\<close>

theorem approval_settled_once:
  assumes "approval_table_ok (db_approvals (w_db w))"
    and "settlements ops w = before @ (i, act, s) # after" and "(i, act', s') \<in> set after"
  shows "act' = act \<and> st_Replayed s'"
  using assms
proof (induction ops arbitrary: w before)
  case (Cons op ops)
  let ?w = "run_approval_op op w"
  have ok: "approval_table_ok (db_approvals (w_db ?w))"
    using Cons.prems(1) run_approval_op_history(2) [of w op] by (simp add: approvals_stay_ok_def)
  show ?case
  proof (cases "\<exists>req t. op = OpSettle req \<and> fst (approval_Settle req w) = Inr t")
    case True
    then obtain req t w' where op: "op = OpSettle req" and t: "approval_Settle req w = (Ok t, w')"
      by (metis prod.collapse)
    have split: "(set_ApprovalID req, set_Action req, t) # settlements ops w'
        = before @ (i, act, s) # after" using Cons.prems(2) op t by simp
    show ?thesis
    proof (cases before)
      case Nil
      with split settle_makes_settled [OF Cons.prems(1) t] Cons.prems(3) show ?thesis
        by (auto dest: settlements_after_settled)
    next
      case (Cons b bs)
      with split have "settlements ops ?w = bs @ (i, act, s) # after" using op t by simp
      with Cons.IH [OF ok] Cons.prems(3) show ?thesis by blast
    qed
  next
    case False
    then have "settlements (op # ops) w = settlements ops ?w"
      by (auto split: approval_op.split sum.split)
    with Cons.IH [OF ok] Cons.prems(2,3) show ?thesis by metis
  qed
qed simp

definition example_approval :: approval where
  "example_approval = \<lparr>approval_ID = ''ap1'', approval_DecisionID = ''d1'',
     approval_Action = ActionOther [], approval_Status = ApprovalPending,
     approval_ExpiresAt = 300 * second, approval_DecidedAt = 0, approval_CreatedAt = 0,
     approval_UpdatedAt = 0\<rparr>"

definition approval_world :: world where
  "approval_world = sample_world (empty_db\<lparr>db_approvals := [example_approval]\<rparr>)"

definition example_settle :: "action \<Rightarrow> settle_request" where
  "example_settle a = \<lparr>set_ApprovalID = ''ap1'', set_Action = a, set_RiskLevel = LevelMedium,
     set_StrongAuthCompleted = False, set_Requirement = ApprovalStandard,
     set_RequiredConfirmations = 1, set_Confirmations = 1\<rparr>"

lemma approval_world_ok: "approval_table_ok (db_approvals (w_db approval_world))"
  by (simp add: approval_world_def sample_world_def empty_db_def example_approval_def table_ok_def
      approval_check_def)

theorem approval_settled_once_witness:
  "\<exists>s s'. settlements (map (OpSettle \<circ> example_settle) [ActionDeny, ActionAllowOnce, ActionDeny])
        approval_world = [(''ap1'', ActionDeny, s), (''ap1'', ActionDeny, s')]
     \<and> \<not> st_Replayed s \<and> st_Replayed s'"
proof -
  let ?l = "settlements (map (OpSettle \<circ> example_settle) [ActionDeny, ActionAllowOnce, ActionDeny])
        approval_world"
  have e: "map (\<lambda>(i, a, s). (i, a)) ?l = [(''ap1'', ActionDeny), (''ap1'', ActionDeny)]
      \<and> \<not> st_Replayed (snd (snd (hd ?l)))" by code_simp
  then obtain s s' where l: "?l = [(''ap1'', ActionDeny, s), (''ap1'', ActionDeny, s')]"
    by (auto simp: map_eq_Cons_conv simp del: settlements.simps)
  then have "?l = [] @ (''ap1'', ActionDeny, s) # [(''ap1'', ActionDeny, s')]"
    by (simp only: append_Nil)
  from approval_settled_once [OF approval_world_ok this, of ActionDeny s'] have "st_Replayed s'"
    by simp
  with l e show ?thesis by (simp del: settlements.simps)
qed

text \<open>What a settlement that allows has required.  The action is one the risk level offers, so
  a high-risk approval never yields a learned memory; strong authentication was completed where
  the decision demands it and the confirmations reached the demanded number, at least one.
  Unless it is a replay the approval was pending before and is stored as approved with exactly
  that action afterwards; a replay leaves the database untouched.\<close>

theorem settlement_allowed_requires:
  assumes "approval_Settle req w = (Ok s, w')" and "st_Allowed s"
  shows "set_Action req \<in> set (Actions (set_RiskLevel req)) - {ActionDeny}
    \<and> (set_RiskLevel req = LevelHigh \<longrightarrow> st_Learn s = BehaviorOther [])
    \<and> (set_Requirement req = ApprovalStrongAuth \<longrightarrow> set_StrongAuthCompleted req)
    \<and> 1 \<le> set_Confirmations req \<and> set_RequiredConfirmations req \<le> set_Confirmations req
    \<and> (if st_Replayed s then w_db w' = w_db w
       else (\<exists>a \<in> set (db_approvals (w_db w)). approval_ID a = set_ApprovalID req
               \<and> approval_Status a = ApprovalPending)
          \<and> (\<exists>a' \<in> set (db_approvals (w_db w')). st_Approval s = Some a'
               \<and> approval_ID a' = set_ApprovalID req \<and> approval_Action a' = set_Action req
               \<and> approval_Status a' = ApprovalApproved))"
proof (cases "st_Replayed s")
  case True
  from approval_Settle_replayed [OF assms(1) True] obtain a c where c: "checkSettle req = Ok c"
    and s: "s = c\<lparr>st_Approval := Some a, st_Replayed := True\<rparr>" by metis
  then have "consequences (set_Action req) = Some c" and
    "set_Action req \<in> set (Actions (set_RiskLevel req))" by (auto simp: checkSettle_Ok)
  then have "set_Action req \<noteq> ActionDeny"
    and "set_RiskLevel req = LevelHigh \<longrightarrow> st_Learn s = BehaviorOther []"
    using assms(2) s by (auto simp: Actions_def zero_settlement_def)
  with c s assms(2) Settle_replayed_row(2) [OF assms(1) True] show ?thesis
    by (simp add: checkSettle_Ok)
next
  case False
  from approval_Settle_fresh [OF assms(1) False] obtain a' c where c: "checkSettle req = Ok c"
    and s: "s = c\<lparr>st_Approval := Some a'\<rparr>"
    and a': "a' \<in> set (db_approvals (w_db w'))" "approval_ID a' = set_ApprovalID req"
      "approval_Action a' = set_Action req"
      "approval_Status a' = (if st_Allowed c then ApprovalApproved else ApprovalRejected)"
    by metis
  then have "consequences (set_Action req) = Some c" and
    "set_Action req \<in> set (Actions (set_RiskLevel req))" by (auto simp: checkSettle_Ok)
  then have "set_Action req \<noteq> ActionDeny"
    and "set_RiskLevel req = LevelHigh \<longrightarrow> st_Learn s = BehaviorOther []"
    using assms(2) s by (auto simp: Actions_def zero_settlement_def)
  with c s a' assms(2) Settle_fresh_rows(1) [OF assms(1) False] False show ?thesis
    by (auto simp: checkSettle_Ok)
qed

theorem settlement_allowed_requires_witness:
  "\<exists>s w'. approval_Settle (example_settle ActionAllowOnce) approval_world = (Ok s, w')
     \<and> st_Allowed s \<and> st_RequestLimit s = 1
     \<and> (\<exists>a' \<in> set (db_approvals (w_db w')). st_Approval s = Some a'
          \<and> approval_Status a' = ApprovalApproved)"
proof -
  let ?r = "approval_Settle (example_settle ActionAllowOnce) approval_world"
  have e: "case fst ?r of Inl e \<Rightarrow> False
      | Inr s \<Rightarrow> st_Allowed s \<and> \<not> st_Replayed s \<and> st_RequestLimit s = 1" by code_simp
  then obtain s w' where r: "?r = (Ok s, w')" by (cases ?r) (auto split: sum.splits)
  with e have s: "st_Allowed s" "\<not> st_Replayed s" "st_RequestLimit s = 1" by auto
  from settlement_allowed_requires [OF r s(1)] s r show ?thesis by auto
qed

text \<open>The deadline of an approval is not enforced when it is settled.  A pending approval whose
  timeout has passed but which the sweep has not reached yet can still be approved, for any action
  and any instant: the update tests only that the row is pending.\<close>

theorem settle_ignores_deadline:
  assumes "w_db w = empty_db\<lparr>db_approvals := [example_approval]\<rparr>" and "\<not> w_fault w (Suc (w_tick w))"
    and "w_clock w (w_tick w) > approval_ExpiresAt example_approval"
  shows "\<exists>s. fst (approval_Settle (example_settle ActionAllowOnce) w) = Ok s \<and> st_Allowed s
     \<and> \<not> st_Replayed s"
proof -
  have "encodeTime (w_clock w (w_tick w)) \<noteq> 0"
    using assms(3) encodeTime_mono [of "approval_ExpiresAt example_approval" "w_clock w (w_tick w)"]
    by (auto simp: example_approval_def duration_defs encodeTime_def)
  moreover have "w_clock w (w_tick w) \<noteq> 0"
    using assms(3) by (auto simp: example_approval_def duration_defs)
  ultimately show ?thesis using assms(1,2)
    by (simp add: approval_Settle_def io_bind_def io_lift_def checkSettle_def example_settle_def
        offered_def Actions_def required_def zero_settlement_def io_now_def io_try_def
        SettleRow_def io_write_def settle_row_def settleApproval_def sql_update_def
        empty_db_def example_approval_def approval_check_def optionalTime_def io_return_def)
qed

theorem settle_ignores_deadline_witness:
  "\<exists>s. fst (approval_Settle (example_settle ActionAllowOnce)
        (approval_world\<lparr>w_clock := \<lambda>n. 301 * second\<rparr>)) = Ok s \<and> st_Allowed s"
  using settle_ignores_deadline [of "approval_world\<lparr>w_clock := \<lambda>n. 301 * second\<rparr>"]
  by (auto simp: approval_world_def sample_world_def example_approval_def duration_defs)

end
