(* ===== verification/Trust_Repo.thy ===== *)
theory Trust_Repo
  imports Tables
begin

text \<open>
  The table of trust memories and its repository (\<open>internal/store/repo/trust.go\<close>, with the
  statements of \<open>internal/store/queries/trust_memories.sql.go\<close>).  No statement changes what a
  memory covers; behaviour moves from \<open>auto_allow\<close> to \<open>always_ask\<close> only, status from active to
  invalidated only, and a row that a decision or a lease refers to cannot be deleted.
\<close>

section \<open>Constraints and statements\<close>

definition memory_check :: "memory \<Rightarrow> bool" where
  "memory_check m \<longleftrightarrow> json_valid (memory_ResourceScope m) \<and> json_valid (memory_CapabilityScope m)
     \<and> memory_Environment m \<in> {EnvironmentProduction, EnvironmentNonProduction}
     \<and> memory_RiskCeiling m \<in> {LevelLow, LevelMedium}
     \<and> memory_Behavior m \<in> {BehaviorAutoAllow, BehaviorAlwaysAsk}
     \<and> memory_Status m \<in> {MemoryActive, MemoryInvalidated}
     \<and> memory_InvalidationReason m \<in> {InvalidationReasonOther [], ReasonProviderDisconnected,
         ReasonIdentityScopeChanged, ReasonAgentExecutableChanged, ReasonProjectFingerprintChanged,
         ReasonDeviceUntrusted, ReasonUnusedTooLong, ReasonCautiousModeSelected,
         ReasonAdapterRiskUpgraded}
     \<and> (memory_Status m = MemoryActive
         \<longleftrightarrow> memory_InvalidationReason m = InvalidationReasonOther [])"

definition memory_unique :: "memory \<Rightarrow> memory list \<Rightarrow> bool" where
  "memory_unique m rows \<longleftrightarrow> memory_ID m \<notin> memory_ID ` set rows
     \<and> memory_CreatedFrom m \<notin> memory_CreatedFrom ` set rows"

definition memory_refs :: "memory \<Rightarrow> db \<Rightarrow> bool" where
  "memory_refs m d \<longleftrightarrow> ref_ok (memory_AgentID m) (map agent_ID (db_agents d))
     \<and> ref_ok (memory_WorkspaceID m) (map workspace_ID (db_workspaces d))
     \<and> ref_ok (memory_IdentityID m) (map identity_ID (db_identities d))
     \<and> ref_ok (memory_CreatedFrom m) (map approval_ID (db_approvals d))"

definition memory_row :: "memory \<Rightarrow> memory" where
  "memory_row m = m\<lparr>memory_LastUsedAt := optionalTime (memory_LastUsedAt m),
     memory_ExpiresAt := encodeTime (memory_ExpiresAt m),
     memory_CreatedAt := encodeTime (memory_CreatedAt m),
     memory_UpdatedAt := encodeTime (memory_UpdatedAt m)\<rparr>"

definition createTrustMemory :: "memory \<Rightarrow> db \<Rightarrow> (memory \<times> db) result" where
  "createTrustMemory m d =
     rbind (sql_insert (memory_check m) (memory_unique m (db_memories d)) (memory_refs m d) m
         (db_memories d))
       (\<lambda>(r, rows). Ok (r, d\<lparr>db_memories := rows\<rparr>))"

definition touchTrustMemory ::
    "string \<Rightarrow> instant \<Rightarrow> instant \<Rightarrow> memory list \<Rightarrow> (memory \<times> memory list) option result" where
  "touchTrustMemory i used at rows =
     sql_update memory_check (\<lambda>m. memory_ID m = i \<and> memory_Status m = MemoryActive)
       (\<lambda>m. m\<lparr>memory_LastUsedAt := used, memory_UpdatedAt := at\<rparr>) rows"

definition tightenTrustMemoryBehavior ::
    "string \<Rightarrow> instant \<Rightarrow> memory list \<Rightarrow> (memory \<times> memory list) option result" where
  "tightenTrustMemoryBehavior i at rows =
     sql_update memory_check
       (\<lambda>m. memory_ID m = i \<and> memory_Status m = MemoryActive
          \<and> memory_Behavior m = BehaviorAutoAllow)
       (\<lambda>m. m\<lparr>memory_Behavior := BehaviorAlwaysAsk, memory_UpdatedAt := at\<rparr>) rows"

definition invalidateTrustMemory ::
    "string \<Rightarrow> invalidation_reason \<Rightarrow> instant \<Rightarrow> memory list
     \<Rightarrow> (memory \<times> memory list) option result" where
  "invalidateTrustMemory i reason at rows =
     sql_update memory_check (\<lambda>m. memory_ID m = i \<and> memory_Status m = MemoryActive)
       (\<lambda>m. m\<lparr>memory_Status := MemoryInvalidated, memory_InvalidationReason := reason,
             memory_UpdatedAt := at\<rparr>) rows"

text \<open>\<open>ON DELETE RESTRICT\<close> of \<open>decisions.trust_memory_id\<close> and \<open>leases.source_memory_id\<close>.\<close>

definition memory_referenced :: "string \<Rightarrow> db \<Rightarrow> bool" where
  "memory_referenced i d \<longleftrightarrow> i \<noteq> [] \<and>
     (list_ex (\<lambda>x. decision_TrustMemoryID x = i) (db_decisions d)
      \<or> list_ex (\<lambda>l. lease_SourceMemoryID l = i) (db_leases d))"

definition deleteTrustMemory :: "string \<Rightarrow> db \<Rightarrow> (nat \<times> db) result" where
  "deleteTrustMemory i d =
     (let gone = filter (\<lambda>m. memory_ID m = i) (db_memories d) in
      if gone \<noteq> [] \<and> memory_referenced i d then Err CodeConflict
      else Ok (length gone, d\<lparr>db_memories := filter (\<lambda>m. memory_ID m \<noteq> i) (db_memories d)\<rparr>))"

definition select_memories :: "(memory \<Rightarrow> bool) \<Rightarrow> int \<Rightarrow> memory list \<Rightarrow> memory list" where
  "select_memories P limit rows = take (nat limit) (sort_key memory_ID (filter P rows))"

section \<open>The repository\<close>

definition CreateMemory :: "memory \<Rightarrow> memory io" where
  "CreateMemory m = io_write (createTrustMemory (memory_row m))"

definition MemoryByID :: "string \<Rightarrow> memory io" where
  "MemoryByID i = io_read (\<lambda>d. found (row_by memory_ID i (db_memories d)))"

definition list_memories :: "(memory \<Rightarrow> bool) \<Rightarrow> int \<Rightarrow> memory list io" where
  "list_memories P limit =
     (if limit \<le> 0 then io_lift invalidLimit
      else io_read (\<lambda>d. Ok (select_memories P limit (db_memories d))))"

definition MatchMemories :: "string \<Rightarrow> string \<Rightarrow> string \<Rightarrow> int \<Rightarrow> memory list io" where
  "MatchMemories agentID workspaceID service limit =
     list_memories (\<lambda>m. memory_AgentID m = agentID \<and> memory_WorkspaceID m = workspaceID
        \<and> memory_Service m = service \<and> memory_Status m = MemoryActive) limit"

definition MemoriesByStatus :: "memory_status \<Rightarrow> int \<Rightarrow> memory list io" where
  "MemoriesByStatus st limit = list_memories (\<lambda>m. memory_Status m = st) limit"

definition ActiveMemoriesByIdentity :: "string \<Rightarrow> int \<Rightarrow> memory list io" where
  "ActiveMemoriesByIdentity i limit =
     list_memories (\<lambda>m. memory_IdentityID m = i \<and> memory_Status m = MemoryActive) limit"

definition update_memory ::
    "(memory list \<Rightarrow> (memory \<times> memory list) option result) \<Rightarrow> db \<Rightarrow> (memory \<times> db) result" where
  "update_memory stmt d =
     rbind (stmt (db_memories d)) (\<lambda>res. case res of
        None \<Rightarrow> Err CodeConflict
      | Some (r, rows) \<Rightarrow> Ok (r, d\<lparr>db_memories := rows\<rparr>))"

definition Touch :: "string \<Rightarrow> instant \<Rightarrow> memory io" where
  "Touch i at = io_write (update_memory (touchTrustMemory i (optionalTime at) (encodeTime at)))"

definition TightenBehaviorRow :: "string \<Rightarrow> instant \<Rightarrow> memory io" where
  "TightenBehaviorRow i at = io_write (update_memory (tightenTrustMemoryBehavior i (encodeTime at)))"

definition InvalidateRow :: "string \<Rightarrow> invalidation_reason \<Rightarrow> instant \<Rightarrow> memory io" where
  "InvalidateRow i reason at =
     (if reason = InvalidationReasonOther [] then io_fail CodeInvalidRequest
      else io_write (update_memory (invalidateTrustMemory i reason (encodeTime at))))"

definition DeleteMemory :: "string \<Rightarrow> unit io" where
  "DeleteMemory i =
     io_bind (io_write (deleteTrustMemory i)) (\<lambda>affected.
       if affected = 0 then io_fail CodeNotFound else io_return ())"

section \<open>How a memory may change\<close>

text \<open>Everything it covers stays; behaviour only tightens, and an invalidated memory is frozen.\<close>

definition memory_evolves :: "memory \<Rightarrow> memory \<Rightarrow> bool" where
  "memory_evolves m m' \<longleftrightarrow>
     m' = m\<lparr>memory_Behavior := memory_Behavior m', memory_Status := memory_Status m',
            memory_InvalidationReason := memory_InvalidationReason m',
            memory_LastUsedAt := memory_LastUsedAt m', memory_UpdatedAt := memory_UpdatedAt m'\<rparr>
     \<and> (memory_Behavior m' = memory_Behavior m
         \<or> memory_Behavior m = BehaviorAutoAllow \<and> memory_Behavior m' = BehaviorAlwaysAsk)
     \<and> (memory_Status m \<noteq> MemoryActive \<longrightarrow> m' = m)"

lemma memory_evolves_fields:
  assumes "memory_evolves m m'"
  shows "memory_ID m' = memory_ID m" and "memory_AgentID m' = memory_AgentID m"
    and "memory_WorkspaceID m' = memory_WorkspaceID m"
    and "memory_IdentityID m' = memory_IdentityID m" and "memory_Service m' = memory_Service m"
    and "memory_ResourceScope m' = memory_ResourceScope m"
    and "memory_CapabilityScope m' = memory_CapabilityScope m"
    and "memory_Environment m' = memory_Environment m"
    and "memory_RiskCeiling m' = memory_RiskCeiling m"
    and "memory_CreatedFrom m' = memory_CreatedFrom m"
    and "memory_ExpiresAt m' = memory_ExpiresAt m"
  using assms by (cases m; cases m'; simp add: memory_evolves_def)+

lemma memory_evolves_refl: "memory_evolves m m"
  by (simp add: memory_evolves_def)

lemma memory_evolves_trans: "memory_evolves a b \<Longrightarrow> memory_evolves b c \<Longrightarrow> memory_evolves a c"
proof -
  assume ab: "memory_evolves a b" and bc: "memory_evolves b c"
  have "c = a\<lparr>memory_Behavior := memory_Behavior c, memory_Status := memory_Status c,
            memory_InvalidationReason := memory_InvalidationReason c,
            memory_LastUsedAt := memory_LastUsedAt c, memory_UpdatedAt := memory_UpdatedAt c\<rparr>"
    using ab bc unfolding memory_evolves_def by (cases a; cases b; cases c) simp
  moreover have "memory_Status a \<noteq> MemoryActive \<longrightarrow> c = a"
    using ab bc unfolding memory_evolves_def by auto
  ultimately show "memory_evolves a c"
    using ab bc unfolding memory_evolves_def by metis
qed

text \<open>Rows may disappear, but every row comes from one that was there.\<close>

definition memory_history :: "db \<Rightarrow> db \<Rightarrow> bool" where
  "memory_history d d' \<longleftrightarrow>
     (\<forall>m' \<in> set (db_memories d'). \<exists>m \<in> set (db_memories d). memory_evolves m m')"

interpretation memories: db_history memory_history
proof
  show "memory_history d d" for d
    using memory_evolves_refl by (auto simp: memory_history_def)
next
  fix a b c assume ab: "memory_history a b" and bc: "memory_history b c"
  show "memory_history a c" unfolding memory_history_def
  proof
    fix m assume "m \<in> set (db_memories c)"
    with bc obtain n where n: "n \<in> set (db_memories b)" "memory_evolves n m"
      by (auto simp: memory_history_def)
    with ab obtain k where "k \<in> set (db_memories a)" "memory_evolves k n"
      by (auto simp: memory_history_def)
    with n memory_evolves_trans show "\<exists>k \<in> set (db_memories a). memory_evolves k m" by blast
  qed
qed

lemma update_memory_history:
  assumes "update_memory stmt d = Ok (r, d')"
    and "stmt (db_memories d) = sql_update memory_check P f (db_memories d)"
    and "\<And>x. P x \<Longrightarrow> memory_evolves x (f x)"
  shows "memory_history d d'"
proof -
  from assms(1,2) obtain rows where "sql_update memory_check P f (db_memories d)
      = Ok (Some (r, rows))" and d': "db_memories d' = rows"
    by (auto simp: update_memory_def rbind_iffs split: option.splits)
  from this(1) have "rows = map (\<lambda>x. if P x then f x else x) (db_memories d)"
    by (rule sql_update_Some)
  then have "\<exists>x \<in> set (db_memories d). m' = (if P x then f x else x)"
    if "m' \<in> set (db_memories d')" for m' using that d' by auto
  then show ?thesis unfolding memory_history_def using assms(3) memory_evolves_refl by metis
qed

lemma memory_write_keeps:
  "memories.keeps (io_write (update_memory (touchTrustMemory i u at)))"
  "memories.keeps (io_write (update_memory (tightenTrustMemoryBehavior i at)))"
  "memories.keeps (io_write (update_memory (invalidateTrustMemory i reason at)))"
  "memories.keeps (io_write (deleteTrustMemory i))"
  by (rule memories.keeps_write, erule update_memory_history,
      rule touchTrustMemory_def tightenTrustMemoryBehavior_def invalidateTrustMemory_def,
      simp add: memory_evolves_def)+
    (rule memories.keeps_write, auto simp: deleteTrustMemory_def Let_def memory_history_def
      intro: memory_evolves_refl split: if_splits)

lemma memory_repo_keeps:
  "memories.keeps (MemoryByID i)" "memories.keeps (list_memories P n)"
  "memories.keeps (Touch i at)" "memories.keeps (TightenBehaviorRow i at)"
  "memories.keeps (InvalidateRow i reason at)" "memories.keeps (DeleteMemory i)"
  by (auto simp: MemoryByID_def list_memories_def Touch_def TightenBehaviorRow_def
      InvalidateRow_def DeleteMemory_def intro!: memories.keeps_rules memory_write_keeps)

text \<open>The constraints of the table hold whatever happens.\<close>

abbreviation memory_table_ok :: "memory list \<Rightarrow> bool" where
  "memory_table_ok \<equiv> table_ok memory_ID memory_check"

end
