(* ===== verification/Trust.thy ===== *)
theory Trust
  imports Trust_Repo
begin

text \<open>
  Model of \<open>internal/core/trust/manager.go\<close>: learning a memory from an approval, matching,
  tightening, deleting and invalidating memories.  The lemmas show that a memory never covers
  more than the approval it was learned from, never carries a high risk ceiling, never gets
  wider or comes back after it was invalidated, and what matching returns.
\<close>

section \<open>The manager (manager.go)\<close>

definition DefaultTTL :: duration where "DefaultTTL = 30 * 24 * hour"
definition MaxTTL :: duration where "MaxTTL = 90 * 24 * hour"
definition UnusedTTL :: duration where "UnusedTTL = 30 * 24 * hour"

record generate_request =
  gen_Approved :: scope
  gen_Learned :: scope
  gen_ApprovalID :: string
  gen_RiskLevel :: level
  gen_Behavior :: behavior
  gen_TTL :: duration

fun trust_rank :: "level \<Rightarrow> nat" where
  "trust_rank LevelLow = 1"
| "trust_rank LevelMedium = 2"
| "trust_rank LevelHigh = 3"
| "trust_rank (LevelOther s) = 0"

interpretation trust_ranks: ranked_levels trust_rank
  by unfold_locales auto

definition lowerOf :: "level \<Rightarrow> level \<Rightarrow> level" where
  "lowerOf left right = (if trust_rank left \<le> trust_rank right then left else right)"

definition checkGenerate :: "generate_request \<Rightarrow> unit result" where
  "checkGenerate req =
     rbind (scope_Validate (gen_Approved req)) (\<lambda>_.
     rbind (scope_Validate (gen_Learned req)) (\<lambda>_.
       if \<not> CoversIgnoringWindow (gen_Approved req) (gen_Learned req) then Err CodeInvalidRequest
       else if gen_RiskLevel req = LevelHigh then Err CodeInvalidRequest
       else if gen_RiskLevel req \<noteq> LevelLow \<and> gen_RiskLevel req \<noteq> LevelMedium
       then Err CodeInvalidRequest
       else if gen_ApprovalID req = [] then Err CodeInvalidRequest
       else if gen_Behavior req \<noteq> BehaviorAutoAllow \<and> gen_Behavior req \<noteq> BehaviorAlwaysAsk
       then Err CodeInvalidRequest
       else if gen_TTL req < 0 then Err CodeInvalidRequest
       else if gen_TTL req > MaxTTL then Err CodeInvalidRequest
       else Ok ()))"

definition encodeLearned :: "scope \<Rightarrow> jtext \<times> jtext" where
  "encodeLearned g = (encode_scope g, Parsed (JArr [JStr (scope_Operation g)]))"

text \<open>The record \<open>Generate\<close> builds.\<close>

definition learned_memory :: "generate_request \<Rightarrow> string \<Rightarrow> instant \<Rightarrow> memory" where
  "learned_memory req i now =
    \<lparr>memory_ID = i, memory_AgentID = scope_AgentID (gen_Learned req),
     memory_WorkspaceID = scope_WorkspaceID (gen_Learned req),
     memory_IdentityID = scope_IdentityID (gen_Learned req),
     memory_Service = scope_Service (gen_Learned req),
     memory_ResourceScope = fst (encodeLearned (gen_Learned req)),
     memory_CapabilityScope = snd (encodeLearned (gen_Learned req)),
     memory_Environment = scope_Environment (gen_Learned req),
     memory_RiskCeiling = lowerOf (gen_RiskLevel req) (scope_RiskCeiling (gen_Learned req)),
     memory_Behavior = gen_Behavior req, memory_CreatedFrom = gen_ApprovalID req,
     memory_Status = MemoryActive, memory_InvalidationReason = InvalidationReasonOther [],
     memory_LastUsedAt = 0,
     memory_ExpiresAt = now + (if gen_TTL req = 0 then DefaultTTL else gen_TTL req),
     memory_CreatedAt = now, memory_UpdatedAt = now\<rparr>"

definition trust_Generate :: "generate_request \<Rightarrow> memory io" where
  "trust_Generate req =
     io_bind (io_lift (checkGenerate req)) (\<lambda>_.
     io_bind io_now (\<lambda>now.
     io_bind io_new_id (\<lambda>i.
       CreateMemory (learned_memory req i now))))"

definition trust_Match :: "string \<Rightarrow> string \<Rightarrow> string \<Rightarrow> int \<Rightarrow> memory list io" where
  "trust_Match agentID workspaceID service limit =
     io_bind (MatchMemories agentID workspaceID service limit) (\<lambda>candidates.
     io_bind io_now (\<lambda>now.
       io_return (filter (\<lambda>m. memory_ExpiresAt m > now) candidates)))"

definition validStatus :: "memory_status \<Rightarrow> bool" where
  "validStatus st \<longleftrightarrow> st = MemoryActive \<or> st = MemoryInvalidated"

definition trust_ByStatus :: "memory_status \<Rightarrow> int \<Rightarrow> memory list io" where
  "trust_ByStatus st limit =
     (if \<not> validStatus st then io_fail CodeInvalidRequest else MemoriesByStatus st limit)"

definition trust_ByID :: "string \<Rightarrow> memory io" where
  "trust_ByID i = MemoryByID i"

definition trust_TightenBehavior :: "string \<Rightarrow> memory io" where
  "trust_TightenBehavior i = io_bind io_now (\<lambda>at. TightenBehaviorRow i at)"

definition trust_Delete :: "string \<Rightarrow> unit io" where
  "trust_Delete i = DeleteMemory i"

definition trust_Use :: "string \<Rightarrow> memory io" where
  "trust_Use i = io_bind io_now (\<lambda>at. Touch i at)"

definition reasons :: "invalidation_reason list" where
  "reasons = [ReasonProviderDisconnected, ReasonIdentityScopeChanged,
     ReasonAgentExecutableChanged, ReasonProjectFingerprintChanged, ReasonDeviceUntrusted,
     ReasonUnusedTooLong, ReasonCautiousModeSelected, ReasonAdapterRiskUpgraded]"

definition validReason :: "invalidation_reason \<Rightarrow> bool" where
  "validReason r = list_ex (\<lambda>known. r = known) reasons"

definition trust_Invalidate :: "string \<Rightarrow> invalidation_reason \<Rightarrow> memory io" where
  "trust_Invalidate i reason =
     (if \<not> validReason reason then io_fail CodeInvalidRequest
      else io_bind io_now (\<lambda>at. InvalidateRow i reason at))"

text \<open>As for expiring approvals, the partial result of a loop that fails is not kept: no caller
  reads it.\<close>

definition invalidateEach :: "memory list \<Rightarrow> invalidation_reason \<Rightarrow> memory list io" where
  "invalidateEach targets reason =
     (if \<not> validReason reason then io_fail CodeInvalidRequest
      else io_bind io_now (\<lambda>now.
        io_mapM (\<lambda>target. InvalidateRow (memory_ID target) reason now) targets))"

definition trust_InvalidateForIdentity ::
    "string \<Rightarrow> invalidation_reason \<Rightarrow> int \<Rightarrow> memory list io" where
  "trust_InvalidateForIdentity identityID reason limit =
     io_bind (ActiveMemoriesByIdentity identityID limit) (\<lambda>active. invalidateEach active reason)"

definition trust_InvalidateAll :: "invalidation_reason \<Rightarrow> int \<Rightarrow> memory list io" where
  "trust_InvalidateAll reason limit =
     io_bind (MemoriesByStatus MemoryActive limit) (\<lambda>active. invalidateEach active reason)"

definition lastTouched :: "memory \<Rightarrow> instant" where
  "lastTouched m = (if memory_LastUsedAt m = 0 then memory_CreatedAt m else memory_LastUsedAt m)"

definition trust_InvalidateUnused :: "int \<Rightarrow> memory list io" where
  "trust_InvalidateUnused limit =
     io_bind (MemoriesByStatus MemoryActive limit) (\<lambda>active.
     io_bind io_now (\<lambda>now.
       invalidateEach (filter (\<lambda>m. \<not> lastTouched m > now - UnusedTTL) active)
         ReasonUnusedTooLong))"

definition trust_ScopeOf :: "memory \<Rightarrow> scope result" where
  "trust_ScopeOf m = (case decode_scope (memory_ResourceScope m) of
      None \<Rightarrow> Err CodeInternal
    | Some learned \<Rightarrow> rbind (scope_Validate learned) (\<lambda>_. Ok learned))"

section \<open>Histories\<close>

lemma trust_manager_keeps:
  "memories.keeps (trust_Match a ws s n)" "memories.keeps (trust_ByStatus st n)"
  "memories.keeps (trust_ByID i)" "memories.keeps (trust_TightenBehavior i)"
  "memories.keeps (trust_Delete i)" "memories.keeps (trust_Use i)"
  "memories.keeps (trust_Invalidate i r)" "memories.keeps (invalidateEach ms r)"
  "memories.keeps (trust_InvalidateForIdentity i r n)" "memories.keeps (trust_InvalidateAll r n)"
  "memories.keeps (trust_InvalidateUnused n)"
  by (auto simp: trust_Match_def trust_ByStatus_def trust_ByID_def trust_TightenBehavior_def
      trust_Delete_def trust_Use_def trust_Invalidate_def invalidateEach_def
      trust_InvalidateForIdentity_def trust_InvalidateAll_def trust_InvalidateUnused_def
      MatchMemories_def MemoriesByStatus_def ActiveMemoriesByIdentity_def
      intro!: memories.keeps_rules memory_repo_keeps)

section \<open>Learning\<close>

lemma lowerOf_rank:
  "trust_rank (lowerOf a b) \<le> trust_rank a" "trust_rank (lowerOf a b) \<le> trust_rank b"
  "lowerOf a b \<in> {a, b}"
  by (auto simp: lowerOf_def)

lemma checkGenerate_Ok:
  "checkGenerate req = Ok u \<longleftrightarrow> scope_Validate (gen_Approved req) = Ok ()
     \<and> scope_Validate (gen_Learned req) = Ok ()
     \<and> CoversIgnoringWindow (gen_Approved req) (gen_Learned req)
     \<and> gen_RiskLevel req \<in> {LevelLow, LevelMedium} \<and> gen_ApprovalID req \<noteq> []
     \<and> gen_Behavior req \<in> {BehaviorAutoAllow, BehaviorAlwaysAsk}
     \<and> 0 \<le> gen_TTL req \<and> gen_TTL req \<le> MaxTTL"
  by (auto simp: checkGenerate_def rbind_iffs)

text \<open>What it means that a stored memory was learned by a request; evolution keeps it.\<close>

definition learned_by :: "generate_request \<Rightarrow> memory \<Rightarrow> bool" where
  "learned_by req m \<longleftrightarrow> checkGenerate req = Ok ()
     \<and> memory_ResourceScope m = encode_scope (gen_Learned req)
     \<and> memory_AgentID m = scope_AgentID (gen_Approved req)
     \<and> memory_WorkspaceID m = scope_WorkspaceID (gen_Approved req)
     \<and> memory_IdentityID m = scope_IdentityID (gen_Approved req)
     \<and> memory_Service m = scope_Service (gen_Approved req)
     \<and> memory_Environment m = scope_Environment (gen_Approved req)
     \<and> memory_RiskCeiling m \<in> {LevelLow, LevelMedium}
     \<and> trust_rank (memory_RiskCeiling m) \<le> trust_rank (gen_RiskLevel req)
     \<and> trust_rank (memory_RiskCeiling m) \<le> trust_rank (scope_RiskCeiling (gen_Learned req))
     \<and> memory_CreatedFrom m = gen_ApprovalID req"

lemma learned_by_evolves: "learned_by req m \<Longrightarrow> memory_evolves m m' \<Longrightarrow> learned_by req m'"
  by (simp add: learned_by_def memory_evolves_fields)


lemma CreateMemory_cases:
  assumes "CreateMemory m w = (r, w')"
  shows "case r of
      Inl e \<Rightarrow> w_db w' = w_db w
    | Inr m' \<Rightarrow> m' = memory_row m \<and> memory_check m'
        \<and> w_db w' = (w_db w)\<lparr>db_memories := db_memories (w_db w) @ [m']\<rparr>"
proof (cases r)
  case (Inl e)
  with assms show ?thesis by (auto simp: CreateMemory_def dest: io_write_Err)
next
  case (Inr m')
  with assms show ?thesis
    by (auto simp: CreateMemory_def io_write_Ok createTrustMemory_def rbind_iffs sql_insert_Ok)
qed

lemma trust_Generate_cases:
  assumes "trust_Generate req w = (r, w')"
  shows "case r of
      Inl e \<Rightarrow> w_db w' = w_db w
    | Inr m \<Rightarrow> w_db w' = (w_db w)\<lparr>db_memories := db_memories (w_db w) @ [m]\<rparr> \<and> learned_by req m
        \<and> memory_Status m = MemoryActive \<and> memory_Behavior m = gen_Behavior req
        \<and> memory_ExpiresAt m \<le> w_clock w (w_tick w) + MaxTTL"
proof (cases "checkGenerate req = Ok ()")
  case True
  have cov: "scope_AgentID (gen_Learned req) = scope_AgentID (gen_Approved req)
      \<and> scope_WorkspaceID (gen_Learned req) = scope_WorkspaceID (gen_Approved req)
      \<and> scope_IdentityID (gen_Learned req) = scope_IdentityID (gen_Approved req)
      \<and> scope_Service (gen_Learned req) = scope_Service (gen_Approved req)
      \<and> scope_Environment (gen_Learned req) = scope_Environment (gen_Approved req)"
    using True by (auto simp: checkGenerate_Ok CoversIgnoringWindow_def covers_def split: if_splits)
  have ttl: "encodeTime (t + (if gen_TTL req = 0 then DefaultTTL else gen_TTL req)) \<le> t + MaxTTL"
    for t
  proof -
    have "(if gen_TTL req = 0 then DefaultTTL else gen_TTL req) \<le> MaxTTL"
      using True by (auto simp: checkGenerate_Ok DefaultTTL_def MaxTTL_def duration_defs)
    then show ?thesis using encodeTime_le [of "t + (if gen_TTL req = 0 then DefaultTTL
        else gen_TTL req)"] by linarith
  qed
  let ?now = "w_clock w (w_tick w)"
  show ?thesis
  proof (cases "w_ids w (Suc (w_tick w))")
    case None
    with assms True show ?thesis
      by (auto simp: trust_Generate_def io_bind_def io_lift_def io_now_def io_new_id_def)
  next
    case (Some i)
    with assms True have c: "CreateMemory (learned_memory req i ?now) (tick (tick w)) = (r, w')"
      by (simp add: trust_Generate_def io_bind_def io_lift_def io_now_def io_new_id_def)
    show ?thesis
    proof (cases r)
      case (Inr m)
      with CreateMemory_cases [OF c] have m: "m = memory_row (learned_memory req i ?now)"
        "memory_check m" "w_db w' = (w_db w)\<lparr>db_memories := db_memories (w_db w) @ [m]\<rparr>"
        by auto
      from m(2) have "memory_RiskCeiling m \<in> {LevelLow, LevelMedium}"
        by (simp add: memory_check_def)
      with m(1) have "learned_by req m"
        using True cov lowerOf_rank [of "gen_RiskLevel req" "scope_RiskCeiling (gen_Learned req)"]
        by (simp add: learned_by_def memory_row_def learned_memory_def encodeLearned_def)
      moreover have "memory_ExpiresAt m \<le> ?now + MaxTTL" "memory_Status m = MemoryActive"
        "memory_Behavior m = gen_Behavior req"
        using ttl [of ?now] m(1) by (simp_all add: memory_row_def learned_memory_def)
      ultimately show ?thesis using m(3) Inr by simp
    qed (use CreateMemory_cases [OF c] in simp)
  qed
next
  case False
  then obtain e where "checkGenerate req = Inl e" by (cases "checkGenerate req") auto
  with assms show ?thesis by (auto simp: trust_Generate_def io_bind_def io_lift_def)
qed

section \<open>Sequences of operations\<close>

datatype trust_op = OpGenerate generate_request | OpTighten string | OpDelete string
  | OpTouch string | OpInvalidate string invalidation_reason
  | OpInvalidateForIdentity string invalidation_reason int
  | OpInvalidateAll invalidation_reason int | OpInvalidateUnused int

fun run_trust_op :: "trust_op \<Rightarrow> world \<Rightarrow> world" where
  "run_trust_op (OpGenerate req) w = snd (trust_Generate req w)"
| "run_trust_op (OpTighten i) w = snd (trust_TightenBehavior i w)"
| "run_trust_op (OpDelete i) w = snd (trust_Delete i w)"
| "run_trust_op (OpTouch i) w = snd (trust_Use i w)"
| "run_trust_op (OpInvalidate i r) w = snd (trust_Invalidate i r w)"
| "run_trust_op (OpInvalidateForIdentity i r n) w = snd (trust_InvalidateForIdentity i r n w)"
| "run_trust_op (OpInvalidateAll r n) w = snd (trust_InvalidateAll r n w)"
| "run_trust_op (OpInvalidateUnused n) w = snd (trust_InvalidateUnused n w)"

lemma run_trust_op_origin:
  assumes "m' \<in> set (db_memories (w_db (run_trust_op op w)))"
  shows "(\<exists>m \<in> set (db_memories (w_db w)). memory_evolves m m')
     \<or> (\<exists>req. op = OpGenerate req \<and> learned_by req m')"
proof (cases "\<exists>req. op = OpGenerate req")
  case True
  then obtain req where op: "op = OpGenerate req" by blast
  obtain r w' where g: "trust_Generate req w = (r, w')" by (metis prod.exhaust)
  from trust_Generate_cases [OF g] assms op g show ?thesis
    using memory_evolves_refl by (cases r) auto
next
  case False
  then have "memory_history (w_db w) (w_db (run_trust_op op w))"
    using trust_manager_keeps by (cases op) (simp_all add: memories.keeps_def)
  with assms show ?thesis by (auto simp: memory_history_def)
qed

text \<open>C5: A memory never covers more than the approval it came from.  Whatever sequence of learning,
  using, tightening, invalidating and deleting the trust manager runs, and whichever statements
  fail, every stored memory either evolved from one that was there before - same scope, never
  from asking back to automatic, never revived - or was learned by one of the requests: for the
  approved agent, workspace, service, identity and environment, with a scope the approval covers
  and a risk ceiling of low or medium that exceeds neither the approval's risk level nor the
  learned scope's.\<close>

theorem memories_never_widen:
  assumes "m' \<in> set (db_memories (w_db (fold run_trust_op ops w)))"
  shows "(\<exists>m \<in> set (db_memories (w_db w)). memory_evolves m m')
     \<or> (\<exists>req. OpGenerate req \<in> set ops \<and> learned_by req m'
          \<and> CoversIgnoringWindow (gen_Approved req) (gen_Learned req)
          \<and> memory_RiskCeiling m' \<noteq> LevelHigh)"
  using assms
proof (induction ops arbitrary: m' rule: rev_induct)
  case Nil
  then show ?case using memory_evolves_refl by auto
next
  case (snoc op ops)
  then have "m' \<in> set (db_memories (w_db (run_trust_op op (fold run_trust_op ops w))))" by simp
  then consider m where "m \<in> set (db_memories (w_db (fold run_trust_op ops w)))"
      "memory_evolves m m'"
    | req where "op = OpGenerate req" "learned_by req m'"
    using run_trust_op_origin by blast
  then show ?case
  proof cases
    case 1
    from snoc.IH [OF 1(1)] show ?thesis
    proof
      assume "\<exists>k \<in> set (db_memories (w_db w)). memory_evolves k m"
      with 1(2) memory_evolves_trans show ?thesis by blast
    next
      assume "\<exists>req. OpGenerate req \<in> set ops \<and> learned_by req m
          \<and> CoversIgnoringWindow (gen_Approved req) (gen_Learned req)
          \<and> memory_RiskCeiling m \<noteq> LevelHigh"
      with 1(2) learned_by_evolves memory_evolves_fields(9) show ?thesis by fastforce
    qed
  next
    case 2
    then show ?thesis by (auto simp: learned_by_def checkGenerate_Ok)
  qed
qed

definition example_generate :: generate_request where
  "example_generate = \<lparr>gen_Approved = example_scope, gen_Learned = example_scope,
     gen_ApprovalID = ''ap1'', gen_RiskLevel = LevelMedium, gen_Behavior = BehaviorAutoAllow,
     gen_TTL = 0\<rparr>"

definition example_approver :: approval where
  "example_approver = \<lparr>approval_ID = ''ap1'', approval_DecisionID = ''d1'',
     approval_Action = ActionAutoAllowInProject, approval_Status = ApprovalApproved,
     approval_ExpiresAt = 300 * second, approval_DecidedAt = second, approval_CreatedAt = 0,
     approval_UpdatedAt = second\<rparr>"

definition trust_agent :: agent where
  "trust_agent = \<lparr>agent_ID = ''agent'', agent_Name = ''a'', agent_Type = TypeCodex,
     agent_Version = [], agent_ExecutableHash = ''h'', agent_ExecutablePath = ''/a'', agent_PID = 1,
     agent_ParentPID = 0, agent_OSUser = ''u'', agent_DeviceID = ''dev'',
     agent_WorkspaceID = ''ws'', agent_StartedAt = 1, agent_SessionKeyHash = ''k'',
     agent_SessionExpiresAt = 10, agent_TrustLevel = TrustTrusted, agent_Status = AgentActive,
     agent_LastSeenAt = 1, agent_CreatedAt = 1, agent_UpdatedAt = 1\<rparr>"

definition trust_world :: world where
  "trust_world = sample_world (empty_db\<lparr>db_agents := [trust_agent],
     db_workspaces := [\<lparr>workspace_ID = ''ws'', workspace_Path = ''/p'',
        workspace_ProjectFingerprint = [], workspace_CreatedAt = 1, workspace_UpdatedAt = 1\<rparr>],
     db_identities := [example_identity], db_approvals := [example_approver]\<rparr>)"

theorem memories_never_widen_witness:
  "\<exists>m. db_memories (w_db (fold run_trust_op [OpGenerate example_generate, OpTighten ''xx'']
        trust_world)) = [m] \<and> learned_by example_generate m
     \<and> memory_Behavior m = BehaviorAlwaysAsk"
proof -
  let ?ms = "db_memories (w_db (fold run_trust_op [OpGenerate example_generate, OpTighten ''xx'']
        trust_world))"
  have e: "map memory_Behavior ?ms = [BehaviorAlwaysAsk]" by code_simp
  then obtain m where m: "?ms = [m]" "memory_Behavior m = BehaviorAlwaysAsk" by auto
  then have "m \<in> set ?ms" by simp
  from memories_never_widen [OF this] m show ?thesis
    by (auto simp: trust_world_def sample_world_def empty_db_def)
qed

section \<open>Matching and invalidating\<close>

text \<open>Matching returns exactly the memories in force.  When the candidates fit the limit, a
  successful match returns the stored memories of that agent, workspace and service that are
  active and have not expired at the instant of the match - no invalidated or expired one, and
  none is missing.\<close>

theorem trust_Match_exact:
  assumes "trust_Match agentID workspaceID service limit w = (Ok ms, w')"
    and "int (length (filter (\<lambda>m. memory_AgentID m = agentID \<and> memory_WorkspaceID m = workspaceID
        \<and> memory_Service m = service \<and> memory_Status m = MemoryActive) (db_memories (w_db w))))
      \<le> limit"
  shows "set ms = {m \<in> set (db_memories (w_db w)). memory_AgentID m = agentID
     \<and> memory_WorkspaceID m = workspaceID \<and> memory_Service m = service
     \<and> memory_Status m = MemoryActive \<and> memory_ExpiresAt m > w_clock w (Suc (w_tick w))}"
proof -
  from assms(1) have ms: "ms = filter (\<lambda>m. memory_ExpiresAt m > w_clock w (Suc (w_tick w)))
      (select_memories (\<lambda>m. memory_AgentID m = agentID \<and> memory_WorkspaceID m = workspaceID
        \<and> memory_Service m = service \<and> memory_Status m = MemoryActive) limit
        (db_memories (w_db w)))"
    by (auto simp: trust_Match_def MatchMemories_def list_memories_def io_Ok_iffs invalidLimit_def
        split: if_splits)
  show ?thesis unfolding ms select_memories_def set_filter select_all [OF assms(2)] by blast
qed

definition match_world :: world where
  "match_world = fold run_trust_op [OpGenerate example_generate] trust_world"

theorem trust_Match_exact_witness:
  "\<exists>ms w'. trust_Match ''agent'' ''ws'' ''dns'' 10 match_world = (Ok ms, w') \<and> length ms = 1
     \<and> set ms \<subseteq> {m. memory_Status m = MemoryActive}"
proof -
  have e: "case fst (trust_Match ''agent'' ''ws'' ''dns'' 10 match_world) of
      Inl e \<Rightarrow> False | Inr ms \<Rightarrow> length ms = 1" by code_simp
  then obtain ms w' where r: "trust_Match ''agent'' ''ws'' ''dns'' 10 match_world = (Ok ms, w')"
    by (cases "trust_Match ''agent'' ''ws'' ''dns'' 10 match_world") (auto split: sum.splits)
  moreover have "int (length (filter (\<lambda>m. memory_AgentID m = ''agent''
      \<and> memory_WorkspaceID m = ''ws'' \<and> memory_Service m = ''dns''
      \<and> memory_Status m = MemoryActive) (db_memories (w_db match_world)))) \<le> 10" by code_simp
  ultimately have "set ms \<subseteq> {m. memory_Status m = MemoryActive}"
    using trust_Match_exact [of "''agent''" "''ws''" "''dns''" 10 match_world ms w'] by blast
  with e r show ?thesis by simp
qed

lemma InvalidateRow_shut:
  assumes "InvalidateRow i reason at w = (Ok a, w')" and "r \<in> set (db_memories (w_db w'))"
    and "memory_Status r = MemoryActive"
  shows "r \<in> set (db_memories (w_db w)) \<and> memory_ID r \<noteq> i"
proof -
  from assms(1) obtain rows where u: "invalidateTrustMemory i reason (encodeTime at)
      (db_memories (w_db w)) = Ok (Some (a, rows))" and w': "db_memories (w_db w') = rows"
    by (auto simp: InvalidateRow_def io_Ok_iffs update_memory_def rbind_iffs
        split: if_splits option.splits)
  from u have "rows = map (\<lambda>m. if memory_ID m = i \<and> memory_Status m = MemoryActive
      then m\<lparr>memory_Status := MemoryInvalidated, memory_InvalidationReason := reason,
             memory_UpdatedAt := encodeTime at\<rparr> else m) (db_memories (w_db w))"
    unfolding invalidateTrustMemory_def by (elim sql_update_Some)
  with assms(2,3) w' show ?thesis by (auto split: if_splits)
qed

interpretation invalidating: closing db_memories memory_ID "\<lambda>m. memory_Status m = MemoryActive"
    "\<lambda>x. InvalidateRow (memory_ID x) reason at" memory_ID for reason at
  by unfold_locales (rule InvalidateRow_shut)

text \<open>Switching to cautious mode leaves no memory in force.  When invalidating all memories
  succeeds and no more than the limit were active, no active memory is left.\<close>

theorem trust_InvalidateAll_complete:
  assumes run: "trust_InvalidateAll reason limit w = (Ok ms, w')"
    and fits: "int (length (filter (\<lambda>m. memory_Status m = MemoryActive) (db_memories (w_db w))))
      \<le> limit"
  shows "\<forall>m \<in> set (db_memories (w_db w')). memory_Status m \<noteq> MemoryActive"
proof -
  let ?active = "select_memories (\<lambda>m. memory_Status m = MemoryActive) limit (db_memories (w_db w))"
  from run have "io_mapM (\<lambda>x. InvalidateRow (memory_ID x) reason (w_clock w (Suc (w_tick w))))
      ?active (tick (tick w)) = (Ok ms, w')"
    by (auto simp: trust_InvalidateAll_def MemoriesByStatus_def list_memories_def io_Ok_iffs
        invalidateEach_def invalidLimit_def split: if_splits)
  note shut = invalidating.shut_complete [OF this, where P = "\<lambda>_. True"]
  have "set ?active = {m \<in> set (db_memories (w_db w)). memory_Status m = MemoryActive}"
    unfolding select_memories_def by (rule select_all [OF fits])
  with shut show ?thesis by simp
qed

theorem trust_InvalidateAll_complete_witness:
  "\<exists>ms w'. trust_InvalidateAll ReasonCautiousModeSelected 10 match_world = (Ok ms, w')
     \<and> length ms = 1 \<and> filter (\<lambda>m. memory_Status m = MemoryActive) (db_memories (w_db w')) = []"
proof -
  let ?r = "trust_InvalidateAll ReasonCautiousModeSelected 10 match_world"
  have e: "case fst ?r of Inl e \<Rightarrow> False | Inr ms \<Rightarrow> length ms = 1" by code_simp
  then obtain ms w' where r: "?r = (Ok ms, w')" by (cases ?r) (auto split: sum.splits)
  have "int (length (filter (\<lambda>m. memory_Status m = MemoryActive)
      (db_memories (w_db match_world)))) \<le> 10" by code_simp
  then have "filter (\<lambda>m. memory_Status m = MemoryActive) (db_memories (w_db w')) = []"
    using trust_InvalidateAll_complete [OF r] unfolding filter_empty_conv by blast
  with e r show ?thesis by simp
qed

end
