(* ===== verification/Redaction.thy ===== *)
theory Redaction
  imports Json_Text
begin

text \<open>
  Model of \<open>internal/platform/audit/redact.go\<close>: which keys are sensitive, how a JSON object is
  redacted, and the flat metadata of a ledger entry.  A document is decoded into Go maps, so of
  several members with one name the last one counts, and written back in key order.  Numbers are
  integers that \<open>float64\<close> represents exactly.
\<close>

section \<open>Definitions\<close>

definition Redacted :: string where "Redacted = ''[redacted]''"

definition maxMetadataValueLength :: nat where "maxMetadataValueLength = 512"

text \<open>The marker is an ellipsis (three bytes in UTF-8) followed by ASCII text.\<close>

definition ellipsis :: string where "ellipsis = map char_of [226 :: nat, 128, 166]"

definition Truncated :: string where "Truncated = ellipsis @ ''[truncated]''"

definition sensitiveKeyWords :: "string list" where
  "sensitiveKeyWords = [''authorization'', ''cookie'', ''set-cookie'', ''token'', ''api_key'',
     ''apikey'', ''password'', ''secret'', ''private_key'', ''credential'']"

definition normalizeKey :: "string \<Rightarrow> string" where
  "normalizeKey key = strip_chars ''-_.'' (to_lower key)"

definition normalizedSensitiveKeyWords :: "string list" where
  "normalizedSensitiveKeyWords = map normalizeKey sensitiveKeyWords"

definition isSensitiveKey :: "string \<Rightarrow> bool" where
  "isSensitiveKey key = list_ex (str_contains (normalizeKey key)) normalizedSensitiveKeyWords"

text \<open>\<open>redactValue\<close> on a decoded document, and its re-encoding.\<close>

fun redactValue :: "json \<Rightarrow> json" where
  "redactValue (JObj kvs) = JObj (gm_of_list
     (map (\<lambda>(k, v). (k, if isSensitiveKey k then JStr Redacted else redactValue v)) kvs))"
| "redactValue (JArr vs) = JArr (map redactValue vs)"
| "redactValue j = j"

definition redactJSONObject :: "jtext \<Rightarrow> jtext result" where
  "redactJSONObject source =
     (case source of
        Parsed (JObj kvs) \<Rightarrow> Ok (Parsed (redactValue (JObj kvs)))
      | _ \<Rightarrow> Err CodeInvalidRequest)"

text \<open>What \<open>json.Marshal\<close> makes of a string: every byte that does not start a valid UTF-8
  sequence becomes U+FFFD.  Only cutting a string can produce such bytes.\<close>

definition cont :: "nat \<Rightarrow> bool" where "cont b \<longleftrightarrow> 128 \<le> b \<and> b \<le> 191"

fun utf8_len :: "nat list \<Rightarrow> nat" where
  "utf8_len (b # bs) =
     (if b < 128 then 1
      else if 194 \<le> b \<and> b \<le> 223 then (case bs of c # _ \<Rightarrow> if cont c then 2 else 0 | _ \<Rightarrow> 0)
      else if 224 \<le> b \<and> b \<le> 239 then
        (case bs of c # d # _ \<Rightarrow>
           if cont c \<and> cont d \<and> (b = 224 \<longrightarrow> 160 \<le> c) \<and> (b = 237 \<longrightarrow> c \<le> 159) then 3 else 0
         | _ \<Rightarrow> 0)
      else if 240 \<le> b \<and> b \<le> 244 then
        (case bs of c # d # e # _ \<Rightarrow>
           if cont c \<and> cont d \<and> cont e \<and> (b = 240 \<longrightarrow> 144 \<le> c) \<and> (b = 244 \<longrightarrow> c \<le> 143)
           then 4 else 0
         | _ \<Rightarrow> 0)
      else 0)"
| "utf8_len [] = 0"

declare utf8_len.simps [simp del]

fun coerce_bytes :: "nat \<Rightarrow> nat list \<Rightarrow> nat list" where
  "coerce_bytes 0 bs = []"
| "coerce_bytes (Suc fuel) [] = []"
| "coerce_bytes (Suc fuel) (b # bs) =
     (if utf8_len (b # bs) = 0 then [239, 191, 189] @ coerce_bytes fuel bs
      else take (utf8_len (b # bs)) (b # bs)
        @ coerce_bytes fuel (drop (utf8_len (b # bs)) (b # bs)))"

definition marshal_str :: "string \<Rightarrow> string" where
  "marshal_str s = map char_of (coerce_bytes (length s) (map of_char s))"

definition flatMetadataValue :: "json \<Rightarrow> json result" where
  "flatMetadataValue v =
     (case v of
        JStr s \<Rightarrow> Ok (JStr (marshal_str
          (if length s > maxMetadataValueLength then take maxMetadataValueLength s @ Truncated
           else s)))
      | JArr _ \<Rightarrow> Err CodeInvalidRequest
      | JObj _ \<Rightarrow> Err CodeInvalidRequest
      | _ \<Rightarrow> Ok v)"

text \<open>The loop of \<open>redactMetadata\<close> over the decoded map.\<close>

fun metadata_loop :: "json go_map \<Rightarrow> json go_map result" where
  "metadata_loop [] = Ok []"
| "metadata_loop ((k, v) # m) =
     rbind (if isSensitiveKey k then Ok (JStr Redacted) else flatMetadataValue v) (\<lambda>v'.
     rbind (metadata_loop m) (\<lambda>m'. Ok ((k, v') # m')))"

text \<open>\<open>null\<close> decodes to an empty map.\<close>

definition redactMetadata :: "jtext \<Rightarrow> jtext result" where
  "redactMetadata source =
     (case source of
        Parsed JNull \<Rightarrow> Ok (Parsed (JObj []))
      | Parsed (JObj kvs) \<Rightarrow> rbind (metadata_loop (gm_of_list kvs)) (\<lambda>m. Ok (Parsed (JObj m)))
      | _ \<Rightarrow> Err CodeInvalidRequest)"

section \<open>No sensitive value survives\<close>

text \<open>A document is clean when no member with a sensitive name, at any depth, carries anything but
  the replacement text.\<close>

fun clean_json :: "json \<Rightarrow> bool" where
  "clean_json (JObj kvs) = list_all (\<lambda>(k, v). (isSensitiveKey k \<longrightarrow> v = JStr Redacted)
     \<and> clean_json v) kvs"
| "clean_json (JArr vs) = list_all clean_json vs"
| "clean_json j = True"

lemma gm_put_set: "set (gm_put k v m) \<subseteq> insert (k, v) (set m)"
  by (induction k v m rule: gm_put.induct) auto

lemma gm_of_list_set: "set (gm_of_list kvs) \<subseteq> set kvs"
proof -
  have "set (fold (\<lambda>(k, v) m. gm_put k v m) kvs m) \<subseteq> set kvs \<union> set m" for m
    by (induction kvs arbitrary: m) (use gm_put_set in fastforce)+
  then show ?thesis by (metis gm_of_list_def sup_bot.right_neutral set_empty2)
qed

lemma clean_redacted: "clean_json (redactValue j)"
proof (induction j rule: redactValue.induct)
  case (1 kvs)
  have "clean_json v' \<and> (isSensitiveKey k \<longrightarrow> v' = JStr Redacted)"
    if "(k, v') \<in> set (gm_of_list (map (\<lambda>(k, v). (k, if isSensitiveKey k then JStr Redacted
        else redactValue v)) kvs))" for k v'
  proof -
    from that gm_of_list_set obtain v where "(k, v) \<in> set kvs"
      "v' = (if isSensitiveKey k then JStr Redacted else redactValue v)" by fastforce
    with 1 show ?thesis by (cases "isSensitiveKey k") auto
  qed
  then show ?case by (auto simp: list_all_iff)
next
  case (2 vs)
  then show ?case by (auto simp: list_all_iff)
qed simp_all

text \<open>A document that is already clean, with its members in key order, is left alone.\<close>

fun canonical_json :: "json \<Rightarrow> bool" where
  "canonical_json (JObj kvs) = (gm_ok kvs \<and> list_all (\<lambda>(k, v). canonical_json v) kvs)"
| "canonical_json (JArr vs) = list_all canonical_json vs"
| "canonical_json j = True"

lemma redact_clean_id: "clean_json j \<Longrightarrow> canonical_json j \<Longrightarrow> redactValue j = j"
proof (induction j rule: redactValue.induct)
  case (1 kvs)
  have "(k, if isSensitiveKey k then JStr Redacted else redactValue v) = (k, v)"
    if "(k, v) \<in> set kvs" for k v
    using 1 that by (fastforce simp: list_all_iff)
  then have "map (\<lambda>(k, v). (k, if isSensitiveKey k then JStr Redacted else redactValue v)) kvs = kvs"
    by (intro map_idI) auto
  then show ?case using 1 gm_of_list_id [of kvs] by simp
next
  case (2 vs)
  then show ?case by (auto simp: list_all_iff intro: map_idI)
qed simp_all

lemma canonical_redacted: "canonical_json (redactValue j)"
proof (induction j rule: redactValue.induct)
  case (1 kvs)
  let ?f = "\<lambda>(k, v). (k, if isSensitiveKey k then JStr Redacted else redactValue v)"
  have "canonical_json v'" if "(k, v') \<in> set (gm_of_list (map ?f kvs))" for k v'
  proof -
    from that gm_of_list_set obtain v where "(k, v) \<in> set kvs"
      "v' = (if isSensitiveKey k then JStr Redacted else redactValue v)" by fastforce
    with 1 show ?thesis by (cases "isSensitiveKey k") auto
  qed
  then show ?case by (auto simp: list_all_iff)
next
  case (2 vs)
  then show ?case by (auto simp: list_all_iff)
qed simp_all

section \<open>Metadata is flat and bounded\<close>

lemma coerce_bytes_length: "length (coerce_bytes fuel bs) \<le> 3 * length bs"
proof (induction fuel bs rule: coerce_bytes.induct)
  case (3 fuel b bs)
  show ?case
  proof (cases "utf8_len (b # bs) = 0")
    case True
    with 3(1) show ?thesis by simp
  next
    case False
    let ?n = "utf8_len (b # bs)"
    have "length (coerce_bytes fuel (drop ?n (b # bs))) \<le> 3 * length (drop ?n (b # bs))"
      using 3(2) False by blast
    moreover have "coerce_bytes (Suc fuel) (b # bs)
        = take ?n (b # bs) @ coerce_bytes fuel (drop ?n (b # bs))" using False by simp
    ultimately show ?thesis
      by (simp only: length_append length_take length_drop)
  qed
qed simp_all

lemma marshal_str_length: "length (marshal_str s) \<le> 3 * length s"
  using coerce_bytes_length [of "length s" "map of_char s"] by (simp add: marshal_str_def)

text \<open>ASCII text is written as it is.\<close>

lemma marshal_ascii: "list_all (\<lambda>c. of_char c < (128 :: nat)) s \<Longrightarrow> marshal_str s = s"
proof -
  have "list_all (\<lambda>b. b < 128) bs \<Longrightarrow> length bs \<le> fuel \<Longrightarrow> coerce_bytes fuel bs = bs" for fuel bs
    by (induction fuel bs rule: coerce_bytes.induct) (auto simp: utf8_len.simps(1))
  moreover assume "list_all (\<lambda>c. of_char c < (128 :: nat)) s"
  ultimately have "coerce_bytes (length s) (map of_char s) = map of_char s"
    by (auto simp: list_all_iff)
  then show ?thesis by (simp add: marshal_str_def comp_def)
qed

definition flat_value :: "json \<Rightarrow> bool" where
  "flat_value v = (case v of JArr _ \<Rightarrow> False | JObj _ \<Rightarrow> False
     | JStr s \<Rightarrow> length s \<le> 3 * (maxMetadataValueLength + length Truncated) | _ \<Rightarrow> True)"

lemma flatMetadataValue_flat:
  assumes "flatMetadataValue v = Ok v'"
  shows "flat_value v'"
proof (cases v)
  case (JStr s)
  let ?t = "if length s > maxMetadataValueLength then take maxMetadataValueLength s @ Truncated
     else s"
  have "length ?t \<le> maxMetadataValueLength + length Truncated" by simp
  then have "length (marshal_str ?t) \<le> 3 * (maxMetadataValueLength + length Truncated)"
    by (rule le_trans [OF marshal_str_length mult_le_mono2])
  with assms JStr show ?thesis by (auto simp: flatMetadataValue_def flat_value_def)
qed (use assms in \<open>auto simp: flatMetadataValue_def flat_value_def\<close>)

lemma metadata_loop_flat:
  assumes "metadata_loop m = Ok m'"
  shows "map fst m' = map fst m
     \<and> list_all (\<lambda>(k, v). flat_value v \<and> (isSensitiveKey k \<longrightarrow> v = JStr Redacted)) m'"
  using assms
proof (induction m arbitrary: m' rule: metadata_loop.induct)
  case (2 k v m)
  then obtain v' m1 where v': "(if isSensitiveKey k then Ok (JStr Redacted)
      else flatMetadataValue v) = Ok v'" and m1: "metadata_loop m = Ok m1" "m' = (k, v') # m1"
    by (auto simp: rbind_iffs)
  have "flat_value v' \<and> (isSensitiveKey k \<longrightarrow> v' = JStr Redacted)"
  proof (cases "isSensitiveKey k")
    case True
    with v' show ?thesis by (auto simp: flat_value_def Redacted_def maxMetadataValueLength_def)
  next
    case False
    with v' flatMetadataValue_flat show ?thesis by simp
  qed
  with "2.IH" [OF m1(1)] m1(2) show ?case by simp
qed simp

end
