(* ===== verification/Audit_Ledger.thy ===== *)
theory Audit_Ledger
  imports Redaction Tables
begin

text \<open>
  The ledger: the recorder of \<open>internal/platform/audit/recorder.go\<close>, the retention pruner of
  \<open>prune.go\<close> and the repository of \<open>internal/store/repo/audit.go\<close> with the statements of
  \<open>internal/store/queries/audit_events.sql.go\<close>.  The lemmas show that what is written is redacted
  and stamped by the gateway, that a failed write changes nothing, and that the ledger only grows
  except for pruning, which removes nothing inside the retention period and leaves a record of
  itself in the same transaction.
\<close>

section \<open>Repository (store/repo/audit.go)\<close>

definition eventTypes :: "event_type list" where
  "eventTypes = [EventAutoAllowed, EventUserAllowed, EventDenied, EventLeaseCreated,
     EventLeaseExpired, EventLeaseRevoked, EventAdapterExecuted, EventError, EventIdentityMatched,
     EventRiskChanged, EventScopeInjectionIgnored, EventSecretRequestBlocked,
     EventStrongAuthLocked, EventTrustCleared, EventPruned, EventIdentityMismatch,
     EventAgentTrusted, EventApprovalExpired]"

definition event_check :: "audit_event \<Rightarrow> bool" where
  "event_check e \<longleftrightarrow> event_Type e \<in> set eventTypes
     \<and> json_valid (event_Resource e) \<and> json_valid (event_ResolvedScope e)
     \<and> event_Verdict e \<in> {VerdictOther [], VerdictAutoAllow, VerdictRequireApproval, VerdictDeny}
     \<and> event_RiskLevel e \<in> {LevelOther [], LevelLow, LevelMedium, LevelHigh}
     \<and> event_LeaseStatus e \<in> {LeaseStatusOther [], LeaseActive, LeaseExpired, LeaseExhausted,
         LeaseRevoked}
     \<and> event_Outcome e \<in> {OutcomeSucceeded, OutcomeFailed, OutcomeBlocked}
     \<and> (event_ResponseStatus e = 0 \<or> 100 \<le> event_ResponseStatus e \<and> event_ResponseStatus e \<le> 599)
     \<and> 0 \<le> event_Duration e \<and> json_valid (event_Metadata e)"

definition event_refs :: "audit_event \<Rightarrow> db \<Rightarrow> bool" where
  "event_refs e d \<longleftrightarrow> opt_ref_ok (event_AgentID e) (map agent_ID (db_agents d))
     \<and> opt_ref_ok (event_DeviceID e) (map device_ID (db_devices d))
     \<and> opt_ref_ok (event_WorkspaceID e) (map workspace_ID (db_workspaces d))
     \<and> opt_ref_ok (event_IdentityID e) (map identity_ID (db_identities d))
     \<and> opt_ref_ok (event_CredentialProviderID e) (map cp_ID (db_providers d))
     \<and> opt_ref_ok (event_DecisionID e) (map decision_ID (db_decisions d))
     \<and> opt_ref_ok (event_ApprovalID e) (map approval_ID (db_approvals d))
     \<and> opt_ref_ok (event_LeaseID e) (map lease_ID (db_leases d))"

text \<open>\<open>Duration.Milliseconds\<close> truncates towards zero.\<close>

definition whole_ms :: "duration \<Rightarrow> duration" where
  "whole_ms t = (if 0 \<le> t then (t div millisecond) * millisecond
     else - ((- t) div millisecond) * millisecond)"

definition appendParams :: "audit_event \<Rightarrow> audit_event" where
  "appendParams e = e\<lparr>event_ResponseStatus := optionalCount (event_ResponseStatus e),
     event_Duration := whole_ms (event_Duration e),
     event_CreatedAt := encodeTime (event_CreatedAt e)\<rparr>"

definition appendAuditEvent :: "audit_event \<Rightarrow> db \<Rightarrow> (audit_event \<times> db) result" where
  "appendAuditEvent e d =
     rbind (sql_insert (event_check e) (event_ID e \<notin> event_ID ` set (db_audit d))
         (event_refs e d) e (db_audit d))
       (\<lambda>(r, rows). Ok (r, d\<lparr>db_audit := rows\<rparr>))"

definition toEvent :: "audit_event \<Rightarrow> audit_event result" where
  "toEvent e = rbind (decodeCount (event_ResponseStatus e)) (\<lambda>_.
     rbind (decodeCount (event_Duration e div millisecond)) (\<lambda>_. Ok e))"

fun toEvents :: "audit_event list \<Rightarrow> audit_event list result" where
  "toEvents [] = Ok []"
| "toEvents (e # es) = rbind (toEvent e) (\<lambda>x. rbind (toEvents es) (\<lambda>xs. Ok (x # xs)))"

definition Append :: "audit_event \<Rightarrow> audit_event io" where
  "Append e = io_bind (io_write (appendAuditEvent (appendParams e))) (\<lambda>r. io_lift (toEvent r))"

definition EventByID :: "string \<Rightarrow> audit_event io" where
  "EventByID i = io_read (\<lambda>d. rbind (found (row_by event_ID i (db_audit d))) toEvent)"

text \<open>Pages are newest first; a zero cursor starts at the newest entry.  \<open>ORDER BY created_at DESC\<close>
  leaves the order within one millisecond open; here the entry written last comes first.\<close>

definition before_cursor :: "instant \<Rightarrow> audit_event \<Rightarrow> bool" where
  "before_cursor before e \<longleftrightarrow> before = 0 \<or> event_CreatedAt e < encodeTime before"

definition select_events :: "(audit_event \<Rightarrow> bool) \<Rightarrow> int \<Rightarrow> audit_event list \<Rightarrow> audit_event list"
where
  "select_events P limit rows = take (nat limit) (rev (sort_key event_CreatedAt (filter P rows)))"

definition list_events :: "(audit_event \<Rightarrow> bool) \<Rightarrow> instant \<Rightarrow> int \<Rightarrow> audit_event list io" where
  "list_events P before limit =
     (if limit \<le> 0 then io_lift invalidLimit
      else io_read (\<lambda>d. toEvents (select_events (\<lambda>e. P e \<and> before_cursor before e) limit
        (db_audit d))))"

definition Events :: "instant \<Rightarrow> int \<Rightarrow> audit_event list io" where
  "Events before limit = list_events (\<lambda>e. True) before limit"

text \<open>An empty agent is NULL, which equals nothing.\<close>

definition EventsByAgent :: "string \<Rightarrow> instant \<Rightarrow> int \<Rightarrow> audit_event list io" where
  "EventsByAgent agentID before limit =
     list_events (\<lambda>e. agentID \<noteq> [] \<and> event_AgentID e = agentID) before limit"

definition EventsByService :: "string \<Rightarrow> instant \<Rightarrow> int \<Rightarrow> audit_event list io" where
  "EventsByService service before limit = list_events (\<lambda>e. event_Service e = service) before limit"

definition CountBefore :: "instant \<Rightarrow> int io" where
  "CountBefore cutoff =
     (if cutoff = 0 then io_fail CodeInvalidRequest
      else io_read (\<lambda>d. decodeCount (int (length
        (filter (\<lambda>e. event_CreatedAt e < encodeTime cutoff) (db_audit d))))))"

text \<open>The transaction of \<open>PruneBefore\<close>: the deletion and the record of it apply together or not
  at all.\<close>

definition prune_tx :: "instant \<Rightarrow> audit_event \<Rightarrow> db \<Rightarrow> ((int \<times> audit_event) \<times> db) result" where
  "prune_tx cutoff record d =
     (let old = filter (\<lambda>e. event_CreatedAt e < encodeTime cutoff) (db_audit d);
          kept = filter (\<lambda>e. \<not> event_CreatedAt e < encodeTime cutoff) (db_audit d) in
      rbind (decodeCount (int (length old))) (\<lambda>n.
      rbind (appendAuditEvent (appendParams record) (d\<lparr>db_audit := kept\<rparr>)) (\<lambda>(row, d').
      rbind (toEvent row) (\<lambda>written. Ok ((n, written), d')))))"

definition PruneBefore :: "instant \<Rightarrow> audit_event \<Rightarrow> (int \<times> audit_event) io" where
  "PruneBefore cutoff record =
     (if cutoff = 0 then io_fail CodeInvalidRequest
      else if event_CreatedAt record < cutoff then io_fail CodeInvalidRequest
      else io_write (prune_tx cutoff record))"

section \<open>Recorder (recorder.go)\<close>

definition prepare :: "audit_event \<Rightarrow> audit_event io" where
  "prepare e =
     io_bind io_new_id (\<lambda>i.
     io_bind (io_lift (redactJSONObject (event_Resource e))) (\<lambda>resource.
     io_bind (io_lift (redactJSONObject (event_ResolvedScope e))) (\<lambda>resolvedScope.
     io_bind (io_lift (redactMetadata (event_Metadata e))) (\<lambda>metadata.
     io_bind io_now (\<lambda>now.
       io_return (e\<lparr>event_ID := i, event_CreatedAt := now, event_Resource := resource,
         event_ResolvedScope := resolvedScope, event_Metadata := metadata\<rparr>))))))"

definition Record :: "audit_event \<Rightarrow> audit_event io" where
  "Record e =
     (if event_Type e \<notin> set eventTypes then io_fail CodeInvalidRequest
      else if event_OperationID e = [] then io_fail CodeInvalidRequest
      else io_bind (prepare e) Append)"

section \<open>Pruner (prune.go)\<close>

definition DefaultRetention :: duration where "DefaultRetention = 180 * 24 * hour"
definition MinRetention :: duration where "MinRetention = 7 * 24 * hour"

definition NewPruner :: "duration \<Rightarrow> duration result" where
  "NewPruner retention =
     (if retention < MinRetention then Err CodeInvalidConfiguration else Ok retention)"

record prune_result =
  pr_Cutoff :: instant
  pr_PrunedCount :: int
  pr_Event :: audit_event

text \<open>The metadata names the count, the cutoff and the whole days of the retention.\<close>

definition pruneEvent :: "duration \<Rightarrow> int \<Rightarrow> instant \<Rightarrow> audit_event io" where
  "pruneEvent retention counted cutoff =
     io_bind io_new_id (\<lambda>operationID.
       prepare (empty_event\<lparr>event_OperationID := operationID, event_Type := EventPruned,
         event_Service := ''opendelo'', event_Operation := ''audit.prune'',
         event_Resource := Parsed (JObj [(''table'', JStr ''audit_events'')]),
         event_ResolvedScope := Parsed (JObj [(''scope'', JStr ''audit_retention'')]),
         event_Outcome := OutcomeSucceeded,
         event_Metadata := Parsed (JObj [(''cutoff'', JTime cutoff),
           (''pruned_count'', JNum counted),
           (''retention_days'', JNum (retention div (24 * hour)))])\<rparr>))"

definition Prune :: "duration \<Rightarrow> prune_result io" where
  "Prune retention =
     io_bind io_now (\<lambda>now.
       let cutoff = now - retention in
       io_bind (CountBefore cutoff) (\<lambda>counted.
       io_bind (pruneEvent retention counted cutoff) (\<lambda>record.
       io_bind (PruneBefore cutoff record) (\<lambda>(pruned, written).
         if pruned \<noteq> counted then io_fail CodeInternal
         else io_return \<lparr>pr_Cutoff = cutoff, pr_PrunedCount = pruned, pr_Event = written\<rparr>))))"

section \<open>Export (export.go)\<close>

datatype format = FormatJSON | FormatJSONL | FormatCSV | FormatOther string

definition formats :: "format list" where
  "formats = [FormatJSON, FormatJSONL, FormatCSV]"

text \<open>One exported record, redacted once more; the writers only lay it out.\<close>

definition exportRow :: "audit_event \<Rightarrow> audit_event result" where
  "exportRow e =
     rbind (redactJSONObject (event_Resource e)) (\<lambda>resource.
     rbind (redactJSONObject (event_ResolvedScope e)) (\<lambda>resolvedScope.
     rbind (redactMetadata (event_Metadata e)) (\<lambda>metadata.
       Ok (e\<lparr>event_Resource := resource, event_ResolvedScope := resolvedScope,
             event_Metadata := metadata, event_Duration := whole_ms (event_Duration e)\<rparr>))))"

fun exportRows :: "audit_event list \<Rightarrow> audit_event list result" where
  "exportRows [] = Ok []"
| "exportRows (e # es) = rbind (exportRow e) (\<lambda>r. rbind (exportRows es) (\<lambda>rs. Ok (r # rs)))"

definition Export :: "format \<Rightarrow> audit_event list \<Rightarrow> audit_event list result" where
  "Export f events = (if f \<notin> set formats then Err CodeInvalidRequest else exportRows events)"

section \<open>The ledger only grows\<close>

definition ledger_history :: "db \<Rightarrow> db \<Rightarrow> bool" where
  "ledger_history d d' \<longleftrightarrow> (\<exists>es. db_audit d' = db_audit d @ es)"

interpretation ledger: db_history ledger_history
  by unfold_locales (auto simp: ledger_history_def)

lemma toEvent_Ok [simp]: "toEvent e = Ok e' \<longleftrightarrow> e' = e
    \<and> 0 \<le> event_ResponseStatus e \<and> event_ResponseStatus e \<le> 2147483647
    \<and> 0 \<le> event_Duration e div millisecond \<and> event_Duration e div millisecond \<le> 2147483647"
  by (auto simp: toEvent_def decodeCount_def)

lemma appendAuditEvent_Ok:
  "appendAuditEvent e d = Ok (r, d') \<longleftrightarrow> event_check e \<and> event_ID e \<notin> event_ID ` set (db_audit d)
     \<and> event_refs e d \<and> r = e \<and> d' = d\<lparr>db_audit := db_audit d @ [e]\<rparr>"
  by (auto simp: appendAuditEvent_def rbind_iffs sql_insert_Ok)

lemma Record_keeps: "ledger.keeps (Record e)"
  by (auto simp: Record_def prepare_def Append_def intro!: ledger.keeps_rules ledger.keeps_write
      simp: appendAuditEvent_Ok ledger_history_def)

lemma prepare_Ok:
  assumes "prepare e w = (Ok e', w')"
  obtains i now res scp meta where "redactJSONObject (event_Resource e) = Ok res"
    "redactJSONObject (event_ResolvedScope e) = Ok scp" "redactMetadata (event_Metadata e) = Ok meta"
    "e' = e\<lparr>event_ID := i, event_CreatedAt := now, event_Resource := res,
         event_ResolvedScope := scp, event_Metadata := meta\<rparr>" "w_db w' = w_db w"
    "now = w_clock w (Suc (w_tick w))" "w_ids w (w_tick w) = Some i" "w' = tick (tick w)"
  using assms by (auto simp: prepare_def io_Ok_iffs io_new_id_def split: option.splits)


lemma Record_Ok:
  assumes "Record e w = (Ok e', w')"
  obtains i res scp meta where "redactJSONObject (event_Resource e) = Ok res"
    "redactJSONObject (event_ResolvedScope e) = Ok scp" "redactMetadata (event_Metadata e) = Ok meta"
    "e' = appendParams (e\<lparr>event_ID := i, event_CreatedAt := w_clock w (Suc (w_tick w)),
         event_Resource := res, event_ResolvedScope := scp, event_Metadata := meta\<rparr>)"
    "w_ids w (w_tick w) = Some i" "event_check e'" "event_refs e' (w_db w)"
    "event_ID e' \<notin> event_ID ` set (db_audit (w_db w))"
    "w_db w' = (w_db w)\<lparr>db_audit := db_audit (w_db w) @ [e']\<rparr>"
proof -
  from assms obtain p w1 where p: "prepare e w = (Ok p, w1)" and a: "Append p w1 = (Ok e', w')"
    by (auto simp: Record_def io_Ok_iffs split: if_splits)
  from p obtain i now res scp meta where
    r: "redactJSONObject (event_Resource e) = Ok res"
      "redactJSONObject (event_ResolvedScope e) = Ok scp"
      "redactMetadata (event_Metadata e) = Ok meta"
    and p': "p = e\<lparr>event_ID := i, event_CreatedAt := now, event_Resource := res,
         event_ResolvedScope := scp, event_Metadata := meta\<rparr>"
    and w1: "w_db w1 = w_db w" and now: "now = w_clock w (Suc (w_tick w))"
    and i: "w_ids w (w_tick w) = Some i" and "w1 = tick (tick w)"
    by (rule prepare_Ok)
  have "e' = appendParams p \<and> event_check e' \<and> event_refs e' (w_db w)
      \<and> event_ID e' \<notin> event_ID ` set (db_audit (w_db w))
      \<and> w_db w' = (w_db w)\<lparr>db_audit := db_audit (w_db w) @ [e']\<rparr>"
    using a w1 by (auto simp: Append_def io_Ok_iffs appendAuditEvent_Ok)
  then show thesis using that [OF r] p' now i by blast
qed

lemma Record_type:
  "Record e w = (Ok e', w') \<Longrightarrow> event_Type e \<in> set eventTypes \<and> event_OperationID e \<noteq> []"
  by (simp add: Record_def io_fail_Ok split: if_splits)

lemma event_check_bounds:
  "event_check e \<Longrightarrow> 0 \<le> event_Duration e \<and> 0 \<le> event_ResponseStatus e
     \<and> event_ResponseStatus e \<le> 599"
  by (auto simp: event_check_def)

text \<open>A failed record has written nothing, except that a duration beyond what the column decodes
  is only noticed after the insert.\<close>

lemma Record_Err:
  assumes "Record e w = (Inl x, w')" and "event_Duration e < 2147483648 * millisecond"
  shows "w_db w' = w_db w"
proof -
  have ms: "whole_ms (event_Duration e) div millisecond \<le> 2147483647"
    using assms(2) by (simp add: whole_ms_def duration_defs) linarith
  consider "w_db w' = w_db w" | p w1 where "prepare e w = (Ok p, w1)" "Append p w1 = (Inl x, w')"
    using assms(1) by (auto simp: Record_def io_bind_def io_fail_def prepare_def io_lift_def
        io_new_id_def io_now_def io_return_def split: if_splits prod.splits sum.splits option.splits)
  then show ?thesis
  proof cases
    case 2
    from 2(1) obtain i now res scp meta where p: "p = e\<lparr>event_ID := i, event_CreatedAt := now,
        event_Resource := res, event_ResolvedScope := scp, event_Metadata := meta\<rparr>"
      "w_db w1 = w_db w" by (rule prepare_Ok) blast
    have "toEvent (appendParams p) \<noteq> Inl y" if "event_check (appendParams p)" for y
    proof -
      have "event_Duration (appendParams p) div millisecond \<le> 2147483647"
        using p(1) ms by (simp add: appendParams_def)
      with event_check_bounds [OF that] show ?thesis
        by (auto simp: toEvent_def decodeCount_def duration_defs)
    qed
    then have "w_db w' = w_db w1"
      using 2(2) by (auto simp: Append_def io_bind_def io_lift_def io_write_def appendAuditEvent_def
          sql_insert_def split: if_splits sum.splits prod.splits)
    with p show ?thesis by simp
  qed
qed

definition clean_text :: "jtext \<Rightarrow> bool" where
  "clean_text t = (case t of Parsed j \<Rightarrow> clean_json j | _ \<Rightarrow> False)"

definition flat_text :: "jtext \<Rightarrow> bool" where
  "flat_text t = (case t of Parsed (JObj m) \<Rightarrow>
     list_all (\<lambda>(k, v). flat_value v \<and> (isSensitiveKey k \<longrightarrow> v = JStr Redacted)) m | _ \<Rightarrow> False)"

lemma redactJSONObject_clean: "redactJSONObject t = Ok t' \<Longrightarrow> clean_text t'"
  using clean_redacted
  by (auto simp: redactJSONObject_def clean_text_def simp del: redactValue.simps
      split: jtext.splits json.splits)

lemma redactMetadata_flat: "redactMetadata t = Ok t' \<Longrightarrow> flat_text t'"
  by (auto simp: redactMetadata_def flat_text_def rbind_iffs split: jtext.splits json.splits
      dest!: metadata_loop_flat)

text \<open>C12: What enters the ledger is redacted and stamped by the gateway.  A recorded event is
  appended unchanged to the end of the ledger with a registered type, an operation id, an id of
  the gateway's generator that no other entry has and the gateway's own clock reading; in its
  resource and scope no member with a sensitive name, at any depth, carries its value, and its
  metadata is a flat list of scalars of bounded length with sensitive ones replaced.\<close>

theorem recorded_event_is_redacted:
  assumes "Record e w = (Ok e', w')"
  shows "w_db w' = (w_db w)\<lparr>db_audit := db_audit (w_db w) @ [e']\<rparr>
    \<and> event_Type e' = event_Type e \<and> event_Type e' \<in> set eventTypes \<and> event_OperationID e' \<noteq> []
    \<and> w_ids w (w_tick w) = Some (event_ID e')
    \<and> event_ID e' \<notin> event_ID ` set (db_audit (w_db w))
    \<and> event_CreatedAt e' = encodeTime (w_clock w (Suc (w_tick w)))
    \<and> clean_text (event_Resource e') \<and> clean_text (event_ResolvedScope e')
    \<and> flat_text (event_Metadata e')"
  using assms
proof (rule Record_Ok)
  fix i res scp meta
  assume r: "redactJSONObject (event_Resource e) = Ok res"
    "redactJSONObject (event_ResolvedScope e) = Ok scp" "redactMetadata (event_Metadata e) = Ok meta"
    and e': "e' = appendParams (e\<lparr>event_ID := i, event_CreatedAt := w_clock w (Suc (w_tick w)),
         event_Resource := res, event_ResolvedScope := scp, event_Metadata := meta\<rparr>)"
    and "w_ids w (w_tick w) = Some i" "event_ID e' \<notin> event_ID ` set (db_audit (w_db w))"
    "w_db w' = (w_db w)\<lparr>db_audit := db_audit (w_db w) @ [e']\<rparr>"
  with Record_type [OF assms] redactJSONObject_clean [OF r(1)] redactJSONObject_clean [OF r(2)]
    redactMetadata_flat [OF r(3)]
  show ?thesis by (simp add: appendParams_def)
qed

definition example_event :: audit_event where
  "example_event = empty_event\<lparr>event_OperationID := ''op1'', event_Type := EventError,
     event_Service := ''dns'', event_Operation := ''read'', event_Outcome := OutcomeBlocked,
     event_Resource := Parsed (JObj [(''zone'', JStr ''a.test''), (''Api-Key'', JStr ''k'')]),
     event_ResolvedScope := Parsed (JObj []),
     event_Metadata := Parsed (JObj [(''reason'', JStr ''x''), (''auth.token'', JStr ''t'')])\<rparr>"

theorem recorded_event_is_redacted_witness:
  "\<exists>e' w'. Record example_event (sample_world empty_db) = (Ok e', w')
     \<and> event_Resource e' = Parsed (JObj [(''Api-Key'', JStr Redacted), (''zone'', JStr ''a.test'')])
     \<and> clean_text (event_ResolvedScope e') \<and> flat_text (event_Metadata e')"
proof -
  let ?r = "Record example_event (sample_world empty_db)"
  have e: "case fst ?r of Inl x \<Rightarrow> False | Inr e' \<Rightarrow>
      event_Resource e' = Parsed (JObj [(''Api-Key'', JStr Redacted), (''zone'', JStr ''a.test'')])"
    by code_simp
  then obtain e' w' where r: "?r = (Ok e', w')" by (cases ?r) (auto split: sum.splits)
  with e recorded_event_is_redacted [OF r] show ?thesis by simp
qed

lemma prune_tx_Ok:
  "prune_tx cutoff e d = Ok (r, d') \<Longrightarrow>
     d' = d\<lparr>db_audit := filter (\<lambda>x. encodeTime cutoff \<le> event_CreatedAt x) (db_audit d)
       @ [appendParams e]\<rparr>"
  by (auto simp: prune_tx_def Let_def rbind_iffs appendAuditEvent_Ok not_less)

lemma PruneBefore_db:
  "w_db (snd (PruneBefore cutoff e u)) = w_db u
   \<or> w_db (snd (PruneBefore cutoff e u)) = (w_db u)\<lparr>db_audit := filter (\<lambda>x. encodeTime cutoff
        \<le> event_CreatedAt x) (db_audit (w_db u)) @ [appendParams e]\<rparr>"
proof (cases "cutoff = 0 \<or> event_CreatedAt e < cutoff \<or> w_fault u (w_tick u)")
  case True
  then show ?thesis by (auto simp: PruneBefore_def io_fail_def io_write_def)
next
  case False
  show ?thesis
  proof (cases "prune_tx cutoff e (w_db u)")
    case (Inl x)
    with False show ?thesis by (simp add: PruneBefore_def io_write_def)
  next
    case (Inr p)
    then obtain r d' where p: "prune_tx cutoff e (w_db u) = Ok (r, d')" by (cases p) auto
    with False have "w_db (snd (PruneBefore cutoff e u)) = d'"
      by (simp add: PruneBefore_def io_write_def)
    with prune_tx_Ok [OF p] show ?thesis by simp
  qed
qed

text \<open>Pruning never touches the retention period.  One run of the pruner either leaves the ledger
  exactly as it was or, in one step, removes exactly the entries written before the cutoff and
  appends the entry that says so; nothing younger than the retention is lost and no deletion goes
  unrecorded.\<close>

theorem prune_respects_retention:
  assumes "Prune retention w = (r, w')"
  shows "w_db w' = w_db w \<or>
     (\<exists>e. w_db w' = (w_db w)\<lparr>db_audit := filter (\<lambda>x. encodeTime (w_clock w (w_tick w) - retention)
            \<le> event_CreatedAt x) (db_audit (w_db w)) @ [e]\<rparr>
        \<and> event_Type e = EventPruned \<and> event_Outcome e = OutcomeSucceeded)"
proof -
  let ?cut = "w_clock w (w_tick w) - retention"
  have nt: "w_db (snd (pruneEvent r' n c u)) = w_db u" for r' n c u
    by (auto simp: pruneEvent_def prepare_def io_bind_def io_new_id_def io_lift_def io_now_def
        io_return_def split: prod.splits sum.splits option.splits)
  have ty: "event_Type e = EventPruned \<and> event_Outcome e = OutcomeSucceeded"
    if "pruneEvent r' n c u = (Ok e, u')" for r' n c u e u'
    using that by (auto simp: pruneEvent_def io_Ok_iffs elim!: prepare_Ok)
  have cb: "w_db (snd (CountBefore c u)) = w_db u" for c u
    by (simp add: CountBefore_def io_fail_def io_read_db)
  obtain c u1 where c: "CountBefore ?cut (tick w) = (c, u1)" by (metis prod.exhaust)
  have u1: "w_db u1 = w_db w" using cb [of ?cut "tick w"] c by simp
  have prune: "Prune retention w = (case c of Inl x \<Rightarrow> (Inl x, u1) | Inr n \<Rightarrow>
      io_bind (pruneEvent retention n ?cut) (\<lambda>record. io_bind (PruneBefore ?cut record)
        (\<lambda>(pruned, written). if pruned \<noteq> n then io_fail CodeInternal else io_return
          \<lparr>pr_Cutoff = ?cut, pr_PrunedCount = pruned, pr_Event = written\<rparr>)) u1)"
    using c by (auto simp: Prune_def io_bind_def io_now_def Let_def split: sum.split)
  show ?thesis
  proof (cases c)
    case (Inl x)
    then show ?thesis using prune assms u1 by simp
  next
    case (Inr n)
    obtain q u2 where q: "pruneEvent retention n ?cut u1 = (q, u2)" by (metis prod.exhaust)
    have u2: "w_db u2 = w_db w" using nt [of retention n ?cut u1] q u1 by simp
    show ?thesis
    proof (cases q)
      case (Inl x)
      then show ?thesis using prune assms u2 q Inr by (simp add: io_bind_def)
    next
      case (Inr e)
      obtain s u3 where s: "PruneBefore ?cut e u2 = (s, u3)" by (metis prod.exhaust)
      have "w_db w' = w_db u3"
        using prune assms \<open>c = Inr n\<close> q Inr s
        by (cases s) (auto simp: io_bind_def io_fail_def io_return_def split: if_splits)
      moreover have "event_Type (appendParams e) = EventPruned"
        "event_Outcome (appendParams e) = OutcomeSucceeded"
        using ty q Inr by (simp_all add: appendParams_def)
      ultimately show ?thesis using PruneBefore_db [of ?cut e u2] s u2 by auto
    qed
  qed
qed

definition prune_world :: world where
  "prune_world = (sample_world (empty_db\<lparr>db_audit :=
      [example_event\<lparr>event_ID := ''old'', event_CreatedAt := 5 * hour\<rparr>,
       example_event\<lparr>event_ID := ''new'', event_CreatedAt := 300 * 24 * hour\<rparr>]\<rparr>))
     \<lparr>w_clock := \<lambda>n. 301 * 24 * hour\<rparr>"

theorem prune_respects_retention_witness:
  "map event_Type (db_audit (w_db (snd (Prune DefaultRetention prune_world)))) =
     [EventError, EventPruned]
   \<and> (\<exists>e. w_db (snd (Prune DefaultRetention prune_world)) = (w_db prune_world)\<lparr>db_audit :=
        filter (\<lambda>x. encodeTime (w_clock prune_world (w_tick prune_world) - DefaultRetention)
          \<le> event_CreatedAt x) (db_audit (w_db prune_world)) @ [e]\<rparr> \<and> event_Type e = EventPruned)"
proof
  show e: "map event_Type (db_audit (w_db (snd (Prune DefaultRetention prune_world)))) =
     [EventError, EventPruned]" by code_simp
  have "map event_Type (db_audit (w_db prune_world)) = [EventError, EventError]" by code_simp
  with e have "w_db (snd (Prune DefaultRetention prune_world)) \<noteq> w_db prune_world" by auto
  with prune_respects_retention [of DefaultRetention prune_world] show "\<exists>e. w_db (snd (Prune
      DefaultRetention prune_world)) = (w_db prune_world)\<lparr>db_audit := filter (\<lambda>x. encodeTime
        (w_clock prune_world (w_tick prune_world) - DefaultRetention) \<le> event_CreatedAt x)
        (db_audit (w_db prune_world)) @ [e]\<rparr> \<and> event_Type e = EventPruned"
    by (metis prod.collapse)
qed

end
