(* ===== verification/Request_Repo.thy ===== *)
theory Request_Repo
  imports Tables
begin

text \<open>
  The repositories of capability requests, decisions and identities
  (\<open>internal/store/repo/request.go\<close>, \<open>decision.go\<close>, \<open>identity.go\<close> with their statements under
  \<open>internal/store/queries\<close>).  A request advances from one named status only; a decision is
  written once and never changed.
\<close>

section \<open>Capability requests\<close>

definition request_check :: "capability_request \<Rightarrow> bool" where
  "request_check r \<longleftrightarrow> json_valid (request_Resource r)
     \<and> (request_DesiredChange r = NoText \<or> json_valid (request_DesiredChange r))
     \<and> (request_ChangePreview r = NoText \<or> json_valid (request_ChangePreview r))
     \<and> request_Status r \<in> {StatusReceived, StatusResolving, StatusDeciding, StatusAutoAllowed,
         StatusAwaitingApproval, StatusDenied, StatusApproved, StatusRejected, StatusExpired,
         StatusCancelled, StatusExecuting, StatusSucceeded, StatusFailed}"

definition request_refs :: "capability_request \<Rightarrow> db \<Rightarrow> bool" where
  "request_refs r d \<longleftrightarrow> ref_ok (request_AgentID r) (map agent_ID (db_agents d))
     \<and> ref_ok (request_WorkspaceID r) (map workspace_ID (db_workspaces d))"

text \<open>The change preview is not a column of the insert.\<close>

definition createCapabilityRequest ::
    "capability_request \<Rightarrow> db \<Rightarrow> (capability_request \<times> db) result" where
  "createCapabilityRequest r d =
     (let row = r\<lparr>request_ChangePreview := NoText,
            request_CreatedAt := encodeTime (request_CreatedAt r),
            request_UpdatedAt := encodeTime (request_UpdatedAt r)\<rparr> in
      rbind (sql_insert (request_check row) (request_ID row \<notin> request_ID ` set (db_requests d))
          (request_refs row d) row (db_requests d))
        (\<lambda>(x, rows). Ok (x, d\<lparr>db_requests := rows\<rparr>)))"

definition CreateRequest :: "capability_request \<Rightarrow> capability_request io" where
  "CreateRequest r = io_write (createCapabilityRequest r)"

definition RequestByID :: "string \<Rightarrow> capability_request io" where
  "RequestByID i = io_read (\<lambda>d. found (row_by request_ID i (db_requests d)))"

definition RequestsByStatus :: "request_status \<Rightarrow> int \<Rightarrow> capability_request list io" where
  "RequestsByStatus st limit =
     (if limit \<le> 0 then io_lift invalidLimit
      else io_read (\<lambda>d. Ok (take (nat limit)
        (sort_key request_CreatedAt (filter (\<lambda>r. request_Status r = st) (db_requests d))))))"

definition updateCapabilityRequestStatus ::
    "string \<Rightarrow> request_status \<Rightarrow> request_status \<Rightarrow> instant \<Rightarrow> capability_request list
     \<Rightarrow> (capability_request \<times> capability_request list) option result" where
  "updateCapabilityRequestStatus i from to at rows =
     sql_update request_check (\<lambda>r. request_ID r = i \<and> request_Status r = from)
       (\<lambda>r. r\<lparr>request_Status := to, request_UpdatedAt := at\<rparr>) rows"

definition update_request ::
    "(capability_request list \<Rightarrow> (capability_request \<times> capability_request list) option result)
     \<Rightarrow> db \<Rightarrow> (capability_request \<times> db) result" where
  "update_request stmt d =
     rbind (stmt (db_requests d)) (\<lambda>res. case res of
        None \<Rightarrow> Err CodeConflict
      | Some (r, rows) \<Rightarrow> Ok (r, d\<lparr>db_requests := rows\<rparr>))"

definition AdvanceRequest ::
    "string \<Rightarrow> request_status \<Rightarrow> request_status \<Rightarrow> instant \<Rightarrow> capability_request io" where
  "AdvanceRequest i from to at =
     io_write (update_request (updateCapabilityRequestStatus i from to (encodeTime at)))"

definition updateCapabilityRequestChangePreview ::
    "string \<Rightarrow> jtext \<Rightarrow> request_status \<Rightarrow> instant \<Rightarrow> capability_request list
     \<Rightarrow> (capability_request \<times> capability_request list) option result" where
  "updateCapabilityRequestChangePreview i preview expected at rows =
     sql_update request_check (\<lambda>r. request_ID r = i \<and> request_Status r = expected)
       (\<lambda>r. r\<lparr>request_ChangePreview := preview, request_UpdatedAt := at\<rparr>) rows"

definition SaveChangePreview :: "string \<Rightarrow> jtext \<Rightarrow> request_status \<Rightarrow> instant \<Rightarrow> unit io" where
  "SaveChangePreview i preview expected at =
     io_bind (io_write (update_request
       (updateCapabilityRequestChangePreview i preview expected (encodeTime at))))
       (\<lambda>_. io_return ())"

section \<open>Decisions\<close>

definition decision_check :: "decision_record \<Rightarrow> bool" where
  "decision_check d \<longleftrightarrow> decision_Verdict d \<in> {VerdictAutoAllow, VerdictRequireApproval, VerdictDeny}
     \<and> decision_RiskLevel d \<in> {LevelLow, LevelMedium, LevelHigh}
     \<and> json_valid (decision_RiskFactors d) \<and> json_valid (decision_ResolvedScope d)
     \<and> decision_ApprovalRequirement d \<in> {ApprovalNone, ApprovalStandard, ApprovalStrongAuth}
     \<and> (decision_IdentityID d = [] \<longleftrightarrow> decision_MatchLevel d = MatchNone)"

definition createDecision :: "decision_record \<Rightarrow> db \<Rightarrow> (decision_record \<times> db) result" where
  "createDecision x d =
     (let row = x\<lparr>decision_CreatedAt := encodeTime (decision_CreatedAt x)\<rparr> in
      rbind (sql_insert (decision_check row)
          (decision_ID row \<notin> decision_ID ` set (db_decisions d)
           \<and> decision_CapabilityRequestID row
              \<notin> decision_CapabilityRequestID ` set (db_decisions d))
          (ref_ok (decision_CapabilityRequestID row) (map request_ID (db_requests d))
           \<and> opt_ref_ok (decision_IdentityID row) (map identity_ID (db_identities d))
           \<and> opt_ref_ok (decision_TrustMemoryID row) (map memory_ID (db_memories d)))
          row (db_decisions d))
        (\<lambda>(r, rows). Ok (r, d\<lparr>db_decisions := rows\<rparr>)))"

definition CreateDecision :: "decision_record \<Rightarrow> decision_record io" where
  "CreateDecision x = io_write (createDecision x)"

definition DecisionByID :: "string \<Rightarrow> decision_record io" where
  "DecisionByID i = io_read (\<lambda>d. found (row_by decision_ID i (db_decisions d)))"

definition DecisionByRequestID :: "string \<Rightarrow> decision_record io" where
  "DecisionByRequestID i =
     io_read (\<lambda>d. found (row_by decision_CapabilityRequestID i (db_decisions d)))"

section \<open>Identities\<close>

definition identity_check :: "identity \<Rightarrow> bool" where
  "identity_check i \<longleftrightarrow>
     identity_Environment i \<in> {EnvironmentProduction, EnvironmentNonProduction}
     \<and> identity_Status i \<in> {IdentityOK, IdentityNeedsReview}"

definition IdentityByID :: "string \<Rightarrow> identity io" where
  "IdentityByID i = io_read (\<lambda>d. found (row_by identity_ID i (db_identities d)))"

definition IdentityByServiceAndAccountLabel :: "string \<Rightarrow> string \<Rightarrow> identity io" where
  "IdentityByServiceAndAccountLabel service label =
     io_read (\<lambda>d. found (row_by (\<lambda>i. (identity_Service i, identity_AccountLabel i)) (service, label)
       (db_identities d)))"

definition IdentitiesForService :: "string \<Rightarrow> int \<Rightarrow> identity list io" where
  "IdentitiesForService service limit =
     (if limit \<le> 0 then io_lift invalidLimit
      else io_read (\<lambda>d. Ok (take (nat limit) (sort_key identity_AccountLabel
        (filter (\<lambda>i. identity_Service i = service) (db_identities d))))))"

text \<open>\<open>ORDER BY service, account_label\<close>: a stable sort by label, then by service.\<close>

definition Identities :: "int \<Rightarrow> identity list io" where
  "Identities limit =
     (if limit \<le> 0 then io_lift invalidLimit
      else io_read (\<lambda>d. Ok (take (nat limit) (sort_key identity_Service
        (sort_key identity_AccountLabel (db_identities d))))))"

definition update_identity ::
    "string \<Rightarrow> (identity \<Rightarrow> identity) \<Rightarrow> db \<Rightarrow> (identity \<times> db) result" where
  "update_identity i f d =
     rbind (sql_update identity_check (\<lambda>x. identity_ID x = i) f (db_identities d)) (\<lambda>res. case res of
        None \<Rightarrow> Err CodeNotFound
      | Some (r, rows) \<Rightarrow> Ok (r, d\<lparr>db_identities := rows\<rparr>))"

definition SetIdentityStatus :: "string \<Rightarrow> identity_status \<Rightarrow> instant \<Rightarrow> identity io" where
  "SetIdentityStatus i st at =
     io_write (update_identity i (\<lambda>x. x\<lparr>identity_Status := st, identity_UpdatedAt := encodeTime at\<rparr>))"

definition SetIdentityDefault :: "string \<Rightarrow> bool \<Rightarrow> instant \<Rightarrow> identity io" where
  "SetIdentityDefault i b at =
     io_write (update_identity i (\<lambda>x. x\<lparr>identity_IsDefault := b, identity_UpdatedAt := encodeTime at\<rparr>))"

end
