(* ===== verification/Pipeline.thy ===== *)
theory Pipeline
  imports Lease Approval Trust Audit_Ledger Request_Repo
begin

text \<open>
  Model of \<open>internal/core/pipeline\<close>: one capability request from intent to decision, ledger entry
  and lease or approval (\<open>pipeline.go\<close>), settling an approval (\<open>settle.go\<close>), timeouts
  (\<open>expire.go\<close>) and the cascades that end an identity (\<open>identity.go\<close>) or a session
  (\<open>agent.go\<close>).  Every call to a manager or repository is a step of its own that may fail.
\<close>

section \<open>Configuration and inputs\<close>

record pipeline =
  pl_Mode :: mode
  pl_Intents :: resolver
  pl_ApprovalTimeout :: duration

text \<open>\<open>New\<close>: an empty mode is the balanced one.\<close>

definition pipeline_New :: "mode \<Rightarrow> resolver \<Rightarrow> duration \<Rightarrow> pipeline" where
  "pipeline_New m r t =
     \<lparr>pl_Mode = (if m = ModeOther [] then ModeBalanced else m), pl_Intents = r,
      pl_ApprovalTimeout = t\<rparr>"

record operation_facts =
  of_Destructive :: bool
  of_PermissionChange :: bool
  of_SecretAccess :: bool
  of_Billing :: bool
  of_ExternalCommunication :: bool
  of_ResourceCount :: int

record pl_inputs =
  in_Request :: capability_request
  in_Call :: call
  in_Catalog :: "catalog option"
  in_Identities :: "identity list"
  in_WorkspaceBindings :: "binding list"
  in_ResourceBindings :: "binding list"
  in_ManualSelection :: string
  in_AgentTrust :: trust_level
  in_DeviceTrust :: device_trust
  in_Facts :: operation_facts
  in_ReadOnlyAutoAllow :: bool
  in_NewService :: bool
  in_IdentityChanged :: bool
  in_NewIdentity :: bool
  in_NewResource :: bool
  in_Blockers :: "blocker list"

record pl_result =
  res_Request :: capability_request
  res_Decision :: "decision_record option"
  res_Outcome :: outcome
  res_Approval :: "approval option"
  res_Lease :: "lease option"

record resolved =
  rs_Match :: match_result
  rs_Scope :: scope_result
  rs_Risk :: assessment
  rs_Input :: decision_input
  rs_Grants :: "memory list"

section \<open>Resolving (pipeline.go)\<close>

definition leaseLimit :: int where "leaseLimit = 100"
definition memoryLimit :: int where "memoryLimit = 100"

definition identitiesOf :: "memory list \<Rightarrow> string list" where
  "identitiesOf ms = map memory_IdentityID ms"

fun toGrants :: "memory list \<Rightarrow> grant list" where
  "toGrants [] = []"
| "toGrants (m # ms) =
     (case trust_ScopeOf m of
        Inl _ \<Rightarrow> toGrants ms
      | Inr learned \<Rightarrow>
          \<lparr>grant_MemoryID = memory_ID m, grant_Scope = learned,
           grant_AlwaysAsk = (memory_Behavior m = BehaviorAlwaysAsk)\<rparr> # toGrants ms)"

definition beyondHistory :: "memory list \<Rightarrow> scope \<Rightarrow> bool" where
  "beyondHistory ms converged \<longleftrightarrow> ms \<noteq> []
     \<and> \<not> list_ex (\<lambda>m. case trust_ScopeOf m of Inl _ \<Rightarrow> False
          | Inr learned \<Rightarrow> CoversIgnoringWindow learned converged) ms"

definition pl_factors :: "pl_inputs \<Rightarrow> intent \<Rightarrow> scope \<Rightarrow> memory list \<Rightarrow> factors" where
  "pl_factors inp parsed converged grants =
    \<lparr>f_Write = (intent_DesiredChange parsed \<noteq> []),
     f_Production = (scope_Environment converged = EnvironmentProduction),
     f_Reversible = intent_Reversible parsed,
     f_ResourceCount =
       (if of_ResourceCount (in_Facts inp) = 0 \<and> \<not> intent_ResourceAmbiguous parsed then 1
        else of_ResourceCount (in_Facts inp)),
     f_Destructive = of_Destructive (in_Facts inp),
     f_PermissionChange = of_PermissionChange (in_Facts inp),
     f_SecretAccess = (of_SecretAccess (in_Facts inp) \<or> intent_SensitiveData parsed),
     f_Billing = of_Billing (in_Facts inp),
     f_ExternalCommunication = of_ExternalCommunication (in_Facts inp),
     f_FirstSeen = (grants = []),
     f_BeyondHistory = beyondHistory grants converged,
     f_AgentTrust = in_AgentTrust inp, f_DeviceTrust = in_DeviceTrust inp,
     f_DeclaredLabel = intent_RiskLabel parsed\<rparr>"

text \<open>A step that turns every error into a blocker; a panic passes through.\<close>

definition or_block :: "blocker \<Rightarrow> 'a io \<Rightarrow> ('a \<Rightarrow> (blocker + 'b) io) \<Rightarrow> (blocker + 'b) io" where
  "or_block b m f = io_bind (io_try m) (\<lambda>r. case r of
      Inl _ \<Rightarrow> io_return (Inl b) | Inr a \<Rightarrow> f a)"

definition learned :: "string \<Rightarrow> string \<Rightarrow> string \<Rightarrow> memory list io" where
  "learned agentID workspaceID service = trust_Match agentID workspaceID service memoryLimit"

fun standing_leases :: "string \<Rightarrow> string \<Rightarrow> instant \<Rightarrow> lease list \<Rightarrow> active_lease list" where
  "standing_leases agentID service now [] = []"
| "standing_leases agentID service now (l # ls) =
     (if lease_AgentID l \<noteq> agentID \<or> lease_Service l \<noteq> service
      then standing_leases agentID service now ls
      else if \<not> lease_ExpiresAt l > now then standing_leases agentID service now ls
      else case lease_ScopeOf l of
          Inl _ \<Rightarrow> standing_leases agentID service now ls
        | Inr granted \<Rightarrow> \<lparr>al_LeaseID = lease_ID l, al_Scope = granted\<rparr>
            # standing_leases agentID service now ls)"

definition standing :: "string \<Rightarrow> string \<Rightarrow> active_lease list io" where
  "standing agentID service =
     io_bind (lease_Active leaseLimit) (\<lambda>active.
     io_bind io_now (\<lambda>now. io_return (standing_leases agentID service now active)))"

definition decision_input_of ::
    "pipeline \<Rightarrow> pl_inputs \<Rightarrow> intent \<Rightarrow> match_result \<Rightarrow> scope_result \<Rightarrow> assessment \<Rightarrow> memory list
     \<Rightarrow> active_lease list \<Rightarrow> decision_input" where
  "decision_input_of p inp parsed matched converged assessment grants active =
    \<lparr>di_Mode = pl_Mode p, di_AgentID = request_AgentID (in_Request inp),
     di_AgentTrust = in_AgentTrust inp, di_Write = (intent_DesiredChange parsed \<noteq> []),
     di_Match = matched, di_Scope = converged, di_Assessment = assessment,
     di_ReadOnlyAutoAllow = in_ReadOnlyAutoAllow inp, di_NewService = in_NewService inp,
     di_IdentityChanged = in_IdentityChanged inp, di_NewIdentity = in_NewIdentity inp,
     di_NewResource = in_NewResource inp, di_Learned = toGrants grants, di_Active = active,
     di_Blockers = in_Blockers inp\<rparr>"

definition pl_resolve :: "pipeline \<Rightarrow> pl_inputs \<Rightarrow> (blocker + resolved) io" where
  "pl_resolve p inp =
     (let req = in_Request inp in
      or_block BlockerCapabilityNotOffered
        (io_lift (resolve (pl_Intents p) (in_Catalog inp) (in_Call inp))) (\<lambda>parsed.
      or_block BlockerPolicyEngineFailure
        (learned (request_AgentID req) (request_WorkspaceID req) (intent_Service parsed)) (\<lambda>grants.
      or_block BlockerIdentityAmbiguityUnresolvable
        (io_lift (match_identity
          \<lparr>mr_Service = intent_Service parsed, mr_WorkspaceID = request_WorkspaceID req,
           mr_ResourceKey = intent_ResourceKey parsed\<rparr>
          \<lparr>mi_WorkspaceBindings = in_WorkspaceBindings inp,
           mi_ResourceBindings = in_ResourceBindings inp,
           mi_MemoryIdentityIDs = identitiesOf grants, mi_Identities = in_Identities inp,
           mi_ManualSelection = in_ManualSelection inp\<rparr>)) (\<lambda>matched.
      or_block BlockerScopeUndeterminable
        (io_bind io_now (\<lambda>now. io_lift (scope_resolve now
          \<lparr>si_Intent = parsed, si_AgentID = request_AgentID req,
           si_WorkspaceID = request_WorkspaceID req, si_Identity = match_Identity matched,
           si_Duration = 0, si_RequestLimit = 0\<rparr>))) (\<lambda>converged.
      or_block BlockerPolicyEngineFailure
        (standing (request_AgentID req) (intent_Service parsed)) (\<lambda>active.
      or_block BlockerRiskUnknown
        (io_lift (evaluate (pl_factors inp parsed (sr_Scope converged) grants))) (\<lambda>assessment.
        io_return (Inr \<lparr>rs_Match = matched, rs_Scope = converged, rs_Risk = assessment,
          rs_Input = decision_input_of p inp parsed matched converged assessment grants active,
          rs_Grants = grants\<rparr>))))))))"

section \<open>Concluding (pipeline.go)\<close>

definition resourceOf :: "capability_request \<Rightarrow> jtext" where
  "resourceOf r = (if request_Resource r = NoText then Parsed (JObj []) else request_Resource r)"

text \<open>The one-member metadata documents of the ledger entries.  The texts are identifiers of closed
  enumerations, so the concatenated JSON is well-formed.\<close>

definition metadata1 :: "string \<Rightarrow> string \<Rightarrow> jtext" where
  "metadata1 key v = Parsed (JObj [(key, JStr v)])"

definition advance :: "capability_request \<Rightarrow> request_status \<Rightarrow> capability_request io" where
  "advance r to = io_bind io_now (\<lambda>at. AdvanceRequest (request_ID r) (request_Status r) to at)"

definition recordDecision :: "pl_inputs \<Rightarrow> resolved \<Rightarrow> outcome \<Rightarrow> decision_record io" where
  "recordDecision inp out oc =
     io_bind io_new_id (\<lambda>i.
     io_bind io_now (\<lambda>now.
       CreateDecision
        \<lparr>decision_ID = i, decision_CapabilityRequestID = request_ID (in_Request inp),
         decision_Verdict = out_Verdict oc, decision_RiskLevel = as_Level (rs_Risk out),
         decision_RiskFactors = Parsed (JArr (map (JStr \<circ> factor_text) (as_Factors (rs_Risk out)))),
         decision_IdentityID = identity_ID (match_Identity (rs_Match out)),
         decision_MatchLevel = match_Level (rs_Match out),
         decision_ResolvedScope = encode_scope (sr_Scope (rs_Scope out)),
         decision_ApprovalRequirement = out_ApprovalRequirement oc,
         decision_ReasonCode = reason_text (out_Reason oc),
         decision_TrustMemoryID = out_MatchedMemoryID oc, decision_CreatedAt = now\<rparr>))"

definition pl_write ::
    "pl_inputs \<Rightarrow> resolved \<Rightarrow> decision_record \<Rightarrow> event_type \<Rightarrow> event_outcome \<Rightarrow> audit_event io" where
  "pl_write inp out rec ty oc =
     Record (empty_event\<lparr>event_OperationID := request_OperationID (in_Request inp),
       event_Type := ty, event_AgentID := request_AgentID (in_Request inp),
       event_WorkspaceID := request_WorkspaceID (in_Request inp),
       event_IdentityID := identity_ID (match_Identity (rs_Match out)),
       event_Service := scope_Service (sr_Scope (rs_Scope out)),
       event_Operation := scope_Operation (sr_Scope (rs_Scope out)),
       event_Resource := resourceOf (in_Request inp),
       event_ResolvedScope := decision_ResolvedScope rec,
       event_Verdict := decision_Verdict rec, event_RiskLevel := decision_RiskLevel rec,
       event_DecisionID := decision_ID rec, event_Outcome := oc,
       event_Metadata := metadata1 ''reason'' (decision_ReasonCode rec)\<rparr>)"

definition issueLease :: "issue_request \<Rightarrow> lease io" where
  "issueLease req = lease_Issue req"

definition pl_issue :: "pl_inputs \<Rightarrow> resolved \<Rightarrow> decision_record \<Rightarrow> outcome \<Rightarrow> lease io" where
  "pl_issue inp out rec oc =
     io_bind (pl_write inp out rec EventAutoAllowed OutcomeSucceeded) (\<lambda>_.
       if out_MatchedLeaseID oc \<noteq> [] then lease_ByID (out_MatchedLeaseID oc)
       else issueLease \<lparr>ir_Granted = sr_Scope (rs_Scope out), ir_ApprovalID = [],
         ir_SourceMemoryID = decision_TrustMemoryID rec, ir_IsSessionBound = False\<rparr>)"

definition pl_failClosed :: "pl_inputs \<Rightarrow> blocker \<Rightarrow> pl_result io" where
  "pl_failClosed inp b =
     io_bind (Record (empty_event\<lparr>event_OperationID := request_OperationID (in_Request inp),
       event_Type := EventError, event_AgentID := request_AgentID (in_Request inp),
       event_WorkspaceID := request_WorkspaceID (in_Request inp),
       event_Service := request_Service (in_Request inp),
       event_Operation := request_Operation (in_Request inp),
       event_Resource := resourceOf (in_Request inp), event_ResolvedScope := Parsed (JObj []),
       event_Verdict := VerdictDeny, event_Outcome := OutcomeBlocked,
       event_Metadata := metadata1 ''blocker'' (blocker_text b)\<rparr>)) (\<lambda>_.
     io_bind (advance (in_Request inp) StatusDenied) (\<lambda>req.
       io_return \<lparr>res_Request = req, res_Decision = None,
         res_Outcome = \<lparr>out_Verdict = VerdictDeny, out_ApprovalRequirement = ApprovalNone,
           out_Reason = ReasonFailClosed, out_Confirmations = 0, out_Blocker = b,
           out_Forbidden = NotForbidden, out_MatchedMemoryID = [], out_MatchedLeaseID = []\<rparr>,
         res_Approval = None, res_Lease = None\<rparr>))"

definition pl_conclude :: "pipeline \<Rightarrow> pl_inputs \<Rightarrow> resolved \<Rightarrow> outcome \<Rightarrow> pl_result io" where
  "pl_conclude p inp out oc =
     io_bind (recordDecision inp out oc) (\<lambda>rec.
     io_bind
       (case out_Verdict oc of
          VerdictDeny \<Rightarrow>
            io_bind (pl_write inp out rec EventDenied OutcomeBlocked) (\<lambda>_.
              io_return (None, None, StatusDenied))
        | VerdictRequireApproval \<Rightarrow>
            io_bind (pl_write inp out rec EventDenied OutcomeBlocked) (\<lambda>_.
            io_bind (approval_Open (pl_ApprovalTimeout p) (decision_ID rec)) (\<lambda>item.
              io_return (Some item, None, StatusAwaitingApproval)))
        | _ \<Rightarrow>
            io_bind (pl_issue inp out rec oc) (\<lambda>issued.
              io_return (None, Some issued, StatusAutoAllowed)))
       (\<lambda>(item, issued, to).
     io_bind (advance (in_Request inp) to) (\<lambda>req.
       io_return \<lparr>res_Request = req, res_Decision = Some rec, res_Outcome = oc,
         res_Approval = item, res_Lease = issued\<rparr>)))"

definition Handle :: "pipeline \<Rightarrow> pl_inputs \<Rightarrow> pl_result io" where
  "Handle p inp =
     io_recover
       (if request_ID (in_Request inp) = [] \<or> request_OperationID (in_Request inp) = []
        then io_fail CodeInvalidRequest
        else io_bind (pl_resolve p inp) (\<lambda>r. case r of
            Inl b \<Rightarrow> pl_failClosed inp b
          | Inr out \<Rightarrow> pl_conclude p inp out (decide (rs_Input out))))
       (pl_failClosed inp BlockerPolicyEngineFailure)"

end
