(* ===== verification/Agent_Repo.thy ===== *)
theory Agent_Repo
  imports Tables
begin

text \<open>
  The repositories of agents, devices and workspaces (\<open>internal/store/repo/agent.go\<close>,
  \<open>device.go\<close>, \<open>workspace.go\<close> with their statements).  Session keys are stored as hashes under a
  unique index.
\<close>

section \<open>Devices and workspaces\<close>

definition device_check :: "device \<Rightarrow> bool" where
  "device_check d \<longleftrightarrow> device_TrustStatus d \<in> {DeviceTrusted, DeviceUntrusted}"

definition createDevice :: "device \<Rightarrow> db \<Rightarrow> (device \<times> db) result" where
  "createDevice x d =
     (let row = x\<lparr>device_CreatedAt := encodeTime (device_CreatedAt x),
            device_UpdatedAt := encodeTime (device_UpdatedAt x)\<rparr> in
      rbind (sql_insert (device_check row) (device_ID row \<notin> device_ID ` set (db_devices d)
          \<and> device_Fingerprint row \<notin> device_Fingerprint ` set (db_devices d)) True row (db_devices d))
        (\<lambda>(r, rows). Ok (r, d\<lparr>db_devices := rows\<rparr>)))"

definition CreateDevice :: "device \<Rightarrow> device io" where
  "CreateDevice x = io_write (createDevice x)"

definition DeviceByID :: "string \<Rightarrow> device io" where
  "DeviceByID i = io_read (\<lambda>d. found (row_by device_ID i (db_devices d)))"

definition DeviceByFingerprint :: "string \<Rightarrow> device io" where
  "DeviceByFingerprint f = io_read (\<lambda>d. found (row_by device_Fingerprint f (db_devices d)))"

text \<open>An update that finds no row is \<open>sql.ErrNoRows\<close>, which \<open>writeError\<close> reports as not found.\<close>

definition not_found_update :: "('r \<times> 'r list) option result \<Rightarrow> ('r list \<Rightarrow> db) \<Rightarrow> ('r \<times> db) result" where
  "not_found_update res put =
     rbind res (\<lambda>x. case x of None \<Rightarrow> Err CodeNotFound | Some (r, rows) \<Rightarrow> Ok (r, put rows))"

definition SetDeviceTrustStatus :: "string \<Rightarrow> device_trust \<Rightarrow> instant \<Rightarrow> device io" where
  "SetDeviceTrustStatus i st at =
     io_write (\<lambda>d. not_found_update
       (sql_update device_check (\<lambda>x. device_ID x = i)
         (\<lambda>x. x\<lparr>device_TrustStatus := st, device_UpdatedAt := encodeTime at\<rparr>) (db_devices d))
       (\<lambda>rows. d\<lparr>db_devices := rows\<rparr>))"

definition createWorkspace :: "workspace \<Rightarrow> db \<Rightarrow> (workspace \<times> db) result" where
  "createWorkspace x d =
     (let row = x\<lparr>workspace_CreatedAt := encodeTime (workspace_CreatedAt x),
            workspace_UpdatedAt := encodeTime (workspace_UpdatedAt x)\<rparr> in
      rbind (sql_insert True (workspace_ID row \<notin> workspace_ID ` set (db_workspaces d)
          \<and> workspace_Path row \<notin> workspace_Path ` set (db_workspaces d)) True row (db_workspaces d))
        (\<lambda>(r, rows). Ok (r, d\<lparr>db_workspaces := rows\<rparr>)))"

definition CreateWorkspace :: "workspace \<Rightarrow> workspace io" where
  "CreateWorkspace x = io_write (createWorkspace x)"

definition WorkspaceByID :: "string \<Rightarrow> workspace io" where
  "WorkspaceByID i = io_read (\<lambda>d. found (row_by workspace_ID i (db_workspaces d)))"

definition WorkspaceByPath :: "string \<Rightarrow> workspace io" where
  "WorkspaceByPath p = io_read (\<lambda>d. found (row_by workspace_Path p (db_workspaces d)))"

definition SetWorkspaceFingerprint :: "string \<Rightarrow> string \<Rightarrow> instant \<Rightarrow> workspace io" where
  "SetWorkspaceFingerprint i fingerprint at =
     io_write (\<lambda>d. not_found_update
       (sql_update (\<lambda>_. True) (\<lambda>x. workspace_ID x = i)
         (\<lambda>x. x\<lparr>workspace_ProjectFingerprint := fingerprint,
               workspace_UpdatedAt := encodeTime at\<rparr>) (db_workspaces d))
       (\<lambda>rows. d\<lparr>db_workspaces := rows\<rparr>))"

section \<open>Agents\<close>

definition agent_check :: "agent \<Rightarrow> bool" where
  "agent_check a \<longleftrightarrow>
     agent_Type a \<in> {TypeClaudeCode, TypeCodex, TypeGeminiCLI, TypeOpenCode, TypeGeneric}
     \<and> agent_PID a > 0 \<and> agent_ParentPID a \<ge> 0
     \<and> agent_TrustLevel a \<in> {TrustUnverified, TrustKnown, TrustTrusted}
     \<and> agent_Status a \<in> {AgentActive, AgentDisconnected}"

definition decodeProcessID :: "int \<Rightarrow> int result" where
  "decodeProcessID n = (if n < 0 \<or> n > 2147483647 then Err CodeInternal else Ok n)"

definition toAgent :: "agent \<Rightarrow> agent result" where
  "toAgent a = rbind (decodeProcessID (agent_PID a)) (\<lambda>_.
     rbind (decodeProcessID (agent_ParentPID a)) (\<lambda>_. Ok a))"

definition agent_row :: "agent \<Rightarrow> agent" where
  "agent_row a = a\<lparr>agent_StartedAt := encodeTime (agent_StartedAt a),
     agent_SessionExpiresAt := encodeTime (agent_SessionExpiresAt a),
     agent_LastSeenAt := encodeTime (agent_LastSeenAt a),
     agent_CreatedAt := encodeTime (agent_CreatedAt a),
     agent_UpdatedAt := encodeTime (agent_UpdatedAt a)\<rparr>"

definition createAgent_stmt :: "agent \<Rightarrow> db \<Rightarrow> (agent \<times> db) result" where
  "createAgent_stmt row d =
     rbind (sql_insert (agent_check row) (agent_ID row \<notin> agent_ID ` set (db_agents d)
         \<and> agent_SessionKeyHash row \<notin> agent_SessionKeyHash ` set (db_agents d))
         (ref_ok (agent_DeviceID row) (map device_ID (db_devices d))
          \<and> ref_ok (agent_WorkspaceID row) (map workspace_ID (db_workspaces d))) row (db_agents d))
       (\<lambda>(r, rows). Ok (r, d\<lparr>db_agents := rows\<rparr>))"

definition CreateAgent :: "agent \<Rightarrow> agent io" where
  "CreateAgent a = io_bind (io_write (createAgent_stmt (agent_row a))) (\<lambda>r. io_lift (toAgent r))"

definition AgentByID :: "string \<Rightarrow> agent io" where
  "AgentByID i = io_read (\<lambda>d. rbind (found (row_by agent_ID i (db_agents d))) toAgent)"

definition AgentBySessionKeyHash :: "string \<Rightarrow> agent io" where
  "AgentBySessionKeyHash h =
     io_read (\<lambda>d. rbind (found (row_by agent_SessionKeyHash h (db_agents d))) toAgent)"

text \<open>\<open>ORDER BY id DESC LIMIT 1\<close>.\<close>

definition bound_agents :: "agent_binding \<Rightarrow> agent list \<Rightarrow> agent list" where
  "bound_agents b rows = filter (\<lambda>a. agent_DeviceID a = ab_DeviceID b
     \<and> agent_WorkspaceID a = ab_WorkspaceID b \<and> agent_ExecutablePath a = ab_ExecutablePath b
     \<and> agent_OSUser a = ab_OSUser b \<and> agent_ExecutableHash a = ab_ExecutableHash b) rows"

definition AgentByBinding :: "agent_binding \<Rightarrow> agent io" where
  "AgentByBinding b = io_read (\<lambda>d.
     case rev (sort_key agent_ID (bound_agents b (db_agents d))) of
       [] \<Rightarrow> Err CodeNotFound | a # _ \<Rightarrow> toAgent a)"

text \<open>\<open>ORDER BY last_seen_at DESC, id DESC\<close>.\<close>

fun toAgents :: "agent list \<Rightarrow> agent list result" where
  "toAgents [] = Ok []"
| "toAgents (a # as) = rbind (toAgent a) (\<lambda>x. rbind (toAgents as) (\<lambda>xs. Ok (x # xs)))"

definition Agents :: "int \<Rightarrow> agent list io" where
  "Agents limit =
     (if limit \<le> 0 then io_lift invalidLimit
      else io_read (\<lambda>d. toAgents (take (nat limit)
        (rev (sort_key agent_LastSeenAt (sort_key agent_ID (db_agents d)))))))"

definition update_agent :: "string \<Rightarrow> (agent \<Rightarrow> agent) \<Rightarrow> db \<Rightarrow> (agent \<times> db) result" where
  "update_agent i f d =
     not_found_update (sql_update agent_check (\<lambda>a. agent_ID a = i) f (db_agents d))
       (\<lambda>rows. d\<lparr>db_agents := rows\<rparr>)"

text \<open>Rebinding writes a session key hash, which the unique index guards.\<close>

definition rebindAgent :: "string \<Rightarrow> rebind \<Rightarrow> db \<Rightarrow> (agent \<times> db) result" where
  "rebindAgent i rb d =
     (if list_ex (\<lambda>a. agent_ID a = i) (db_agents d)
         \<and> list_ex (\<lambda>a. agent_ID a \<noteq> i \<and> agent_SessionKeyHash a = rb_SessionKeyHash rb) (db_agents d)
      then Err CodeConflict
      else update_agent i (\<lambda>a. a\<lparr>agent_PID := rb_PID rb, agent_ParentPID := rb_ParentPID rb,
        agent_StartedAt := encodeTime (rb_StartedAt rb), agent_SessionKeyHash := rb_SessionKeyHash rb,
        agent_SessionExpiresAt := encodeTime (rb_SessionExpiresAt rb),
        agent_Status := AgentActive, agent_LastSeenAt := encodeTime (rb_At rb),
        agent_UpdatedAt := encodeTime (rb_At rb)\<rparr>) d)"

definition RebindAgent :: "string \<Rightarrow> rebind \<Rightarrow> agent io" where
  "RebindAgent i rb = io_bind (io_write (rebindAgent i rb)) (\<lambda>r. io_lift (toAgent r))"

definition SetAgentTrustLevel :: "string \<Rightarrow> trust_level \<Rightarrow> instant \<Rightarrow> agent io" where
  "SetAgentTrustLevel i l at =
     io_bind (io_write (update_agent i (\<lambda>a. a\<lparr>agent_TrustLevel := l,
       agent_UpdatedAt := encodeTime at\<rparr>))) (\<lambda>r. io_lift (toAgent r))"

definition SetAgentStatus :: "string \<Rightarrow> agent_status \<Rightarrow> instant \<Rightarrow> agent io" where
  "SetAgentStatus i st at =
     io_bind (io_write (update_agent i (\<lambda>a. a\<lparr>agent_Status := st,
       agent_UpdatedAt := encodeTime at\<rparr>))) (\<lambda>r. io_lift (toAgent r))"

definition TouchAgent :: "string \<Rightarrow> instant \<Rightarrow> agent io" where
  "TouchAgent i at =
     io_bind (io_write (update_agent i (\<lambda>a. a\<lparr>agent_LastSeenAt := encodeTime at,
       agent_UpdatedAt := encodeTime at\<rparr>))) (\<lambda>r. io_lift (toAgent r))"

end
