(* ===== verification/Agent_Auth.thy ===== *)
theory Agent_Auth
  imports Agent_Repo
begin

text \<open>
  Model of \<open>internal/core/agentauth/service.go\<close> and \<open>session.go\<close>: registering an agent process,
  issuing and checking its session key, confirming its trust and disconnecting it.  The hash of a
  key (SHA-256 in hex) and the keys drawn from the entropy source are parameters: \<open>h k\<close> is the
  digest of the text \<open>k\<close>, \<open>keys n\<close> the key read at step \<open>n\<close>, or nothing when the source fails.
\<close>

section \<open>Session keys (session.go)\<close>

definition SessionKeyHashPrefix :: string where "SessionKeyHashPrefix = ''sha256:''"

text \<open>A session key is its plain text; the empty text is the zero value, which carries none.\<close>

datatype session_key = SessionKey (box: "string option")

definition NewSessionKey :: "string \<Rightarrow> session_key" where
  "NewSessionKey v = (if v = [] then SessionKey None else SessionKey (Some v))"

definition Reveal :: "session_key \<Rightarrow> string" where
  "Reveal k = (case box k of None \<Rightarrow> [] | Some v \<Rightarrow> v)"

definition key_IsEmpty :: "session_key \<Rightarrow> bool" where
  "key_IsEmpty k \<longleftrightarrow> Reveal k = []"

definition generateSessionKey :: "(nat \<Rightarrow> string option) \<Rightarrow> session_key io" where
  "generateSessionKey keys = (\<lambda>w.
     ((case keys (w_tick w) of None \<Rightarrow> Err CodeInternal | Some v \<Rightarrow> Ok (NewSessionKey v)), tick w))"

definition HashSessionKey :: "(string \<Rightarrow> string) \<Rightarrow> session_key \<Rightarrow> string" where
  "HashSessionKey h k = SessionKeyHashPrefix @ h (Reveal k)"

definition sameHash :: "string \<Rightarrow> string \<Rightarrow> bool" where
  "sameHash l r \<longleftrightarrow> l = r"

section \<open>Registrations (service.go)\<close>

definition DefaultSessionTTL :: duration where "DefaultSessionTTL = 60 * minute"

text \<open>The lifetime \<open>NewService\<close> settles on.\<close>

definition session_ttl :: "duration \<Rightarrow> duration" where
  "session_ttl t = (if t \<le> 0 then DefaultSessionTTL else t)"

record registration =
  reg_Name :: string
  reg_Type :: agent_type
  reg_Version :: string
  reg_ExecutableHash :: string
  reg_ExecutablePath :: string
  reg_PID :: int
  reg_ParentPID :: int
  reg_OSUser :: string
  reg_DeviceFingerprint :: string
  reg_DeviceName :: string
  reg_WorkspacePath :: string
  reg_ProjectFingerprint :: string
  reg_StartedAt :: instant

fun agent_type_valid :: "agent_type \<Rightarrow> bool" where
  "agent_type_valid (TypeOther s) = False"
| "agent_type_valid t = True"

text \<open>\<open>filepath.Clean\<close> on slash-separated paths: empty and \<open>.\<close> elements vanish, \<open>..\<close> removes the
  element before it, and at the root it vanishes.\<close>

fun clean_parts :: "bool \<Rightarrow> string list \<Rightarrow> string list \<Rightarrow> string list" where
  "clean_parts rooted acc [] = rev acc"
| "clean_parts rooted acc (p # ps) =
     (if p = [] \<or> p = ''.'' then clean_parts rooted acc ps
      else if p = ''..'' then
        (case acc of
           [] \<Rightarrow> clean_parts rooted (if rooted then [] else [p]) ps
         | q # qs \<Rightarrow> if q = ''..'' then clean_parts rooted (p # acc) ps else clean_parts rooted qs ps)
      else clean_parts rooted (p # acc) ps)"

definition rooted_path :: "string \<Rightarrow> bool" where
  "rooted_path p \<longleftrightarrow> p \<noteq> [] \<and> hd p = CHR ''/''"

definition clean_path :: "string \<Rightarrow> string" where
  "clean_path p =
     (let body = join_with ''/'' (clean_parts (rooted_path p) [] (split_on CHR ''/'' p)) in
      if rooted_path p then CHR ''/'' # body else if body = [] then ''.'' else body)"

definition absolutePath :: "string \<Rightarrow> string result" where
  "absolutePath raw =
     (if rooted_path (clean_path raw) then Ok (clean_path raw) else Err CodeAgentIdentityUnverifiable)"

definition normalize :: "registration \<Rightarrow> registration result" where
  "normalize r =
     (if reg_ExecutableHash r = [] \<or> reg_ExecutablePath r = [] \<or> reg_PID r \<le> 0 \<or> reg_ParentPID r < 0
         \<or> reg_OSUser r = [] \<or> reg_DeviceFingerprint r = [] \<or> reg_WorkspacePath r = []
         \<or> reg_ProjectFingerprint r = [] \<or> reg_StartedAt r = 0
      then Err CodeAgentIdentityUnverifiable
      else if reg_Name r = [] \<or> \<not> agent_type_valid (reg_Type r) \<or> reg_DeviceName r = []
      then Err CodeInvalidRequest
      else rbind (absolutePath (reg_ExecutablePath r)) (\<lambda>executablePath.
           rbind (absolutePath (reg_WorkspacePath r)) (\<lambda>workspacePath.
             Ok (r\<lparr>reg_ExecutablePath := executablePath, reg_WorkspacePath := workspacePath\<rparr>))))"

section \<open>Operations (service.go)\<close>

definition resolveDevice :: "registration \<Rightarrow> instant \<Rightarrow> device io" where
  "resolveDevice r now =
     io_bind (io_try (DeviceByFingerprint (reg_DeviceFingerprint r))) (\<lambda>res. case res of
        Inr d \<Rightarrow> io_return d
      | Inl c \<Rightarrow>
          if c \<noteq> CodeNotFound then io_fail c
          else io_bind io_new_id (\<lambda>i. CreateDevice
            \<lparr>device_ID = i, device_Fingerprint = reg_DeviceFingerprint r,
             device_Name = reg_DeviceName r, device_TrustStatus = DeviceUntrusted,
             device_CreatedAt = now, device_UpdatedAt = now\<rparr>))"

definition resolveWorkspace :: "registration \<Rightarrow> instant \<Rightarrow> (workspace \<times> bool) io" where
  "resolveWorkspace r now =
     io_bind (io_try (WorkspaceByPath (reg_WorkspacePath r))) (\<lambda>res. case res of
        Inr ws \<Rightarrow>
          if workspace_ProjectFingerprint ws = reg_ProjectFingerprint r then io_return (ws, False)
          else io_bind (SetWorkspaceFingerprint (workspace_ID ws) (reg_ProjectFingerprint r) now)
            (\<lambda>updated. io_return (updated, True))
      | Inl c \<Rightarrow>
          if c \<noteq> CodeNotFound then io_fail c
          else io_bind io_new_id (\<lambda>i. io_bind (CreateWorkspace
            \<lparr>workspace_ID = i, workspace_Path = reg_WorkspacePath r,
             workspace_ProjectFingerprint = reg_ProjectFingerprint r,
             workspace_CreatedAt = now, workspace_UpdatedAt = now\<rparr>)
            (\<lambda>created. io_return (created, False))))"

definition createAgent ::
    "registration \<Rightarrow> string \<Rightarrow> string \<Rightarrow> string \<Rightarrow> instant \<Rightarrow> instant \<Rightarrow> agent io" where
  "createAgent r deviceID workspaceID keyHash expiresAt now =
     io_bind io_new_id (\<lambda>i. CreateAgent
       \<lparr>agent_ID = i, agent_Name = reg_Name r, agent_Type = reg_Type r,
        agent_Version = reg_Version r, agent_ExecutableHash = reg_ExecutableHash r,
        agent_ExecutablePath = reg_ExecutablePath r, agent_PID = reg_PID r,
        agent_ParentPID = reg_ParentPID r, agent_OSUser = reg_OSUser r, agent_DeviceID = deviceID,
        agent_WorkspaceID = workspaceID, agent_StartedAt = reg_StartedAt r,
        agent_SessionKeyHash = keyHash, agent_SessionExpiresAt = expiresAt,
        agent_TrustLevel = TrustUnverified, agent_Status = AgentActive, agent_LastSeenAt = now,
        agent_CreatedAt = now, agent_UpdatedAt = now\<rparr>)"

record registered =
  rd_Agent :: agent
  rd_SessionKey :: session_key
  rd_IsRebind :: bool
  rd_ProjectFingerprintChanged :: bool

definition Register ::
    "(string \<Rightarrow> string) \<Rightarrow> (nat \<Rightarrow> string option) \<Rightarrow> duration \<Rightarrow> registration \<Rightarrow> registered io" where
  "Register h keys ttl reg =
     io_bind (io_lift (normalize reg)) (\<lambda>r.
     io_bind io_now (\<lambda>now.
     io_bind (resolveDevice r now) (\<lambda>dev.
     io_bind (resolveWorkspace r now) (\<lambda>(ws, changed).
     io_bind (generateSessionKey keys) (\<lambda>key.
     io_bind (io_try (AgentByBinding
        \<lparr>ab_DeviceID = device_ID dev, ab_WorkspaceID = workspace_ID ws,
         ab_ExecutablePath = reg_ExecutablePath r, ab_OSUser = reg_OSUser r,
         ab_ExecutableHash = reg_ExecutableHash r\<rparr>)) (\<lambda>res. case res of
        Inr existing \<Rightarrow>
          io_bind (RebindAgent (agent_ID existing)
            \<lparr>rb_PID = reg_PID r, rb_ParentPID = reg_ParentPID r, rb_StartedAt = reg_StartedAt r,
             rb_SessionKeyHash = HashSessionKey h key, rb_SessionExpiresAt = now + session_ttl ttl,
             rb_At = now\<rparr>) (\<lambda>rebound.
            io_return \<lparr>rd_Agent = rebound, rd_SessionKey = key, rd_IsRebind = True,
              rd_ProjectFingerprintChanged = changed\<rparr>)
      | Inl c \<Rightarrow>
          if c \<noteq> CodeNotFound then io_fail c
          else io_bind (createAgent r (device_ID dev) (workspace_ID ws) (HashSessionKey h key)
              (now + session_ttl ttl) now) (\<lambda>created.
            io_return \<lparr>rd_Agent = created, rd_SessionKey = key, rd_IsRebind = False,
              rd_ProjectFingerprintChanged = changed\<rparr>)))))))"

record presented =
  pr_PID :: int
  pr_ExecutableHash :: string

definition Authenticate :: "(string \<Rightarrow> string) \<Rightarrow> session_key \<Rightarrow> presented \<Rightarrow> agent io" where
  "Authenticate h key p =
     (if key_IsEmpty key then io_fail CodeUnauthenticated
      else io_bind (io_try (AgentBySessionKeyHash (HashSessionKey h key))) (\<lambda>res. case res of
          Inl c \<Rightarrow> io_fail (if c = CodeNotFound then CodeUnauthenticated else c)
        | Inr a \<Rightarrow>
            if \<not> sameHash (agent_SessionKeyHash a) (HashSessionKey h key)
            then io_fail CodeUnauthenticated
            else if agent_Status a \<noteq> AgentActive then io_fail CodeUnauthenticated
            else io_bind io_now (\<lambda>now.
              if \<not> agent_SessionExpiresAt a > now then io_fail CodeSessionExpired
              else if pr_PID p \<noteq> 0 \<and> pr_PID p \<noteq> agent_PID a then io_fail CodeUnauthenticated
              else if pr_ExecutableHash p \<noteq> [] \<and> pr_ExecutableHash p \<noteq> agent_ExecutableHash a
              then io_fail CodeAgentIdentityUnverifiable
              else io_bind io_now (\<lambda>at. TouchAgent (agent_ID a) at))))"

definition ConfirmTrust :: "string \<Rightarrow> agent io" where
  "ConfirmTrust i =
     io_bind (AgentByID i) (\<lambda>a. case agent_TrustLevel a of
        TrustKnown \<Rightarrow> io_return a
      | TrustUnverified \<Rightarrow> io_bind io_now (\<lambda>at. SetAgentTrustLevel i TrustKnown at)
      | TrustTrusted \<Rightarrow> io_fail CodeConflict
      | TrustOther _ \<Rightarrow> io_fail CodeInternal)"

definition agent_Disconnect :: "string \<Rightarrow> agent io" where
  "agent_Disconnect agentID =
     io_bind io_now (\<lambda>at. SetAgentStatus agentID AgentDisconnected at)"

section \<open>Paths\<close>

text \<open>An element of a cleaned absolute path.\<close>

definition plain_part :: "string \<Rightarrow> bool" where
  "plain_part p \<longleftrightarrow> p \<noteq> [] \<and> p \<noteq> ''.'' \<and> p \<noteq> ''..'' \<and> CHR ''/'' \<notin> set p"

lemma clean_parts_all:
  assumes "\<forall>q \<in> set acc. P q"
    and "\<forall>p \<in> set ps. p \<noteq> [] \<longrightarrow> p \<noteq> ''.'' \<longrightarrow> rooted \<longrightarrow> p \<noteq> ''..'' \<longrightarrow> P p"
    and "\<not> rooted \<longrightarrow> (\<forall>p \<in> set ps. p \<noteq> [] \<longrightarrow> p \<noteq> ''.'' \<longrightarrow> P p)"
  shows "\<forall>q \<in> set (clean_parts rooted acc ps). P q"
  using assms
proof (induction ps arbitrary: acc)
  case (Cons p ps)
  have IH: "\<forall>q \<in> set acc'. P q \<Longrightarrow> \<forall>q \<in> set (clean_parts rooted acc' ps). P q" for acc'
    using Cons.IH [of acc'] Cons.prems(2,3) by simp
  consider "p = [] \<or> p = ''.''" | "p = ''..''" "acc = []" | q qs where "p = ''..''" "acc = q # qs"
    | "p \<noteq> []" "p \<noteq> ''.''" "p \<noteq> ''..''" by (metis neq_Nil_conv)
  then show ?case
  proof cases
    case 1
    then show ?thesis using IH [OF Cons.prems(1)] by auto
  next
    case 2
    then have "\<forall>q \<in> set (if rooted then [] else [p]). P q" using Cons.prems(3) by simp
    from IH [OF this] 2 show ?thesis by simp
  next
    case 3
    then have P: "P q" "\<forall>x \<in> set qs. P x" using Cons.prems(1) by simp_all
    show ?thesis
    proof (cases "q = ''..''")
      case True
      then have "\<forall>x \<in> set (p # acc). P x" using P 3 by simp
      from IH [OF this] True 3 show ?thesis by simp
    next
      case False
      with IH [OF P(2)] 3 show ?thesis by simp
    qed
  next
    case 4
    then have "P p" using Cons.prems(2,3) by (cases rooted) simp_all
    then have "\<forall>x \<in> set (p # acc). P x" using Cons.prems(1) by simp
    from IH [OF this] 4 show ?thesis by simp
  qed
qed simp

lemma clean_parts_id: "\<forall>q \<in> set qs. plain_part q \<Longrightarrow> clean_parts r acc qs = rev acc @ qs"
  by (induction qs arbitrary: acc) (auto simp: plain_part_def)

lemma join_with_hd: "q \<noteq> [] \<Longrightarrow> hd (join_with sep (q # qs)) = hd q"
  by (cases qs) simp_all

lemma clean_path_rooted:
  assumes "rooted_path (clean_path p)"
  obtains qs where "clean_path p = CHR ''/'' # join_with ''/'' qs" "\<forall>q \<in> set qs. plain_part q"
proof -
  let ?ps = "clean_parts (rooted_path p) [] (split_on CHR ''/'' p)"
  have noslash: "\<forall>x \<in> set (split_on CHR ''/'' p). CHR ''/'' \<notin> set x" using split_on_segments by blast
  show thesis
  proof (cases "rooted_path p")
    case True
    then have "\<forall>q \<in> set ?ps. plain_part q"
      using noslash by (intro clean_parts_all) (auto simp: plain_part_def)
    then show thesis using that [of ?ps] True by (simp add: clean_path_def)
  next
    case False
    then have ps: "\<forall>q \<in> set ?ps. q \<noteq> [] \<and> CHR ''/'' \<notin> set q"
      using noslash by (intro clean_parts_all) auto
    have "\<not> rooted_path (clean_path p)"
    proof (cases ?ps)
      case Nil
      with False show ?thesis by (simp add: clean_path_def rooted_path_def)
    next
      case (Cons q qs)
      with ps have q: "q \<noteq> []" "hd q \<noteq> CHR ''/''" by (auto dest: hd_in_set)
      with Cons False join_with_hd [OF q(1), of "''/''" qs] show ?thesis
        by (auto simp: clean_path_def rooted_path_def Let_def)
    qed
    with assms show thesis by simp
  qed
qed

text \<open>A directory has one name.  A path accepted by \<open>absolutePath\<close> is absolute, none of its
  elements is empty, \<open>.\<close> or \<open>..\<close>, and it is a fixed point: cleaning it again yields the same text,
  so two spellings of a workspace that clean to the same path are one workspace record, and the
  path on record is accepted again as it stands.\<close>

theorem absolutePath_canonical:
  assumes "absolutePath raw = Ok p"
  shows "absolutePath p = Ok p
    \<and> (\<exists>qs. p = CHR ''/'' # join_with ''/'' qs
         \<and> (\<forall>q \<in> set qs. q \<noteq> [] \<and> q \<noteq> ''.'' \<and> q \<noteq> ''..'' \<and> CHR ''/'' \<notin> set q))"
proof -
  from assms have p: "p = clean_path raw" "rooted_path (clean_path raw)"
    by (auto simp: absolutePath_def split: if_splits)
  from p(2) obtain qs where qs: "p = CHR ''/'' # join_with ''/'' qs" "\<forall>q \<in> set qs. plain_part q"
    unfolding p(1) by (rule clean_path_rooted)
  have "split_on CHR ''/'' p = [] # (if qs = [] then [[]] else qs)"
    using qs split_on_join [of qs "CHR ''/''"] by (auto simp: plain_part_def)
  then have "clean_parts True [] (split_on CHR ''/'' p) = qs"
    using clean_parts_id [OF qs(2), of True "[]"] by simp
  moreover have "rooted_path p" using qs(1) by (simp add: rooted_path_def)
  ultimately have "clean_path p = p" using qs(1) by (simp add: clean_path_def)
  with \<open>rooted_path p\<close> qs show ?thesis by (auto simp: absolutePath_def plain_part_def)
qed

theorem absolutePath_canonical_witness:
  "absolutePath ''/a/./b//../c'' = Ok ''/a/c'' \<and> absolutePath ''/a/c'' = Ok ''/a/c''"
proof -
  have "absolutePath ''/a/./b//../c'' = Ok ''/a/c''" by code_simp
  with absolutePath_canonical [OF this] show ?thesis by blast
qed

section \<open>How an agent record may change\<close>

definition agents_ok :: "agent list \<Rightarrow> bool" where
  "agents_ok rows \<longleftrightarrow> table_ok agent_ID agent_check rows \<and> distinct (map agent_SessionKeyHash rows)"

text \<open>The identity binding and the record's origin never change; the trust level changes only from
  unverified to known, and only for an agent in \<open>S\<close>.\<close>

definition agent_evolves :: "string set \<Rightarrow> agent \<Rightarrow> agent \<Rightarrow> bool" where
  "agent_evolves S a a' \<longleftrightarrow> agent_ID a' = agent_ID a \<and> agent_Name a' = agent_Name a
     \<and> agent_Type a' = agent_Type a \<and> agent_ExecutableHash a' = agent_ExecutableHash a
     \<and> agent_ExecutablePath a' = agent_ExecutablePath a \<and> agent_OSUser a' = agent_OSUser a
     \<and> agent_DeviceID a' = agent_DeviceID a \<and> agent_WorkspaceID a' = agent_WorkspaceID a
     \<and> agent_CreatedAt a' = agent_CreatedAt a
     \<and> (agent_TrustLevel a' = agent_TrustLevel a
        \<or> agent_TrustLevel a = TrustUnverified \<and> agent_TrustLevel a' = TrustKnown \<and> agent_ID a \<in> S)"

interpretation agent_rows: growing_table "agent_evolves S" for S
  by unfold_locales (auto simp: agent_evolves_def)

text \<open>New records start unverified.\<close>

definition agents_history :: "string set \<Rightarrow> db \<Rightarrow> db \<Rightarrow> bool" where
  "agents_history S d d' \<longleftrightarrow> (agents_ok (db_agents d) \<longrightarrow> agents_ok (db_agents d')
     \<and> rows_evolve (agent_evolves S) (db_agents d) (db_agents d')
     \<and> (\<forall>i. length (db_agents d) \<le> i \<and> i < length (db_agents d') \<longrightarrow>
          agent_TrustLevel (db_agents d' ! i) = TrustUnverified
          \<or> agent_TrustLevel (db_agents d' ! i) = TrustKnown \<and> agent_ID (db_agents d' ! i) \<in> S))"

lemma agents_history_trans:
  assumes ab: "agents_history S a b" and bc: "agents_history S b c"
  shows "agents_history S a c"
  unfolding agents_history_def
proof (intro impI conjI allI)
  assume ok: "agents_ok (db_agents a)"
  then have okb: "agents_ok (db_agents b)"
    and eab: "rows_evolve (agent_evolves S) (db_agents a) (db_agents b)"
    using ab by (simp_all add: agents_history_def)
  then have ebc: "rows_evolve (agent_evolves S) (db_agents b) (db_agents c)"
    and "agents_ok (db_agents c)" using bc by (simp_all add: agents_history_def)
  then show "agents_ok (db_agents c)" by simp
  show "rows_evolve (agent_evolves S) (db_agents a) (db_agents c)"
    using agent_rows.evolve_trans [OF eab ebc] .
  fix i
  assume i: "length (db_agents a) \<le> i \<and> i < length (db_agents c)"
  show "agent_TrustLevel (db_agents c ! i) = TrustUnverified
      \<or> agent_TrustLevel (db_agents c ! i) = TrustKnown \<and> agent_ID (db_agents c ! i) \<in> S"
  proof (cases "i < length (db_agents b)")
    case True
    then have "agent_evolves S (db_agents b ! i) (db_agents c ! i)"
      using ebc by (simp add: rows_evolve_def)
    moreover have "agent_TrustLevel (db_agents b ! i) = TrustUnverified
      \<or> agent_TrustLevel (db_agents b ! i) = TrustKnown \<and> agent_ID (db_agents b ! i) \<in> S"
      using ab ok i True by (simp add: agents_history_def)
    ultimately show ?thesis by (auto simp: agent_evolves_def)
  next
    case False
    then show ?thesis using bc okb i by (simp add: agents_history_def)
  qed
qed

lemma agents_history_same: "db_agents d' = db_agents d \<Longrightarrow> agents_history S d d'"
  by (auto simp: agents_history_def agent_rows.evolve_refl)

interpretation agents: db_history "agents_history S" for S
  using agents_history_same agents_history_trans by unfold_locales blast+

lemma agents_history_update:
  assumes u: "sql_update agent_check (\<lambda>a. agent_ID a = i) f (db_agents d) = Ok (Some (r, rows))"
    and E: "\<And>a. a \<in> set (db_agents d) \<Longrightarrow> agent_ID a = i \<Longrightarrow> agent_evolves S a (f a)"
    and id: "\<And>a. agent_ID (f a) = agent_ID a"
    and key: "\<And>a. agent_SessionKeyHash (f a) = agent_SessionKeyHash a
      \<or> (\<forall>b \<in> set (db_agents d). agent_ID b \<noteq> i \<longrightarrow> agent_SessionKeyHash b \<noteq> agent_SessionKeyHash (f a))"
  shows "agents_history S d (d\<lparr>db_agents := rows\<rparr>)"
  unfolding agents_history_def
proof (intro impI conjI)
  assume ok: "agents_ok (db_agents d)"
  from u have rows: "rows = map (\<lambda>x. if agent_ID x = i then f x else x) (db_agents d)"
    by (elim sql_update_Some)
  have t: "table_ok agent_ID agent_check (db_agents d)" using ok by (simp add: agents_ok_def)
  have "inj_on agent_SessionKeyHash (set rows)"
  proof (rule inj_onI)
    fix x y assume "x \<in> set rows" "y \<in> set rows" and eq: "agent_SessionKeyHash x = agent_SessionKeyHash y"
    then obtain a b where a: "a \<in> set (db_agents d)" "x = (if agent_ID a = i then f a else a)"
      and b: "b \<in> set (db_agents d)" "y = (if agent_ID b = i then f b else b)" using rows by auto
    have inj: "agent_SessionKeyHash a = agent_SessionKeyHash b \<Longrightarrow> a = b"
      using ok a(1) b(1) by (auto simp: agents_ok_def distinct_map dest: inj_onD)
    have same: "agent_ID a = agent_ID b \<Longrightarrow> a = b" using table_ok_same [OF t a(1) b(1)] .
    show "x = y"
      using a b eq inj same key [of a] key [of b] by (auto split: if_splits)
  qed
  moreover have "distinct rows"
  proof -
    have "map agent_ID rows = map agent_ID (db_agents d)" using rows id by auto
    then show ?thesis using t by (metis distinct_map table_ok_def)
  qed
  ultimately have "distinct (map agent_SessionKeyHash rows)" by (simp add: distinct_map)
  moreover have "table_ok agent_ID agent_check rows" using table_ok_update [OF t u] id by simp
  ultimately show "agents_ok (db_agents (d\<lparr>db_agents := rows\<rparr>))" by (simp add: agents_ok_def)
  show "rows_evolve (agent_evolves S) (db_agents d) (db_agents (d\<lparr>db_agents := rows\<rparr>))"
    using rows E agent_rows.row_refl by (simp add: rows_evolve_def)
next
  show "\<forall>j. length (db_agents d) \<le> j \<and> j < length (db_agents (d\<lparr>db_agents := rows\<rparr>)) \<longrightarrow>
          agent_TrustLevel (db_agents (d\<lparr>db_agents := rows\<rparr>) ! j) = TrustUnverified
          \<or> agent_TrustLevel (db_agents (d\<lparr>db_agents := rows\<rparr>) ! j) = TrustKnown
            \<and> agent_ID (db_agents (d\<lparr>db_agents := rows\<rparr>) ! j) \<in> S"
    using u by (auto elim!: sql_update_Some)
qed

lemma update_agent_Ok:
  "update_agent i f d = Ok (a, d') \<longleftrightarrow>
     (\<exists>rows. sql_update agent_check (\<lambda>a. agent_ID a = i) f (db_agents d) = Ok (Some (a, rows))
       \<and> d' = d\<lparr>db_agents := rows\<rparr>)"
  by (auto simp: update_agent_def not_found_update_def rbind_iffs split: option.splits)

lemma agent_writes_keep:
  "agents.keeps S (SetAgentStatus i st at)" "agents.keeps S (TouchAgent i at)"
  "agents.keeps S (RebindAgent i rb)"
proof -
  show "agents.keeps S (SetAgentStatus i st at)" "agents.keeps S (TouchAgent i at)"
    unfolding SetAgentStatus_def TouchAgent_def
    by (auto simp: update_agent_Ok agent_evolves_def
        intro!: agents.keeps_rules agents.keeps_write agents_history_update)
  let ?f = "\<lambda>a. a\<lparr>agent_PID := rb_PID rb, agent_ParentPID := rb_ParentPID rb,
        agent_StartedAt := encodeTime (rb_StartedAt rb), agent_SessionKeyHash := rb_SessionKeyHash rb,
        agent_SessionExpiresAt := encodeTime (rb_SessionExpiresAt rb),
        agent_Status := AgentActive, agent_LastSeenAt := encodeTime (rb_At rb),
        agent_UpdatedAt := encodeTime (rb_At rb)\<rparr>"
  have "agents_history S d d'" if r: "rebindAgent i rb d = Ok (a, d')" for d a d'
  proof -
    from r obtain rows where
      u: "sql_update agent_check (\<lambda>a. agent_ID a = i) ?f (db_agents d) = Ok (Some (a, rows))"
      and d': "d' = d\<lparr>db_agents := rows\<rparr>"
      and free: "\<not> (list_ex (\<lambda>a. agent_ID a = i) (db_agents d)
         \<and> list_ex (\<lambda>a. agent_ID a \<noteq> i \<and> agent_SessionKeyHash a = rb_SessionKeyHash rb) (db_agents d))"
      unfolding rebindAgent_def by (simp add: update_agent_Ok split: if_splits) metis
    from u obtain x where "x \<in> set (db_agents d)" "agent_ID x = i" by (rule sql_update_row)
    with free have "\<forall>b \<in> set (db_agents d). agent_ID b \<noteq> i \<longrightarrow> agent_SessionKeyHash b \<noteq> rb_SessionKeyHash rb"
      by (auto simp: list_ex_iff)
    then show ?thesis
      unfolding d' by (intro agents_history_update [OF u]) (simp_all add: agent_evolves_def)
  qed
  then show "agents.keeps S (RebindAgent i rb)"
    unfolding RebindAgent_def by (auto intro!: agents.keeps_rules agents.keeps_write)
qed

lemma createAgent_keeps: "agents.keeps S (createAgent r dev ws kh e now)"
proof -
  have "agents_history S d d'" if c: "createAgent_stmt row d = Ok (a, d')"
    and u: "agent_TrustLevel row = TrustUnverified" for row d a d'
  proof -
    from c have d': "db_agents d' = db_agents d @ [row]" and "agent_check row"
      and "agent_ID row \<notin> agent_ID ` set (db_agents d)"
      and "agent_SessionKeyHash row \<notin> agent_SessionKeyHash ` set (db_agents d)"
      by (auto simp: createAgent_stmt_def rbind_iffs sql_insert_Ok)
    then show ?thesis using u
      by (auto simp: agents_history_def agents_ok_def agent_rows.evolve_append nth_append
          intro!: table_ok_insert)
  qed
  then show ?thesis
    unfolding createAgent_def CreateAgent_def
    by (auto simp: agent_row_def intro!: agents.keeps_rules agents.keeps_write)
qed

lemma Register_keeps: "agents.keeps S (Register h keys ttl reg)"
proof -
  have key: "agents.keeps S (generateSessionKey keys)"
    by (simp add: agents.keeps_def generateSessionKey_def agents_history_same)
  have "agents.keeps S (resolveDevice r now)" for r now
    by (auto simp: resolveDevice_def DeviceByFingerprint_def CreateDevice_def createDevice_def Let_def
        rbind_iffs sql_insert_Ok agents_history_same intro!: agents.keeps_rules agents.keeps_write)
  moreover have "agents.keeps S (resolveWorkspace r now)" for r now
    by (auto simp: resolveWorkspace_def WorkspaceByPath_def SetWorkspaceFingerprint_def
        CreateWorkspace_def createWorkspace_def not_found_update_def Let_def
        rbind_iffs sql_insert_Ok agents_history_same split: option.splits
        intro!: agents.keeps_rules agents.keeps_write)
  ultimately show ?thesis
    by (auto simp: Register_def AgentByBinding_def
        intro!: agents.keeps_rules createAgent_keeps agent_writes_keep key)
qed

lemma Authenticate_keeps: "agents.keeps S (Authenticate h key pr)"
  by (auto simp: Authenticate_def AgentBySessionKeyHash_def
      intro!: agents.keeps_rules agent_writes_keep)

lemma Disconnect_keeps: "agents.keeps S (agent_Disconnect i)"
  by (auto simp: agent_Disconnect_def intro!: agents.keeps_rules agent_writes_keep)

lemma ConfirmTrust_keeps:
  assumes "i \<in> S"
  shows "agents.keeps S (ConfirmTrust i)"
  unfolding agents.keeps_def
proof
  fix w
  let ?set = "\<lambda>at a. a\<lparr>agent_TrustLevel := TrustKnown, agent_UpdatedAt := encodeTime at\<rparr>"
  obtain r w1 where r: "AgentByID i w = (r, w1)" by (cases "AgentByID i w")
  then have w1: "w_db w1 = w_db w" using io_read_db unfolding AgentByID_def by (metis snd_conv)
  show "agents_history S (w_db w) (w_db (snd (ConfirmTrust i w)))"
  proof (cases "\<exists>a. r = Ok a \<and> agent_TrustLevel a = TrustUnverified")
    case True
    then obtain a where a: "r = Ok a" "agent_TrustLevel a = TrustUnverified" by blast
    then have mem: "a \<in> set (db_agents (w_db w))" "agent_ID a = i"
      using r by (auto simp: AgentByID_def io_Ok_iffs rbind_iffs toAgent_def dest!: found_row_by_Ok)
    have run: "ConfirmTrust i w = SetAgentTrustLevel i TrustKnown (w_clock w1 (w_tick w1)) (tick w1)"
      using r a by (simp add: ConfirmTrust_def io_bind_def io_now_def)
    have hist: "agents_history S (w_db w) d'"
      if u: "update_agent i (?set at) (w_db w) = Ok (x, d')" for at x d'
    proof (cases "agents_ok (db_agents (w_db w))")
      case True
      then have "\<And>b. b \<in> set (db_agents (w_db w)) \<Longrightarrow> agent_ID b = i \<Longrightarrow> b = a"
        using mem by (metis agents_ok_def table_ok_same)
      then have "\<And>b. b \<in> set (db_agents (w_db w)) \<Longrightarrow> agent_ID b = i \<Longrightarrow> agent_TrustLevel b = TrustUnverified"
        using a(2) by blast
      with u assms show ?thesis
        by (auto simp: update_agent_Ok agent_evolves_def intro!: agents_history_update)
    qed (simp add: agents_history_def)
    have "w_db (snd (SetAgentTrustLevel i TrustKnown at v)) = w_db v
      \<or> (\<exists>x. update_agent i (?set at) (w_db v) = Ok (x, w_db (snd (SetAgentTrustLevel i TrustKnown at v))))"
      for at v
      by (auto simp: SetAgentTrustLevel_def io_bind_def io_write_def io_lift_def split: sum.split)
    from this [of "w_clock w1 (w_tick w1)" "tick w1"] run w1 hist show ?thesis
      using agents_history_same [of "w_db w" "w_db w"] by (auto; metis)
  next
    case False
    then have "w_db (snd (ConfirmTrust i w)) = w_db w1"
      using r by (cases r) (auto simp: ConfirmTrust_def io_bind_def io_return_def io_fail_def
          split: trust_level.split)
    with w1 agents_history_same show ?thesis by simp
  qed
qed

section \<open>Trust is only confirmed\<close>

datatype auth_op = OpRegister registration | OpAuthenticate session_key presented
  | OpConfirm string | OpDisconnect string

fun run_auth_op ::
    "(string \<Rightarrow> string) \<Rightarrow> (nat \<Rightarrow> string option) \<Rightarrow> duration \<Rightarrow> auth_op \<Rightarrow> world \<Rightarrow> world" where
  "run_auth_op h keys ttl (OpRegister reg) w = snd (Register h keys ttl reg w)"
| "run_auth_op h keys ttl (OpAuthenticate k pr) w = snd (Authenticate h k pr w)"
| "run_auth_op h keys ttl (OpConfirm i) w = snd (ConfirmTrust i w)"
| "run_auth_op h keys ttl (OpDisconnect i) w = snd (agent_Disconnect i w)"

lemma run_auth_op_history:
  "{i. OpConfirm i \<in> set ops} \<subseteq> S \<Longrightarrow>
     agents_history S (w_db w) (w_db (fold (run_auth_op h keys ttl) ops w))"
proof (induction ops arbitrary: w)
  case (Cons op ops)
  have "agents_history S (w_db w) (w_db (run_auth_op h keys ttl op w))"
  proof (cases op)
    case (OpConfirm i)
    then have "i \<in> S" using Cons.prems by auto
    with OpConfirm show ?thesis using ConfirmTrust_keeps by (simp add: agents.keeps_def)
  qed (use Register_keeps Authenticate_keeps Disconnect_keeps in \<open>simp_all add: agents.keeps_def\<close>)
  moreover have "{i. OpConfirm i \<in> set ops} \<subseteq> S" using Cons.prems by auto
  ultimately show ?case using agents_history_trans Cons.IH by (metis fold_simps(2))
qed (simp add: agents_history_same)

text \<open>C11: Trust in an agent comes from the user only, and identity is fixed.  Whatever sequence of
  registrations, authentications, confirmations and disconnects runs, and whatever statement fails:
  no two agents share an identifier or a session key hash; every agent on record either is new,
  and then unverified or confirmed by one of these calls, or was there before with the same
  executable, path, user, device and workspace and the same trust level, unless one of the calls
  confirmed it from unverified to known.  In particular no call produces \<open>trusted\<close>.\<close>

theorem agent_trust_only_confirmed:
  assumes ok: "agents_ok (db_agents (w_db w))"
    and "ws = fold (run_auth_op h keys ttl) ops w"
  shows "agents_ok (db_agents (w_db ws))
    \<and> (\<forall>a' \<in> set (db_agents (w_db ws)).
        agent_TrustLevel a' = TrustUnverified
        \<or> agent_TrustLevel a' = TrustKnown \<and> OpConfirm (agent_ID a') \<in> set ops
        \<or> (\<exists>a \<in> set (db_agents (w_db w)). agent_evolves {i. OpConfirm i \<in> set ops} a a'
             \<and> agent_TrustLevel a' = agent_TrustLevel a))
    \<and> (\<forall>a \<in> set (db_agents (w_db w)). \<exists>a' \<in> set (db_agents (w_db ws)).
        agent_evolves {i. OpConfirm i \<in> set ops} a a')"
proof -
  let ?S = "{i. OpConfirm i \<in> set ops}" and ?d = "w_db w" and ?d' = "w_db ws"
  have "agents_history ?S ?d ?d'" using run_auth_op_history assms(2) by simp
  with ok have H: "agents_ok (db_agents ?d')" "rows_evolve (agent_evolves ?S) (db_agents ?d) (db_agents ?d')"
    "\<forall>i. length (db_agents ?d) \<le> i \<and> i < length (db_agents ?d') \<longrightarrow>
          agent_TrustLevel (db_agents ?d' ! i) = TrustUnverified
          \<or> agent_TrustLevel (db_agents ?d' ! i) = TrustKnown \<and> agent_ID (db_agents ?d' ! i) \<in> ?S"
    by (simp_all add: agents_history_def)
  have "agent_TrustLevel a' = TrustUnverified
        \<or> agent_TrustLevel a' = TrustKnown \<and> OpConfirm (agent_ID a') \<in> set ops
        \<or> (\<exists>a \<in> set (db_agents ?d). agent_evolves ?S a a' \<and> agent_TrustLevel a' = agent_TrustLevel a)"
    if mem: "a' \<in> set (db_agents ?d')" for a'
  proof -
    from mem obtain i where i: "i < length (db_agents ?d')" "a' = db_agents ?d' ! i"
      by (metis in_set_conv_nth)
    show ?thesis
    proof (cases "i < length (db_agents ?d)")
      case True
      then have e: "agent_evolves ?S (db_agents ?d ! i) a'" and m: "db_agents ?d ! i \<in> set (db_agents ?d)"
        using H(2) i by (simp_all add: rows_evolve_def)
      then have "agent_TrustLevel a' = agent_TrustLevel (db_agents ?d ! i)
        \<or> agent_TrustLevel a' = TrustKnown \<and> OpConfirm (agent_ID a') \<in> set ops"
        unfolding agent_evolves_def by auto
      with e m show ?thesis by blast
    next
      case False
      with spec [OF H(3), of i] i show ?thesis by auto
    qed
  qed
  moreover have "\<exists>a' \<in> set (db_agents ?d'). agent_evolves ?S a a'" if "a \<in> set (db_agents ?d)" for a
    using agent_rows.evolve_member [OF H(2) that] by blast
  ultimately show ?thesis using H(1) by blast
qed

section \<open>Sessions\<close>

lemma AgentBySessionKeyHash_Ok:
  assumes "AgentBySessionKeyHash k w = (Ok a, w')"
  shows "a \<in> set (db_agents (w_db w))" "agent_SessionKeyHash a = k" "w' = tick w"
  using assms by (auto simp: AgentBySessionKeyHash_def io_Ok_iffs rbind_iffs toAgent_def
      dest!: found_row_by_Ok)

lemma TouchAgent_Ok:
  assumes "TouchAgent i at w = (Ok a', w')"
  obtains a where "a \<in> set (db_agents (w_db w))" "agent_ID a = i"
    "a' = a\<lparr>agent_LastSeenAt := encodeTime at, agent_UpdatedAt := encodeTime at\<rparr>"
proof -
  from assms obtain rows where "sql_update agent_check (\<lambda>a. agent_ID a = i)
      (\<lambda>a. a\<lparr>agent_LastSeenAt := encodeTime at, agent_UpdatedAt := encodeTime at\<rparr>)
      (db_agents (w_db w)) = Ok (Some (a', rows))"
    by (auto simp: TouchAgent_def io_Ok_iffs update_agent_Ok rbind_iffs toAgent_def)
  then show thesis by (rule sql_update_row) (rule that)
qed

lemma Authenticate_Ok:
  assumes "Authenticate h key pr w = (Ok a', w')"
  obtains a w2 where "\<not> key_IsEmpty key" "a \<in> set (db_agents (w_db w))"
    "agent_SessionKeyHash a = HashSessionKey h key" "agent_Status a = AgentActive"
    "agent_SessionExpiresAt a > w_clock w (Suc (w_tick w))"
    "pr_PID pr = 0 \<or> pr_PID pr = agent_PID a"
    "pr_ExecutableHash pr = [] \<or> pr_ExecutableHash pr = agent_ExecutableHash a"
    "TouchAgent (agent_ID a) (w_clock w2 (w_tick w2)) (tick w2) = (Ok a', w')" "w_db w2 = w_db w"
proof -
  from assms obtain r w1 where e: "\<not> key_IsEmpty key"
    and r: "io_try (AgentBySessionKeyHash (HashSessionKey h key)) w = (Ok r, w1)"
    and k: "(case r of Inl c \<Rightarrow> io_fail (if c = CodeNotFound then CodeUnauthenticated else c)
        | Inr a \<Rightarrow>
            if \<not> sameHash (agent_SessionKeyHash a) (HashSessionKey h key)
            then io_fail CodeUnauthenticated
            else if agent_Status a \<noteq> AgentActive then io_fail CodeUnauthenticated
            else io_bind io_now (\<lambda>now.
              if \<not> agent_SessionExpiresAt a > now then io_fail CodeSessionExpired
              else if pr_PID pr \<noteq> 0 \<and> pr_PID pr \<noteq> agent_PID a then io_fail CodeUnauthenticated
              else if pr_ExecutableHash pr \<noteq> [] \<and> pr_ExecutableHash pr \<noteq> agent_ExecutableHash a
              then io_fail CodeAgentIdentityUnverifiable
              else io_bind io_now (\<lambda>at. TouchAgent (agent_ID a) at))) w1 = (Ok a', w')"
    unfolding Authenticate_def by (auto simp: io_bind_Ok_iff io_fail_Ok split: if_splits)
  from k obtain a where a: "r = Inr a" by (cases r) (auto simp: io_fail_Ok)
  with r have "AgentBySessionKeyHash (HashSessionKey h key) w = (Ok a, w1)" by (simp add: io_try_Ok)
  note A = AgentBySessionKeyHash_Ok [OF this]
  from k a A e show thesis
    by (intro that [of a "tick w1"]) (auto simp: io_bind_Ok_iff io_fail_Ok io_now_Ok split: if_splits)
qed

text \<open>Registering an agent again rewrites the session key of its record and of no other.\<close>

lemma RebindAgent_hash:
  assumes "RebindAgent i rb w = (Ok a, w')"
  shows "db_agents (w_db w') = map (\<lambda>a. if agent_ID a = i then a\<lparr>agent_PID := rb_PID rb,
      agent_ParentPID := rb_ParentPID rb, agent_StartedAt := encodeTime (rb_StartedAt rb),
      agent_SessionKeyHash := rb_SessionKeyHash rb,
      agent_SessionExpiresAt := encodeTime (rb_SessionExpiresAt rb), agent_Status := AgentActive,
      agent_LastSeenAt := encodeTime (rb_At rb), agent_UpdatedAt := encodeTime (rb_At rb)\<rparr> else a)
      (db_agents (w_db w))" and "agent_ID a = i"
  using assms by (auto simp: RebindAgent_def io_Ok_iffs rebindAgent_def update_agent_Ok rbind_iffs
      toAgent_def find_Some_iff split: if_splits elim!: sql_update_Some)

interpretation agents_kept: db_history "\<lambda>d d'. db_agents d' = db_agents d"
  by unfold_locales simp_all

lemma resolve_keeps_agents:
  "agents_kept.keeps (resolveDevice r now)" "agents_kept.keeps (resolveWorkspace r now)"
  "agents_kept.keeps (generateSessionKey keys)"
  by (auto simp: resolveDevice_def DeviceByFingerprint_def CreateDevice_def createDevice_def
      resolveWorkspace_def WorkspaceByPath_def SetWorkspaceFingerprint_def
      CreateWorkspace_def createWorkspace_def not_found_update_def Let_def rbind_iffs sql_insert_Ok
      split: option.splits intro!: agents_kept.keeps_rules agents_kept.keeps_write)
    (simp add: agents_kept.keeps_def generateSessionKey_def)

lemma Register_rebind:
  assumes "Register h keys ttl reg w = (Ok rd, w')" and "rd_IsRebind rd"
  obtains w1 rb where "db_agents (w_db w1) = db_agents (w_db w)"
    "rb_SessionKeyHash rb = HashSessionKey h (rd_SessionKey rd)"
    "RebindAgent (agent_ID (rd_Agent rd)) rb w1 = (Ok (rd_Agent rd), w')"
proof -
  from assms(1) obtain r w0 dev w1 ws ch w2 key w3 res w4 where
    d: "resolveDevice r (w_clock w (w_tick w)) (tick w) = (Ok dev, w1)"
    and ws: "resolveWorkspace r (w_clock w (w_tick w)) w1 = (Ok (ws, ch), w2)"
    and key: "generateSessionKey keys w2 = (Ok key, w3)"
    and res: "io_try (AgentByBinding
        \<lparr>ab_DeviceID = device_ID dev, ab_WorkspaceID = workspace_ID ws,
         ab_ExecutablePath = reg_ExecutablePath r, ab_OSUser = reg_OSUser r,
         ab_ExecutableHash = reg_ExecutableHash r\<rparr>) w3 = (Ok res, w4)"
    and k: "(case res of
        Inr existing \<Rightarrow>
          io_bind (RebindAgent (agent_ID existing)
            \<lparr>rb_PID = reg_PID r, rb_ParentPID = reg_ParentPID r, rb_StartedAt = reg_StartedAt r,
             rb_SessionKeyHash = HashSessionKey h key,
             rb_SessionExpiresAt = w_clock w (w_tick w) + session_ttl ttl,
             rb_At = w_clock w (w_tick w)\<rparr>) (\<lambda>rebound.
            io_return \<lparr>rd_Agent = rebound, rd_SessionKey = key, rd_IsRebind = True,
              rd_ProjectFingerprintChanged = ch\<rparr>)
      | Inl c \<Rightarrow>
          if c \<noteq> CodeNotFound then io_fail c
          else io_bind (createAgent r (device_ID dev) (workspace_ID ws) (HashSessionKey h key)
              (w_clock w (w_tick w) + session_ttl ttl) (w_clock w (w_tick w))) (\<lambda>created.
            io_return \<lparr>rd_Agent = created, rd_SessionKey = key, rd_IsRebind = False,
              rd_ProjectFingerprintChanged = ch\<rparr>)) w4 = (Ok rd, w')"
    unfolding Register_def by (auto simp: io_bind_Ok_iff io_lift_Ok io_now_Ok)
  have "db_agents (w_db w3) = db_agents (w_db w)"
    using agents_kept.keepsD [OF resolve_keeps_agents(1) d]
      agents_kept.keepsD [OF resolve_keeps_agents(2) ws]
      agents_kept.keepsD [OF resolve_keeps_agents(3) key] by simp
  moreover have "w_db w4 = w_db w3"
    using res by (auto simp: io_try_Ok AgentByBinding_def io_read_def split: if_splits)
  moreover from k assms(2) obtain existing where "res = Inr existing"
    by (cases res) (auto simp: io_fail_Ok io_bind_Ok_iff io_return_Ok split: if_splits)
  ultimately show thesis
    using k RebindAgent_hash(2) that [of w4 "\<lparr>rb_PID = reg_PID r, rb_ParentPID = reg_ParentPID r,
        rb_StartedAt = reg_StartedAt r, rb_SessionKeyHash = HashSessionKey h key,
        rb_SessionExpiresAt = w_clock w (w_tick w) + session_ttl ttl, rb_At = w_clock w (w_tick w)\<rparr>"]
    by (auto simp: io_bind_Ok_iff io_return_Ok)
qed

lemma old_key_gone:
  assumes ok: "agents_ok (db_agents (w_db w))" and reg: "Register h keys ttl reg w = (Ok rd, w')"
    and re: "rd_IsRebind rd" and a: "a \<in> set (db_agents (w_db w))" "agent_ID a = agent_ID (rd_Agent rd)"
    and old: "agent_SessionKeyHash a \<noteq> HashSessionKey h (rd_SessionKey rd)"
  shows "agent_SessionKeyHash a \<notin> agent_SessionKeyHash ` set (db_agents (w_db w'))"
proof
  assume "agent_SessionKeyHash a \<in> agent_SessionKeyHash ` set (db_agents (w_db w'))"
  then obtain b where b: "b \<in> set (db_agents (w_db w'))" "agent_SessionKeyHash b = agent_SessionKeyHash a"
    by auto
  from reg re obtain w1 rb where "db_agents (w_db w1) = db_agents (w_db w)"
    "rb_SessionKeyHash rb = HashSessionKey h (rd_SessionKey rd)"
    "RebindAgent (agent_ID (rd_Agent rd)) rb w1 = (Ok (rd_Agent rd), w')" by (rule Register_rebind)
  with b old RebindAgent_hash(1) [OF this(3)] have "b \<in> set (db_agents (w_db w))"
    "agent_ID b \<noteq> agent_ID (rd_Agent rd)" by (auto split: if_splits)
  moreover have "inj_on agent_SessionKeyHash (set (db_agents (w_db w)))"
    using ok by (simp add: agents_ok_def distinct_map)
  ultimately show False using a b(2) by (metis inj_onD)
qed

lemma disconnected_rows:
  assumes "agent_Disconnect i w = (Ok b, w')"
  obtains at where "db_agents (w_db w') = map (\<lambda>a. if agent_ID a = i
      then a\<lparr>agent_Status := AgentDisconnected, agent_UpdatedAt := at\<rparr> else a) (db_agents (w_db w))"
proof -
  from assms obtain at rows where u: "sql_update agent_check (\<lambda>a. agent_ID a = i)
      (\<lambda>a. a\<lparr>agent_Status := AgentDisconnected, agent_UpdatedAt := at\<rparr>) (db_agents (w_db w))
      = Ok (Some (b, rows))" and w': "db_agents (w_db w') = rows"
    by (auto simp: agent_Disconnect_def SetAgentStatus_def io_Ok_iffs update_agent_Ok rbind_iffs
        toAgent_def)
  from u show thesis by (rule sql_update_Some) (use that w' in blast)
qed

text \<open>C8: Only a live session authenticates.  When \<open>Authenticate\<close> succeeds, the key is not empty
  and its hash is that of a stored agent that is active and not expired at that moment, whose
  process and executable are the presented ones where they are presented.  And a session that has
  ended stays out: after a disconnect no key authenticates as the agent, and after a restart was
  registered the previous key (of a different hash) authenticates as nobody.\<close>

theorem only_live_sessions_authenticate:
  assumes ok: "agents_ok (db_agents (w_db w))"
  shows "(Authenticate h key pr w = (Ok a', w') \<longrightarrow>
      \<not> key_IsEmpty key \<and> (\<exists>a \<in> set (db_agents (w_db w)). agent_ID a' = agent_ID a
        \<and> agent_SessionKeyHash a = HashSessionKey h key \<and> agent_Status a = AgentActive
        \<and> agent_SessionExpiresAt a > w_clock w (Suc (w_tick w))
        \<and> (pr_PID pr \<noteq> 0 \<longrightarrow> pr_PID pr = agent_PID a)
        \<and> (pr_ExecutableHash pr \<noteq> [] \<longrightarrow> pr_ExecutableHash pr = agent_ExecutableHash a)))
   \<and> (agent_Disconnect i w = (Ok b, w1) \<and> w_db w2 = w_db w1
        \<and> Authenticate h key pr w2 = (Ok a', w') \<longrightarrow> agent_ID a' \<noteq> i)
   \<and> (Register h keys ttl reg w = (Ok rd, w1) \<and> rd_IsRebind rd \<and> w_db w2 = w_db w1
        \<and> a \<in> set (db_agents (w_db w)) \<and> agent_ID a = agent_ID (rd_Agent rd)
        \<and> agent_SessionKeyHash a = HashSessionKey h key
        \<and> HashSessionKey h key \<noteq> HashSessionKey h (rd_SessionKey rd)
      \<longrightarrow> Authenticate h key pr w2 \<noteq> (Ok a', w'))"
proof (intro conjI impI)
  assume "Authenticate h key pr w = (Ok a', w')"
  then obtain a w3 where A: "\<not> key_IsEmpty key" "a \<in> set (db_agents (w_db w))"
    "agent_SessionKeyHash a = HashSessionKey h key" "agent_Status a = AgentActive"
    "agent_SessionExpiresAt a > w_clock w (Suc (w_tick w))"
    "pr_PID pr = 0 \<or> pr_PID pr = agent_PID a"
    "pr_ExecutableHash pr = [] \<or> pr_ExecutableHash pr = agent_ExecutableHash a"
    and t: "TouchAgent (agent_ID a) (w_clock w3 (w_tick w3)) (tick w3) = (Ok a', w')"
    by (rule Authenticate_Ok)
  from t have "agent_ID a' = agent_ID a" by (rule TouchAgent_Ok) simp
  with A show "\<not> key_IsEmpty key" "\<exists>a \<in> set (db_agents (w_db w)). agent_ID a' = agent_ID a
        \<and> agent_SessionKeyHash a = HashSessionKey h key \<and> agent_Status a = AgentActive
        \<and> agent_SessionExpiresAt a > w_clock w (Suc (w_tick w))
        \<and> (pr_PID pr \<noteq> 0 \<longrightarrow> pr_PID pr = agent_PID a)
        \<and> (pr_ExecutableHash pr \<noteq> [] \<longrightarrow> pr_ExecutableHash pr = agent_ExecutableHash a)" by auto
next
  assume "agent_Disconnect i w = (Ok b, w1) \<and> w_db w2 = w_db w1
        \<and> Authenticate h key pr w2 = (Ok a', w')"
  then have d: "agent_Disconnect i w = (Ok b, w1)" and w2: "w_db w2 = w_db w1"
    and au: "Authenticate h key pr w2 = (Ok a', w')" by simp_all
  from au obtain a w3 where A: "a \<in> set (db_agents (w_db w2))" "agent_Status a = AgentActive"
    and t: "TouchAgent (agent_ID a) (w_clock w3 (w_tick w3)) (tick w3) = (Ok a', w')"
    by (rule Authenticate_Ok)
  from t have "agent_ID a' = agent_ID a" by (rule TouchAgent_Ok) simp
  moreover have "agent_Status x = AgentDisconnected" if "x \<in> set (db_agents (w_db w1))" "agent_ID x = i" for x
  proof -
    let ?f = "\<lambda>at a. if agent_ID a = i
        then a\<lparr>agent_Status := AgentDisconnected, agent_UpdatedAt := at\<rparr> else a"
    from d obtain at where rows: "db_agents (w_db w1) = map (?f at) (db_agents (w_db w))"
      by (rule disconnected_rows)
    from that(1) have "x \<in> ?f at ` set (db_agents (w_db w))" unfolding rows set_map .
    then obtain y where "x = ?f at y" by (rule imageE)
    with that(2) show ?thesis by (cases "agent_ID y = i") simp_all
  qed
  ultimately show "agent_ID a' \<noteq> i" using A w2 by auto
next
  assume H: "Register h keys ttl reg w = (Ok rd, w1) \<and> rd_IsRebind rd \<and> w_db w2 = w_db w1
        \<and> a \<in> set (db_agents (w_db w)) \<and> agent_ID a = agent_ID (rd_Agent rd)
        \<and> agent_SessionKeyHash a = HashSessionKey h key
        \<and> HashSessionKey h key \<noteq> HashSessionKey h (rd_SessionKey rd)"
  then have gone: "HashSessionKey h key \<notin> agent_SessionKeyHash ` set (db_agents (w_db w2))"
    using old_key_gone [OF ok, of h keys ttl reg rd w1 a] by simp
  show "Authenticate h key pr w2 \<noteq> (Ok a', w')"
  proof
    assume "Authenticate h key pr w2 = (Ok a', w')"
    then obtain b where "b \<in> set (db_agents (w_db w2))" "agent_SessionKeyHash b = HashSessionKey h key"
      by (rule Authenticate_Ok)
    with gone show False by (metis imageI)
  qed
qed

text \<open>A process registers twice: the second registration rebinds, and the first key is dead.\<close>

definition sample_registration :: registration where
  "sample_registration = \<lparr>reg_Name = ''codex'', reg_Type = TypeCodex, reg_Version = ''1'',
     reg_ExecutableHash = ''eh'', reg_ExecutablePath = ''/bin/codex'', reg_PID = 7,
     reg_ParentPID = 0, reg_OSUser = ''me'', reg_DeviceFingerprint = ''fp'',
     reg_DeviceName = ''mac'', reg_WorkspacePath = ''/w/./x'', reg_ProjectFingerprint = ''pf'',
     reg_StartedAt = 5\<rparr>"

definition sample_keys :: "nat \<Rightarrow> string option" where
  "sample_keys n = Some (replicate n CHR ''k'')"

definition first_run :: "registered result \<times> world" where
  "first_run = Register id sample_keys 0 sample_registration (sample_world empty_db)"

definition second_run :: "registered result \<times> world" where
  "second_run = Register id sample_keys 0 sample_registration (snd first_run)"

lemma first_run_ok: "agents_ok (db_agents (w_db (snd first_run)))"
proof -
  have "agents_ok (db_agents (w_db (sample_world empty_db)))"
    by (simp add: agents_ok_def table_ok_def sample_world_def empty_db_def)
  with agents.keepsD [OF Register_keeps, of id sample_keys 0 sample_registration "sample_world empty_db"]
  show ?thesis unfolding first_run_def agents_history_def by (metis prod.collapse)
qed

definition first_key :: session_key where
  "first_key = (case fst first_run of Inr rd \<Rightarrow> rd_SessionKey rd | _ \<Rightarrow> SessionKey None)"

definition any_process :: presented where
  "any_process = \<lparr>pr_PID = 0, pr_ExecutableHash = []\<rparr>"

lemma sample_runs:
  "is_ok (fst first_run)" "is_ok (fst second_run)"
  "\<exists>rd. fst second_run = Ok rd \<and> rd_IsRebind rd
     \<and> HashSessionKey id first_key \<noteq> HashSessionKey id (rd_SessionKey rd)
     \<and> (\<exists>a \<in> set (db_agents (w_db (snd first_run))). agent_ID a = agent_ID (rd_Agent rd)
          \<and> agent_SessionKeyHash a = HashSessionKey id first_key)"
  "is_ok (fst (Authenticate id first_key any_process (snd first_run)))"
proof -
  show "is_ok (fst first_run)" "is_ok (fst second_run)"
    "is_ok (fst (Authenticate id first_key any_process (snd first_run)))" by code_simp+
  have "(case fst second_run of Inr rd \<Rightarrow> rd_IsRebind rd
      \<and> HashSessionKey id first_key \<noteq> HashSessionKey id (rd_SessionKey rd)
      \<and> list_ex (\<lambda>a. agent_ID a = agent_ID (rd_Agent rd)
          \<and> agent_SessionKeyHash a = HashSessionKey id first_key) (db_agents (w_db (snd first_run)))
      | _ \<Rightarrow> False)" by code_simp
  then show "\<exists>rd. fst second_run = Ok rd \<and> rd_IsRebind rd
     \<and> HashSessionKey id first_key \<noteq> HashSessionKey id (rd_SessionKey rd)
     \<and> (\<exists>a \<in> set (db_agents (w_db (snd first_run))). agent_ID a = agent_ID (rd_Agent rd)
          \<and> agent_SessionKeyHash a = HashSessionKey id first_key)"
    by (auto simp: list_ex_iff split: sum.splits)
qed

theorem only_live_sessions_authenticate_witness:
  "(\<exists>a' w'. Authenticate id first_key any_process (snd first_run) = (Ok a', w')
      \<and> (\<exists>a \<in> set (db_agents (w_db (snd first_run))).
           agent_SessionKeyHash a = HashSessionKey id first_key))
   \<and> (\<forall>a' w'. Authenticate id first_key any_process (snd second_run) \<noteq> (Ok a', w'))"
proof
  from is_ok_result [OF sample_runs(4)] obtain a' w' where
    a: "Authenticate id first_key any_process (snd first_run) = (Ok a', w')" by blast
  with only_live_sessions_authenticate [OF first_run_ok, of id first_key any_process a' w']
  show "\<exists>a' w'. Authenticate id first_key any_process (snd first_run) = (Ok a', w')
      \<and> (\<exists>a \<in> set (db_agents (w_db (snd first_run))).
           agent_SessionKeyHash a = HashSessionKey id first_key)" by blast
next
  from sample_runs(3) obtain rd a where "fst second_run = Ok rd" "rd_IsRebind rd"
    "HashSessionKey id first_key \<noteq> HashSessionKey id (rd_SessionKey rd)"
    "a \<in> set (db_agents (w_db (snd first_run)))" "agent_ID a = agent_ID (rd_Agent rd)"
    "agent_SessionKeyHash a = HashSessionKey id first_key" by blast
  moreover from this(1) have "Register id sample_keys 0 sample_registration (snd first_run)
      = (Ok rd, snd second_run)" by (metis prod.collapse second_run_def)
  ultimately show "\<forall>a' w'. Authenticate id first_key any_process (snd second_run) \<noteq> (Ok a', w')"
    using only_live_sessions_authenticate [OF first_run_ok] by blast
qed

theorem agent_trust_only_confirmed_witness:
  "let ws = fold (run_auth_op id sample_keys 0)
        [OpRegister sample_registration, OpConfirm (replicate 9 CHR ''x'')] (sample_world empty_db) in
   length (db_agents (w_db ws)) = 1
   \<and> (\<forall>a \<in> set (db_agents (w_db ws)). agent_TrustLevel a \<noteq> TrustTrusted)"
proof -
  let ?ops = "[OpRegister sample_registration, OpConfirm (replicate 9 CHR ''x'')]"
  let ?w = "sample_world empty_db" and ?ws = "fold (run_auth_op id sample_keys 0)
        [OpRegister sample_registration, OpConfirm (replicate 9 CHR ''x'')] (sample_world empty_db)"
  have n: "length (db_agents (w_db ?ws)) = 1" by code_simp
  have e: "db_agents (w_db ?w) = []" by (simp add: sample_world_def empty_db_def)
  then have "agents_ok (db_agents (w_db ?w))" by (simp add: agents_ok_def table_ok_def)
  from agent_trust_only_confirmed [OF this refl, of id sample_keys 0 ?ops] e n show ?thesis
    unfolding Let_def by auto
qed

end
