(* ===== verification/Settlement.thy ===== *)
theory Settlement
  imports Pipeline Agent_Auth
begin

text \<open>
  The rest of \<open>internal/core/pipeline\<close>: settling an approval into a ledger entry, a lease and a
  memory (\<open>settle.go\<close>), closing approvals nobody answered (\<open>expire.go\<close>), and the cascades that
  disconnect an identity (\<open>identity.go\<close>) or end an agent's session (\<open>agent.go\<close>).
\<close>

section \<open>Settling (settle.go)\<close>

record settle_input =
  sin_ApprovalID :: string
  sin_Action :: action
  sin_StrongAuthCompleted :: bool
  sin_Confirmations :: int

record settle_result =
  sres_Approval :: "approval option"
  sres_Decision :: decision_record
  sres_Request :: capability_request
  sres_Lease :: "lease option"
  sres_Memory :: "memory option"
  sres_Replayed :: bool

definition decodeScope :: "jtext \<Rightarrow> scope result" where
  "decodeScope t = (case decode_scope t of
      None \<Rightarrow> Err CodeInternal
    | Some granted \<Rightarrow> rbind (scope_Validate granted) (\<lambda>_. Ok granted))"

definition recordSettlement ::
    "capability_request \<Rightarrow> decision_record \<Rightarrow> scope \<Rightarrow> string \<Rightarrow> event_type \<Rightarrow> event_outcome
     \<Rightarrow> audit_event io" where
  "recordSettlement req rec granted approvalID ty oc =
     Record (empty_event\<lparr>event_OperationID := request_OperationID req, event_Type := ty,
       event_AgentID := request_AgentID req, event_WorkspaceID := request_WorkspaceID req,
       event_IdentityID := decision_IdentityID rec, event_Service := scope_Service granted,
       event_Operation := scope_Operation granted, event_Resource := resourceOf req,
       event_ResolvedScope := decision_ResolvedScope rec,
       event_Verdict := decision_Verdict rec, event_RiskLevel := decision_RiskLevel rec,
       event_DecisionID := decision_ID rec, event_ApprovalID := approvalID, event_Outcome := oc,
       event_Metadata := metadata1 ''reason'' (decision_ReasonCode rec)\<rparr>)"

definition approval_id_of :: "settlement \<Rightarrow> string" where
  "approval_id_of st = (case st_Approval st of None \<Rightarrow> [] | Some a \<Rightarrow> approval_ID a)"

definition pl_grant ::
    "capability_request \<Rightarrow> decision_record \<Rightarrow> scope \<Rightarrow> settlement \<Rightarrow> lease io" where
  "pl_grant req rec granted st =
     io_bind (recordSettlement req rec granted (approval_id_of st) EventUserAllowed
         OutcomeSucceeded) (\<lambda>_.
       issueLease
        \<lparr>ir_Granted = (if st_RequestLimit st > 0
             then granted\<lparr>scope_RequestLimit := st_RequestLimit st\<rparr> else granted),
         ir_ApprovalID = approval_id_of st, ir_SourceMemoryID = decision_TrustMemoryID rec,
         ir_IsSessionBound = st_SessionBound st\<rparr>)"

definition pl_learn :: "decision_record \<Rightarrow> scope \<Rightarrow> settlement \<Rightarrow> memory option io" where
  "pl_learn rec granted st =
     (if st_Learn st = BehaviorOther [] then io_return None
      else io_bind (trust_Generate \<lparr>gen_Approved = granted, gen_Learned = granted,
          gen_ApprovalID = approval_id_of st, gen_RiskLevel = decision_RiskLevel rec,
          gen_Behavior = st_Learn st, gen_TTL = 0\<rparr>) (\<lambda>m. io_return (Some m)))"

definition applySettlement ::
    "settle_result \<Rightarrow> settlement \<Rightarrow> capability_request \<Rightarrow> decision_record \<Rightarrow> settle_result io" where
  "applySettlement res st req rec =
     io_bind (io_lift (decodeScope (decision_ResolvedScope rec))) (\<lambda>granted.
       if \<not> st_Allowed st then
         io_bind (recordSettlement req rec granted (approval_id_of st) EventDenied OutcomeBlocked)
           (\<lambda>_. io_bind (advance req StatusRejected) (\<lambda>advanced.
             io_return (res\<lparr>sres_Request := advanced\<rparr>)))
       else
         io_bind (pl_grant req rec granted st) (\<lambda>issued.
         io_bind (pl_learn rec granted st) (\<lambda>learned.
         io_bind (advance req StatusApproved) (\<lambda>advanced.
           io_return (res\<lparr>sres_Lease := Some issued, sres_Memory := learned,
             sres_Request := advanced\<rparr>)))))"

definition replayed :: "settle_result \<Rightarrow> settlement \<Rightarrow> settle_result io" where
  "replayed res st =
     (if \<not> st_Allowed st then io_return res
      else io_bind (io_try (lease_IssuedFor (approval_id_of st))) (\<lambda>r. case r of
          Inl c \<Rightarrow> io_fail (if c = CodeNotFound then CodeConflict else c)
        | Inr issued \<Rightarrow> io_return (res\<lparr>sres_Lease := Some issued\<rparr>)))"

text \<open>The check that the scope's own window is still open; only allowing actions are held up.\<close>

definition check_window :: "action \<Rightarrow> decision_record \<Rightarrow> unit io" where
  "check_window act rec =
     (if Allows act then
        io_bind (io_lift (decodeScope (decision_ResolvedScope rec))) (\<lambda>granted.
        io_bind io_now (\<lambda>now.
          if \<not> scope_ExpiresAt granted > now then io_fail CodeApprovalTimeout else io_return ()))
      else io_return ())"

definition SettleApproval :: "pipeline \<Rightarrow> settle_input \<Rightarrow> settle_result io" where
  "SettleApproval p inp =
     io_bind (approval_ByID (sin_ApprovalID inp)) (\<lambda>item.
     io_bind (DecisionByID (approval_DecisionID item)) (\<lambda>rec.
     io_bind (RequestByID (decision_CapabilityRequestID rec)) (\<lambda>req.
     io_bind (check_window (sin_Action inp) rec) (\<lambda>_.
     io_bind (approval_Settle
        \<lparr>set_ApprovalID = sin_ApprovalID inp, set_Action = sin_Action inp,
         set_RiskLevel = decision_RiskLevel rec,
         set_StrongAuthCompleted = sin_StrongAuthCompleted inp,
         set_Requirement = decision_ApprovalRequirement rec,
         set_RequiredConfirmations =
           int (RequiredConfirmations (pl_Mode p) (decision_RiskLevel rec)),
         set_Confirmations = sin_Confirmations inp\<rparr>) (\<lambda>st.
       let res = \<lparr>sres_Approval = st_Approval st, sres_Decision = rec, sres_Request = req,
             sres_Lease = None, sres_Memory = None, sres_Replayed = st_Replayed st\<rparr> in
       if st_Replayed st then replayed res st else applySettlement res st req rec)))))"

record blocked_request =
  bl_OperationID :: string
  bl_AgentID :: string
  bl_WorkspaceID :: string
  bl_Service :: string
  bl_Operation :: string

definition RecordSecretRequestBlocked :: "blocked_request \<Rightarrow> unit io" where
  "RecordSecretRequestBlocked b =
     io_bind (Record (empty_event\<lparr>event_OperationID := bl_OperationID b,
       event_Type := EventSecretRequestBlocked, event_AgentID := bl_AgentID b,
       event_WorkspaceID := bl_WorkspaceID b, event_Service := bl_Service b,
       event_Operation := bl_Operation b, event_Resource := Parsed (JObj []),
       event_ResolvedScope := Parsed (JObj []), event_Verdict := VerdictDeny,
       event_Outcome := OutcomeBlocked,
       event_Metadata := metadata1 ''blocker'' (blocker_text BlockerCapabilityNotOffered)\<rparr>))
       (\<lambda>_. io_return ())"

definition RecordStrongAuthLocked :: "string \<Rightarrow> int \<Rightarrow> unit io" where
  "RecordStrongAuthLocked operationID lockoutSeconds =
     io_bind (Record (empty_event\<lparr>event_OperationID := operationID,
       event_Type := EventStrongAuthLocked, event_Service := ''opendelo'',
       event_Operation := ''vault.unlock'', event_Resource := Parsed (JObj []),
       event_ResolvedScope := Parsed (JObj []), event_Outcome := OutcomeBlocked,
       event_Metadata := Parsed (JObj [(''lockout_seconds'', JNum lockoutSeconds)])\<rparr>))
       (\<lambda>_. io_return ())"

definition RecordAgentTrusted :: "string \<Rightarrow> string \<Rightarrow> unit io" where
  "RecordAgentTrusted agentID operationID =
     io_bind (Record (empty_event\<lparr>event_OperationID := operationID,
       event_Type := EventAgentTrusted, event_AgentID := agentID, event_Service := ''opendelo'',
       event_Operation := ''agent.trust'', event_Resource := Parsed (JObj []),
       event_ResolvedScope := Parsed (JObj []), event_Outcome := OutcomeSucceeded,
       event_Metadata := metadata1 ''trust_level'' ''known''\<rparr>)) (\<lambda>_. io_return ())"

fun behavior_text :: "behavior \<Rightarrow> string" where
  "behavior_text BehaviorAutoAllow = ''auto_allow''"
| "behavior_text BehaviorAlwaysAsk = ''always_ask''"
| "behavior_text (BehaviorOther s) = s"

definition ClearTrustMemory :: "string \<Rightarrow> string \<Rightarrow> unit io" where
  "ClearTrustMemory i operationID =
     io_bind (trust_ByID i) (\<lambda>cleared.
     io_bind (Record (empty_event\<lparr>event_OperationID := operationID,
       event_Type := EventTrustCleared, event_AgentID := memory_AgentID cleared,
       event_WorkspaceID := memory_WorkspaceID cleared,
       event_IdentityID := memory_IdentityID cleared, event_Service := memory_Service cleared,
       event_Operation := ''trust.clear'', event_Resource := memory_ResourceScope cleared,
       event_ResolvedScope := Parsed (JObj []), event_RiskLevel := memory_RiskCeiling cleared,
       event_Outcome := OutcomeSucceeded,
       event_Metadata := metadata1 ''approval_behavior'' (behavior_text (memory_Behavior cleared))\<rparr>))
       (\<lambda>_. trust_Delete i))"

section \<open>Timeouts (expire.go)\<close>

text \<open>One closed approval; the count a failing loop returns beside its error is not used.\<close>

definition expire_one :: "approval \<Rightarrow> unit io" where
  "expire_one item =
     io_bind (DecisionByID (approval_DecisionID item)) (\<lambda>rec.
     io_bind (RequestByID (decision_CapabilityRequestID rec)) (\<lambda>req.
     io_bind (io_lift (decodeScope (decision_ResolvedScope rec))) (\<lambda>granted.
     io_bind (recordSettlement req rec granted (approval_ID item) EventApprovalExpired
         OutcomeBlocked) (\<lambda>_.
     io_bind (advance req StatusRejected) (\<lambda>_. io_return ())))))"

definition ExpireApprovals :: "int \<Rightarrow> nat io" where
  "ExpireApprovals limit =
     io_bind (approval_Expire limit) (\<lambda>expired.
     io_bind (io_mapM expire_one expired) (\<lambda>done. io_return (length done)))"

section \<open>Disconnecting (identity.go, agent.go)\<close>

definition cascadeLimit :: int where "cascadeLimit = 1000"

definition recordLeaseRevoked :: "string \<Rightarrow> lease \<Rightarrow> string \<Rightarrow> string \<Rightarrow> audit_event io" where
  "recordLeaseRevoked identityID granted operationID reason =
     Record (empty_event\<lparr>event_OperationID := operationID, event_Type := EventLeaseRevoked,
       event_AgentID := lease_AgentID granted, event_IdentityID := identityID,
       event_Service := lease_Service granted, event_Resource := Parsed (JObj []),
       event_ResolvedScope := lease_ResourceScope granted, event_Verdict := VerdictDeny,
       event_LeaseID := lease_ID granted, event_LeaseStatus := LeaseRevoked,
       event_Outcome := OutcomeBlocked, event_Metadata := metadata1 ''reason'' reason\<rparr>)"

definition revokeLeasesOf :: "identity \<Rightarrow> string \<Rightarrow> lease list io" where
  "revokeLeasesOf idn operationID =
     io_bind (lease_IssuedTo (identity_ID idn) cascadeLimit) (\<lambda>active.
       io_mapM (\<lambda>granted.
         io_bind (recordLeaseRevoked (identity_ID idn) granted operationID
           ''identity_disconnected'') (\<lambda>_. lease_Revoke (lease_ID granted))) active)"

record identity_revocation =
  irev_Identity :: identity
  irev_RevokedLeases :: "lease list"
  irev_InvalidatedMemories :: "memory list"

definition DisconnectIdentity :: "string \<Rightarrow> string \<Rightarrow> identity_revocation io" where
  "DisconnectIdentity identityID operationID =
     (if identityID = [] \<or> operationID = [] then io_fail CodeInvalidRequest
      else io_bind (IdentityByID identityID) (\<lambda>idn.
        io_bind (revokeLeasesOf idn operationID) (\<lambda>revoked.
        io_bind (trust_InvalidateForIdentity identityID ReasonIdentityScopeChanged cascadeLimit)
          (\<lambda>invalidated.
        io_bind io_now (\<lambda>at.
        io_bind (SetIdentityStatus identityID IdentityNeedsReview at) (\<lambda>updated.
          io_return \<lparr>irev_Identity = updated, irev_RevokedLeases = revoked,
            irev_InvalidatedMemories = invalidated\<rparr>))))))"

record session_revocation =
  srev_Agent :: agent
  srev_RevokedLeases :: "lease list"

definition revokeSessionLeasesOf :: "string \<Rightarrow> string \<Rightarrow> lease list io" where
  "revokeSessionLeasesOf agentID operationID =
     io_bind (lease_BoundToSessionOf agentID cascadeLimit) (\<lambda>bound.
       io_mapM (\<lambda>granted.
         io_bind (recordLeaseRevoked (lease_IdentityID granted) granted operationID
           ''agent_session_ended'') (\<lambda>_. lease_Revoke (lease_ID granted))) bound)"

definition DisconnectAgent :: "string \<Rightarrow> string \<Rightarrow> session_revocation io" where
  "DisconnectAgent agentID operationID =
     (if agentID = [] \<or> operationID = [] then io_fail CodeInvalidRequest
      else io_bind (agent_Disconnect agentID) (\<lambda>disconnected.
        io_bind (revokeSessionLeasesOf agentID operationID) (\<lambda>revoked.
          io_return \<lparr>srev_Agent = disconnected, srev_RevokedLeases = revoked\<rparr>)))"

end
