(* ===== verification/Sample_Run.thy ===== *)
theory Sample_Run
  imports Settlement
begin

text \<open>
  A concrete installation on which the pipeline's operations are evaluated: one agent in one
  workspace with one DNS identity, and a request to update a record.
\<close>

definition sample_request :: capability_request where
  "sample_request = \<lparr>request_ID = ''r1'', request_OperationID = ''op1'',
     request_AgentID = ''agent'', request_WorkspaceID = ''ws'', request_Service = ''dns'',
     request_Operation = ''update_record'', request_Resource = Parsed (JObj []),
     request_DesiredChange = NoText, request_Reason = [], request_Status = StatusReceived,
     request_ChangePreview = NoText, request_CreatedAt = 1, request_UpdatedAt = 1\<rparr>"

definition sample_workspace :: workspace where
  "sample_workspace = \<lparr>workspace_ID = ''ws'', workspace_Path = ''/w'',
     workspace_ProjectFingerprint = [], workspace_CreatedAt = 1, workspace_UpdatedAt = 1\<rparr>"

definition sample_db :: db where
  "sample_db = empty_db\<lparr>db_agents := [example_agent], db_workspaces := [sample_workspace],
     db_identities := [example_identity], db_requests := [sample_request]\<rparr>"

definition sample_facts :: operation_facts where
  "sample_facts = \<lparr>of_Destructive = False, of_PermissionChange = False, of_SecretAccess = False,
     of_Billing = False, of_ExternalCommunication = False, of_ResourceCount = 1\<rparr>"

definition sample_inputs :: pl_inputs where
  "sample_inputs = \<lparr>in_Request = sample_request, in_Call = example_call,
     in_Catalog = Some example_catalog, in_Identities = [example_identity],
     in_WorkspaceBindings = [], in_ResourceBindings = [], in_ManualSelection = [],
     in_AgentTrust = TrustTrusted, in_DeviceTrust = DeviceTrusted, in_Facts = sample_facts,
     in_ReadOnlyAutoAllow = True, in_NewService = False, in_IdentityChanged = False,
     in_NewIdentity = False, in_NewResource = False, in_Blockers = []\<rparr>"

definition sample_pipeline :: "mode \<Rightarrow> pipeline" where
  "sample_pipeline m = pipeline_New m example_resolver (10 * minute)"

text \<open>The request is asked about, the user lets it through and for the project from then on.\<close>

definition sample_settle :: settle_input where
  "sample_settle = \<lparr>sin_ApprovalID = replicate 13 CHR ''x'', sin_Action = ActionAutoAllowInProject,
     sin_StrongAuthCompleted = False, sin_Confirmations = 1\<rparr>"

definition sample_asked :: "pl_result result \<times> world" where
  "sample_asked = Handle (sample_pipeline ModeBalanced) sample_inputs (sample_world sample_db)"

definition sample_settled :: "settle_result result \<times> world" where
  "sample_settled = SettleApproval (sample_pipeline ModeBalanced) sample_settle (snd sample_asked)"

text \<open>The run is evaluated once.\<close>

lemma sample_run:
  "case sample_asked of (asked, w) \<Rightarrow>
     (case asked of Inr res \<Rightarrow> out_Verdict (res_Outcome res) = VerdictRequireApproval | _ \<Rightarrow> False)
     \<and> db_leases (w_db w) = []
     \<and> (case SettleApproval (sample_pipeline ModeBalanced) sample_settle w of (settled, w') \<Rightarrow>
          (case settled of Inr res \<Rightarrow> \<not> sres_Replayed res | _ \<Rightarrow> False)
          \<and> length (db_leases (w_db w')) = 1)"
  by code_simp

lemma sample_asked_run:
  obtains res w where "sample_asked = (Ok res, w)" "db_leases (w_db w) = []"
    "out_Verdict (res_Outcome res) = VerdictRequireApproval"
  using sample_run that by (cases sample_asked) (auto split: sum.splits)

lemma sample_settled_run:
  obtains res w where "sample_settled = (Ok res, w)" "\<not> sres_Replayed res" "length (db_leases (w_db w)) = 1"
    "db_leases (w_db (snd sample_asked)) = []"
proof -
  obtain a w where aw: "sample_asked = (a, w)" by (metis prod.exhaust)
  obtain b w' where bw: "SettleApproval (sample_pipeline ModeBalanced) sample_settle w = (b, w')"
    by (metis prod.exhaust)
  from bw have st: "sample_settled = (b, w')" unfolding sample_settled_def aw by simp
  from sample_run have "db_leases (w_db w) = []" "length (db_leases (w_db w')) = 1"
    and b: "case b of Inr res \<Rightarrow> \<not> sres_Replayed res | _ \<Rightarrow> False" unfolding aw by (simp_all add: bw)
  moreover have "db_leases (w_db (snd sample_asked)) = db_leases (w_db w)" unfolding aw by simp
  moreover obtain res where "b = Inr res" "\<not> sres_Replayed res" using b by (cases b) simp_all
  ultimately show thesis using that st by metis
qed

end
