(* ===== verification/Audited.thy ===== *)
theory Audited
  imports Sample_Run
begin

text \<open>
  The ledger comes first.  A computation is \<open>audited\<close> when, whatever fails, the ledger only
  grows, no lease disappears or widens, every new lease is covered by an entry that allows it,
  and there are at least as many new allowing entries as new leases.  Every operation of the
  pipeline is audited, so no sequence of them produces a lease the ledger does not explain.
\<close>

section \<open>The relation\<close>

definition allow_count :: "db \<Rightarrow> nat" where
  "allow_count d = length (filter (\<lambda>e. event_Type e \<in> {EventAutoAllowed, EventUserAllowed})
     (db_audit d))"

definition authorised_by :: "lease \<Rightarrow> audit_event \<Rightarrow> bool" where
  "authorised_by l e \<longleftrightarrow> event_Type e \<in> {EventAutoAllowed, EventUserAllowed}
     \<and> event_Service e = lease_Service l \<and> event_ApprovalID e = lease_ApprovalID l"

definition audited :: "db \<Rightarrow> db \<Rightarrow> bool" where
  "audited d d' \<longleftrightarrow> (\<exists>es. db_audit d' = db_audit d @ es)
     \<and> rows_evolve lease_evolves (db_leases d) (db_leases d')
     \<and> length (db_leases d') + allow_count d \<le> length (db_leases d) + allow_count d'
     \<and> (\<forall>i. length (db_leases d) \<le> i \<and> i < length (db_leases d') \<longrightarrow>
          (\<exists>e \<in> set (db_audit d'). authorised_by (db_leases d' ! i) e))"

lemma lease_evolves_service: "lease_evolves l l' \<Longrightarrow> lease_Service l' = lease_Service l"
  by (cases l; cases l'; simp add: lease_evolves_def)

lemma authorised_by_evolves: "authorised_by l e \<Longrightarrow> lease_evolves l l' \<Longrightarrow> authorised_by l' e"
  by (simp add: authorised_by_def lease_evolves_service lease_evolves_fields)

lemma audited_trans:
  assumes ab: "audited a b" and bc: "audited b c"
  shows "audited a c"
proof -
  have ev: "rows_evolve lease_evolves (db_leases b) (db_leases c)"
    and len: "length (db_leases a) \<le> length (db_leases b)" "length (db_leases b) \<le> length (db_leases c)"
    using ab bc by (auto simp: audited_def rows_evolve_def)
  have "\<exists>e \<in> set (db_audit c). authorised_by (db_leases c ! i) e"
    if i: "length (db_leases a) \<le> i" "i < length (db_leases c)" for i
  proof (cases "i < length (db_leases b)")
    case True
    with ab i obtain e where e: "e \<in> set (db_audit b)" "authorised_by (db_leases b ! i) e"
      by (auto simp: audited_def)
    moreover have "lease_evolves (db_leases b ! i) (db_leases c ! i)"
      using ev True by (simp add: rows_evolve_def)
    moreover have "e \<in> set (db_audit c)" using bc e(1) by (auto simp: audited_def)
    ultimately show ?thesis using authorised_by_evolves by blast
  next
    case False
    with bc i show ?thesis by (simp add: audited_def)
  qed
  moreover have "rows_evolve lease_evolves (db_leases a) (db_leases c)"
    using ab ev lease_rows.evolve_trans by (auto simp: audited_def)
  moreover have "\<exists>es. db_audit c = db_audit a @ es" using ab bc by (auto simp: audited_def)
  moreover have "length (db_leases c) + allow_count a \<le> length (db_leases a) + allow_count c"
    using ab bc by (auto simp: audited_def)
  ultimately show ?thesis by (simp add: audited_def)
qed

lemma audited_same_leases:
  "db_leases d' = db_leases d \<Longrightarrow> db_audit d' = db_audit d @ es \<Longrightarrow> audited d d'"
  by (auto simp: audited_def allow_count_def lease_rows.evolve_refl)

lemma audited_refl: "audited d d"
  by (rule audited_same_leases [of _ _ "[]"]) simp_all

interpretation audit_first: db_history audited
  using audited_refl audited_trans by unfold_locales blast+

section \<open>Steps that touch neither leases nor ledger\<close>

definition quiet :: "db \<Rightarrow> db \<Rightarrow> bool" where
  "quiet d d' \<longleftrightarrow> db_audit d' = db_audit d \<and> db_leases d' = db_leases d"

interpretation quiet: db_history quiet
  by unfold_locales (auto simp: quiet_def)

lemma quiet_audited: "quiet.keeps m \<Longrightarrow> audit_first.keeps m"
  unfolding quiet.keeps_def audit_first.keeps_def quiet_def
  using audited_same_leases [of _ _ "[]"] by simp

lemma quiet_writes:
  "quiet.keeps (CreateApproval a)" "quiet.keeps (SettleRow i act st at)" "quiet.keeps (CreateMemory m)"
  "quiet.keeps (io_write (update_memory stmt))" "quiet.keeps (io_write (deleteTrustMemory i))"
  "quiet.keeps (AdvanceRequest i fr to at)" "quiet.keeps (CreateDecision x)"
  "quiet.keeps (io_write (update_identity i g))" "quiet.keeps (io_write (update_agent i h))"
  unfolding CreateApproval_def SettleRow_def CreateMemory_def AdvanceRequest_def CreateDecision_def
  by (rule quiet.keeps_write, auto simp: quiet_def createApproval_def settle_row_def
      createTrustMemory_def update_memory_def deleteTrustMemory_def update_request_def
      createDecision_def update_identity_def update_agent_def not_found_update_def
      rbind_iffs sql_insert_Ok Let_def split: option.splits if_splits)+

lemma quiet_reads:
  "quiet.keeps (LeaseByID i)" "quiet.keeps (LeaseByApprovalID i)" "quiet.keeps (list_leases P n)"
  "quiet.keeps (ApprovalByID i)" "quiet.keeps (ApprovalByDecisionID i)"
  "quiet.keeps (list_approvals Q n)" "quiet.keeps (MemoryByID i)" "quiet.keeps (list_memories M n)"
  "quiet.keeps (DecisionByID i)" "quiet.keeps (RequestByID i)" "quiet.keeps (IdentityByID i)"
  by (auto simp: LeaseByID_def LeaseByApprovalID_def list_leases_def ApprovalByID_def
      ApprovalByDecisionID_def list_approvals_def MemoryByID_def list_memories_def
      DecisionByID_def RequestByID_def IdentityByID_def intro!: quiet.keeps_rules)

lemma quiet_managers:
  "quiet.keeps (approval_Open t i)" "quiet.keeps (approval_Settle req)"
  "quiet.keeps (approval_Expire n)" "quiet.keeps (approval_ByID i)"
  "quiet.keeps (trust_Generate g)" "quiet.keeps (trust_Match a ws s n)" "quiet.keeps (trust_ByID i)"
  "quiet.keeps (trust_Delete i)" "quiet.keeps (trust_InvalidateForIdentity i r n)"
  "quiet.keeps (lease_ByID i)" "quiet.keeps (lease_IssuedFor i)" "quiet.keeps (lease_IssuedTo i n)"
  "quiet.keeps (lease_BoundToSessionOf i n)" "quiet.keeps (lease_Active n)"
  "quiet.keeps (SetIdentityStatus i ist at)" "quiet.keeps (agent_Disconnect i)"
  "quiet.keeps (advance cr to)"
  by (auto simp: approval_Open_def approval_Settle_def replay_def approval_Expire_def
      approval_ByID_def PendingApprovalsDueBefore_def trust_Generate_def trust_Match_def
      MatchMemories_def trust_ByID_def trust_Delete_def DeleteMemory_def
      trust_InvalidateForIdentity_def ActiveMemoriesByIdentity_def invalidateEach_def
      InvalidateRow_def lease_ByID_def lease_IssuedFor_def lease_IssuedTo_def
      lease_BoundToSessionOf_def lease_Active_def ActiveLeasesByIdentity_def
      ActiveSessionBoundLeasesByAgent_def LeasesByStatus_def SetIdentityStatus_def
      agent_Disconnect_def SetAgentStatus_def advance_def
      intro!: quiet.keeps_rules quiet_writes quiet_reads)

lemma quiet_pipeline:
  "quiet.keeps (pl_resolve p inp)" "quiet.keeps (recordDecision inp out oc)"
  "quiet.keeps (check_window act rec)" "quiet.keeps (replayed res st)"
  "quiet.keeps (pl_learn rec g st)"
  by (auto simp: pl_resolve_def or_block_def learned_def standing_def recordDecision_def
      check_window_def replayed_def pl_learn_def Let_def
      intro!: quiet.keeps_rules quiet_writes quiet_managers)

lemmas quiet_steps = quiet_writes quiet_reads quiet_managers quiet_pipeline

section \<open>Steps that write the ledger or close leases\<close>

lemma audited_append: "audited d (d\<lparr>db_audit := db_audit d @ [e]\<rparr>)"
  by (rule audited_same_leases) simp_all

lemma Record_audited: "audit_first.keeps (Record e)"
  by (auto simp: Record_def prepare_def Append_def appendAuditEvent_Ok audited_append
      intro!: audit_first.keeps_rules audit_first.keeps_write)

text \<open>A statement that changes rows of the lease table in place.\<close>

lemma audited_lease_update:
  assumes "update_lease stmt c d = Ok (l, d')"
    and "\<And>r rows. stmt (db_leases d) = Ok (Some (r, rows)) \<Longrightarrow>
      rows_evolve lease_evolves (db_leases d) rows \<and> length rows = length (db_leases d)"
  shows "audited d d'"
  using assms by (auto simp: update_lease_Ok audited_def allow_count_def)

lemma Revoke_audited: "audit_first.keeps (lease_Revoke i)"
proof -
  have "rows_evolve lease_evolves rows rows' \<and> length rows' = length rows"
    if "closeLease i st at rows = Ok (Some (r, rows'))" for st at rows r rows'
    using closeLease_evolves [OF that] that
    by (auto simp: closeLease_def elim!: sql_update_Some)
  then show ?thesis
    by (auto simp: lease_Revoke_def Close_def intro!: audit_first.keeps_rules
        audit_first.keeps_write audited_lease_update)
qed

section \<open>An entry, then a lease\<close>

lemma IssueLease_db:
  "w_db (snd (IssueLease l w)) = w_db w
   \<or> w_db (snd (IssueLease l w)) = (w_db w)\<lparr>db_leases := db_leases (w_db w) @ [lease_row l]\<rparr>"
  by (auto simp: IssueLease_def io_bind_def io_lift_def io_write_def createLease_def sql_insert_def)

lemma lease_Issue_db:
  "w_db (snd (lease_Issue req w)) = w_db w
   \<or> (\<exists>l. w_db (snd (lease_Issue req w)) = (w_db w)\<lparr>db_leases := db_leases (w_db w) @ [l]\<rparr>
      \<and> lease_Service l = scope_Service (ir_Granted req) \<and> lease_ApprovalID l = ir_ApprovalID req)"
proof -
  let ?row = "\<lambda>i. \<lparr>lease_ID = i, lease_AgentID = scope_AgentID (ir_Granted req),
       lease_IdentityID = scope_IdentityID (ir_Granted req),
       lease_Service = scope_Service (ir_Granted req),
       lease_ResourceScope = fst (encodeGrant (ir_Granted req)),
       lease_Capabilities = snd (encodeGrant (ir_Granted req)),
       lease_ExpiresAt = scope_ExpiresAt (ir_Granted req),
       lease_RequestLimit = scope_RequestLimit (ir_Granted req), lease_UsedRequests = 0,
       lease_Status = LeaseActive, lease_ApprovalID = ir_ApprovalID req,
       lease_IsSessionBound = ir_IsSessionBound req,
       lease_SourceMemoryID = ir_SourceMemoryID req,
       lease_CreatedAt = w_clock w (w_tick w), lease_UpdatedAt = w_clock w (w_tick w)\<rparr>"
  show ?thesis
  proof (cases "scope_Validate (ir_Granted req) = Ok ()
      \<and> w_clock w (w_tick w) < scope_ExpiresAt (ir_Granted req) \<and> w_ids w (Suc (w_tick w)) \<noteq> None")
    case True
    then obtain i where "w_ids w (Suc (w_tick w)) = Some i" by blast
    with True have "lease_Issue req w = IssueLease (?row i) (tick (tick w))"
      by (simp add: lease_Issue_def io_bind_def io_lift_def io_now_def io_new_id_def)
    with IssueLease_db [of "?row i" "tick (tick w)"] show ?thesis
      by (auto simp: lease_row_def)
  next
    case False
    then have "w_db (snd (lease_Issue req w)) = w_db w"
      by (cases "scope_Validate (ir_Granted req)")
        (auto simp: lease_Issue_def io_bind_def io_lift_def io_now_def io_fail_def io_new_id_def)
    then show ?thesis ..
  qed
qed

lemma lease_after_entry:
  assumes ty: "event_Type e \<in> {EventAutoAllowed, EventUserAllowed}"
    and svc: "event_Service e = lease_Service l" and ap: "event_ApprovalID e = lease_ApprovalID l"
  shows "audited d (d\<lparr>db_audit := db_audit d @ [e], db_leases := db_leases d @ [l]\<rparr>)"
  using assms by (auto simp: audited_def allow_count_def authorised_by_def nth_append
      lease_rows.evolve_append)

lemma Record_then_Issue_audited:
  assumes "event_Type e \<in> {EventAutoAllowed, EventUserAllowed}"
    and "event_Service e = scope_Service (ir_Granted req)"
    and "event_ApprovalID e = ir_ApprovalID req"
  shows "audit_first.keeps (io_bind (Record e) (\<lambda>_. lease_Issue req))"
  unfolding audit_first.keeps_def
proof
  fix w
  obtain r w1 where R: "Record e w = (r, w1)" by (cases "Record e w")
  show "audited (w_db w) (w_db (snd (io_bind (Record e) (\<lambda>_. lease_Issue req) w)))"
  proof (cases r)
    case (Inl x)
    then show ?thesis using audit_first.keepsD [OF Record_audited R] R by (simp add: io_bind_def)
  next
    case (Inr e')
    then have "Record e w = (Ok e', w1)" using R by simp
    then obtain i res scp meta where e': "e' = appendParams (e\<lparr>event_ID := i,
         event_CreatedAt := w_clock w (Suc (w_tick w)),
         event_Resource := res, event_ResolvedScope := scp, event_Metadata := meta\<rparr>)"
      and w1: "w_db w1 = (w_db w)\<lparr>db_audit := db_audit (w_db w) @ [e']\<rparr>" by (rule Record_Ok)
    have same: "event_Type e' = event_Type e" "event_Service e' = event_Service e"
      "event_ApprovalID e' = event_ApprovalID e" using e' by (simp_all add: appendParams_def)
    have bind: "io_bind (Record e) (\<lambda>_. lease_Issue req) w = lease_Issue req w1"
      using R Inr by (simp add: io_bind_def)
    from lease_Issue_db [of req w1] show ?thesis
    proof
      assume "w_db (snd (lease_Issue req w1)) = w_db w1"
      then show ?thesis using bind w1 audited_append by simp
    next
      assume "\<exists>l. w_db (snd (lease_Issue req w1)) = (w_db w1)\<lparr>db_leases := db_leases (w_db w1) @ [l]\<rparr>
        \<and> lease_Service l = scope_Service (ir_Granted req) \<and> lease_ApprovalID l = ir_ApprovalID req"
      then show ?thesis using bind w1 same assms lease_after_entry [of e' _ "w_db w"] by force
    qed
  qed
qed

section \<open>The pipeline's operations\<close>

lemma pl_write_audited: "audit_first.keeps (pl_write inp out rec ty oc)"
  by (simp add: pl_write_def Record_audited)

lemma pl_issue_audited: "audit_first.keeps (pl_issue inp out rec oc)"
proof (cases "out_MatchedLeaseID oc = []")
  case True
  then show ?thesis unfolding pl_issue_def pl_write_def issueLease_def
    by (simp, intro Record_then_Issue_audited) (simp_all add: empty_event_def)
next
  case False
  then show ?thesis
    by (auto simp: pl_issue_def intro!: audit_first.keeps_rules pl_write_audited
        quiet_steps [THEN quiet_audited])
qed

lemma pl_grant_audited: "audit_first.keeps (pl_grant req rec granted st)"
  unfolding pl_grant_def recordSettlement_def issueLease_def
  by (rule Record_then_Issue_audited) (simp_all add: empty_event_def)

lemmas audited_steps = Record_audited Revoke_audited pl_write_audited pl_issue_audited
  pl_grant_audited quiet_steps [THEN quiet_audited]

lemma pl_conclude_audited: "audit_first.keeps (pl_conclude p inp out oc)"
  by (cases "out_Verdict oc")
    (auto simp: pl_conclude_def intro!: audit_first.keeps_rules audited_steps)

lemma Handle_audited: "audit_first.keeps (Handle p inp)"
  by (auto simp: Handle_def pl_failClosed_def
      intro!: audit_first.keeps_rules audited_steps pl_conclude_audited)

lemma SettleApproval_audited: "audit_first.keeps (SettleApproval p sin)"
  by (auto simp: SettleApproval_def applySettlement_def recordSettlement_def Let_def
      intro!: audit_first.keeps_rules audited_steps)

lemma ExpireApprovals_audited: "audit_first.keeps (ExpireApprovals n)"
  by (auto simp: ExpireApprovals_def expire_one_def recordSettlement_def
      intro!: audit_first.keeps_rules audited_steps)

lemma Records_audited:
  "audit_first.keeps (RecordSecretRequestBlocked b)" "audit_first.keeps (RecordStrongAuthLocked i n)"
  "audit_first.keeps (RecordAgentTrusted a i)" "audit_first.keeps (ClearTrustMemory m i)"
  by (auto simp: RecordSecretRequestBlocked_def RecordStrongAuthLocked_def RecordAgentTrusted_def
      ClearTrustMemory_def intro!: audit_first.keeps_rules audited_steps)

lemma Disconnects_audited:
  "audit_first.keeps (DisconnectIdentity i oid)" "audit_first.keeps (DisconnectAgent a oid)"
  by (auto simp: DisconnectIdentity_def DisconnectAgent_def revokeLeasesOf_def
      revokeSessionLeasesOf_def recordLeaseRevoked_def
      intro!: audit_first.keeps_rules audited_steps)

section \<open>No lease without an entry\<close>

datatype pipeline_op = PHandle pl_inputs | PSettle settle_input | PExpire int
  | PClear string string | PSecretBlocked blocked_request | PAuthLocked string int
  | PAgentTrusted string string | PDisconnectIdentity string string
  | PDisconnectAgent string string

text \<open>One operation of the pipeline; its own result is dropped, the world it leaves is kept.\<close>

fun run_op :: "pipeline \<Rightarrow> pipeline_op \<Rightarrow> world \<Rightarrow> world" where
  "run_op p (PHandle inp) w = snd (Handle p inp w)"
| "run_op p (PSettle sin) w = snd (SettleApproval p sin w)"
| "run_op p (PExpire n) w = snd (ExpireApprovals n w)"
| "run_op p (PClear m i) w = snd (ClearTrustMemory m i w)"
| "run_op p (PSecretBlocked b) w = snd (RecordSecretRequestBlocked b w)"
| "run_op p (PAuthLocked i n) w = snd (RecordStrongAuthLocked i n w)"
| "run_op p (PAgentTrusted a i) w = snd (RecordAgentTrusted a i w)"
| "run_op p (PDisconnectIdentity i oid) w = snd (DisconnectIdentity i oid w)"
| "run_op p (PDisconnectAgent a oid) w = snd (DisconnectAgent a oid w)"

lemma run_op_audited: "audited (w_db w) (w_db (run_op p op w))"
  using Handle_audited SettleApproval_audited ExpireApprovals_audited Records_audited
    Disconnects_audited
  by (cases op) (simp_all add: audit_first.keeps_def)

lemma run_ops_audited: "audited (w_db w) (w_db (fold (run_op p) ops w))"
proof (induction ops arbitrary: w)
  case (Cons op ops)
  then show ?case using audited_trans [OF run_op_audited] by (metis fold_simps(2))
qed (simp add: audited_refl)

text \<open>C1: No lease without an audit entry.  Run any sequence of pipeline operations -- requests,
  settlements, timeouts, disconnects -- on any database, with any statement failing at any point:
  the ledger only grew, every lease that is there afterwards either was there before with at least
  its authority, or is covered by a ledger entry of an allowing type for the same service and the
  same approval, and no more leases were created than allowing entries were written.\<close>

theorem no_lease_without_audit:
  "(\<exists>es. db_audit (w_db (fold (run_op p) ops w)) = db_audit (w_db w) @ es)
   \<and> (\<forall>l \<in> set (db_leases (w_db (fold (run_op p) ops w))).
       (\<exists>l0 \<in> set (db_leases (w_db w)). lease_evolves l0 l)
     \<or> (\<exists>e \<in> set (db_audit (w_db (fold (run_op p) ops w))). authorised_by l e))
   \<and> length (db_leases (w_db (fold (run_op p) ops w))) + allow_count (w_db w)
       \<le> length (db_leases (w_db w)) + allow_count (w_db (fold (run_op p) ops w))"
proof -
  let ?d = "w_db w" and ?d' = "w_db (fold (run_op p) ops w)"
  have a: "audited ?d ?d'" by (rule run_ops_audited)
  have "(\<exists>l0 \<in> set (db_leases ?d). lease_evolves l0 l) \<or> (\<exists>e \<in> set (db_audit ?d'). authorised_by l e)"
    if l: "l \<in> set (db_leases ?d')" for l
  proof -
    from l obtain i where i: "i < length (db_leases ?d')" "l = db_leases ?d' ! i"
      by (metis in_set_conv_nth)
    show ?thesis
    proof (cases "i < length (db_leases ?d)")
      case True
      then have "lease_evolves (db_leases ?d ! i) l"
        using a i by (simp add: audited_def rows_evolve_def)
      with True show ?thesis by force
    next
      case False
      with a i show ?thesis by (simp add: audited_def)
    qed
  qed
  with a show ?thesis by (simp add: audited_def)
qed

theorem no_lease_without_audit_witness:
  "let d = w_db (fold (run_op (sample_pipeline ModeBalanced))
        [PHandle sample_inputs, PSettle sample_settle] (sample_world sample_db)) in
   length (db_leases d) = 1 \<and> (\<forall>l \<in> set (db_leases d). \<exists>e \<in> set (db_audit d). authorised_by l e)"
proof -
  let ?ops = "[PHandle sample_inputs, PSettle sample_settle]" and ?p = "sample_pipeline ModeBalanced"
  have "fold (run_op ?p) ?ops (sample_world sample_db) = snd sample_settled"
    by (simp add: sample_settled_def sample_asked_def)
  moreover obtain res w where s: "sample_settled = (Ok res, w)" and "length (db_leases (w_db w)) = 1"
    by (rule sample_settled_run)
  ultimately have "length (db_leases (w_db (fold (run_op ?p) ?ops (sample_world sample_db)))) = 1"
    unfolding s by simp
  moreover have "db_leases (w_db (sample_world sample_db)) = []"
    by (simp add: sample_world_def sample_db_def empty_db_def)
  ultimately show ?thesis
    using no_lease_without_audit [of ?p ?ops "sample_world sample_db"] by (simp only: Let_def) simp
qed

end
