(* ===== verification/Handling.thy ===== *)
theory Handling
  imports Audited
begin

text \<open>
  What one call of the pipeline answers.  The lemmas show that \<open>Handle\<close> never lets a panic
  through, that an answered request leaves exactly one ledger entry with the verdict it was given,
  that a lease comes with the verdict auto-allow only and an approval with the verdict
  require-approval only, and that disconnecting an identity leaves no lease of it active.
\<close>

section \<open>Computations that do not panic\<close>

definition sane :: "'a result \<Rightarrow> bool" where
  "sane r \<longleftrightarrow> r \<noteq> Inl Panic"

definition calm :: "'a io \<Rightarrow> bool" where
  "calm m \<longleftrightarrow> (\<forall>w. sane (fst (m w)))"

lemma sane_simps [simp]: "sane (Inr a)" "sane (Inl (Fail c))" "\<not> sane (Inl Panic)"
  by (simp_all add: sane_def)

lemma sane_rbind: "sane r \<Longrightarrow> (\<And>a. sane (f a)) \<Longrightarrow> sane (rbind r f)"
  by (cases r) (simp_all add: sane_def)

lemma sane_statements:
  "sane (sql_insert a b c r rows)" "sane (sql_update check sel upd rows)" "sane (found x)"
  "sane (decodeCount n)" "sane (scope_Validate s)" "sane (redactJSONObject t)"
  by (simp_all add: sql_insert_def sql_update_def found_def decodeCount_def scope_Validate_def
      redactJSONObject_def split: option.split jtext.split json.split)

lemma sane_split:
  "(\<And>x. sane (f x)) \<Longrightarrow> sane r \<Longrightarrow> sane (case v of None \<Rightarrow> r | Some x \<Rightarrow> f x)"
  "(\<And>x y. sane (g x y)) \<Longrightarrow> sane (case pr of (x, y) \<Rightarrow> g x y)"
  "sane a \<Longrightarrow> sane b \<Longrightarrow> sane (if c then a else b)"
  by (simp_all split: option.split prod.split)

lemmas sane_rules = sane_simps(1,2) sane_rbind sane_statements sane_split

lemma sane_metadata: "sane (redactMetadata t)"
proof -
  have "sane (flatMetadataValue v)" for v by (simp add: flatMetadataValue_def Let_def split: json.split)
  then have "sane (metadata_loop m)" for m
    by (induction m rule: metadata_loop.induct) (auto intro!: sane_rules)
  then show ?thesis
    by (auto simp: redactMetadata_def split: jtext.split json.split intro!: sane_rules)
qed

lemma calm_bind:
  assumes "calm m" and "\<And>a. calm (f a)"
  shows "calm (io_bind m f)"
  unfolding calm_def
proof
  fix w
  show "sane (fst (io_bind m f w))"
    using assms by (cases "m w"; cases "fst (m w)")
      (auto simp: calm_def io_bind_def sane_def dest: spec [of _ w])
qed

lemma calm_pure: "calm (io_return a)" "calm (io_fail c)" "calm io_now" "calm io_new_id"
  by (simp_all add: calm_def io_return_def io_fail_def io_now_def io_new_id_def split: option.split)

lemma calm_lift: "sane r \<Longrightarrow> calm (io_lift r)"
  by (simp add: calm_def io_lift_def)

lemma calm_read: "(\<And>d. sane (f d)) \<Longrightarrow> calm (io_read f)"
  by (simp add: calm_def io_read_def)

lemma calm_write:
  assumes "\<And>d. sane (f d)"
  shows "calm (io_write f)"
  unfolding calm_def io_write_def
proof
  fix w
  show "sane (fst (if w_fault w (w_tick w) then (Err CodeInternal, tick w)
     else (case f (w_db w) of Inl e \<Rightarrow> (Inl e, tick w)
       | Inr (a, d) \<Rightarrow> (Ok a, tick (w\<lparr>w_db := d\<rparr>)))))"
    using assms [of "w_db w"] by (auto split: sum.split simp: sane_def)
qed

lemma calm_try:
  assumes "calm m"
  shows "calm (io_try m)"
  unfolding calm_def
proof
  fix w
  show "sane (fst (io_try m w))"
    using assms by (cases "m w"; cases "fst (m w)")
      (auto simp: calm_def io_try_def sane_def split: go_error.split dest: spec [of _ w])
qed

lemma calm_recover:
  assumes "calm h"
  shows "calm (io_recover m h)"
  unfolding calm_def
proof
  fix w
  show "sane (fst (io_recover m h w))"
    using assms by (cases "m w"; cases "fst (m w)")
      (auto simp: calm_def io_recover_def split: go_error.split)
qed

lemma calm_split:
  "calm a \<Longrightarrow> calm b \<Longrightarrow> calm (if c then a else b)"
  "(\<And>x. calm (f x)) \<Longrightarrow> (\<And>y. calm (g y)) \<Longrightarrow> calm (case v of Inl x \<Rightarrow> f x | Inr y \<Rightarrow> g y)"
  "(\<And>x y. calm (k x y)) \<Longrightarrow> calm (case pr of (x, y) \<Rightarrow> k x y)"
  by (simp_all split: sum.split prod.split)

lemmas calm_rules = calm_bind calm_pure calm_lift calm_read calm_write calm_recover calm_try
  calm_split sane_rules

lemma Record_calm: "calm (Record e)"
  by (auto simp: Record_def prepare_def Append_def appendAuditEvent_def toEvent_def
      intro!: calm_rules sane_metadata)

lemma conclude_steps_calm:
  "calm (advance r to)" "calm (recordDecision inp out oc)" "calm (approval_Open t i)"
  "calm (lease_ByID i)" "calm (lease_Issue req)" "calm (pl_write inp out rec ty eo)"
  by (auto simp: advance_def AdvanceRequest_def update_request_def updateCapabilityRequestStatus_def
      recordDecision_def CreateDecision_def createDecision_def Let_def
      approval_Open_def CreateApproval_def createApproval_def ApprovalByDecisionID_def
      lease_ByID_def LeaseByID_def toLease_def lease_Issue_def IssueLease_def createLease_def
      pl_write_def intro!: calm_rules Record_calm)

lemma pl_failClosed_calm: "calm (pl_failClosed inp b)"
  by (auto simp: pl_failClosed_def intro!: calm_rules Record_calm conclude_steps_calm)

lemma pl_conclude_calm: "calm (pl_conclude p inp out oc)"
  by (cases "out_Verdict oc")
    (auto simp: pl_conclude_def pl_issue_def issueLease_def
      intro!: calm_rules conclude_steps_calm)

section \<open>What an answer has written\<close>

text \<open>Resolving only reads.\<close>

interpretation reading: db_history "\<lambda>d d'. d' = d"
  by unfold_locales simp_all

lemma pl_resolve_reads: "reading.keeps (pl_resolve p inp)"
  by (auto simp: pl_resolve_def or_block_def learned_def standing_def trust_Match_def
      MatchMemories_def list_memories_def lease_Active_def LeasesByStatus_def list_leases_def Let_def
      intro!: reading.keeps_rules)

lemma io_recover_Ok:
  "io_recover m h w = (Inr a, w') \<longleftrightarrow>
     m w = (Inr a, w') \<or> (\<exists>w1. m w = (Inl Panic, w1) \<and> h w1 = (Inr a, w'))"
  by (cases "m w"; cases "fst (m w)") (auto simp: io_recover_def split: go_error.splits)

lemma io_bind_Panic:
  "io_bind m f w = (Inl Panic, w') \<longleftrightarrow>
     m w = (Inl Panic, w') \<or> (\<exists>a w1. m w = (Inr a, w1) \<and> f a w1 = (Inl Panic, w'))"
  by (cases "m w"; cases "fst (m w)") (auto simp: io_bind_def)

lemma calm_not_Panic: "calm m \<Longrightarrow> m w \<noteq> (Inl Panic, w')"
  by (metis calm_def fst_conv sane_def)

lemma Handle_Ok:
  assumes "Handle p inp w = (Ok res, w')"
  obtains b w1 where "w_db w1 = w_db w" "pl_failClosed inp b w1 = (Ok res, w')"
  | out w1 where "pl_resolve p inp w = (Ok (Inr out), w1)" "w_db w1 = w_db w"
      "pl_conclude p inp out (decide (rs_Input out)) w1 = (Ok res, w')"
proof -
  let ?body = "io_bind (pl_resolve p inp) (\<lambda>r. case r of Inl b \<Rightarrow> pl_failClosed inp b
          | Inr out \<Rightarrow> pl_conclude p inp out (decide (rs_Input out)))"
  have db: "w_db w1 = w_db w" if "pl_resolve p inp w = (r, w1)" for r w1
    using reading.keepsD [OF pl_resolve_reads that] by simp
  from assms consider "?body w = (Ok res, w')"
    | w1 where "?body w = (Inl Panic, w1)" "pl_failClosed inp BlockerPolicyEngineFailure w1 = (Ok res, w')"
    unfolding Handle_def io_recover_Ok by (auto simp: io_fail_def split: if_splits)
  then show thesis
  proof cases
    case 1
    then obtain r w1 where r: "pl_resolve p inp w = (Ok r, w1)"
      and k: "(case r of Inl b \<Rightarrow> pl_failClosed inp b
          | Inr out \<Rightarrow> pl_conclude p inp out (decide (rs_Input out))) w1 = (Ok res, w')"
      by (rule io_bind_Ok)
    with db [OF r] that show thesis by (cases r) auto
  next
    case 2
    have "calm (case r of Inl b \<Rightarrow> pl_failClosed inp b
          | Inr out \<Rightarrow> pl_conclude p inp out (decide (rs_Input out)))" for r
      by (intro calm_rules pl_failClosed_calm pl_conclude_calm)
    with 2(1) have "pl_resolve p inp w = (Inl Panic, w1)"
      using calm_not_Panic unfolding io_bind_Panic by blast
    with db 2(2) that(1) show thesis by blast
  qed
qed

lemma Handle_calm: "calm (Handle p inp)"
  unfolding Handle_def by (intro calm_recover pl_failClosed_calm)

text \<open>The entry a step of the pipeline appends.\<close>

lemma Record_entry:
  assumes "Record e w = (Ok e', w')"
  shows "w_db w' = (w_db w)\<lparr>db_audit := db_audit (w_db w) @ [e']\<rparr>"
    and "event_Type e' = event_Type e" and "event_OperationID e' = event_OperationID e"
    and "event_Verdict e' = event_Verdict e" and "event_Service e' = event_Service e"
    and "event_ApprovalID e' = event_ApprovalID e" and "event_Outcome e' = event_Outcome e"
  using assms by (rule Record_Ok; simp add: appendParams_def)+

lemma advance_Ok:
  assumes "advance r to w = (Ok r', w')"
  shows "w_db w' = (w_db w)\<lparr>db_requests := db_requests (w_db w')\<rparr>"
    and "request_Status r' = to" and "request_ID r' = request_ID r"
    and "r' \<in> set (db_requests (w_db w'))"
proof -
  from assms obtain at rows where u: "updateCapabilityRequestStatus (request_ID r) (request_Status r)
      to at (db_requests (w_db w)) = Ok (Some (r', rows))"
    and db: "w_db w' = (w_db w)\<lparr>db_requests := rows\<rparr>"
    by (auto simp: advance_def AdvanceRequest_def update_request_def io_Ok_iffs rbind_iffs
        split: option.splits)
  from u obtain x where "request_ID x = request_ID r" "r' = x\<lparr>request_Status := to, request_UpdatedAt := at\<rparr>"
    "r' \<in> set rows"
    unfolding updateCapabilityRequestStatus_def by (elim sql_update_row) blast
  with db show "w_db w' = (w_db w)\<lparr>db_requests := db_requests (w_db w')\<rparr>"
    "request_Status r' = to" "request_ID r' = request_ID r" "r' \<in> set (db_requests (w_db w'))"
    by simp_all
qed

lemma or_block_Ok: "or_block b m f w = (Inr (Inr x), w') \<longleftrightarrow>
    (\<exists>a w1. m w = (Inr a, w1) \<and> f a w1 = (Inr (Inr x), w'))"
  by (cases "m w"; cases "fst (m w)")
    (auto simp: or_block_def io_bind_def io_try_def io_return_def split: go_error.splits)

lemma recordDecision_Ok:
  assumes "recordDecision inp out oc w = (Ok rec, w')"
  shows "w_db w' = (w_db w)\<lparr>db_decisions := db_decisions (w_db w) @ [rec]\<rparr>"
    and "decision_Verdict rec = out_Verdict oc"
    and "decision_IdentityID rec = identity_ID (match_Identity (rs_Match out))"
    and "decision_CapabilityRequestID rec = request_ID (in_Request inp)"
  using assms by (auto simp: recordDecision_def CreateDecision_def createDecision_def Let_def
      io_Ok_iffs io_new_id_Ok rbind_iffs sql_insert_Ok)

lemma approval_Open_Ok:
  assumes "approval_Open t i w = (Ok a, w')"
  shows "w_db w' = (w_db w)\<lparr>db_approvals := db_approvals (w_db w')\<rparr>"
    and "a \<in> set (db_approvals (w_db w'))" and "approval_DecisionID a = i"
proof -
  have fail: "w_db v' = w_db v" if "ApprovalByDecisionID i v = (r, v')" for v r v'
    using that io_read_db unfolding ApprovalByDecisionID_def by (metis snd_conv)
  from assms obtain r w1 where r: "io_try (ApprovalByDecisionID i) w = (Ok r, w1)"
    and k: "(case r of Inr a \<Rightarrow> io_return a | Inl c \<Rightarrow> if c \<noteq> CodeNotFound then io_fail c
            else io_bind io_new_id (\<lambda>ia. io_bind io_now (\<lambda>now.
              CreateApproval
               \<lparr>approval_ID = ia, approval_DecisionID = i, approval_Action = ActionOther [],
                approval_Status = ApprovalPending, approval_ExpiresAt = now + t,
                approval_DecidedAt = 0, approval_CreatedAt = now, approval_UpdatedAt = now\<rparr>))) w1
        = (Ok a, w')"
    unfolding approval_Open_def by (auto simp: io_fail_Ok io_bind_Ok_iff split: if_splits)
  have db: "w_db w1 = w_db w" using r fail unfolding io_try_Ok by blast
  show "w_db w' = (w_db w)\<lparr>db_approvals := db_approvals (w_db w')\<rparr>"
    using k db by (cases r) (auto simp: io_Ok_iffs io_new_id_Ok CreateApproval_def createApproval_def
        rbind_iffs sql_insert_Ok split: if_splits)
  show "a \<in> set (db_approvals (w_db w'))" "approval_DecisionID a = i"
    using k db r unfolding io_try_Ok
    by (auto simp: io_Ok_iffs io_new_id_Ok CreateApproval_def createApproval_def approval_row_def
        ApprovalByDecisionID_def rbind_iffs sql_insert_Ok dest!: found_row_by_Ok split: if_splits)
qed

lemma lease_Issue_Ok:
  assumes "lease_Issue req w = (Ok l, w')"
  shows "w_db w' = (w_db w)\<lparr>db_leases := db_leases (w_db w) @ [l]\<rparr>"
  using assms by (auto simp: lease_Issue_def IssueLease_def createLease_def io_Ok_iffs io_new_id_Ok
      rbind_iffs sql_insert_Ok split: if_splits)

lemma pl_issue_Ok:
  assumes "pl_issue inp out rec oc w = (Ok l, w')"
  obtains e where "event_Type e = EventAutoAllowed" 
    "event_OperationID e = request_OperationID (in_Request inp)"
    "event_Verdict e = decision_Verdict rec"
    "db_audit (w_db w') = db_audit (w_db w) @ [e]"
    "l \<in> set (db_leases (w_db w'))"
    "if out_MatchedLeaseID oc \<noteq> [] then db_leases (w_db w') = db_leases (w_db w)
     else db_leases (w_db w') = db_leases (w_db w) @ [l]"
    "db_approvals (w_db w') = db_approvals (w_db w)"
proof -
  from assms obtain e w1 where e: "pl_write inp out rec EventAutoAllowed OutcomeSucceeded w = (Ok e, w1)"
    and k: "(if out_MatchedLeaseID oc \<noteq> [] then lease_ByID (out_MatchedLeaseID oc)
       else issueLease \<lparr>ir_Granted = sr_Scope (rs_Scope out), ir_ApprovalID = [],
         ir_SourceMemoryID = decision_TrustMemoryID rec, ir_IsSessionBound = False\<rparr>) w1 = (Ok l, w')"
    unfolding pl_issue_def by (rule io_bind_Ok)
  note E = Record_entry [OF e [unfolded pl_write_def]]
  show thesis
  proof (cases "out_MatchedLeaseID oc = []")
    case True
    with k have "lease_Issue \<lparr>ir_Granted = sr_Scope (rs_Scope out), ir_ApprovalID = [],
         ir_SourceMemoryID = decision_TrustMemoryID rec, ir_IsSessionBound = False\<rparr> w1 = (Ok l, w')"
      by (simp add: issueLease_def)
    from lease_Issue_Ok [OF this] E True show thesis by (intro that [of e]) simp_all
  next
    case False
    with k have "LeaseByID (out_MatchedLeaseID oc) w1 = (Ok l, w')" by (simp add: lease_ByID_def)
    from LeaseByID_Ok [OF this] E False show thesis by (intro that [of e]) simp_all
  qed
qed

text \<open>The shape of an answer, by verdict: what it carries, what the ledger entry says, and which
  tables it has changed.\<close>

definition answered :: "verdict \<Rightarrow> pl_result \<Rightarrow> audit_event \<Rightarrow> db \<Rightarrow> db \<Rightarrow> bool" where
  "answered v res e d d' \<longleftrightarrow> (case v of
      VerdictDeny \<Rightarrow> event_Type e \<in> {EventDenied, EventError} \<and> res_Lease res = None
        \<and> res_Approval res = None \<and> request_Status (res_Request res) = StatusDenied
        \<and> db_leases d' = db_leases d \<and> db_approvals d' = db_approvals d
    | VerdictRequireApproval \<Rightarrow> event_Type e = EventDenied \<and> res_Lease res = None
        \<and> request_Status (res_Request res) = StatusAwaitingApproval \<and> db_leases d' = db_leases d
        \<and> (\<exists>a rec. res_Approval res = Some a \<and> a \<in> set (db_approvals d')
             \<and> res_Decision res = Some rec \<and> approval_DecisionID a = decision_ID rec)
    | VerdictAutoAllow \<Rightarrow> event_Type e = EventAutoAllowed \<and> res_Approval res = None
        \<and> request_Status (res_Request res) = StatusAutoAllowed \<and> db_approvals d' = db_approvals d
        \<and> (\<exists>l. res_Lease res = Some l \<and> l \<in> set (db_leases d')
             \<and> db_leases d' \<in> {db_leases d, db_leases d @ [l]})
    | VerdictOther _ \<Rightarrow> False)"

lemma failClosed_answered:
  assumes "pl_failClosed inp b w = (Ok res, w')"
  obtains e where "db_audit (w_db w') = db_audit (w_db w) @ [e]"
    "event_OperationID e = request_OperationID (in_Request inp)"
    "event_Verdict e = out_Verdict (res_Outcome res)"
    "answered (out_Verdict (res_Outcome res)) res e (w_db w) (w_db w')"
    "res_Request res \<in> set (db_requests (w_db w'))"
    "out_Reason (res_Outcome res) = ReasonFailClosed" "res_Decision res = None"
proof -
  let ?e = "empty_event\<lparr>event_OperationID := request_OperationID (in_Request inp),
       event_Type := EventError, event_AgentID := request_AgentID (in_Request inp),
       event_WorkspaceID := request_WorkspaceID (in_Request inp),
       event_Service := request_Service (in_Request inp),
       event_Operation := request_Operation (in_Request inp),
       event_Resource := resourceOf (in_Request inp), event_ResolvedScope := Parsed (JObj []),
       event_Verdict := VerdictDeny, event_Outcome := OutcomeBlocked,
       event_Metadata := metadata1 ''blocker'' (blocker_text b)\<rparr>"
  from assms obtain e w1 req where e: "Record ?e w = (Ok e, w1)"
    and a: "advance (in_Request inp) StatusDenied w1 = (Ok req, w')"
    and res: "res_Request res = req" "res_Lease res = None" "res_Approval res = None"
      "out_Verdict (res_Outcome res) = VerdictDeny" "out_Reason (res_Outcome res) = ReasonFailClosed"
      "res_Decision res = None"
    unfolding pl_failClosed_def by (auto simp: io_bind_Ok_iff io_return_Ok)
  note E = Record_entry [OF e] and A = advance_Ok [OF a]
  have db: "db_audit (w_db w') = db_audit (w_db w1)" "db_leases (w_db w') = db_leases (w_db w1)"
    "db_approvals (w_db w') = db_approvals (w_db w1)" by (subst A(1), simp)+
  show thesis
    by (rule that [of e]) (use E A(2,4) db res in \<open>simp_all add: answered_def\<close>)
qed

lemma conclude_answered:
  assumes c: "pl_conclude p inp out oc w = (Ok res, w')"
    and v: "out_Verdict oc \<in> {VerdictDeny, VerdictRequireApproval, VerdictAutoAllow}"
  obtains e where "db_audit (w_db w') = db_audit (w_db w) @ [e]"
    "event_OperationID e = request_OperationID (in_Request inp)"
    "event_Verdict e = out_Verdict oc" "res_Outcome res = oc"
    "answered (out_Verdict oc) res e (w_db w) (w_db w')"
    "res_Request res \<in> set (db_requests (w_db w'))"
proof -
  let ?branch = "\<lambda>rec. case out_Verdict oc of
          VerdictDeny \<Rightarrow>
            io_bind (pl_write inp out rec EventDenied OutcomeBlocked) (\<lambda>_.
              io_return (None, None, StatusDenied))
        | VerdictRequireApproval \<Rightarrow>
            io_bind (pl_write inp out rec EventDenied OutcomeBlocked) (\<lambda>_.
            io_bind (approval_Open (pl_ApprovalTimeout p) (decision_ID rec)) (\<lambda>item.
              io_return (Some item, None, StatusAwaitingApproval)))
        | _ \<Rightarrow>
            io_bind (pl_issue inp out rec oc) (\<lambda>issued.
              io_return (None, Some issued, StatusAutoAllowed))"
  from c obtain rec w1 item issued to w2 req where
    r: "recordDecision inp out oc w = (Ok rec, w1)"
    and b: "?branch rec w1 = (Ok (item, issued, to), w2)"
    and a: "advance (in_Request inp) to w2 = (Ok req, w')"
    and res: "res_Request res = req" "res_Decision res = Some rec" "res_Outcome res = oc"
      "res_Approval res = item" "res_Lease res = issued"
    unfolding pl_conclude_def by (auto simp: io_bind_Ok_iff io_return_Ok)
  note R = recordDecision_Ok [OF r] and A = advance_Ok [OF a]
  have w': "db_audit (w_db w') = db_audit (w_db w2)" "db_leases (w_db w') = db_leases (w_db w2)"
    "db_approvals (w_db w') = db_approvals (w_db w2)" by (subst A(1), simp)+
  consider "out_Verdict oc = VerdictDeny" | "out_Verdict oc = VerdictRequireApproval"
    | "out_Verdict oc = VerdictAutoAllow" using v by auto
  then show thesis
  proof cases
    case 1
    with b obtain e where e: "pl_write inp out rec EventDenied OutcomeBlocked w1 = (Ok e, w2)"
      and "item = None" "issued = None" "to = StatusDenied"
      by (auto simp: io_bind_Ok_iff io_return_Ok)
    with Record_entry [OF e [unfolded pl_write_def]] R A(2,4) res w' 1 show thesis
      by (intro that [of e]) (simp_all add: answered_def)
  next
    case 2
    with b obtain e w3 x where e: "pl_write inp out rec EventDenied OutcomeBlocked w1 = (Ok e, w3)"
      and o: "approval_Open (pl_ApprovalTimeout p) (decision_ID rec) w3 = (Ok x, w2)"
      and "item = Some x" "issued = None" "to = StatusAwaitingApproval"
      by (auto simp: io_bind_Ok_iff io_return_Ok)
    note O = approval_Open_Ok [OF o]
    have "db_audit (w_db w2) = db_audit (w_db w3)" "db_leases (w_db w2) = db_leases (w_db w3)"
      by (subst O(1), simp)+
    with Record_entry [OF e [unfolded pl_write_def]] R A(2,4) O(2,3) res w' 2
      \<open>item = Some x\<close> \<open>issued = None\<close> \<open>to = StatusAwaitingApproval\<close> show thesis
      by (intro that [of e]) (simp_all add: answered_def)
  next
    case 3
    with b obtain l where l: "pl_issue inp out rec oc w1 = (Ok l, w2)"
      and "item = None" "issued = Some l" "to = StatusAutoAllowed"
      by (auto simp: io_bind_Ok_iff io_return_Ok)
    from l obtain e where "event_Type e = EventAutoAllowed" 
      "event_OperationID e = request_OperationID (in_Request inp)"
      "event_Verdict e = decision_Verdict rec"
      "db_audit (w_db w2) = db_audit (w_db w1) @ [e]" "l \<in> set (db_leases (w_db w2))"
      "if out_MatchedLeaseID oc \<noteq> [] then db_leases (w_db w2) = db_leases (w_db w1)
       else db_leases (w_db w2) = db_leases (w_db w1) @ [l]"
      "db_approvals (w_db w2) = db_approvals (w_db w1)" by (rule pl_issue_Ok)
    with R A(2,4) res w' 3 \<open>item = None\<close> \<open>issued = Some l\<close> \<open>to = StatusAutoAllowed\<close> show thesis
      by (intro that [of e]) (simp_all add: answered_def split: if_splits)
  qed
qed

lemma decide_verdicts: "out_Verdict (decide i) \<in> {VerdictDeny, VerdictRequireApproval, VerdictAutoAllow}"
proof (cases "open_request i")
  case True
  then obtain r where r: "modeRules (di_Mode i) = Some r"
    and d: "run_branches branches i (automatable i) = Ok (decide i)" by (rule decide_open)
  from d [unfolded run_branches_eq [OF r]] show ?thesis by (auto split: if_split_asm dest: sym)
next
  case False
  then show ?thesis using decide_not_open [of i] by simp
qed

lemma Handle_answered:
  assumes "Handle p inp w = (Ok res, w')"
  shows "\<exists>e. db_audit (w_db w') = db_audit (w_db w) @ [e]
        \<and> event_OperationID e = request_OperationID (in_Request inp)
        \<and> event_Verdict e = out_Verdict (res_Outcome res)
        \<and> answered (out_Verdict (res_Outcome res)) res e (w_db w) (w_db w')
        \<and> res_Request res \<in> set (db_requests (w_db w'))"
  using assms
proof (cases rule: Handle_Ok)
  case (1 b w1)
  from 1(2) show ?thesis by (rule failClosed_answered) (use 1(1) in auto)
next
  case (2 out w1)
  from 2(3) decide_verdicts show ?thesis by (rule conclude_answered) (use 2(2) in auto)
qed

text \<open>C6: An answered request has exactly one ledger entry, and the answer is the verdict's.  When
  \<open>Handle\<close> returns without an error, the ledger has grown by one entry that carries the request's
  operation and the verdict returned; a lease comes back with auto-allow only, an approval with
  require-approval only and is stored for the recorded decision; any other verdict leaves the
  leases as they were; the stored request has the status of the verdict.  Whatever the inputs,
  no panic leaves \<open>Handle\<close>.\<close>

theorem handle_answers_verdict:
  "fst (Handle p inp w) \<noteq> Inl Panic
   \<and> (Handle p inp w = (Ok res, w') \<longrightarrow>
      (\<exists>e. db_audit (w_db w') = db_audit (w_db w) @ [e]
        \<and> event_OperationID e = request_OperationID (in_Request inp)
        \<and> event_Verdict e = out_Verdict (res_Outcome res)
        \<and> answered (out_Verdict (res_Outcome res)) res e (w_db w) (w_db w')
        \<and> res_Request res \<in> set (db_requests (w_db w'))))"
  using Handle_calm [of p inp] Handle_answered by (simp add: calm_def sane_def)

theorem handle_answers_verdict_witness:
  "\<exists>res w' e. sample_asked = (Ok res, w') \<and> db_audit (w_db w') = [e]
     \<and> event_Verdict e = VerdictRequireApproval \<and> res_Lease res = None \<and> db_leases (w_db w') = []"
proof -
  obtain res w' where s: "sample_asked = (Ok res, w')"
    and v: "out_Verdict (res_Outcome res) = VerdictRequireApproval" by (rule sample_asked_run)
  have "db_audit (w_db (sample_world sample_db)) = []" "db_leases (w_db (sample_world sample_db)) = []"
    by (simp_all add: sample_world_def sample_db_def empty_db_def)
  with handle_answers_verdict [of "sample_pipeline ModeBalanced" sample_inputs
      "sample_world sample_db" res w'] s v show ?thesis
    unfolding sample_asked_def by (auto simp: answered_def)
qed

section \<open>An ambiguous identity\<close>

lemma match_ambiguous_zero:
  assumes "match_identity req inp = Ok m" and "match_Ambiguous m"
  shows "identity_ID (match_Identity m) = []"
proof -
  from assms(1) obtain av where "match_levels
      [(MatchWorkspaceBinding, workspaceCandidates req (mi_WorkspaceBindings inp)),
       (MatchResourceBinding, resourceCandidates req (mi_ResourceBindings inp)),
       (MatchTrustMemory, mi_MemoryIdentityIDs inp), (MatchSoleIdentity, identityIDs av)]
      (mi_Identities (inp\<lparr>mi_Identities := av\<rparr>)) (mi_ManualSelection (inp\<lparr>mi_Identities := av\<rparr>)) = Ok m"
    by (auto simp: match_identity_def rbind_iffs split: if_splits)
  from match_levels_decided [OF this] assms(2) show ?thesis
    by (auto simp: decided_by_def hit_def ambiguous_def zero_identity_def)
qed

lemma pl_resolve_identity:
  assumes "pl_resolve p inp w = (Ok (Inr out), w1)"
  shows "identity_ID (match_Identity (rs_Match out)) \<noteq> []" and "\<not> match_Ambiguous (rs_Match out)"
    and "di_Match (rs_Input out) = rs_Match out"
    and "scope_IdentityID (sr_Scope (rs_Scope out)) = identity_ID (match_Identity (rs_Match out))"
    and "scope_AgentID (sr_Scope (rs_Scope out)) = request_AgentID (in_Request inp)"
proof -
  from assms obtain parsed grants now converged w2 w3 where
    m: "match_identity
          \<lparr>mr_Service = intent_Service parsed, mr_WorkspaceID = request_WorkspaceID (in_Request inp),
           mr_ResourceKey = intent_ResourceKey parsed\<rparr>
          \<lparr>mi_WorkspaceBindings = in_WorkspaceBindings inp,
           mi_ResourceBindings = in_ResourceBindings inp,
           mi_MemoryIdentityIDs = identitiesOf grants, mi_Identities = in_Identities inp,
           mi_ManualSelection = in_ManualSelection inp\<rparr> = Ok (rs_Match out)"
    and sc: "scope_resolve now
          \<lparr>si_Intent = parsed, si_AgentID = request_AgentID (in_Request inp),
           si_WorkspaceID = request_WorkspaceID (in_Request inp),
           si_Identity = match_Identity (rs_Match out), si_Duration = 0, si_RequestLimit = 0\<rparr>
        = Ok (rs_Scope out)"
    and i: "di_Match (rs_Input out) = rs_Match out"
    unfolding pl_resolve_def Let_def
    by (auto simp: or_block_Ok io_lift_Ok io_bind_Ok_iff io_now_Ok io_return_Ok decision_input_of_def)
  note S = scope_resolve_Ok [OF sc]
  show id: "identity_ID (match_Identity (rs_Match out)) \<noteq> []"
    using S(2) S(3) by (simp add: scope_Validate_Ok_iff)
  then show "\<not> match_Ambiguous (rs_Match out)" using match_ambiguous_zero [OF m] by blast
  show "di_Match (rs_Input out) = rs_Match out" by (rule i)
  show "scope_IdentityID (sr_Scope (rs_Scope out)) = identity_ID (match_Identity (rs_Match out))"
    "scope_AgentID (sr_Scope (rs_Scope out)) = request_AgentID (in_Request inp)"
    using S(3) by simp_all
qed

text \<open>The user is never asked which identity to use.  No answer of \<open>Handle\<close> has the reason
  \<open>identity_ambiguous\<close>, and an approval is opened only for a decision whose identity is settled:
  with several candidates the scope of the zero identity is refused first, so the request is
  denied and the branch of the decision table that asks about the identity is never reached from
  the pipeline.\<close>

theorem handle_never_asks_identity:
  assumes h: "Handle p inp w = (Ok res, w')"
  shows "out_Reason (res_Outcome res) \<noteq> ReasonIdentityAmbiguous
    \<and> (res_Approval res \<noteq> None \<longrightarrow> (\<exists>rec. res_Decision res = Some rec \<and> decision_IdentityID rec \<noteq> []))"
  using h
proof (cases rule: Handle_Ok)
  case (1 b w1)
  then show ?thesis by (auto elim!: failClosed_answered simp: answered_def split: verdict.splits)
next
  case (2 out w1)
  note I = pl_resolve_identity [OF 2(1)]
  let ?oc = "decide (rs_Input out)"
  from 2(3) decide_verdicts have oc: "res_Outcome res = ?oc" by (rule conclude_answered)
  have "out_Reason ?oc \<noteq> ReasonIdentityAmbiguous"
  proof (cases "open_request (rs_Input out)")
    case True
    then obtain r where r: "modeRules (di_Mode (rs_Input out)) = Some r"
      and d: "run_branches branches (rs_Input out) (automatable (rs_Input out)) = Ok ?oc"
      by (rule decide_open)
    from d [unfolded run_branches_eq [OF r]] I(2,3) show ?thesis
      by (auto split: if_split_asm dest: sym)
  next
    case False
    then show ?thesis using decide_not_open [of "rs_Input out"] by auto
  qed
  moreover from 2(3) obtain rec w2 where "recordDecision inp out ?oc w1 = (Ok rec, w2)"
    "res_Decision res = Some rec"
    unfolding pl_conclude_def by (auto simp: io_bind_Ok_iff io_return_Ok)
  ultimately show ?thesis using recordDecision_Ok(3) I(1) oc by force
qed

end
