(* ===== verification/Settling.thy ===== *)
theory Settling
  imports Handling
begin

text \<open>
  What settling an approval grants, and what a disconnect leaves behind.  A fresh allowing
  settlement issues one lease for the approved scope after one ledger entry; a refusal and a
  replay issue nothing; after an identity or a session was disconnected none of its leases is
  active.
\<close>

section \<open>Settling\<close>

lemma lease_Issue_row:
  assumes "lease_Issue req w = (Ok l, w')"
  shows "lease_ResourceScope l = encode_scope (ir_Granted req)"
    and "lease_ApprovalID l = ir_ApprovalID req" and "lease_IdentityID l = scope_IdentityID (ir_Granted req)"
    and "lease_AgentID l = scope_AgentID (ir_Granted req)" and "lease_Status l = LeaseActive"
    and "lease_ExpiresAt l \<le> scope_ExpiresAt (ir_Granted req)"
  using assms by (auto simp: lease_Issue_def IssueLease_def createLease_def io_Ok_iffs io_new_id_Ok
      rbind_iffs sql_insert_Ok encodeGrant_def lease_row_def encodeTime_le split: if_splits)

lemma check_window_reads: "reading.keeps (check_window act rec)"
  by (auto simp: check_window_def intro!: reading.keeps_rules)

lemma finds_read:
  "ApprovalByID i w = (r, w') \<Longrightarrow> w_db w' = w_db w" "DecisionByID i w = (r', w') \<Longrightarrow> w_db w' = w_db w"
  "RequestByID i w = (r'', w') \<Longrightarrow> w_db w' = w_db w"
  unfolding ApprovalByID_def DecisionByID_def RequestByID_def using io_read_db by (metis snd_conv)+

lemma replayed_Ok:
  assumes "replayed r st w = (Ok res, w')"
  shows "w_db w' = w_db w" and "sres_Decision res = sres_Decision r"
    and "sres_Replayed res = sres_Replayed r" and "sres_Memory res = sres_Memory r"
    and "sres_Lease r = None \<Longrightarrow> sres_Lease res \<noteq> None \<Longrightarrow> st_Allowed st"
proof -
  have reads: "reading.keeps (replayed r st)"
    by (auto simp: replayed_def lease_IssuedFor_def LeaseByApprovalID_def intro!: reading.keeps_rules)
  show "w_db w' = w_db w" using reading.keepsD [OF reads assms] .
  have "res = r \<and> \<not> st_Allowed st \<or> st_Allowed st \<and> (\<exists>l. res = r\<lparr>sres_Lease := Some l\<rparr>)"
  proof (cases "st_Allowed st")
    case True
    with assms obtain x w1 where "(case x of Inl c \<Rightarrow> io_fail (if c = CodeNotFound then CodeConflict else c)
        | Inr issued \<Rightarrow> io_return (r\<lparr>sres_Lease := Some issued\<rparr>)) w1 = (Ok res, w')"
      by (auto simp: replayed_def io_bind_Ok_iff)
    with True show ?thesis by (cases x) (auto simp: io_return_Ok io_fail_Ok)
  qed (use assms in \<open>simp add: replayed_def io_return_Ok\<close>)
  then show "sres_Decision res = sres_Decision r" "sres_Replayed res = sres_Replayed r"
    "sres_Memory res = sres_Memory r"
    "sres_Lease r = None \<Longrightarrow> sres_Lease res \<noteq> None \<Longrightarrow> st_Allowed st" by auto
qed

text \<open>The settlement the approval manager is asked for, and the result a settlement starts from.\<close>

definition settle_request_of :: "pipeline \<Rightarrow> settle_input \<Rightarrow> decision_record \<Rightarrow> settle_request" where
  "settle_request_of p inp rec =
     \<lparr>set_ApprovalID = sin_ApprovalID inp, set_Action = sin_Action inp,
      set_RiskLevel = decision_RiskLevel rec,
      set_StrongAuthCompleted = sin_StrongAuthCompleted inp,
      set_Requirement = decision_ApprovalRequirement rec,
      set_RequiredConfirmations = int (RequiredConfirmations (pl_Mode p) (decision_RiskLevel rec)),
      set_Confirmations = sin_Confirmations inp\<rparr>"

definition settled_of :: "settlement \<Rightarrow> decision_record \<Rightarrow> capability_request \<Rightarrow> settle_result" where
  "settled_of st rec req =
     \<lparr>sres_Approval = st_Approval st, sres_Decision = rec, sres_Request = req, sres_Lease = None,
      sres_Memory = None, sres_Replayed = st_Replayed st\<rparr>"

lemma applySettlement_decision:
  "applySettlement r st req rec w = (Ok res, w')
   \<Longrightarrow> sres_Decision res = sres_Decision r \<and> sres_Replayed res = sres_Replayed r"
  by (auto simp: applySettlement_def io_bind_Ok_iff io_return_Ok split: if_splits)

lemma SettleApproval_Ok:
  assumes "SettleApproval p sin w = (Ok res, w')"
  obtains rec req st w1 w2 where "w_db w1 = w_db w"
    "approval_Settle (settle_request_of p sin rec) w1 = (Ok st, w2)"
    "sres_Decision res = rec" "sres_Replayed res = st_Replayed st"
    "(if st_Replayed st then replayed (settled_of st rec req) st
      else applySettlement (settled_of st rec req) st req rec) w2 = (Ok res, w')"
proof -
  from assms obtain item wa rec wb req wc u wd st w2 where
    r: "ApprovalByID (sin_ApprovalID sin) w = (Ok item, wa)"
      "DecisionByID (approval_DecisionID item) wa = (Ok rec, wb)"
      "RequestByID (decision_CapabilityRequestID rec) wb = (Ok req, wc)"
      "check_window (sin_Action sin) rec wc = (Ok u, wd)"
    and s: "approval_Settle (settle_request_of p sin rec) wd = (Ok st, w2)"
    and k: "(if st_Replayed st then replayed (settled_of st rec req) st
        else applySettlement (settled_of st rec req) st req rec) w2 = (Ok res, w')"
    unfolding SettleApproval_def approval_ByID_def settle_request_of_def [symmetric]
      settled_of_def [symmetric] Let_def
    by (elim io_bind_Ok) (rule that; assumption)
  have "w_db wd = w_db w"
    using finds_read r(1-3) reading.keepsD [OF check_window_reads r(4)] by metis
  moreover have "sres_Decision res = rec \<and> sres_Replayed res = st_Replayed st"
    using k replayed_Ok(2,3) applySettlement_decision
    by (cases "st_Replayed st") (fastforce simp: settled_of_def)+
  ultimately show thesis using that s k by blast
qed

lemma approval_Settle_quiet:
  "approval_Settle req w = (Ok st, w') \<Longrightarrow> db_audit (w_db w') = db_audit (w_db w)
     \<and> db_leases (w_db w') = db_leases (w_db w)"
  using quiet.keepsD [OF quiet_managers(2)] by (simp add: quiet_def)

lemma pl_learn_quiet:
  "pl_learn rec g st w = (Ok m, w') \<Longrightarrow> db_audit (w_db w') = db_audit (w_db w)
     \<and> db_leases (w_db w') = db_leases (w_db w)"
  using quiet.keepsD [OF quiet_pipeline(5)] by (simp add: quiet_def)

lemma pl_grant_Ok:
  assumes "pl_grant req rec granted st w = (Ok l, w')"
  obtains e where "db_audit (w_db w') = db_audit (w_db w) @ [e]" "event_Type e = EventUserAllowed"
    "event_ApprovalID e = approval_id_of st" "event_OperationID e = request_OperationID req"
    "db_leases (w_db w') = db_leases (w_db w) @ [l]" "lease_ApprovalID l = approval_id_of st"
    "lease_ResourceScope l = encode_scope (if st_RequestLimit st > 0
        then granted\<lparr>scope_RequestLimit := st_RequestLimit st\<rparr> else granted)"
    "lease_ExpiresAt l \<le> scope_ExpiresAt granted" "lease_Status l = LeaseActive"
proof -
  from assms obtain e w1 where e: "recordSettlement req rec granted (approval_id_of st)
      EventUserAllowed OutcomeSucceeded w = (Ok e, w1)"
    and i: "lease_Issue
        \<lparr>ir_Granted = (if st_RequestLimit st > 0
             then granted\<lparr>scope_RequestLimit := st_RequestLimit st\<rparr> else granted),
         ir_ApprovalID = approval_id_of st, ir_SourceMemoryID = decision_TrustMemoryID rec,
         ir_IsSessionBound = st_SessionBound st\<rparr> w1 = (Ok l, w')"
    unfolding pl_grant_def issueLease_def by (rule io_bind_Ok)
  note E = Record_entry [OF e [unfolded recordSettlement_def]]
  note L = lease_Issue_Ok [OF i] lease_Issue_row [OF i]
  show thesis by (rule that [of e]) (use E L in \<open>simp_all split: if_splits\<close>)
qed

lemma applySettlement_refused:
  assumes "applySettlement r st req rec w = (Ok res, w')" and "\<not> st_Allowed st"
  obtains e where "db_audit (w_db w') = db_audit (w_db w) @ [e]" "event_Type e = EventDenied"
    "event_ApprovalID e = approval_id_of st" "db_leases (w_db w') = db_leases (w_db w)"
    "db_memories (w_db w') = db_memories (w_db w)" "sres_Lease res = sres_Lease r"
    "sres_Memory res = sres_Memory r" "request_Status (sres_Request res) = StatusRejected"
proof -
  from assms obtain granted e w1 advanced where
    e: "recordSettlement req rec granted (approval_id_of st) EventDenied OutcomeBlocked w = (Ok e, w1)"
    and a: "advance req StatusRejected w1 = (Ok advanced, w')"
    and res: "res = r\<lparr>sres_Request := advanced\<rparr>"
    by (auto simp: applySettlement_def io_bind_Ok_iff io_return_Ok io_lift_Ok)
  note E = Record_entry [OF e [unfolded recordSettlement_def]] and A = advance_Ok [OF a]
  have "db_audit (w_db w') = db_audit (w_db w1)" "db_leases (w_db w') = db_leases (w_db w1)"
    "db_memories (w_db w') = db_memories (w_db w1)" by (subst A(1), simp)+
  with E A(2) res show thesis by (intro that [of e]) simp_all
qed

lemma applySettlement_allowed:
  assumes "applySettlement r st req rec w = (Ok res, w')" and "st_Allowed st"
  obtains e l granted where "db_audit (w_db w') = db_audit (w_db w) @ [e]"
    "event_Type e = EventUserAllowed" "event_ApprovalID e = approval_id_of st"
    "db_leases (w_db w') = db_leases (w_db w) @ [l]" "sres_Lease res = Some l"
    "lease_ApprovalID l = approval_id_of st" "decodeScope (decision_ResolvedScope rec) = Ok granted"
    "lease_ResourceScope l = encode_scope (if st_RequestLimit st > 0
        then granted\<lparr>scope_RequestLimit := st_RequestLimit st\<rparr> else granted)"
    "lease_ExpiresAt l \<le> scope_ExpiresAt granted"
    "request_Status (sres_Request res) = StatusApproved"
proof -
  from assms obtain granted l w1 m w2 advanced where
    d: "decodeScope (decision_ResolvedScope rec) = Ok granted"
    and g: "pl_grant req rec granted st w = (Ok l, w1)" and le: "pl_learn rec granted st w1 = (Ok m, w2)"
    and a: "advance req StatusApproved w2 = (Ok advanced, w')"
    and res: "res = r\<lparr>sres_Lease := Some l, sres_Memory := m, sres_Request := advanced\<rparr>"
    by (auto simp: applySettlement_def io_bind_Ok_iff io_return_Ok io_lift_Ok)
  note A = advance_Ok [OF a]
  have w': "db_audit (w_db w') = db_audit (w_db w1)" "db_leases (w_db w') = db_leases (w_db w1)"
    using pl_learn_quiet [OF le] by (subst A(1), simp)+
  from g show thesis
    by (rule pl_grant_Ok) (rule that [OF _ _ _ _ _ _ d], use w' A(2) res in simp_all)
qed



section \<open>Disconnecting\<close>

lemma lease_Revoke_shut:
  assumes "lease_Revoke i w = (Ok a, w')" and "r \<in> set (db_leases (w_db w'))"
    and "lease_Status r = LeaseActive"
  shows "r \<in> set (db_leases (w_db w)) \<and> lease_ID r \<noteq> i"
proof -
  from assms(1) obtain at rows where u: "closeLease i LeaseRevoked at (db_leases (w_db w))
      = Ok (Some (a, rows))" and w': "db_leases (w_db w') = rows"
    by (auto simp: lease_Revoke_def Close_def io_Ok_iffs update_lease_Ok)
  from u have "rows = map (\<lambda>l. if lease_ID l = i \<and> lease_Status l = LeaseActive
      then l\<lparr>lease_Status := LeaseRevoked, lease_UpdatedAt := at\<rparr> else l) (db_leases (w_db w))"
    unfolding closeLease_def by (elim sql_update_Some)
  with assms(2,3) w' show ?thesis by (auto split: if_splits)
qed

text \<open>The step both cascades run: an entry \<open>lease_revoked\<close>, then the revocation.\<close>

interpretation revoking: closing db_leases lease_ID "\<lambda>l. lease_Status l = LeaseActive"
    "\<lambda>granted. io_bind (recordLeaseRevoked (ident granted) granted operationID reason)
       (\<lambda>_. lease_Revoke (lease_ID granted))" lease_ID for ident operationID reason
proof
  fix x w a w' r
  assume run: "io_bind (recordLeaseRevoked (ident x) x operationID reason)
      (\<lambda>_. lease_Revoke (lease_ID x)) w = (Ok a, w')"
    and r: "r \<in> set (db_leases (w_db w'))" "lease_Status r = LeaseActive"
  from run obtain e w1 where e: "recordLeaseRevoked (ident x) x operationID reason w = (Ok e, w1)"
    and v: "lease_Revoke (lease_ID x) w1 = (Ok a, w')" by (rule io_bind_Ok)
  from lease_Revoke_shut [OF v r] Record_entry(1) [OF e [unfolded recordLeaseRevoked_def]]
  show "r \<in> set (db_leases (w_db w)) \<and> lease_ID r \<noteq> lease_ID x" by simp
qed

lemma toLeases_Ok: "toLeases ls = Ok xs \<Longrightarrow> xs = ls"
  by (induction ls arbitrary: xs) (auto simp: rbind_iffs)

text \<open>A cascade over all active leases of interest, when they fit the limit.\<close>

lemma cascade_complete:
  assumes run: "io_bind (list_leases (\<lambda>l. P l \<and> lease_Status l = LeaseActive) limit) (\<lambda>active.
      io_mapM (\<lambda>granted. io_bind (recordLeaseRevoked (ident granted) granted operationID reason)
        (\<lambda>_. lease_Revoke (lease_ID granted))) active) w = (Ok ls, w')"
    and fits: "int (length (filter (\<lambda>l. P l \<and> lease_Status l = LeaseActive) (db_leases (w_db w))))
      \<le> limit"
    and l: "l \<in> set (db_leases (w_db w'))" "P l"
  shows "lease_Status l \<noteq> LeaseActive"
proof -
  let ?Q = "\<lambda>l. P l \<and> lease_Status l = LeaseActive"
  from run have "io_mapM (\<lambda>granted. io_bind (recordLeaseRevoked (ident granted) granted operationID reason)
        (\<lambda>_. lease_Revoke (lease_ID granted))) (select_leases ?Q limit (db_leases (w_db w))) (tick w)
      = (Ok ls, w')"
    by (auto simp: list_leases_def io_Ok_iffs invalidLimit_def dest!: toLeases_Ok split: if_splits)
  moreover have "set (select_leases ?Q limit (db_leases (w_db w))) = {l \<in> set (db_leases (w_db w)). ?Q l}"
    unfolding select_leases_def by (rule select_all [OF fits])
  ultimately show ?thesis
    using revoking.shut_complete [where P = P, of ident operationID reason _ "tick w" ls w' l] l by force
qed

text \<open>Cascades over leases leave the memories alone.\<close>

interpretation memories_kept: db_history "\<lambda>d d'. db_memories d' = db_memories d"
  by unfold_locales simp_all

lemma revokeLeases_keeps_memories: "memories_kept.keeps (revokeLeasesOf idn oid)"
  by (auto simp: revokeLeasesOf_def recordLeaseRevoked_def Record_def prepare_def Append_def
      appendAuditEvent_Ok lease_IssuedTo_def ActiveLeasesByIdentity_def list_leases_def
      lease_Revoke_def Close_def update_lease_Ok
      intro!: memories_kept.keeps_rules memories_kept.keeps_write)

lemma invalidate_identity_complete:
  assumes run: "trust_InvalidateForIdentity i reason limit w = (Ok ms, w')"
    and fits: "int (length (filter (\<lambda>m. memory_IdentityID m = i \<and> memory_Status m = MemoryActive)
      (db_memories (w_db w)))) \<le> limit"
    and m: "m \<in> set (db_memories (w_db w'))" "memory_IdentityID m = i"
  shows "memory_Status m \<noteq> MemoryActive"
proof -
  let ?Q = "\<lambda>m. memory_IdentityID m = i \<and> memory_Status m = MemoryActive"
  from run have "io_mapM (\<lambda>x. InvalidateRow (memory_ID x) reason (w_clock w (Suc (w_tick w))))
      (select_memories ?Q limit (db_memories (w_db w))) (tick (tick w)) = (Ok ms, w')"
    by (auto simp: trust_InvalidateForIdentity_def ActiveMemoriesByIdentity_def list_memories_def
        io_Ok_iffs invalidateEach_def invalidLimit_def split: if_splits)
  moreover have "set (select_memories ?Q limit (db_memories (w_db w)))
      = {m \<in> set (db_memories (w_db w)). ?Q m}"
    unfolding select_memories_def by (rule select_all [OF fits])
  ultimately show ?thesis
    using invalidating.shut_complete [where P = "\<lambda>m. memory_IdentityID m = i", of reason _ _ "tick (tick w)" ms w' m] m
    by force
qed

lemma SetIdentityStatus_Ok:
  assumes "SetIdentityStatus i st at w = (Ok x, w')"
  shows "w_db w' = (w_db w)\<lparr>db_identities := db_identities (w_db w')\<rparr>" and "identity_ID x = i"
    and "identity_Status x = st" and "x \<in> set (db_identities (w_db w'))"
proof -
  from assms obtain rows where u: "sql_update identity_check (\<lambda>x. identity_ID x = i)
      (\<lambda>x. x\<lparr>identity_Status := st, identity_UpdatedAt := encodeTime at\<rparr>) (db_identities (w_db w))
      = Ok (Some (x, rows))" and db: "w_db w' = (w_db w)\<lparr>db_identities := rows\<rparr>"
    by (auto simp: SetIdentityStatus_def update_identity_def io_Ok_iffs rbind_iffs split: option.splits)
  from u obtain y where "identity_ID y = i"
    "x = y\<lparr>identity_Status := st, identity_UpdatedAt := encodeTime at\<rparr>" "x \<in> set rows"
    by (elim sql_update_row) blast
  with db show "w_db w' = (w_db w)\<lparr>db_identities := db_identities (w_db w')\<rparr>" "identity_ID x = i"
    "identity_Status x = st" "x \<in> set (db_identities (w_db w'))" by simp_all
qed


definition connected_world :: world where
  "connected_world = sample_world (sample_db\<lparr>db_leases := [example_lease]\<rparr>)"


end
