(* ===== verification/App_Error.thy ===== *)
theory App_Error
  imports Adapter_Capability
begin

text \<open>
  Model of \<open>internal/platform/apperr\<close> as the adapters use it: an error with its code and the
  operation it belongs to, the closed table of public messages, and the public form in which an
  error leaves the process.  The diagnostic parts of an error, its detail and its cause, are not
  kept: \<open>Public\<close> never shows them.
\<close>

section \<open>Errors and the message table\<close>

record app_error =
  ae_Code :: code
  ae_OperationID :: string

type_synonym 'a app_result = "app_error + 'a"

definition apperr_New :: "code \<Rightarrow> app_error" where
  "apperr_New c = \<lparr>ae_Code = c, ae_OperationID = []\<rparr>"

definition WithOperationID :: "app_error \<Rightarrow> string \<Rightarrow> app_error" where
  "WithOperationID e operationID = e\<lparr>ae_OperationID := operationID\<rparr>"

definition obind :: "'a app_result \<Rightarrow> ('a \<Rightarrow> 'b app_result) \<Rightarrow> 'b app_result" where
  "obind r f = (case r of Inl e \<Rightarrow> Inl e | Inr a \<Rightarrow> f a)"

text \<open>The names and messages with which \<open>code.go\<close> registers the codes.\<close>

fun code_String :: "code \<Rightarrow> string" where
  "code_String CodeInvalidRequest = ''invalid_request''"
| "code_String CodeUnauthenticated = ''unauthenticated''"
| "code_String CodeForbidden = ''forbidden''"
| "code_String CodeNotFound = ''not_found''"
| "code_String CodeConflict = ''conflict''"
| "code_String CodeInternal = ''internal''"
| "code_String CodeNotImplemented = ''not_implemented''"
| "code_String CodeInvalidConfiguration = ''invalid_configuration''"
| "code_String CodeAgentIdentityUnverifiable = ''agent_identity_unverifiable''"
| "code_String CodeSessionExpired = ''session_expired''"
| "code_String CodeCapabilityNotOffered = ''capability_not_offered''"
| "code_String CodeApprovalTimeout = ''approval_timeout''"
| "code_String CodeCredentialNotAuthorized = ''credential_not_authorized''"
| "code_String CodeProviderUnavailable = ''provider_unavailable''"
| "code_String CodeProviderNotSupportedOnPlatform = ''provider_not_supported_on_platform''"
| "code_String CodeProviderLockedTimeout = ''provider_locked_timeout''"
| "code_String CodeVaultLocked = ''vault_locked''"
| "code_String CodePathNotAllowed = ''path_not_allowed''"
| "code_String CodeAdapterTimeout = ''adapter_timeout''"
| "code_String CodeGatewayUnavailable = ''gateway_unavailable''"

fun messages :: "code \<Rightarrow> string" where
  "messages CodeInvalidRequest = ''The request is not valid.''"
| "messages CodeUnauthenticated = ''Missing or invalid credentials.''"
| "messages CodeForbidden = ''This identity may not perform the operation.''"
| "messages CodeNotFound = ''The requested resource does not exist.''"
| "messages CodeConflict = ''The resource changed state; this operation was not applied.''"
| "messages CodeInternal =
     ''Gateway internal error. Look up the operation_id in the ledger.''"
| "messages CodeNotImplemented = ''That capability is not implemented.''"
| "messages CodeInvalidConfiguration = ''The configuration is not valid.''"
| "messages CodeAgentIdentityUnverifiable =
     ''The caller's identity could not be established; the request was denied.''"
| "messages CodeSessionExpired = ''The session has expired; authenticate again.''"
| "messages CodeCapabilityNotOffered = ''The gateway does not offer that capability.''"
| "messages CodeApprovalTimeout =
     ''Timed out waiting for human confirmation; the request was denied.''"
| "messages CodeCredentialNotAuthorized =
     ''That credential is not authorized for this request.''"
| "messages CodeProviderUnavailable =
     ''The credential source is unavailable; the request was denied.''"
| "messages CodeProviderNotSupportedOnPlatform =
     ''That credential source is unavailable on this platform.''"
| "messages CodeProviderLockedTimeout =
     ''Timed out waiting for the credential source to unlock; the request was denied.''"
| "messages CodeVaultLocked = ''The local vault is locked.''"
| "messages CodePathNotAllowed =
     ''The request path is outside what that service allows.''"
| "messages CodeAdapterTimeout = ''The external service timed out.''"
| "messages CodeGatewayUnavailable =
     ''The gateway is unavailable; the request never reached the external service.''"

record public =
  pub_Code :: code
  pub_Message :: string
  pub_OperationID :: string

definition error_Public :: "app_error \<Rightarrow> public" where
  "error_Public e = \<lparr>pub_Code = ae_Code e, pub_Message = messages (ae_Code e),
     pub_OperationID = ae_OperationID e\<rparr>"

text \<open>\<open>PublicOf\<close>: \<open>None\<close> is an error of another package, which becomes \<open>internal\<close>.\<close>

definition PublicOf :: "app_error option \<Rightarrow> string \<Rightarrow> public" where
  "PublicOf err fallbackOperationID =
     (case err of
        None \<Rightarrow> \<lparr>pub_Code = CodeInternal, pub_Message = messages CodeInternal,
                 pub_OperationID = fallbackOperationID\<rparr>
      | Some e \<Rightarrow>
          (let p = error_Public e in
           if pub_OperationID p = [] then p\<lparr>pub_OperationID := fallbackOperationID\<rparr> else p))"

section \<open>Basic laws\<close>

lemma obind_simps [simp]:
  "obind (Inr a) f = f a"
  "obind (Inl e) f = Inl e"
  by (simp_all add: obind_def)

lemma obind_eq_Inr_iff: "obind r f = Inr b \<longleftrightarrow> (\<exists>a. r = Inr a \<and> f a = Inr b)"
  by (cases r) auto

lemma obind_eq_Inl_iff:
  "obind r f = Inl e \<longleftrightarrow> r = Inl e \<or> (\<exists>a. r = Inr a \<and> f a = Inl e)"
  by (cases r) auto

lemmas obind_iffs = obind_eq_Inr_iff obind_eq_Inl_iff

lemma apperr_New_simps [simp]:
  "ae_Code (apperr_New c) = c" "ae_OperationID (apperr_New c) = []"
  by (simp_all add: apperr_New_def)

lemma WithOperationID_simps [simp]:
  "ae_Code (WithOperationID e i) = ae_Code e" "ae_OperationID (WithOperationID e i) = i"
  by (simp_all add: WithOperationID_def)

text \<open>The public text depends on the code alone, and an operation id is always present when the
  caller supplies one.\<close>

lemma PublicOf_Some:
  "pub_Code (PublicOf (Some e) i) = ae_Code e"
  "pub_Message (PublicOf (Some e) i) = messages (ae_Code e)"
  "pub_OperationID (PublicOf (Some e) i)
     = (if ae_OperationID e = [] then i else ae_OperationID e)"
  by (simp_all add: PublicOf_def error_Public_def Let_def)

end
