(* ===== verification/Adapter_Registry.thy ===== *)
theory Adapter_Registry
  imports App_Error
begin

text \<open>
  Model of \<open>internal/adapter/registry\<close>: the registry of adapters (\<open>registry.go\<close>) with the checks
  that run at start-up, and the reverse lookup from a method and path to a declared operation
  (\<open>resolve.go\<close>).  An adapter is a record; what else an adapter can do is the record's
  extension, so the registry is polymorphic in it.
\<close>

section \<open>Adapters and the registry\<close>

record adapter =
  ad_Service :: string
  ad_Kind :: adapter_kind
  ad_Capabilities :: "adapter_capability list"
  ad_BaseURL :: string
  ad_AuthScheme :: auth_scheme

record 'x registry =
  rg_adapters :: "'x adapter_scheme go_map"
  rg_capabilities :: "adapter_capability go_map go_map"

definition trim_space :: "string \<Rightarrow> string" where
  "trim_space s = rev (dropWhile is_space (rev (dropWhile is_space s)))"

fun validKind :: "adapter_kind \<Rightarrow> bool" where
  "validKind (KindOther s) = False"
| "validKind _ = True"

definition declarationError :: app_error where
  "declarationError = apperr_New CodeInvalidConfiguration"

text \<open>The loop of \<open>add\<close> over the declared operations; every error of \<open>Validate\<close> is a
  \<open>declarationError\<close>.\<close>

fun add_operations ::
    "adapter_capability list \<Rightarrow> adapter_capability go_map \<Rightarrow> adapter_capability go_map app_result" where
  "add_operations [] operations = Inr operations"
| "add_operations (c # cs) operations =
     (if \<not> is_ok (capability_Validate c) then Inl declarationError
      else if gm_get operations (ac_Operation c) \<noteq> None then Inl declarationError
      else add_operations cs (gm_put (ac_Operation c) c operations))"

text \<open>\<open>None\<close> is a nil adapter.\<close>

definition registry_add ::
    "'x adapter_scheme option \<Rightarrow> 'x registry \<Rightarrow> 'x registry app_result" where
  "registry_add adapter r =
     (case adapter of None \<Rightarrow> Inl declarationError
      | Some a \<Rightarrow>
          (let service = trim_space (ad_Service a) in
           if service = [] then Inl declarationError
           else if gm_get (rg_adapters r) service \<noteq> None then Inl declarationError
           else if \<not> validKind (ad_Kind a) then Inl declarationError
           else if ad_Capabilities a = [] then Inl declarationError
           else obind (add_operations (ad_Capabilities a) []) (\<lambda>operations.
             Inr (r\<lparr>rg_adapters := gm_put service a (rg_adapters r),
                    rg_capabilities := gm_put service operations (rg_capabilities r)\<rparr>))))"

fun add_adapters :: "'x adapter_scheme option list \<Rightarrow> 'x registry \<Rightarrow> 'x registry app_result" where
  "add_adapters [] r = Inr r"
| "add_adapters (a # as) r = obind (registry_add a r) (add_adapters as)"

definition registry_New :: "'x adapter_scheme option list \<Rightarrow> 'x registry app_result" where
  "registry_New adapters = add_adapters adapters \<lparr>rg_adapters = [], rg_capabilities = []\<rparr>"

definition registry_Adapter :: "'x registry \<Rightarrow> string \<Rightarrow> 'x adapter_scheme app_result" where
  "registry_Adapter r service =
     (case gm_get (rg_adapters r) service of
        None \<Rightarrow> Inl (apperr_New CodeCapabilityNotOffered)
      | Some a \<Rightarrow> Inr a)"

definition registry_Capability ::
    "'x registry \<Rightarrow> string \<Rightarrow> string \<Rightarrow> adapter_capability app_result" where
  "registry_Capability r service operation =
     (case gm_get (rg_capabilities r) service of
        None \<Rightarrow> Inl (apperr_New CodeCapabilityNotOffered)
      | Some operations \<Rightarrow>
          (case gm_get operations operation of
             None \<Rightarrow> Inl (apperr_New CodeCapabilityNotOffered)
           | Some c \<Rightarrow> Inr c))"

definition registry_Operations :: "'x registry \<Rightarrow> string \<Rightarrow> string list" where
  "registry_Operations r service =
     sort (case gm_get (rg_capabilities r) service of None \<Rightarrow> [] | Some ops \<Rightarrow> map fst ops)"

definition registry_Services :: "'x registry \<Rightarrow> string list" where
  "registry_Services r = sort (map fst (rg_adapters r))"

section \<open>From a method and a path to an operation\<close>

fun match_segments ::
    "string list \<Rightarrow> string list \<Rightarrow> string go_map \<Rightarrow> string go_map option" where
  "match_segments (expected # es) (got # gs) captured =
     (if got = [] then None
      else if is_placeholder expected
        then match_segments es gs (gm_put (placeholder_key expected) got captured)
      else if expected \<noteq> got then None
      else match_segments es gs captured)"
| "match_segments [] [] captured = Some captured"
| "match_segments _ _ captured = None"

definition path_segments :: "string \<Rightarrow> string list" where
  "path_segments p = split_on (CHR ''/'') (trim_prefix p ''/'')"

definition MatchPath :: "string \<Rightarrow> string \<Rightarrow> string go_map option" where
  "MatchPath template actual =
     (if \<not> has_prefix actual ''/'' \<or> str_contains actual ''..'' then None
      else if length (path_segments template) \<noteq> length (path_segments actual) then None
      else match_segments (path_segments template) (path_segments actual) [])"

text \<open>Go visits the operations of a service in an order of its own choice: \<open>order\<close> is that
  order, a list of operation names.\<close>

fun resolve_in ::
    "adapter_capability list \<Rightarrow> string \<Rightarrow> string \<Rightarrow> (adapter_capability \<times> string go_map) option" where
  "resolve_in [] method path = None"
| "resolve_in (c # cs) method path =
     (if \<not> equal_fold (ac_Method c) method then resolve_in cs method path
      else case MatchPath (ac_Path c) path of
             Some resource \<Rightarrow> Some (c, resource)
           | None \<Rightarrow> resolve_in cs method path)"

definition registry_Resolve ::
    "string list \<Rightarrow> 'x registry \<Rightarrow> string \<Rightarrow> string \<Rightarrow> string
       \<Rightarrow> (adapter_capability \<times> string go_map) app_result" where
  "registry_Resolve order r service method path =
     (case gm_get (rg_capabilities r) service of
        None \<Rightarrow> Inl (apperr_New CodeCapabilityNotOffered)
      | Some operations \<Rightarrow>
          (case resolve_in (List.map_filter (gm_get operations) order) method path of
             None \<Rightarrow> Inl (apperr_New CodeCapabilityNotOffered)
           | Some found \<Rightarrow> Inr found))"

section \<open>What a built registry offers\<close>

lemma add_operations_Inr:
  assumes "add_operations cs operations = Inr operations'"
  shows "gm_get operations' op = Some c \<longleftrightarrow>
      gm_get operations op = Some c \<or> c \<in> set cs \<and> ac_Operation c = op"
    and "c \<in> set cs \<Longrightarrow> capability_Validate c = Ok ()"
    and "gm_ok operations \<Longrightarrow> gm_ok operations'"
    and "c \<in> set cs \<Longrightarrow> gm_get operations (ac_Operation c) = None"
  using assms
proof (atomize (full), induction cs operations rule: add_operations.induct)
  case (2 d ds operations)
  then have valid: "is_ok (capability_Validate d)" and fresh: "gm_get operations (ac_Operation d) = None"
    and rest: "add_operations ds (gm_put (ac_Operation d) d operations) = Inr operations'"
    by (auto split: if_splits)
  from valid have "capability_Validate d = Ok ()" by (cases "capability_Validate d") auto
  moreover note IH = 2(1) [OF _ _ rest]
  ultimately show ?case using valid fresh by (auto split: if_splits)
qed auto

definition offers :: "'x registry \<Rightarrow> string \<Rightarrow> string \<Rightarrow> adapter_capability \<Rightarrow> bool" where
  "offers r service op c = (registry_Capability r service op = Inr c)"

lemma offers_iff:
  "offers r service op c \<longleftrightarrow>
     (\<exists>ops. gm_get (rg_capabilities r) service = Some ops \<and> gm_get ops op = Some c)"
  by (auto simp: offers_def registry_Capability_def split: option.splits)

text \<open>The two maps of a registry name the same services.\<close>

definition registry_ok :: "'x registry \<Rightarrow> bool" where
  "registry_ok r \<longleftrightarrow> gm_ok (rg_adapters r) \<and> gm_ok (rg_capabilities r)
     \<and> map fst (rg_adapters r) = map fst (rg_capabilities r)"

lemma gm_put_keys: "map fst m = map fst n \<Longrightarrow> map fst (gm_put k v m) = map fst (gm_put k w n)"
proof (induction m arbitrary: n)
  case (Cons x m)
  then show ?case by (cases n; cases x) auto
qed simp

lemma registry_ok_fresh:
  assumes "registry_ok r"
  shows "gm_get (rg_capabilities r) s = None \<longleftrightarrow> gm_get (rg_adapters r) s = None"
proof -
  have "fst ` set (rg_capabilities r) = fst ` set (rg_adapters r)"
    using assms unfolding registry_ok_def by (metis image_set)
  then show ?thesis by (simp add: map_of_eq_None_iff)
qed

lemma registry_add_Inr:
  assumes "registry_add adapter r = Inr r'" and "registry_ok r"
  obtains a ops where "adapter = Some a" "trim_space (ad_Service a) \<noteq> []" "validKind (ad_Kind a)"
    "ad_Capabilities a \<noteq> []" "gm_get (rg_adapters r) (trim_space (ad_Service a)) = None"
    "add_operations (ad_Capabilities a) [] = Inr ops"
    "rg_adapters r' = gm_put (trim_space (ad_Service a)) a (rg_adapters r)"
    "rg_capabilities r' = gm_put (trim_space (ad_Service a)) ops (rg_capabilities r)"
    "registry_ok r'"
proof -
  from assms(1) obtain a ops where "adapter = Some a" "trim_space (ad_Service a) \<noteq> []"
    "validKind (ad_Kind a)" "ad_Capabilities a \<noteq> []"
    "gm_get (rg_adapters r) (trim_space (ad_Service a)) = None"
    "add_operations (ad_Capabilities a) [] = Inr ops"
    and r': "r' = r\<lparr>rg_adapters := gm_put (trim_space (ad_Service a)) a (rg_adapters r),
      rg_capabilities := gm_put (trim_space (ad_Service a)) ops (rg_capabilities r)\<rparr>"
    by (auto simp: registry_add_def Let_def obind_iffs split: option.splits if_splits)
  moreover from r' assms(2) have "registry_ok r'"
    by (auto simp: registry_ok_def intro!: gm_put_keys)
  ultimately show thesis using that r' by simp
qed

text \<open>Which adapters answer for which service, and with which operations.\<close>

definition declares :: "'x adapter_scheme option list \<Rightarrow> string \<Rightarrow> 'x adapter_scheme \<Rightarrow> bool" where
  "declares adapters service a \<longleftrightarrow> Some a \<in> set adapters \<and> trim_space (ad_Service a) = service"

lemma add_adapters_Inr:
  assumes "add_adapters adapters r = Inr r'" and "registry_ok r"
  shows "registry_ok r' \<and> (\<forall>a. gm_get (rg_adapters r') s = Some a \<longleftrightarrow>
        gm_get (rg_adapters r) s = Some a \<or> declares adapters s a)
    \<and> (\<forall>op c. offers r' s op c \<longleftrightarrow> offers r s op c
        \<or> (\<exists>a. declares adapters s a \<and> c \<in> set (ad_Capabilities a) \<and> ac_Operation c = op))
    \<and> (\<forall>a c. declares adapters s a \<longrightarrow> c \<in> set (ad_Capabilities a)
        \<longrightarrow> capability_Validate c = Ok ())
    \<and> (\<forall>a. declares adapters s a \<longrightarrow> gm_get (rg_adapters r) s = None)"
  using assms
proof (induction adapters arbitrary: r)
  case (Cons x adapters)
  from Cons.prems obtain r1 where r1: "registry_add x r = Inr r1" "add_adapters adapters r1 = Inr r'"
    by (auto simp: obind_iffs)
  from r1(1) Cons.prems(2) obtain a ops where x: "x = Some a"
    and fresh: "gm_get (rg_adapters r) (trim_space (ad_Service a)) = None"
    and ops: "add_operations (ad_Capabilities a) [] = Inr ops"
    and maps: "rg_adapters r1 = gm_put (trim_space (ad_Service a)) a (rg_adapters r)"
      "rg_capabilities r1 = gm_put (trim_space (ad_Service a)) ops (rg_capabilities r)"
    and ok: "registry_ok r1" by (elim registry_add_Inr)
  note IH = Cons.IH [OF r1(2) ok]
  note o = add_operations_Inr [OF ops]
  have caps: "gm_get (rg_capabilities r) (trim_space (ad_Service a)) = None"
    using registry_ok_fresh [OF Cons.prems(2)] fresh by simp
  have d: "declares (x # adapters) s b \<longleftrightarrow> declares adapters s b
      \<or> b = a \<and> trim_space (ad_Service a) = s" for b
    using x by (auto simp: declares_def)
  have none: "trim_space (ad_Service a) = s \<Longrightarrow> \<not> declares adapters s b" for b
    using IH maps by auto
  have off: "offers r1 s op c \<longleftrightarrow> offers r s op c
      \<or> trim_space (ad_Service a) = s \<and> c \<in> set (ad_Capabilities a) \<and> ac_Operation c = op" for op c
    using o(1) [of op c] caps by (auto simp: offers_iff maps)
  show ?case
    using IH fresh by (auto simp: d off maps o(2) dest: none split: if_splits)
qed (auto simp: declares_def)

lemma registry_Adapter_iff: "registry_Adapter r s = Inr a \<longleftrightarrow> gm_get (rg_adapters r) s = Some a"
  by (auto simp: registry_Adapter_def split: option.splits)

lemma registry_New_Inr:
  assumes "registry_New adapters = Inr r"
  shows "registry_ok r"
    and "registry_Adapter r s = Inr a \<longleftrightarrow> declares adapters s a"
    and "registry_Capability r s op = Inr c \<longleftrightarrow>
      (\<exists>a. declares adapters s a \<and> c \<in> set (ad_Capabilities a) \<and> ac_Operation c = op)"
    and "registry_Capability r s op = Inr c \<Longrightarrow> capability_Validate c = Ok ()"
proof -
  have "registry_ok \<lparr>rg_adapters = [], rg_capabilities = []\<rparr>" by (simp add: registry_ok_def)
  note new = add_adapters_Inr [OF assms [unfolded registry_New_def] this]
  show "registry_ok r" using new by blast
  show "registry_Adapter r s = Inr a \<longleftrightarrow> declares adapters s a"
    using new [of s] registry_Adapter_iff [of r s a] by (simp add: registry_Adapter_iff)
  show cap: "registry_Capability r s op = Inr c \<longleftrightarrow>
      (\<exists>a. declares adapters s a \<and> c \<in> set (ad_Capabilities a) \<and> ac_Operation c = op)"
    using new [of s] by (simp add: offers_def [symmetric]) (simp add: offers_iff)
  show "registry_Capability r s op = Inr c \<Longrightarrow> capability_Validate c = Ok ()"
    using cap new [of s] by blast
qed

section \<open>Matching paths\<close>

text \<open>A path fits a template position by position; what is captured is read off the path.\<close>

lemma match_segments_Some:
  assumes "match_segments es gs captured = Some resource"
  shows "list_all2 (\<lambda>e g. g \<noteq> [] \<and> (is_placeholder e \<or> e = g)) es gs"
  using assms
  by (induction es gs captured arbitrary: resource rule: match_segments.induct)
    (auto split: if_splits)

text \<open>Two templates overlap when some path could fit both.\<close>

definition overlap :: "string \<Rightarrow> string \<Rightarrow> bool" where
  "overlap t u \<longleftrightarrow> list_all2 (\<lambda>a b. is_placeholder a \<or> is_placeholder b \<or> a = b)
     (path_segments t) (path_segments u)"

lemma list_all2_through:
  assumes "list_all2 P xs zs" and "list_all2 Q ys zs" and "\<And>x y z. P x z \<Longrightarrow> Q y z \<Longrightarrow> R x y"
  shows "list_all2 R xs ys"
  using assms by (auto simp: list_all2_conv_all_nth)

lemma MatchPath_overlap:
  assumes "MatchPath t p = Some r" and "MatchPath u p = Some q"
  shows "overlap t u"
proof -
  have "list_all2 (\<lambda>e g. g \<noteq> [] \<and> (is_placeholder e \<or> e = g)) (path_segments t) (path_segments p)"
    "list_all2 (\<lambda>e g. g \<noteq> [] \<and> (is_placeholder e \<or> e = g)) (path_segments u) (path_segments p)"
    using assms match_segments_Some by (auto simp: MatchPath_def split: if_splits)
  then show ?thesis unfolding overlap_def by (rule list_all2_through) auto
qed

lemma resolve_in_Some:
  assumes "resolve_in cs method path = Some (c, resource)"
  shows "c \<in> set cs \<and> equal_fold (ac_Method c) method \<and> MatchPath (ac_Path c) path = Some resource"
  using assms by (induction cs) (auto split: if_splits option.splits)

lemma resolve_in_None:
  assumes "resolve_in cs method path = None" and "c \<in> set cs" and "equal_fold (ac_Method c) method"
  shows "MatchPath (ac_Path c) path = None"
  using assms by (induction cs) (auto split: if_splits option.splits)

text \<open>Operations of which no two with the same method overlap.\<close>

definition unambiguous :: "adapter_capability list \<Rightarrow> bool" where
  "unambiguous cs \<longleftrightarrow> (\<forall>c \<in> set cs. \<forall>d \<in> set cs.
     equal_fold (ac_Method c) (ac_Method d) \<and> overlap (ac_Path c) (ac_Path d) \<longrightarrow> c = d)"

lemma resolve_in_unique:
  assumes "unambiguous ds" and "set cs = set ds"
  shows "resolve_in cs method path = resolve_in ds method path"
proof (cases "resolve_in cs method path")
  case None
  then show ?thesis
    using resolve_in_None [OF None] resolve_in_Some [of ds "method" path] assms(2)
    by (cases "resolve_in ds method path") fastforce+
next
  case (Some found)
  obtain c resource where f: "found = (c, resource)" by (cases found)
  note c = resolve_in_Some [OF Some [unfolded f]]
  show ?thesis
  proof (cases "resolve_in ds method path")
    case None
    with resolve_in_None [OF None] c assms(2) show ?thesis by auto
  next
    case (Some found')
    obtain d resource' where f': "found' = (d, resource')" by (cases found')
    note d = resolve_in_Some [OF Some [unfolded f']]
    have "overlap (ac_Path c) (ac_Path d)" using MatchPath_overlap c d by blast
    moreover have "equal_fold (ac_Method c) (ac_Method d)" using c d by (simp add: equal_fold_def)
    ultimately have "c = d" using assms c d unfolding unambiguous_def by blast
    with c d Some f f' \<open>resolve_in cs method path = Some found\<close> show ?thesis by simp
  qed
qed

text \<open>The registry is fail-fast and complete.  When \<open>New\<close> returns, a capability is found under
  a service and an operation exactly when an adapter registered for that service declares it
  under that name; it has passed \<open>Validate\<close>, the adapter found for the service is the one that
  declares it, and the services and operations are listed in ascending order without
  repetition.\<close>

theorem registry_offers_exactly_the_declared:
  assumes "registry_New adapters = Inr r"
  shows "(registry_Capability r service op = Inr c \<longleftrightarrow>
      (\<exists>a. Some a \<in> set adapters \<and> trim_space (ad_Service a) = service
        \<and> registry_Adapter r service = Inr a
        \<and> c \<in> set (ad_Capabilities a) \<and> ac_Operation c = op \<and> capability_Validate c = Ok ()))
    \<and> sorted_wrt (<) (registry_Services r)
    \<and> set (registry_Services r) = {trim_space (ad_Service a) | a. Some a \<in> set adapters}"
proof -
  note new = registry_New_Inr [OF assms]
  have "registry_Services r = map fst (rg_adapters r)" "sorted_wrt (<) (map fst (rg_adapters r))"
    using new(1) gm_ok_sorted
    by (auto simp: registry_Services_def registry_ok_def gm_ok_def sorted_sort_id strict_sorted_imp_sorted)
  moreover have "set (map fst (rg_adapters r)) = {trim_space (ad_Service a) | a. Some a \<in> set adapters}"
  proof (rule set_eqI)
    fix s
    have "s \<in> set (map fst (rg_adapters r)) \<longleftrightarrow> (\<exists>a. registry_Adapter r s = Inr a)"
      by (auto simp: registry_Adapter_iff dom_map_of_conv_image_fst [symmetric])
    then show "s \<in> set (map fst (rg_adapters r)) \<longleftrightarrow>
        s \<in> {trim_space (ad_Service a) | a. Some a \<in> set adapters}"
      using new(2) by (auto simp: declares_def)
  qed
  ultimately show ?thesis using new(2) [of service] new(3,4) [of service op c]
    by (auto simp: declares_def)
qed

end
