(* ===== verification/Adapter_Client.thy ===== *)
theory Adapter_Client
  imports Adapter_Registry
begin

text \<open>
  Model of \<open>internal/adapter/registry/client.go\<close>: the outbound channel of an adapter.  The network
  is a parameter that answers each request as it likes, given the requests sent before; the
  requests handed to it are recorded in order.  Redirects are followed as Go's \<open>http.Client\<close> does
  (without the \<open>Referer\<close> it adds), with the client's own redirect check.
\<close>

section \<open>Requests, replies and the network\<close>

record url =
  u_Scheme :: string
  u_User :: "string option"
  u_Host :: string
  u_Path :: string
  u_RawQuery :: string
  u_Fragment :: string

text \<open>A request as it is handed to the transport; header names are in canonical form.\<close>

record outbound =
  ob_Method :: string
  ob_URL :: url
  ob_Header :: "string go_map"
  ob_Body :: string

text \<open>A failure of the transport: an \<open>apperr.Error\<close> in its chain, a timeout, or anything else.\<close>

datatype transport_error = TTyped app_error | TTimeout | TOther

text \<open>The \<open>Location\<close> header of a reply, resolved against the address of the request.\<close>

datatype location = NoLocation | BadLocation | Location url

text \<open>A reply: after its body bytes the stream ends, or fails with the read error.\<close>

record reply =
  rp_Status :: int
  rp_Location :: location
  rp_Body :: string
  rp_ReadError :: "transport_error option"
  rp_CloseOK :: bool

record net =
  nt_RoundTrip :: "outbound list \<Rightarrow> outbound \<Rightarrow> transport_error + reply"
  nt_Wait :: "outbound list \<Rightarrow> duration \<Rightarrow> bool"

section \<open>Query strings and header names\<close>

text \<open>\<open>url.QueryEscape\<close> and \<open>url.Values.Encode\<close>.\<close>

definition unreserved :: "char \<Rightarrow> bool" where
  "unreserved c \<longleftrightarrow> is_upper_char c \<or> is_lower_char c \<or> CHR ''0'' \<le> c \<and> c \<le> CHR ''9''
     \<or> c \<in> set ''-_.~''"

definition hex_digit :: "nat \<Rightarrow> char" where
  "hex_digit n = ''0123456789ABCDEF'' ! n"

fun QueryEscape :: "string \<Rightarrow> string" where
  "QueryEscape [] = []"
| "QueryEscape (c # cs) =
     (if unreserved c then [c]
      else if c = CHR '' '' then ''+''
      else [CHR ''%'', hex_digit (of_char c div 16), hex_digit (of_char c mod 16)])
     @ QueryEscape cs"

type_synonym url_values = "string list go_map"

definition query_Encode :: "url_values \<Rightarrow> string" where
  "query_Encode vs = join_with ''&'' (concat (map (\<lambda>(k, ws).
     map (\<lambda>w. QueryEscape k @ ''='' @ QueryEscape w) ws) vs))"

text \<open>\<open>textproto.CanonicalMIMEHeaderKey\<close>: a name that is not a token stays as it is.\<close>

definition token_char :: "char \<Rightarrow> bool" where
  "token_char c \<longleftrightarrow> is_upper_char c \<or> is_lower_char c \<or> CHR ''0'' \<le> c \<and> c \<le> CHR ''9''
     \<or> c \<in> set [CHR ''!'', CHR ''#'', CHR ''$'', CHR ''%'', CHR ''&'', CHR 0x27, CHR ''*'',
         CHR ''+'', CHR ''-'', CHR ''.'', CHR ''^'', CHR ''_'', CHR 0x60, CHR ''|'', CHR ''~'']"

fun canonical_case :: "bool \<Rightarrow> string \<Rightarrow> string" where
  "canonical_case up [] = []"
| "canonical_case up (c # cs) =
     (if up then upper_char c else lower_char c) # canonical_case (c = CHR ''-'') cs"

definition CanonicalHeaderKey :: "string \<Rightarrow> string" where
  "CanonicalHeaderKey k = (if list_all token_char k then canonical_case True k else k)"

definition header_Set :: "string \<Rightarrow> string \<Rightarrow> string go_map \<Rightarrow> string go_map" where
  "header_Set k v h = gm_put (CanonicalHeaderKey k) v h"

section \<open>The client\<close>

definition DefaultTimeout :: duration where "DefaultTimeout = 30 * second"
definition DefaultMaxResponseBytes :: int where "DefaultMaxResponseBytes = 4 * 2 ^ 20"
definition DefaultBackoff :: duration where "DefaultBackoff = 200 * millisecond"
definition MaxRetries :: nat where "MaxRetries = 2"
definition maxRedirects :: nat where "maxRedirects = 5"

record client_options =
  co_BaseURL :: string
  co_Timeout :: duration
  co_MaxResponseBytes :: int
  co_Backoff :: duration

record client =
  cl_baseURL :: url
  cl_timeout :: duration
  cl_maxBytes :: int
  cl_backoff :: duration

record client_request =
  hq_Capability :: adapter_capability
  hq_Path :: string
  hq_Query :: url_values
  hq_Body :: string
  hq_AuthScheme :: auth_scheme
  hq_AuthHeader :: string
  hq_Credential :: string
  hq_OperationID :: string

record client_response =
  hs_StatusCode :: int
  hs_Body :: string
  hs_Attempts :: nat

definition no_response :: client_response where
  "no_response = \<lparr>hs_StatusCode = 0, hs_Body = [], hs_Attempts = 0\<rparr>"

text \<open>\<open>parse\<close> is \<open>url.Parse\<close>.\<close>

definition NewClient :: "(string \<Rightarrow> url option) \<Rightarrow> client_options \<Rightarrow> client app_result" where
  "NewClient parse options =
     (case parse (co_BaseURL options) of
        None \<Rightarrow> Inl (apperr_New CodeInvalidConfiguration)
      | Some base \<Rightarrow>
          if u_Host base = [] \<or> u_Scheme base \<noteq> ''http'' \<and> u_Scheme base \<noteq> ''https''
          then Inl (apperr_New CodeInvalidConfiguration)
          else Inr \<lparr>cl_baseURL = base,
            cl_timeout = (if co_Timeout options \<le> 0 then DefaultTimeout else co_Timeout options),
            cl_maxBytes = (if co_MaxResponseBytes options \<le> 0 then DefaultMaxResponseBytes
               else co_MaxResponseBytes options),
            cl_backoff = (if co_Backoff options \<le> 0 then DefaultBackoff
               else co_Backoff options)\<rparr>)"

text \<open>\<open>checkRedirect\<close> with the number of requests already made.\<close>

definition checkRedirect :: "client \<Rightarrow> outbound \<Rightarrow> nat \<Rightarrow> app_error option" where
  "checkRedirect c request via =
     (if u_Host (ob_URL request) \<noteq> u_Host (cl_baseURL c)
      then Some (apperr_New CodePathNotAllowed)
      else if via \<ge> maxRedirects then Some (apperr_New CodePathNotAllowed)
      else None)"

text \<open>\<open>http.Client.Do\<close>: which replies redirect, with which method, and whether the body goes
  along.\<close>

definition redirectBehavior :: "string \<Rightarrow> int \<Rightarrow> (string \<times> bool) option" where
  "redirectBehavior method status =
     (if status \<in> {301, 302, 303}
      then Some (if method \<noteq> ''GET'' \<and> method \<noteq> ''HEAD'' then ''GET'' else method, False)
      else if status \<in> {307, 308} then Some (method, True)
      else None)"

definition redirected :: "outbound \<Rightarrow> string \<Rightarrow> bool \<Rightarrow> url \<Rightarrow> outbound" where
  "redirected first method includeBody u =
     \<lparr>ob_Method = method, ob_URL = u,
      ob_Header = (if includeBody then ob_Header first
        else filter (\<lambda>(k, v). k \<noteq> ''Content-Type'') (ob_Header first)),
      ob_Body = (if includeBody then ob_Body first else [])\<rparr>"

function http_Do ::
    "net \<Rightarrow> client \<Rightarrow> outbound \<Rightarrow> outbound \<Rightarrow> nat \<Rightarrow> outbound list
       \<Rightarrow> (transport_error + reply) \<times> outbound list" where
  "http_Do net c first current via sent =
     (case nt_RoundTrip net sent current of
        Inl e \<Rightarrow> (Inl e, sent @ [current])
      | Inr rp \<Rightarrow>
          (case redirectBehavior (ob_Method current) (rp_Status rp) of
             None \<Rightarrow> (Inr rp, sent @ [current])
           | Some (method, includeBody) \<Rightarrow>
               (case rp_Location rp of
                  NoLocation \<Rightarrow> (Inr rp, sent @ [current])
                | BadLocation \<Rightarrow> (Inl TOther, sent @ [current])
                | Location u \<Rightarrow>
                    (case checkRedirect c (redirected first method includeBody u) (Suc via) of
                       Some e \<Rightarrow> (Inl (TTyped e), sent @ [current])
                     | None \<Rightarrow> http_Do net c first (redirected first method includeBody u)
                         (Suc via) (sent @ [current])))))"
  by pat_completeness auto
termination
  by (relation "measure (\<lambda>(net, c, first, current, via, sent). maxRedirects - via)")
    (auto simp: checkRedirect_def split: if_splits)

declare http_Do.simps [simp del]

definition translateTransportError :: "transport_error \<Rightarrow> string \<Rightarrow> app_error" where
  "translateTransportError err operationID =
     (case err of
        TTyped e \<Rightarrow> WithOperationID e operationID
      | TTimeout \<Rightarrow> WithOperationID (apperr_New CodeAdapterTimeout) operationID
      | TOther \<Rightarrow> WithOperationID (apperr_New CodeGatewayUnavailable) operationID)"

definition retryableError :: "app_error \<Rightarrow> bool" where
  "retryableError e \<longleftrightarrow> ae_Code e = CodeAdapterTimeout \<or> ae_Code e = CodeGatewayUnavailable"

definition retryableStatus :: "int \<Rightarrow> bool" where
  "retryableStatus status \<longleftrightarrow> status = 429 \<or> status \<ge> 500"

definition pathAllowed :: "string \<Rightarrow> string \<Rightarrow> bool" where
  "pathAllowed template actual \<longleftrightarrow> MatchPath template actual \<noteq> None"

definition injectCredential ::
    "string go_map \<Rightarrow> client_request \<Rightarrow> string go_map app_result" where
  "injectCredential header request =
     (case hq_AuthScheme request of
        AuthNone \<Rightarrow> Inr header
      | AuthBearer \<Rightarrow>
          Inr (header_Set ''Authorization'' (''Bearer '' @ hq_Credential request) header)
      | AuthHeader \<Rightarrow>
          if trim_space (hq_AuthHeader request) = []
          then Inl (WithOperationID (apperr_New CodeInvalidConfiguration) (hq_OperationID request))
          else Inr (header_Set (hq_AuthHeader request) (hq_Credential request) header)
      | AuthOther s \<Rightarrow>
          Inl (WithOperationID (apperr_New CodeInvalidConfiguration) (hq_OperationID request)))"

text \<open>The address of a request: nothing of the credential enters it.\<close>

definition client_target :: "client \<Rightarrow> string \<Rightarrow> url_values \<Rightarrow> url" where
  "client_target c path query = (cl_baseURL c)\<lparr>
     u_Path := trim_suffix (u_Path (cl_baseURL c)) ''/'' @ path,
     u_RawQuery := query_Encode query\<rparr>"

text \<open>Reading one byte more than the limit tells a truncated body from a whole one.\<close>

definition read_reply :: "client \<Rightarrow> reply \<Rightarrow> string \<Rightarrow> client_response app_result" where
  "read_reply c rp operationID =
     (let payload = take (nat (cl_maxBytes c + 1)) (rp_Body rp);
          failed = (if int (length (rp_Body rp)) < cl_maxBytes c + 1 then rp_ReadError rp else None)
      in case failed of
           Some e \<Rightarrow> Inl (translateTransportError e operationID)
         | None \<Rightarrow>
             if int (length payload) > cl_maxBytes c
             then Inl (WithOperationID (apperr_New CodeInternal) operationID)
             else if \<not> rp_CloseOK rp
             then Inl (WithOperationID (apperr_New CodeGatewayUnavailable) operationID)
             else Inr (no_response\<lparr>hs_StatusCode := rp_Status rp, hs_Body := payload\<rparr>))"

definition http_method :: "string \<Rightarrow> string" where
  "http_method m = (if m = [] then ''GET'' else m)"

definition request_outbound :: "client \<Rightarrow> client_request \<Rightarrow> string go_map \<Rightarrow> outbound" where
  "request_outbound c request header =
     \<lparr>ob_Method = http_method (ac_Method (hq_Capability request)),
      ob_URL = client_target c (hq_Path request) (hq_Query request),
      ob_Header = header, ob_Body = hq_Body request\<rparr>"

definition client_attempt ::
    "net \<Rightarrow> client \<Rightarrow> client_request \<Rightarrow> outbound list
       \<Rightarrow> client_response app_result \<times> outbound list" where
  "client_attempt net c request sent =
     (if \<not> list_all token_char (ac_Method (hq_Capability request))
      then (Inl (WithOperationID (apperr_New CodeGatewayUnavailable) (hq_OperationID request)), sent)
      else
        (case injectCredential
            (if hq_Body request \<noteq> [] then header_Set ''Content-Type'' ''application/json'' [] else [])
            request of
           Inl e \<Rightarrow> (Inl e, sent)
         | Inr header \<Rightarrow>
             (let ob = request_outbound c request header
              in case http_Do net c ob ob 0 sent of
                   (Inl e, sent') \<Rightarrow> (Inl (translateTransportError e (hq_OperationID request)), sent')
                 | (Inr rp, sent') \<Rightarrow> (read_reply c rp (hq_OperationID request), sent'))))"

text \<open>\<open>c.backoff << (attempt - 2)\<close> on \<open>int64\<close>.\<close>

definition backoff_delay :: "client \<Rightarrow> nat \<Rightarrow> duration" where
  "backoff_delay c attempt = signed_take_bit 63 (cl_backoff c * 2 ^ (attempt - 2))"

definition max_attempts :: "client_request \<Rightarrow> nat" where
  "max_attempts request =
     (if ac_Idempotency (hq_Capability request) = Idempotent then 1 + MaxRetries else 1)"

function client_loop ::
    "net \<Rightarrow> client \<Rightarrow> client_request \<Rightarrow> nat \<Rightarrow> nat \<Rightarrow> app_error option \<Rightarrow> outbound list
       \<Rightarrow> (client_response \<times> app_error option) \<times> outbound list" where
  "client_loop net c request attempts attempt lastErr sent =
     (if attempt > attempts then ((no_response\<lparr>hs_Attempts := attempts\<rparr>, lastErr), sent)
      else if attempt > 1 \<and> \<not> nt_Wait net sent (backoff_delay c attempt)
      then ((no_response, Some (WithOperationID (apperr_New CodeGatewayUnavailable)
              (hq_OperationID request))), sent)
      else
        (case client_attempt net c request sent of
           (Inr response, sent') \<Rightarrow>
             if \<not> retryableStatus (hs_StatusCode response) \<or> attempt = attempts
             then ((response\<lparr>hs_Attempts := attempt\<rparr>, None), sent')
             else client_loop net c request attempts (Suc attempt) None sent'
         | (Inl e, sent') \<Rightarrow>
             if \<not> retryableError e then ((no_response\<lparr>hs_Attempts := attempt\<rparr>, Some e), sent')
             else client_loop net c request attempts (Suc attempt) (Some e) sent'))"
  by pat_completeness auto
termination
  by (relation "measure (\<lambda>(net, c, request, attempts, attempt, lastErr, sent).
        Suc attempts - attempt)") auto

declare client_loop.simps [simp del]

definition client_Do ::
    "net \<Rightarrow> client \<Rightarrow> client_request \<Rightarrow> outbound list
       \<Rightarrow> (client_response \<times> app_error option) \<times> outbound list" where
  "client_Do net c request sent =
     (if \<not> pathAllowed (ac_Path (hq_Capability request)) (hq_Path request)
      then ((no_response, Some (WithOperationID (apperr_New CodePathNotAllowed)
              (hq_OperationID request))), sent)
      else client_loop net c request (max_attempts request) 1 None sent)"

section \<open>What is sent\<close>

text \<open>
  The contract of anything that sends requests: it appends to the requests sent before, a bounded
  number of requests, all of them permitted.
\<close>

definition sends_within :: "(outbound \<Rightarrow> bool) \<Rightarrow> nat \<Rightarrow> (outbound list \<Rightarrow> 'r \<times> outbound list) \<Rightarrow> bool" where
  "sends_within P n f \<longleftrightarrow>
     (\<forall>sent. \<exists>new. snd (f sent) = sent @ new \<and> length new \<le> n \<and> list_all P new)"

lemma sends_withinI:
  assumes "\<And>sent. \<exists>new. snd (f sent) = sent @ new \<and> length new \<le> n \<and> list_all P new"
  shows "sends_within P n f"
  using assms by (simp add: sends_within_def)

lemma sends_withinE:
  assumes "sends_within P n f"
  obtains new where "snd (f sent) = sent @ new" "length new \<le> n" "list_all P new"
  using assms unfolding sends_within_def by blast

lemma sends_within_nothing [simp]: "sends_within P n (\<lambda>sent. (r, sent))"
  by (auto simp: sends_within_def)

lemma sends_within_mono:
  assumes "sends_within P n f" and "n \<le> m" and "\<And>x. P x \<Longrightarrow> Q x"
  shows "sends_within Q m f"
proof (rule sends_withinI)
  fix sent
  obtain new where "snd (f sent) = sent @ new" "length new \<le> n" "list_all P new"
    using assms(1) by (rule sends_withinE)
  then show "\<exists>new. snd (f sent) = sent @ new \<and> length new \<le> m \<and> list_all Q new"
    using assms(2,3) by (intro exI [of _ new]) (auto simp: list_all_iff)
qed

text \<open>Sequencing: the bounds add up.\<close>

lemma sends_within_seq:
  assumes "sends_within P n f" and "\<And>r. sends_within P m (g r)"
  shows "sends_within P (n + m) (\<lambda>sent. case f sent of (r, sent') \<Rightarrow> g r sent')"
proof (rule sends_withinI)
  fix sent
  obtain new where f: "snd (f sent) = sent @ new" "length new \<le> n" "list_all P new"
    using assms(1) by (rule sends_withinE)
  obtain new' where g: "snd (g (fst (f sent)) (sent @ new)) = (sent @ new) @ new'"
    "length new' \<le> m" "list_all P new'" using assms(2) by (rule sends_withinE)
  show "\<exists>new. snd (case f sent of (r, sent') \<Rightarrow> g r sent') = sent @ new \<and> length new \<le> n + m
      \<and> list_all P new"
    using f g by (intro exI [of _ "new @ new'"]) (auto simp: case_prod_unfold)
qed

text \<open>A redirect that the network asked for.\<close>

definition redirect_of :: "net \<Rightarrow> outbound \<Rightarrow> outbound \<Rightarrow> bool" where
  "redirect_of net first o' \<longleftrightarrow> (\<exists>method b u h current rp. o' = redirected first method b u
     \<and> nt_RoundTrip net h current = Inr rp \<and> rp_Location rp = Location u)"

definition on_host :: "client \<Rightarrow> outbound \<Rightarrow> bool" where
  "on_host c o' \<longleftrightarrow> u_Host (ob_URL o') = u_Host (cl_baseURL c)"

lemma http_Do_sends:
  assumes "on_host c current" and "current = first \<or> redirect_of net first current"
    and "via < maxRedirects"
  shows "\<exists>new. snd (http_Do net c first current via sent) = sent @ current # new
     \<and> Suc (length new) \<le> maxRedirects - via
     \<and> list_all (\<lambda>o'. on_host c o' \<and> (o' = first \<or> redirect_of net first o')) (current # new)"
  using assms
proof (induction net c first current via sent rule: http_Do.induct)
  case (1 net c first current via sent)
  let ?P = "\<lambda>o'. on_host c o' \<and> (o' = first \<or> redirect_of net first o')"
  show ?case
  proof (cases "snd (http_Do net c first current via sent) = sent @ [current]")
    case True
    with 1 show ?thesis by (intro exI [of _ "[]"]) auto
  next
    case False
    then obtain rp m b u where rp: "nt_RoundTrip net sent current = Inr rp"
      and b: "redirectBehavior (ob_Method current) (rp_Status rp) = Some (m, b)"
      and u: "rp_Location rp = Location u"
      and ok: "checkRedirect c (redirected first m b u) (Suc via) = None"
      by (subst (asm) http_Do.simps)
        (auto split: sum.splits option.splits location.splits)
    let ?next = "redirected first m b u"
    from ok have host: "on_host c ?next" and via: "Suc via < maxRedirects"
      by (auto simp: checkRedirect_def on_host_def split: if_splits)
    have red: "redirect_of net first ?next" using rp u unfolding redirect_of_def by blast
    obtain new where new: "snd (http_Do net c first ?next (Suc via) (sent @ [current]))
        = (sent @ [current]) @ ?next # new" "Suc (length new) \<le> maxRedirects - Suc via"
      "list_all ?P (?next # new)"
      using 1(1) [OF rp b refl u ok host disjI2 [OF red] via] by blast
    have "http_Do net c first current via sent
        = http_Do net c first ?next (Suc via) (sent @ [current])"
      using rp b u ok by (subst http_Do.simps) simp
    with new via 1(2,3) show ?thesis by (intro exI [of _ "?next # new"]) auto
  qed
qed

text \<open>The requests a call may make: the one built from the declared method, the checked path and
  the query, or a redirect of it, and always to the host of the base address.\<close>

definition built_from :: "client \<Rightarrow> client_request \<Rightarrow> outbound \<Rightarrow> bool" where
  "built_from c request o' \<longleftrightarrow> ob_Method o' = http_method (ac_Method (hq_Capability request))
     \<and> ob_URL o' = client_target c (hq_Path request) (hq_Query request)
     \<and> ob_Body o' = hq_Body request"

definition permitted :: "net \<Rightarrow> client \<Rightarrow> client_request \<Rightarrow> outbound \<Rightarrow> bool" where
  "permitted net c request o' \<longleftrightarrow> on_host c o'
     \<and> (\<exists>first. built_from c request first \<and> (o' = first \<or> redirect_of net first o'))"

lemma client_attempt_sends: "sends_within (permitted net c request) maxRedirects (client_attempt net c request)"
proof (rule sends_withinI)
  fix sent
  show "\<exists>new. snd (client_attempt net c request sent) = sent @ new \<and> length new \<le> maxRedirects
      \<and> list_all (permitted net c request) new"
  proof (cases "snd (client_attempt net c request sent) = sent")
    case False
    then obtain header where run: "snd (client_attempt net c request sent)
        = snd (http_Do net c (request_outbound c request header) (request_outbound c request header) 0 sent)"
      by (auto simp: client_attempt_def Let_def split: if_splits sum.splits prod.splits) (metis snd_conv)+
    let ?ob = "request_outbound c request header"
    have built: "built_from c request ?ob" by (simp add: request_outbound_def built_from_def)
    have "on_host c ?ob" by (simp add: request_outbound_def on_host_def client_target_def)
    then obtain new where "snd (http_Do net c ?ob ?ob 0 sent) = sent @ ?ob # new"
      "Suc (length new) \<le> maxRedirects"
      "list_all (\<lambda>o'. on_host c o' \<and> (o' = ?ob \<or> redirect_of net ?ob o')) (?ob # new)"
      using http_Do_sends [of c ?ob ?ob net 0 sent] by (auto simp: maxRedirects_def)
    then show ?thesis unfolding run
      using built by (intro exI [of _ "?ob # new"]) (auto simp: permitted_def list_all_iff)
  qed simp
qed

text \<open>One round of the loop: it stops before sending, stops with the outcome of this attempt, or
  goes on to the next attempt.\<close>

lemma client_loop_step:
  assumes "client_attempt net c request sent = (out, sent')"
  obtains (stop) "snd (client_loop net c request attempts attempt lastErr sent) = sent"
  | (once) "attempt \<le> attempts"
      "snd (client_loop net c request attempts attempt lastErr sent) = sent'"
  | (again) err where "attempt \<le> attempts"
      "client_loop net c request attempts attempt lastErr sent
         = client_loop net c request attempts (Suc attempt) err sent'"
proof -
  note unfold = client_loop.simps [of net c request attempts attempt]
  consider "attempt > attempts \<or> attempt > 1 \<and> \<not> nt_Wait net sent (backoff_delay c attempt)"
    | "attempt \<le> attempts" "\<not> (attempt > 1 \<and> \<not> nt_Wait net sent (backoff_delay c attempt))"
    by linarith
  then show thesis
  proof cases
    case 1
    then show thesis by (intro stop) (auto simp: unfold)
  next
    case 2
    show thesis
    proof (cases out)
      case (Inl e)
      with 2 assms show thesis
        by (cases "retryableError e") (auto simp: unfold intro: once again)
    next
      case (Inr response)
      show thesis
      proof (cases "\<not> retryableStatus (hs_StatusCode response) \<or> attempt = attempts")
        case True
        with 2 assms Inr show thesis by (intro once) (auto simp: unfold)
      next
        case False
        with 2 assms Inr show thesis by (intro again) (auto simp: unfold)
      qed
    qed
  qed
qed

lemma client_loop_sends:
  "sends_within (permitted net c request) (maxRedirects * (Suc attempts - attempt))
     (client_loop net c request attempts attempt lastErr)"
proof (induction "Suc attempts - attempt" arbitrary: attempt lastErr)
  case 0
  then have "client_loop net c request attempts attempt lastErr
      = (\<lambda>sent. ((no_response\<lparr>hs_Attempts := attempts\<rparr>, lastErr), sent))"
    by (intro ext) (simp add: client_loop.simps)
  then show ?case by simp
next
  case (Suc n)
  let ?P = "permitted net c request"
  show ?case
  proof (rule sends_withinI)
    fix sent
    obtain out sent' where out: "client_attempt net c request sent = (out, sent')"
      by (cases "client_attempt net c request sent")
    obtain new where new: "sent' = sent @ new" "length new \<le> maxRedirects" "list_all ?P new"
      using client_attempt_sends [of net c request] out by (metis sends_withinE snd_conv)
    show "\<exists>new. snd (client_loop net c request attempts attempt lastErr sent) = sent @ new
        \<and> length new \<le> maxRedirects * (Suc attempts - attempt) \<and> list_all ?P new"
      using out
    proof (cases rule: client_loop_step [of net c request sent out sent' attempts attempt lastErr])
      case stop
      then show ?thesis by simp
    next
      case once
      with new Suc(2) show ?thesis by (intro exI [of _ new]) (simp flip: Suc(2))
    next
      case (again err)
      have "n = Suc attempts - Suc attempt" using Suc(2) by simp
      from Suc(1) [OF this] obtain more where
        "snd (client_loop net c request attempts (Suc attempt) err sent') = sent' @ more"
        "length more \<le> maxRedirects * n" "list_all ?P more"
        using \<open>n = _\<close> by (metis sends_withinE)
      with again(2) new show ?thesis
        by (intro exI [of _ "new @ more"]) (simp flip: Suc(2))
    qed
  qed
qed

lemma client_Do_sends:
  "sends_within (permitted net c request) (maxRedirects * max_attempts request)
     (client_Do net c request)"
proof (cases "pathAllowed (ac_Path (hq_Capability request)) (hq_Path request)")
  case True
  then have "client_Do net c request = client_loop net c request (max_attempts request) 1 None"
    by (intro ext) (simp add: client_Do_def)
  then show ?thesis using client_loop_sends [of net c request "max_attempts request" 1 None] by simp
next
  case False
  then have "client_Do net c request = (\<lambda>sent. ((no_response, Some (WithOperationID
      (apperr_New CodePathNotAllowed) (hq_OperationID request))), sent))"
    by (intro ext) (simp add: client_Do_def)
  then show ?thesis by simp
qed

lemma client_Do_only_allowed:
  assumes "snd (client_Do net c request sent) \<noteq> sent"
  shows "pathAllowed (ac_Path (hq_Capability request)) (hq_Path request)"
  using assms by (auto simp: client_Do_def split: if_splits)


section \<open>Sample runs\<close>

definition sample_client :: client where
  "sample_client = \<lparr>cl_baseURL = \<lparr>u_Scheme = ''https'', u_User = None, u_Host = ''api.test'',
     u_Path = ''/v4'', u_RawQuery = [], u_Fragment = []\<rparr>, cl_timeout = DefaultTimeout,
     cl_maxBytes = DefaultMaxResponseBytes, cl_backoff = DefaultBackoff\<rparr>"

definition sample_request :: client_request where
  "sample_request = \<lparr>hq_Capability = example_delete, hq_Path = ''/zones/z1'', hq_Query = [],
     hq_Body = [], hq_AuthScheme = AuthBearer, hq_AuthHeader = [], hq_Credential = ''s3cret'',
     hq_OperationID = ''op1''\<rparr>"

definition answer :: "int \<Rightarrow> string \<Rightarrow> reply" where
  "answer status body = \<lparr>rp_Status = status, rp_Location = NoLocation, rp_Body = body,
     rp_ReadError = None, rp_CloseOK = True\<rparr>"

text \<open>A service that fails once and then answers.\<close>

definition flaky_net :: net where
  "flaky_net = \<lparr>nt_RoundTrip = (\<lambda>sent o'. Inr (if sent = [] then answer 500 [] else answer 200 ''ok'')),
     nt_Wait = (\<lambda>sent d. True)\<rparr>"

lemma sample_allowed: "pathAllowed (ac_Path (hq_Capability sample_request)) (hq_Path sample_request)"
  by code_simp

lemmas client_run = client_Do_def client_loop.simps client_attempt_def http_Do.simps
  read_reply_def Let_def max_attempts_def MaxRetries_def maxRedirects_def retryableStatus_def
  redirectBehavior_def request_outbound_def checkRedirect_def redirected_def no_response_def

definition sample_target :: url where
  "sample_target = \<lparr>u_Scheme = ''https'', u_User = None, u_Host = ''api.test'',
     u_Path = ''/v4/zones/z1'', u_RawQuery = [], u_Fragment = []\<rparr>"

lemma sample_parts [simp]:
  "client_target sample_client (hq_Path sample_request) (hq_Query sample_request) = sample_target"
  "injectCredential [] sample_request = Inr [(''Authorization'', ''Bearer s3cret'')]"
  "list_all token_char (ac_Method (hq_Capability sample_request))"
  "http_method (ac_Method (hq_Capability sample_request)) = ''DELETE''"
  "ac_Idempotency (hq_Capability sample_request) = Idempotent"
  "hq_Body sample_request = []" "cl_maxBytes sample_client = 4194304"
  "u_Host (cl_baseURL sample_client) = ''api.test''"
  by code_simp+


text \<open>
  The redirect check looks at the host alone.  A service that answers a declared request with a
  temporary redirect to another path of the same host, over plain HTTP, is followed there with the
  same method, and the credential goes along: neither the path template nor the scheme of the base
  address binds the second request.
\<close>

definition downgrading_net :: net where
  "downgrading_net = \<lparr>nt_RoundTrip = (\<lambda>sent o'. Inr (if sent = []
       then (answer 307 [])\<lparr>rp_Location := Location ((ob_URL o')\<lparr>u_Scheme := ''http'',
              u_Path := ''/v4/accounts/a1''\<rparr>)\<rparr>
       else answer 200 [])), nt_Wait = (\<lambda>sent d. True)\<rparr>"

lemma redirect_leaves_the_template:
  "map (\<lambda>o'. (ob_Method o', u_Scheme (ob_URL o'), u_Path (ob_URL o'), ob_Header o'))
       (snd (client_Do downgrading_net sample_client sample_request []))
     = [(''DELETE'', ''https'', ''/v4/zones/z1'', [(''Authorization'', ''Bearer s3cret'')]),
        (''DELETE'', ''http'', ''/v4/accounts/a1'', [(''Authorization'', ''Bearer s3cret'')])]
   \<and> \<not> pathAllowed (ac_Path (hq_Capability sample_request)) ''/accounts/a1''"
proof
  show "map (\<lambda>o'. (ob_Method o', u_Scheme (ob_URL o'), u_Path (ob_URL o'), ob_Header o'))
       (snd (client_Do downgrading_net sample_client sample_request []))
     = [(''DELETE'', ''https'', ''/v4/zones/z1'', [(''Authorization'', ''Bearer s3cret'')]),
        (''DELETE'', ''http'', ''/v4/accounts/a1'', [(''Authorization'', ''Bearer s3cret'')])]"
    by (simp add: client_run sample_allowed downgrading_net_def answer_def sample_target_def)
qed code_simp

end
