(* ===== verification/Adapter_Redact.thy ===== *)
theory Adapter_Redact
  imports Adapter_Client Redaction
begin

text \<open>
  Model of \<open>internal/adapter/registry/redact.go\<close>: how the answer of an external service is cut
  down to what an agent may see, and of \<open>RedactActionsLog\<close> of \<open>adapter/github/adapter.go\<close>.  The
  decoder of JSON text and the parser and printer of addresses are parameters; the regular
  expressions are written out as matchers at a position.
\<close>

section \<open>Sensitive names\<close>

definition RedactedMarker :: string where "RedactedMarker = ''[redacted]''"

definition redactionWords :: "string list" where
  "redactionWords = [''authorization'', ''cookie'', ''token'', ''apikey'', ''password'', ''secret'',
     ''privatekey'', ''credential'']"

definition normalize :: "string \<Rightarrow> string" where
  "normalize key = strip_chars ''-_ '' (to_lower key)"

definition normalizeAll :: "string list \<Rightarrow> string list" where
  "normalizeAll keys = map normalize keys"

definition sensitiveKey :: "string \<Rightarrow> string list \<Rightarrow> bool" where
  "sensitiveKey key extra \<longleftrightarrow> list_ex (str_contains (normalize key)) redactionWords
     \<or> list_ex (\<lambda>word. word \<noteq> [] \<and> str_contains (normalize key) word) extra"

section \<open>Addresses\<close>

text \<open>\<open>url.QueryUnescape\<close> and the keys of \<open>url.URL.Query\<close>: a pair with a semicolon or a bad escape
  is skipped.\<close>

definition hex_value :: "char \<Rightarrow> nat option" where
  "hex_value c =
     (if CHR ''0'' \<le> c \<and> c \<le> CHR ''9'' then Some (of_char c - 48)
      else if CHR ''A'' \<le> c \<and> c \<le> CHR ''F'' then Some (of_char c - 55)
      else if CHR ''a'' \<le> c \<and> c \<le> CHR ''f'' then Some (of_char c - 87)
      else None)"

fun QueryUnescape :: "string \<Rightarrow> string option" where
  "QueryUnescape [] = Some []"
| "QueryUnescape (c # cs) =
     (if c = CHR ''%'' then
        (case cs of
           h # l # rest \<Rightarrow>
             (case (hex_value h, hex_value l) of
                (Some x, Some y) \<Rightarrow> map_option ((#) (char_of (16 * x + y))) (QueryUnescape rest)
              | _ \<Rightarrow> None)
         | _ \<Rightarrow> None)
      else map_option ((#) (if c = CHR ''+'' then CHR '' '' else c)) (QueryUnescape cs))"

definition pair_key :: "string \<Rightarrow> string option" where
  "pair_key pair =
     (if pair = [] \<or> CHR '';'' \<in> set pair then None
      else case QueryUnescape (takeWhile (\<lambda>c. c \<noteq> CHR ''='') pair) of
             None \<Rightarrow> None
           | Some key \<Rightarrow>
               (case QueryUnescape (drop 1 (dropWhile (\<lambda>c. c \<noteq> CHR ''='') pair)) of
                  None \<Rightarrow> None | Some _ \<Rightarrow> Some key))"

definition query_keys :: "string \<Rightarrow> string list" where
  "query_keys raw = List.map_filter pair_key (split_on (CHR ''&'') raw)"

record url_lib =
  ul_Parse :: "string \<Rightarrow> url option"
  ul_String :: "url \<Rightarrow> string"

definition scrubURL :: "url_lib \<Rightarrow> string \<Rightarrow> string" where
  "scrubURL lib value =
     (if \<not> str_contains value ''?'' then value
      else case ul_Parse lib value of
             None \<Rightarrow> value
           | Some parsed \<Rightarrow>
               if u_RawQuery parsed = [] then value
               else if list_ex (\<lambda>key. sensitiveKey key []) (query_keys (u_RawQuery parsed))
               then ul_String lib (parsed\<lparr>u_RawQuery := []\<rparr>)
               else value)"

section \<open>Documents\<close>

fun scrub :: "url_lib \<Rightarrow> string list \<Rightarrow> json \<Rightarrow> json" where
  "scrub lib extra (JObj kvs) = JObj (gm_of_list
     (map (\<lambda>(k, v). (k, if sensitiveKey k extra then JStr RedactedMarker else scrub lib extra v)) kvs))"
| "scrub lib extra (JArr vs) = JArr (map (scrub lib extra) vs)"
| "scrub lib extra (JStr s) = JStr (scrubURL lib s)"
| "scrub lib extra j = j"

definition pickAllowed ::
    "url_lib \<Rightarrow> (string \<times> json) list \<Rightarrow> string list \<Rightarrow> string list \<Rightarrow> json" where
  "pickAllowed lib object allowed extra = JObj (gm_of_list
     (map (\<lambda>(k, v). (k, if sensitiveKey k extra then JStr RedactedMarker else scrub lib extra v))
       (filter (\<lambda>(k, v). k \<in> set allowed) object)))"

fun pick_items ::
    "url_lib \<Rightarrow> json list \<Rightarrow> string list \<Rightarrow> string list \<Rightarrow> json list option" where
  "pick_items lib [] allowed extra = Some []"
| "pick_items lib (JObj object # items) allowed extra =
     map_option ((#) (pickAllowed lib object allowed extra)) (pick_items lib items allowed extra)"
| "pick_items lib (_ # items) allowed extra = None"

definition filterTop :: "url_lib \<Rightarrow> json \<Rightarrow> string list \<Rightarrow> string list \<Rightarrow> json option" where
  "filterTop lib decoded allowed extra =
     (case decoded of
        JObj object \<Rightarrow> Some (pickAllowed lib object allowed extra)
      | JArr items \<Rightarrow> map_option JArr (pick_items lib items allowed extra)
      | _ \<Rightarrow> None)"

definition capability_rules :: "adapter_capability \<Rightarrow> string list" where
  "capability_rules c = (case ac_RedactionRules c of None \<Rightarrow> [] | Some rs \<Rightarrow> rs)"

text \<open>\<open>decode\<close> is what \<open>json.Unmarshal\<close> makes of the body; \<open>None\<close> is a nil \<open>RawMessage\<close>.\<close>

definition redact_document :: "url_lib \<Rightarrow> json \<Rightarrow> adapter_capability \<Rightarrow> json option app_result" where
  "redact_document lib decoded c =
     (case filterTop lib decoded (ac_ResponseFields c) (normalizeAll (capability_rules c)) of
        None \<Rightarrow> Inl (apperr_New CodeInternal)
      | Some filtered \<Rightarrow> Inr (Some filtered))"

definition Redact ::
    "(string \<Rightarrow> jtext) \<Rightarrow> url_lib \<Rightarrow> string \<Rightarrow> adapter_capability \<Rightarrow> json option app_result" where
  "Redact decode lib body c =
     (if body = [] then Inr None
      else case decode body of
             Parsed decoded \<Rightarrow> redact_document lib decoded c
           | _ \<Rightarrow> Inl (apperr_New CodeInternal))"

section \<open>Results\<close>

record resource_change =
  rc_Resource :: string
  rc_Field :: string
  rc_Before :: string
  rc_After :: string

record adapter_outcome =
  ao_OK :: bool
  ao_OperationID :: string
  ao_Data :: "json option"
  ao_Changes :: "resource_change list"
  ao_Error :: "(string \<times> string) option"
  ao_UpstreamStatus :: int

definition Success :: "string \<Rightarrow> json option \<Rightarrow> resource_change list \<Rightarrow> adapter_outcome" where
  "Success operationID data changes = \<lparr>ao_OK = True, ao_OperationID = operationID, ao_Data = data,
     ao_Changes = changes, ao_Error = None, ao_UpstreamStatus = 0\<rparr>"

definition Failure :: "string \<Rightarrow> app_error \<Rightarrow> adapter_outcome" where
  "Failure operationID err =
     (let public = PublicOf (Some err) operationID in
      \<lparr>ao_OK = False, ao_OperationID = pub_OperationID public, ao_Data = None, ao_Changes = [],
       ao_Error = Some (code_String (pub_Code public), pub_Message public), ao_UpstreamStatus = 0\<rparr>)"

definition FromUpstream :: "int \<Rightarrow> adapter_outcome \<Rightarrow> adapter_outcome" where
  "FromUpstream status r = r\<lparr>ao_UpstreamStatus := status\<rparr>"

text \<open>The JSON document that \<open>json.Marshal\<close> writes of a result: empty members are left out, the
  upstream status never appears.\<close>

definition encode_change :: "resource_change \<Rightarrow> json" where
  "encode_change ch = JObj ([(''resource'', JStr (rc_Resource ch)), (''field'', JStr (rc_Field ch))]
     @ (if rc_Before ch = [] then [] else [(''before'', JStr (rc_Before ch))])
     @ (if rc_After ch = [] then [] else [(''after'', JStr (rc_After ch))]))"

definition encode_result :: "adapter_outcome \<Rightarrow> json" where
  "encode_result r = JObj ([(''ok'', JBool (ao_OK r)), (''operation_id'', JStr (ao_OperationID r))]
     @ (case ao_Data r of None \<Rightarrow> [] | Some d \<Rightarrow> [(''data'', d)])
     @ (if ao_Changes r = [] then [] else [(''changes'', JArr (map encode_change (ao_Changes r)))])
     @ (case ao_Error r of None \<Rightarrow> []
        | Some (code, message) \<Rightarrow>
            [(''error'', JObj [(''code'', JStr code), (''message'', JStr message)])]))"

section \<open>Text\<close>

text \<open>
  \<open>regexp\<close> replaces the leftmost matches from left to right.  A matcher looks at the start of the
  remaining text and yields the length of its match and what replaces it.
\<close>

type_synonym matcher = "string \<Rightarrow> (nat \<times> string) option"

function replace_all :: "matcher \<Rightarrow> string \<Rightarrow> string" where
  "replace_all m [] = []"
| "replace_all m (c # cs) =
     (case m (c # cs) of
        None \<Rightarrow> c # replace_all m cs
      | Some (n, replacement) \<Rightarrow>
          if n = 0 then c # replace_all m cs else replacement @ replace_all m (drop (n - 1) cs))"
  by pat_completeness auto
termination by (relation "measure (\<lambda>(m, s). length s)") auto

text \<open>The class \<open>\s\<close> of Go's \<open>regexp\<close>, and the classes of the patterns.\<close>

definition re_space :: "char \<Rightarrow> bool" where
  "re_space c \<longleftrightarrow> of_char c \<in> {9, 10, 12, 13, 32 :: nat}"

definition line_end :: "char \<Rightarrow> bool" where
  "line_end c \<longleftrightarrow> of_char c \<in> {10, 13 :: nat}"

definition alnum :: "char \<Rightarrow> bool" where
  "alnum c \<longleftrightarrow> is_upper_char c \<or> is_lower_char c \<or> CHR ''0'' \<le> c \<and> c \<le> CHR ''9''"

definition name_char :: "char \<Rightarrow> bool" where
  "name_char c \<longleftrightarrow> alnum c \<or> c = CHR ''_'' \<or> c = CHR ''-''"

text \<open>\<open>urlToken\<close>: \<open>https?://\<close> and at least one character that is no space, quote or angle.\<close>

definition url_token_char :: "char \<Rightarrow> bool" where
  "url_token_char c \<longleftrightarrow> \<not> re_space c \<and> c \<notin> set [CHR 0x22, CHR 0x27, CHR ''<'', CHR ''>'']"

definition urlToken :: "url_lib \<Rightarrow> matcher" where
  "urlToken lib s =
     (let scheme = (if has_prefix s ''https://'' then 8 else if has_prefix s ''http://'' then 7 else 0);
          body = takeWhile url_token_char (drop scheme s)
      in if scheme = 0 \<or> body = [] then None
         else Some (scheme + length body, scrubURL lib (take scheme s @ body)))"

text \<open>A name, the separator with spaces around it, and what is left after them.\<close>

definition name_and_separator :: "char \<Rightarrow> string \<Rightarrow> (string \<times> string \<times> string \<times> string) option" where
  "name_and_separator sep s =
     (let key = takeWhile name_char s;
          after_key = dropWhile name_char s;
          spaces = takeWhile re_space after_key;
          rest = dropWhile re_space after_key
      in if key = [] \<or> rest = [] \<or> hd rest \<noteq> sep then None
         else Some (key, key @ spaces @ [sep], takeWhile re_space (tl rest),
                dropWhile re_space (tl rest)))"

text \<open>\<open>equalsAssignment\<close>: the value reaches to the next space or ampersand.  \<open>colonAssignment\<close>: the
  value reaches to the end of the line; at the end of the text the last space that is no line end
  serves as the value.  Both yield the name, the text before the value, and the value.\<close>

definition equals_value :: "string \<Rightarrow> string \<Rightarrow> (string \<times> string) option" where
  "equals_value spaces rest =
     (let value = takeWhile (\<lambda>c. \<not> re_space c \<and> c \<noteq> CHR ''&'') rest
      in if value = [] then None else Some (spaces, value))"

definition colon_value :: "string \<Rightarrow> string \<Rightarrow> (string \<times> string) option" where
  "colon_value spaces rest =
     (if rest \<noteq> [] then Some (spaces, takeWhile (\<lambda>c. \<not> line_end c) rest)
      else (case dropWhile line_end (rev spaces) of
              [] \<Rightarrow> None
            | v # before \<Rightarrow> Some (rev before, [v])))"

definition assignment ::
    "char \<Rightarrow> (string \<Rightarrow> string \<Rightarrow> (string \<times> string) option) \<Rightarrow> string
       \<Rightarrow> (string \<times> string \<times> string) option" where
  "assignment sep value_of s =
     (case name_and_separator sep s of
        None \<Rightarrow> None
      | Some (key, head, spaces, rest) \<Rightarrow>
          (case value_of spaces rest of
             None \<Rightarrow> None
           | Some (spaces', value) \<Rightarrow> Some (key, head @ spaces', value)))"

definition maskAssignments ::
    "char \<Rightarrow> (string \<Rightarrow> string \<Rightarrow> (string \<times> string) option) \<Rightarrow> string list \<Rightarrow> string \<Rightarrow> string" where
  "maskAssignments sep value_of extra = replace_all (\<lambda>s.
     case assignment sep value_of s of
       None \<Rightarrow> None
     | Some (key, head, value) \<Rightarrow> Some (length head + length value,
         if sensitiveKey key extra then head @ RedactedMarker else head @ value))"

definition RedactText :: "url_lib \<Rightarrow> string \<Rightarrow> string list \<Rightarrow> string" where
  "RedactText lib text extra =
     maskAssignments (CHR '':'') colon_value (normalizeAll extra)
       (maskAssignments (CHR ''='') equals_value (normalizeAll extra)
         (replace_all (urlToken lib) text))"

text \<open>\<open>githubTokenPattern\<close> and \<open>RedactActionsLog\<close>.\<close>

definition githubToken :: matcher where
  "githubToken s =
     (let classic = takeWhile alnum (drop 4 s);
          fine = takeWhile (\<lambda>c. alnum c \<or> c = CHR ''_'') (drop 11 s)
      in if has_prefix s ''gh'' \<and> 4 \<le> length s \<and> s ! 2 \<in> set ''pousr'' \<and> s ! 3 = CHR ''_''
            \<and> 16 \<le> length classic
         then Some (4 + length classic, RedactedMarker)
         else if has_prefix s ''github_pat_'' \<and> 20 \<le> length fine
         then Some (11 + length fine, RedactedMarker)
         else None)"

definition RedactActionsLog :: "url_lib \<Rightarrow> string \<Rightarrow> string list \<Rightarrow> string" where
  "RedactActionsLog lib text extraRules =
     RedactText lib (replace_all githubToken text) extraRules"

text \<open>
  A line of an Actions log starts with its timestamp.  The colon in the time of day makes the
  timestamp an assignment of its own whose value is the rest of the line, so a header later on
  that line is never looked at; without the timestamp it is masked.
\<close>

definition no_urls :: url_lib where
  "no_urls = \<lparr>ul_Parse = (\<lambda>s. None), ul_String = (\<lambda>u. [])\<rparr>"

lemma timestamp_hides_header:
  "RedactActionsLog no_urls ''2024-05-01T10:00Z Authorization: Bearer abc'' []
     = ''2024-05-01T10:00Z Authorization: Bearer abc''
   \<and> RedactActionsLog no_urls ''Authorization: Bearer abc'' [] = ''Authorization: [redacted]''"
  by code_simp

section \<open>What reaches the agent\<close>

text \<open>An address is discreet when no name in its query is sensitive; a document, when no member with
  a sensitive name, at any depth, holds anything but the marker, and every text is discreet.\<close>

definition discreet_text :: "url_lib \<Rightarrow> string \<Rightarrow> bool" where
  "discreet_text lib s \<longleftrightarrow> str_contains s ''?'' \<longrightarrow>
     (case ul_Parse lib s of None \<Rightarrow> True
      | Some u \<Rightarrow> u_RawQuery u \<noteq> [] \<longrightarrow> \<not> list_ex (\<lambda>key. sensitiveKey key []) (query_keys (u_RawQuery u)))"

fun discreet :: "url_lib \<Rightarrow> string list \<Rightarrow> json \<Rightarrow> bool" where
  "discreet lib extra (JObj kvs) = list_all (\<lambda>(k, v).
     (sensitiveKey k extra \<longrightarrow> v = JStr RedactedMarker) \<and> discreet lib extra v) kvs"
| "discreet lib extra (JArr vs) = list_all (discreet lib extra) vs"
| "discreet lib extra (JStr s) = discreet_text lib s"
| "discreet lib extra j = True"

text \<open>Printing an address without its query and parsing it again gives an address without a
  query.\<close>

definition faithful_urls :: "url_lib \<Rightarrow> bool" where
  "faithful_urls lib \<longleftrightarrow> (\<forall>s u v. ul_Parse lib s = Some u
     \<longrightarrow> ul_Parse lib (ul_String lib (u\<lparr>u_RawQuery := []\<rparr>)) = Some v \<longrightarrow> u_RawQuery v = [])"

lemma discreet_scrubURL: "faithful_urls lib \<Longrightarrow> discreet_text lib (scrubURL lib s)"
  by (auto simp: discreet_text_def scrubURL_def faithful_urls_def split: option.splits if_splits)

lemma scrubURL_discreet: "discreet_text lib s \<Longrightarrow> scrubURL lib s = s"
  by (auto simp: discreet_text_def scrubURL_def split: option.splits)

lemma discreet_marker [simp]: "discreet_text lib RedactedMarker"
proof -
  have "\<not> str_contains RedactedMarker ''?''" by code_simp
  then show ?thesis by (simp add: discreet_text_def)
qed

text \<open>The members of a mapped object.\<close>

lemma gm_of_list_member:
  assumes "(k, w) \<in> set (gm_of_list (map (\<lambda>(k, v). (k, f k v)) kvs))"
  obtains v where "(k, v) \<in> set kvs" "w = f k v"
  using assms gm_of_list_set [of "map (\<lambda>(k, v). (k, f k v)) kvs"] by fastforce

abbreviation mask :: "url_lib \<Rightarrow> string list \<Rightarrow> string \<Rightarrow> json \<Rightarrow> json" where
  "mask lib extra k v \<equiv> (if sensitiveKey k extra then JStr RedactedMarker else scrub lib extra v)"

lemma discreet_scrub: "faithful_urls lib \<Longrightarrow> discreet lib extra (scrub lib extra j)"
proof (induction lib extra j rule: scrub.induct)
  case (1 lib extra kvs)
  show ?case
    by (auto simp: list_all_iff elim!: gm_of_list_member [of _ _ "mask lib extra"] split: if_splits)
      (use 1 in auto)
next
  case (2 lib extra vs)
  then show ?case by (auto simp: list_all_iff)
qed (simp_all add: discreet_scrubURL)

lemma canonical_scrub: "canonical_json (scrub lib extra j)"
proof (induction lib extra j rule: scrub.induct)
  case (1 lib extra kvs)
  show ?case
    by (auto simp: list_all_iff elim!: gm_of_list_member [of _ _ "mask lib extra"] split: if_splits)
      (use 1 in auto)
next
  case (2 lib extra vs)
  then show ?case by (auto simp: list_all_iff)
qed simp_all

lemma scrub_id: "discreet lib extra j \<Longrightarrow> canonical_json j \<Longrightarrow> scrub lib extra j = j"
proof (induction lib extra j rule: scrub.induct)
  case (1 lib extra kvs)
  have "mask lib extra k v = v" if "(k, v) \<in> set kvs" for k v
    using 1 that by (fastforce simp: list_all_iff)
  then have "map (\<lambda>(k, v). (k, mask lib extra k v)) kvs = kvs" by (intro map_idI) auto
  with 1 show ?case using gm_of_list_id [of kvs] by simp
next
  case (2 lib extra vs)
  then show ?case by (auto simp: list_all_iff intro: map_idI)
qed (simp_all add: scrubURL_discreet)

lemma pickAllowed_fields:
  "\<exists>kvs. pickAllowed lib object allowed extra = JObj kvs \<and> fst ` set kvs \<subseteq> set allowed"
  unfolding pickAllowed_def
  by (auto elim!: gm_of_list_member [of _ _ "mask lib extra"])

lemma pickAllowed_discreet:
  assumes "faithful_urls lib"
  shows "discreet lib extra (pickAllowed lib object allowed extra)"
    and "canonical_json (pickAllowed lib object allowed extra)"
  unfolding pickAllowed_def
  by (auto simp: list_all_iff discreet_scrub [OF assms] canonical_scrub
      elim!: gm_of_list_member [of _ _ "mask lib extra"] split: if_splits)

lemma pickAllowed_id:
  assumes "discreet lib extra (JObj kvs)" and "canonical_json (JObj kvs)"
    and "fst ` set kvs \<subseteq> set allowed"
  shows "pickAllowed lib kvs allowed extra = JObj kvs"
proof -
  have "filter (\<lambda>(k, v). k \<in> set allowed) kvs = kvs" using assms(3) by (intro filter_True) auto
  then show ?thesis using scrub_id [OF assms(1,2)] by (simp add: pickAllowed_def)
qed

lemma pickAllowed_twice:
  assumes "faithful_urls lib"
  shows "\<exists>kvs. pickAllowed lib object allowed extra = JObj kvs
     \<and> pickAllowed lib kvs allowed extra = JObj kvs"
  using pickAllowed_fields [of lib object allowed extra] pickAllowed_discreet [OF assms]
    pickAllowed_id by metis

lemma pick_items_Some:
  assumes "faithful_urls lib" and "pick_items lib items allowed extra = Some picked"
  shows "pick_items lib picked allowed extra = Some picked
     \<and> (\<forall>i \<in> set picked. \<exists>object. i = pickAllowed lib object allowed extra)"
  using assms(2)
proof (induction items arbitrary: picked)
  case (Cons item items)
  then obtain object rest where item: "item = JObj object"
    and rest: "pick_items lib items allowed extra = Some rest"
      "picked = pickAllowed lib object allowed extra # rest"
    by (cases item) auto
  obtain kvs where "pickAllowed lib object allowed extra = JObj kvs"
    "pickAllowed lib kvs allowed extra = JObj kvs" using pickAllowed_twice [OF assms(1)] by blast
  then show ?case using Cons.IH [OF rest(1)] rest(2) by auto metis
qed simp

definition whitelisted :: "string list \<Rightarrow> json \<Rightarrow> bool" where
  "whitelisted allowed j \<longleftrightarrow> (\<exists>kvs. j = JObj kvs \<and> fst ` set kvs \<subseteq> set allowed)"

lemma redact_document_discreet:
  assumes "faithful_urls lib"
    and "redact_document lib decoded c = Inr (Some j)"
  shows "(whitelisted (ac_ResponseFields c) j
      \<or> (\<exists>items. j = JArr items \<and> list_all (whitelisted (ac_ResponseFields c)) items))
    \<and> discreet lib (normalizeAll (capability_rules c)) j
    \<and> filterTop lib j (ac_ResponseFields c) (normalizeAll (capability_rules c)) = Some j"
proof -
  let ?f = "ac_ResponseFields c" and ?x = "normalizeAll (capability_rules c)"
  from assms(2) have d: "filterTop lib decoded ?f ?x = Some j"
    by (auto simp: redact_document_def split: option.splits)
  have picked: "whitelisted ?f (pickAllowed lib object ?f ?x)
      \<and> discreet lib ?x (pickAllowed lib object ?f ?x)" for object
    using pickAllowed_fields pickAllowed_discreet(1) [OF assms(1)] unfolding whitelisted_def by blast
  from d consider object where "j = pickAllowed lib object ?f ?x"
    | items picked where "pick_items lib items ?f ?x = Some picked" "j = JArr picked"
    by (auto simp: filterTop_def split: json.splits)
  then show ?thesis
  proof cases
    case 1
    then show ?thesis using picked pickAllowed_twice [OF assms(1), of object ?f ?x]
      by (auto simp: filterTop_def)
  next
    case 2
    then show ?thesis using pick_items_Some [OF assms(1) 2(1)] picked
      by (auto simp: filterTop_def list_all_iff)
  qed
qed

text \<open>C17: Only declared fields reach the agent, and none of them tells a secret.  Whatever the
  external service answers, what \<open>Redact\<close> returns is an object, or a list of objects, that has
  only fields of the capability's response whitelist; at every depth a member with a sensitive
  name holds the marker and a text that is an address has no sensitive name in its query; and
  redacting it a second time would change nothing.\<close>

theorem redacted_answer_is_discreet:
  assumes "faithful_urls lib"
    and "Redact decode lib body c = Inr (Some j)"
  shows "(whitelisted (ac_ResponseFields c) j
      \<or> (\<exists>items. j = JArr items \<and> list_all (whitelisted (ac_ResponseFields c)) items))
    \<and> discreet lib (normalizeAll (capability_rules c)) j
    \<and> filterTop lib j (ac_ResponseFields c) (normalizeAll (capability_rules c)) = Some j"
  using assms redact_document_discreet
  by (auto simp: Redact_def split: if_splits jtext.splits)

text \<open>Addresses cut at the first question mark.\<close>

definition plain_urls :: url_lib where
  "plain_urls = \<lparr>
     ul_Parse = (\<lambda>s. Some \<lparr>u_Scheme = [], u_User = None, u_Host = [],
       u_Path = takeWhile (\<lambda>c. c \<noteq> CHR ''?'') s,
       u_RawQuery = drop 1 (dropWhile (\<lambda>c. c \<noteq> CHR ''?'') s), u_Fragment = []\<rparr>),
     ul_String = (\<lambda>u. u_Path u @ (if u_RawQuery u = [] then [] else ''?'' @ u_RawQuery u))\<rparr>"

lemma plain_urls_faithful: "faithful_urls plain_urls"
proof -
  have none: "dropWhile P (takeWhile P s) = []" for P and s :: string
    using set_takeWhileD by fastforce
  show ?thesis by (simp add: faithful_urls_def plain_urls_def none)
qed

definition leaky_answer :: json where
  "leaky_answer = JObj [(''id'', JObj [(''url'', JStr ''https://x.test/f?access_token=abc''),
     (''client_secret'', JStr ''abc''), (''n'', JNum 1)]), (''owner'', JStr ''me'')]"

theorem redacted_answer_is_discreet_witness:
  "\<exists>j. Redact (\<lambda>_. Parsed leaky_answer) plain_urls ''body'' example_delete = Inr (Some j)
     \<and> j = JObj [(''id'', JObj [(''client_secret'', JStr ''[redacted]''), (''n'', JNum 1),
              (''url'', JStr ''https://x.test/f'')])]
     \<and> discreet plain_urls [] j"
proof -
  have r: "Redact (\<lambda>_. Parsed leaky_answer) plain_urls ''body'' example_delete
      = Inr (Some (JObj [(''id'', JObj [(''client_secret'', JStr ''[redacted]''), (''n'', JNum 1),
              (''url'', JStr ''https://x.test/f'')])]))" by code_simp
  have "normalizeAll (capability_rules example_delete) = []" by code_simp
  then show ?thesis using r redacted_answer_is_discreet [OF plain_urls_faithful r] by simp
qed

end
