(* ===== verification/Service_Catalog.thy ===== *)
theory Service_Catalog
  imports Adapter_Registry
begin

text \<open>
  The capability tables of the built-in adapters, item by item: \<open>adapter/github/capabilities.go\<close>,
  \<open>adapter/cloudflare/capabilities.go\<close> and \<open>adapter/model/capabilities.go\<close>.  The input schemas are
  constant JSON texts and appear as the documents they denote.
\<close>

section \<open>GitHub\<close>

definition no_nature :: nature where
  "no_nature = \<lparr>n_Destructive = False, n_PermissionChange = False, n_SecretAccess = False,
     n_Billing = False, n_ExternalCommunication = False\<rparr>"

text \<open>The input schemas.\<close>

definition schemaNoInput :: jtext where
  "schemaNoInput = Parsed (JObj [(''type'', JStr ''object''), (''additionalProperties'', JBool False)])"

definition schemaCreateIssue :: jtext where
  "schemaCreateIssue = Parsed (JObj [(''type'', JStr ''object''), (''required'', JArr [JStr ''title'']), (''properties'',
     JObj [(''title'', JObj [(''type'', JStr ''string'')]), (''body'', JObj [(''type'',
     JStr ''string'')])]), (''additionalProperties'', JBool False)])"

definition schemaCreatePullRequest :: jtext where
  "schemaCreatePullRequest = Parsed (JObj [(''type'', JStr ''object''), (''required'', JArr [JStr ''title'', JStr ''head'',
     JStr ''base'']), (''properties'', JObj [(''title'', JObj [(''type'', JStr ''string'')]),
     (''head'', JObj [(''type'', JStr ''string'')]), (''base'', JObj [(''type'',
     JStr ''string'')]), (''body'', JObj [(''type'', JStr ''string'')])]),
     (''additionalProperties'', JBool False)])"

definition schemaCreateComment :: jtext where
  "schemaCreateComment = Parsed (JObj [(''type'', JStr ''object''), (''required'', JArr [JStr ''body'']), (''properties'',
     JObj [(''body'', JObj [(''type'', JStr ''string'')])]), (''additionalProperties'',
     JBool False)])"

definition schemaCreateBranch :: jtext where
  "schemaCreateBranch = Parsed (JObj [(''type'', JStr ''object''), (''required'', JArr [JStr ''ref'', JStr ''sha'']),
     (''properties'', JObj [(''ref'', JObj [(''type'', JStr ''string'')]), (''sha'',
     JObj [(''type'', JStr ''string'')])]), (''additionalProperties'', JBool False)])"

definition schemaMerge :: jtext where
  "schemaMerge = Parsed (JObj [(''type'', JStr ''object''), (''properties'', JObj [(''commit_title'',
     JObj [(''type'', JStr ''string'')])]), (''additionalProperties'', JBool False)])"

definition repositoryScope :: "string list \<Rightarrow> minimum_scope" where
  "repositoryScope extra = \<lparr>ms_ResourceKeys = [''owner'', ''repo''] @ extra, ms_RequiresAccount = True\<rparr>"

definition github_capabilities :: "adapter_capability list" where
  "github_capabilities =
    [\<lparr>ac_Operation = ''read_repository'', ac_InputSchema = schemaNoInput,
       ac_MinimumScope = repositoryScope [], ac_RiskLabel = RiskLabelLow, ac_Method = ''GET'',
       ac_Path = ''/repos/{owner}/{repo}'', ac_RedactionRules = Some [],
       ac_ResponseFields = [''id'', ''name'', ''full_name'', ''private'', ''description'',
       ''default_branch'', ''html_url'', ''visibility'', ''archived''],
       ac_Rollback = RollbackNone, ac_Idempotency = Idempotent, ac_Nature = no_nature\<rparr>,
     \<lparr>ac_Operation = ''read_issue'', ac_InputSchema = schemaNoInput,
       ac_MinimumScope = repositoryScope [''number''], ac_RiskLabel = RiskLabelLow,
       ac_Method = ''GET'', ac_Path = ''/repos/{owner}/{repo}/issues/{number}'',
       ac_RedactionRules = Some [], ac_ResponseFields = [''id'', ''number'', ''title'',
       ''body'', ''state'', ''html_url'', ''labels''], ac_Rollback = RollbackNone,
       ac_Idempotency = Idempotent, ac_Nature = no_nature\<rparr>,
     \<lparr>ac_Operation = ''read_pull_request'', ac_InputSchema = schemaNoInput,
       ac_MinimumScope = repositoryScope [''number''], ac_RiskLabel = RiskLabelLow,
       ac_Method = ''GET'', ac_Path = ''/repos/{owner}/{repo}/pulls/{number}'',
       ac_RedactionRules = Some [], ac_ResponseFields = [''id'', ''number'', ''title'',
       ''body'', ''state'', ''merged'', ''html_url'', ''head'', ''base''],
       ac_Rollback = RollbackNone, ac_Idempotency = Idempotent, ac_Nature = no_nature\<rparr>,
     \<lparr>ac_Operation = ''read_actions_run'', ac_InputSchema = schemaNoInput,
       ac_MinimumScope = repositoryScope [''run_id''], ac_RiskLabel = RiskLabelLow,
       ac_Method = ''GET'', ac_Path = ''/repos/{owner}/{repo}/actions/runs/{run_id}'',
       ac_RedactionRules = Some [], ac_ResponseFields = [''id'', ''name'', ''status'',
       ''conclusion'', ''run_number'', ''head_branch'', ''head_sha'', ''html_url'',
       ''created_at'', ''updated_at''], ac_Rollback = RollbackNone, ac_Idempotency = Idempotent,
       ac_Nature = no_nature\<rparr>,
     \<lparr>ac_Operation = ''read_actions_logs'', ac_InputSchema = schemaNoInput,
       ac_MinimumScope = repositoryScope [''run_id''], ac_RiskLabel = RiskLabelLow,
       ac_Method = ''GET'', ac_Path = ''/repos/{owner}/{repo}/actions/runs/{run_id}/logs'',
       ac_RedactionRules = Some [''webhook'', ''signature''], ac_ResponseFields = [''logs''],
       ac_Rollback = RollbackNone, ac_Idempotency = Idempotent, ac_Nature = no_nature\<rparr>,
     \<lparr>ac_Operation = ''create_issue'', ac_InputSchema = schemaCreateIssue,
       ac_MinimumScope = repositoryScope [], ac_RiskLabel = RiskLabelMedium,
       ac_Method = ''POST'', ac_Path = ''/repos/{owner}/{repo}/issues'',
       ac_RedactionRules = Some [], ac_ResponseFields = [''id'', ''number'', ''title'',
       ''state'', ''html_url''], ac_Rollback = RollbackManual, ac_Idempotency = NonIdempotent,
       ac_Nature = no_nature\<rparr>,
     \<lparr>ac_Operation = ''create_pull_request'', ac_InputSchema = schemaCreatePullRequest,
       ac_MinimumScope = repositoryScope [], ac_RiskLabel = RiskLabelMedium,
       ac_Method = ''POST'', ac_Path = ''/repos/{owner}/{repo}/pulls'',
       ac_RedactionRules = Some [], ac_ResponseFields = [''id'', ''number'', ''title'',
       ''state'', ''html_url'', ''head'', ''base''], ac_Rollback = RollbackManual,
       ac_Idempotency = NonIdempotent, ac_Nature = no_nature\<rparr>,
     \<lparr>ac_Operation = ''create_comment'', ac_InputSchema = schemaCreateComment,
       ac_MinimumScope = repositoryScope [''number''], ac_RiskLabel = RiskLabelMedium,
       ac_Method = ''POST'', ac_Path = ''/repos/{owner}/{repo}/issues/{number}/comments'',
       ac_RedactionRules = Some [], ac_ResponseFields = [''id'', ''body'', ''html_url''],
       ac_Rollback = RollbackManual, ac_Idempotency = NonIdempotent,
       ac_Nature = no_nature\<lparr>n_ExternalCommunication := True\<rparr>\<rparr>,
     \<lparr>ac_Operation = ''create_branch'', ac_InputSchema = schemaCreateBranch,
       ac_MinimumScope = repositoryScope [], ac_RiskLabel = RiskLabelMedium,
       ac_Method = ''POST'', ac_Path = ''/repos/{owner}/{repo}/git/refs'',
       ac_RedactionRules = Some [], ac_ResponseFields = [''ref'', ''node_id'', ''url'',
       ''object''], ac_Rollback = RollbackManual, ac_Idempotency = NonIdempotent,
       ac_Nature = no_nature\<rparr>,
     \<lparr>ac_Operation = ''merge_default_branch'', ac_InputSchema = schemaMerge,
       ac_MinimumScope = repositoryScope [''number''], ac_RiskLabel = RiskLabelHigh,
       ac_Method = ''PUT'', ac_Path = ''/repos/{owner}/{repo}/pulls/{number}/merge'',
       ac_RedactionRules = Some [], ac_ResponseFields = [''sha'', ''merged'', ''message''],
       ac_Rollback = RollbackNone, ac_Idempotency = NonIdempotent, ac_Nature = no_nature\<rparr>,
     \<lparr>ac_Operation = ''delete_repository'', ac_InputSchema = schemaNoInput,
       ac_MinimumScope = repositoryScope [], ac_RiskLabel = RiskLabelHigh,
       ac_Method = ''DELETE'', ac_Path = ''/repos/{owner}/{repo}'', ac_RedactionRules = Some [],
       ac_ResponseFields = [''message''], ac_Rollback = RollbackNone,
       ac_Idempotency = NonIdempotent,
       ac_Nature = no_nature\<lparr>n_Destructive := True\<rparr>\<rparr>,
     \<lparr>ac_Operation = ''update_collaborator'', ac_InputSchema = schemaNoInput,
       ac_MinimumScope = repositoryScope [''username''], ac_RiskLabel = RiskLabelHigh,
       ac_Method = ''PUT'', ac_Path = ''/repos/{owner}/{repo}/collaborators/{username}'',
       ac_RedactionRules = Some [], ac_ResponseFields = [''id'', ''permissions''],
       ac_Rollback = RollbackManual, ac_Idempotency = NonIdempotent,
       ac_Nature = no_nature\<lparr>n_PermissionChange := True\<rparr>\<rparr>,
     \<lparr>ac_Operation = ''update_secret'', ac_InputSchema = schemaNoInput,
       ac_MinimumScope = repositoryScope [''secret_name''], ac_RiskLabel = RiskLabelHigh,
       ac_Method = ''PUT'', ac_Path = ''/repos/{owner}/{repo}/actions/secrets/{secret_name}'',
       ac_RedactionRules = Some [], ac_ResponseFields = [''message''],
       ac_Rollback = RollbackNone, ac_Idempotency = NonIdempotent,
       ac_Nature = no_nature\<lparr>n_SecretAccess := True\<rparr>\<rparr>,
     \<lparr>ac_Operation = ''update_actions_permissions'', ac_InputSchema = schemaNoInput,
       ac_MinimumScope = repositoryScope [], ac_RiskLabel = RiskLabelHigh, ac_Method = ''PUT'',
       ac_Path = ''/repos/{owner}/{repo}/actions/permissions'', ac_RedactionRules = Some [],
       ac_ResponseFields = [''enabled'', ''allowed_actions''], ac_Rollback = RollbackManual,
       ac_Idempotency = NonIdempotent,
       ac_Nature = no_nature\<lparr>n_PermissionChange := True\<rparr>\<rparr>]"

definition github_executable :: "string list" where
  "github_executable = [''read_repository'', ''read_issue'', ''read_pull_request'', ''read_actions_run'',
     ''read_actions_logs'', ''create_issue'', ''create_pull_request'', ''create_comment'',
     ''create_branch'']"

section \<open>Cloudflare\<close>

definition schemaDNSRecord :: jtext where
  "schemaDNSRecord = Parsed (JObj [(''type'', JStr ''object''), (''required'', JArr [JStr ''type'', JStr ''name'',
     JStr ''content'']), (''properties'', JObj [(''type'', JObj [(''type'', JStr ''string'')]),
     (''name'', JObj [(''type'', JStr ''string'')]), (''content'', JObj [(''type'',
     JStr ''string'')]), (''ttl'', JObj [(''type'', JStr ''integer'')]), (''proxied'',
     JObj [(''type'', JStr ''boolean'')])]), (''additionalProperties'', JBool False)])"

definition schemaPurgeCache :: jtext where
  "schemaPurgeCache = Parsed (JObj [(''type'', JStr ''object''), (''properties'', JObj [(''files'', JObj [(''type'',
     JStr ''array''), (''items'', JObj [(''type'', JStr ''string'')])]), (''purge_everything'',
     JObj [(''type'', JStr ''boolean'')])]), (''additionalProperties'', JBool False)])"

definition dnsResponseFields :: "string list" where
  "dnsResponseFields = [''id'', ''type'', ''name'', ''content'', ''ttl'', ''proxied'', ''zone_id'', ''zone_name'']"

definition zoneScope :: "string list \<Rightarrow> minimum_scope" where
  "zoneScope extra = \<lparr>ms_ResourceKeys = [''zone_id''] @ extra, ms_RequiresAccount = True\<rparr>"

definition cloudflare_capabilities :: "adapter_capability list" where
  "cloudflare_capabilities =
    [\<lparr>ac_Operation = ''read_zone'', ac_InputSchema = schemaNoInput,
       ac_MinimumScope = zoneScope [], ac_RiskLabel = RiskLabelLow, ac_Method = ''GET'',
       ac_Path = ''/zones/{zone_id}'', ac_RedactionRules = Some [], ac_ResponseFields = [''id'',
       ''name'', ''status'', ''paused'', ''type'', ''name_servers''],
       ac_Rollback = RollbackNone, ac_Idempotency = Idempotent, ac_Nature = no_nature\<rparr>,
     \<lparr>ac_Operation = ''read_dns_records'', ac_InputSchema = schemaNoInput,
       ac_MinimumScope = zoneScope [], ac_RiskLabel = RiskLabelLow, ac_Method = ''GET'',
       ac_Path = ''/zones/{zone_id}/dns_records'', ac_RedactionRules = Some [],
       ac_ResponseFields = dnsResponseFields, ac_Rollback = RollbackNone,
       ac_Idempotency = Idempotent, ac_Nature = no_nature\<rparr>,
     \<lparr>ac_Operation = ''read_dns_record'', ac_InputSchema = schemaNoInput,
       ac_MinimumScope = zoneScope [''record_id''], ac_RiskLabel = RiskLabelLow,
       ac_Method = ''GET'', ac_Path = ''/zones/{zone_id}/dns_records/{record_id}'',
       ac_RedactionRules = Some [], ac_ResponseFields = dnsResponseFields,
       ac_Rollback = RollbackNone, ac_Idempotency = Idempotent, ac_Nature = no_nature\<rparr>,
     \<lparr>ac_Operation = ''create_dns_record'', ac_InputSchema = schemaDNSRecord,
       ac_MinimumScope = zoneScope [], ac_RiskLabel = RiskLabelMedium, ac_Method = ''POST'',
       ac_Path = ''/zones/{zone_id}/dns_records'', ac_RedactionRules = Some [],
       ac_ResponseFields = dnsResponseFields, ac_Rollback = RollbackManual,
       ac_Idempotency = NonIdempotent, ac_Nature = no_nature\<rparr>,
     \<lparr>ac_Operation = ''update_dns_record'', ac_InputSchema = schemaDNSRecord,
       ac_MinimumScope = zoneScope [''record_id''], ac_RiskLabel = RiskLabelMedium,
       ac_Method = ''PUT'', ac_Path = ''/zones/{zone_id}/dns_records/{record_id}'',
       ac_RedactionRules = Some [], ac_ResponseFields = dnsResponseFields,
       ac_Rollback = RollbackManual, ac_Idempotency = Idempotent, ac_Nature = no_nature\<rparr>,
     \<lparr>ac_Operation = ''delete_dns_record'', ac_InputSchema = schemaNoInput,
       ac_MinimumScope = zoneScope [''record_id''], ac_RiskLabel = RiskLabelHigh,
       ac_Method = ''DELETE'', ac_Path = ''/zones/{zone_id}/dns_records/{record_id}'',
       ac_RedactionRules = Some [], ac_ResponseFields = [''id''], ac_Rollback = RollbackManual,
       ac_Idempotency = NonIdempotent,
       ac_Nature = no_nature\<lparr>n_Destructive := True\<rparr>\<rparr>,
     \<lparr>ac_Operation = ''read_tunnel'', ac_InputSchema = schemaNoInput,
       ac_MinimumScope = \<lparr>ms_ResourceKeys = [''account_id'', ''tunnel_id''],
       ms_RequiresAccount = True\<rparr>, ac_RiskLabel = RiskLabelLow, ac_Method = ''GET'',
       ac_Path = ''/accounts/{account_id}/cfd_tunnel/{tunnel_id}'', ac_RedactionRules = Some [],
       ac_ResponseFields = [''id'', ''name'', ''status'', ''created_at''],
       ac_Rollback = RollbackNone, ac_Idempotency = Idempotent, ac_Nature = no_nature\<rparr>,
     \<lparr>ac_Operation = ''purge_cache'', ac_InputSchema = schemaPurgeCache,
       ac_MinimumScope = zoneScope [], ac_RiskLabel = RiskLabelMedium, ac_Method = ''POST'',
       ac_Path = ''/zones/{zone_id}/purge_cache'', ac_RedactionRules = Some [],
       ac_ResponseFields = [''id''], ac_Rollback = RollbackAutomatic,
       ac_Idempotency = Idempotent, ac_Nature = no_nature\<rparr>,
     \<lparr>ac_Operation = ''delete_zone'', ac_InputSchema = schemaNoInput,
       ac_MinimumScope = zoneScope [], ac_RiskLabel = RiskLabelHigh, ac_Method = ''DELETE'',
       ac_Path = ''/zones/{zone_id}'', ac_RedactionRules = Some [],
       ac_ResponseFields = [''id''], ac_Rollback = RollbackNone, ac_Idempotency = NonIdempotent,
       ac_Nature = no_nature\<lparr>n_Destructive := True\<rparr>\<rparr>,
     \<lparr>ac_Operation = ''manage_token'', ac_InputSchema = schemaNoInput,
       ac_MinimumScope = \<lparr>ms_ResourceKeys = [''token_id''],
       ms_RequiresAccount = True\<rparr>, ac_RiskLabel = RiskLabelHigh, ac_Method = ''PUT'',
       ac_Path = ''/user/tokens/{token_id}'', ac_RedactionRules = Some [],
       ac_ResponseFields = [''id''], ac_Rollback = RollbackNone, ac_Idempotency = NonIdempotent,
       ac_Nature = no_nature\<lparr>n_SecretAccess := True\<rparr>\<rparr>,
     \<lparr>ac_Operation = ''manage_member'', ac_InputSchema = schemaNoInput,
       ac_MinimumScope = \<lparr>ms_ResourceKeys = [''account_id'', ''member_id''],
       ms_RequiresAccount = True\<rparr>, ac_RiskLabel = RiskLabelHigh, ac_Method = ''PUT'',
       ac_Path = ''/accounts/{account_id}/members/{member_id}'', ac_RedactionRules = Some [],
       ac_ResponseFields = [''id''], ac_Rollback = RollbackManual,
       ac_Idempotency = NonIdempotent,
       ac_Nature = no_nature\<lparr>n_PermissionChange := True\<rparr>\<rparr>,
     \<lparr>ac_Operation = ''bulk_update_dns'', ac_InputSchema = schemaNoInput,
       ac_MinimumScope = zoneScope [], ac_RiskLabel = RiskLabelHigh, ac_Method = ''PATCH'',
       ac_Path = ''/zones/{zone_id}/dns_records'', ac_RedactionRules = Some [],
       ac_ResponseFields = [''id''], ac_Rollback = RollbackNone, ac_Idempotency = NonIdempotent,
       ac_Nature = no_nature\<rparr>,
     \<lparr>ac_Operation = ''update_security_rules'', ac_InputSchema = schemaNoInput,
       ac_MinimumScope = zoneScope [''rule_id''], ac_RiskLabel = RiskLabelHigh,
       ac_Method = ''PUT'', ac_Path = ''/zones/{zone_id}/firewall/rules/{rule_id}'',
       ac_RedactionRules = Some [], ac_ResponseFields = [''id''], ac_Rollback = RollbackManual,
       ac_Idempotency = NonIdempotent,
       ac_Nature = no_nature\<lparr>n_PermissionChange := True\<rparr>\<rparr>]"

definition cloudflare_executable :: "string list" where
  "cloudflare_executable = [''read_zone'', ''read_dns_records'', ''read_dns_record'', ''create_dns_record'',
     ''update_dns_record'', ''delete_dns_record'', ''read_tunnel'', ''purge_cache'']"

definition changesBefore :: "string list" where
  "changesBefore = [''update_dns_record'', ''delete_dns_record'']"

section \<open>Model providers\<close>

datatype provider = ProviderOpenAI | ProviderAnthropic | ProviderOther string

definition schemaCompletion :: jtext where
  "schemaCompletion = Parsed (JObj [(''type'', JStr ''object''), (''required'', JArr [JStr ''model'', JStr ''messages'',
     JStr ''max_tokens'']), (''properties'', JObj [(''model'', JObj [(''type'',
     JStr ''string'')]), (''max_tokens'', JObj [(''type'', JStr ''integer'')]), (''messages'',
     JObj [(''type'', JStr ''array''), (''items'', JObj [(''type'', JStr ''object'')])]),
     (''temperature'', JObj [(''type'', JStr ''number'')])]), (''additionalProperties'',
     JBool False)])"

text \<open>\<open>endpoints\<close>: the completion and the model-list endpoint of a known provider.\<close>

fun endpoints :: "provider \<Rightarrow> (string \<times> string) option" where
  "endpoints ProviderOpenAI = Some (''/chat/completions'', ''/models'')"
| "endpoints ProviderAnthropic = Some (''/messages'', ''/models'')"
| "endpoints (ProviderOther s) = None"

definition completionResponseFields :: "string list" where
  "completionResponseFields = [''id'', ''model'', ''choices'', ''content'', ''stop_reason'', ''finish_reason'',
     ''usage'', ''role'']"

definition model_capabilities :: "provider \<Rightarrow> adapter_capability list" where
  "model_capabilities provider =
    (let (completion, models) = (case endpoints provider of Some e \<Rightarrow> e | None \<Rightarrow> ([], [])) in
    [\<lparr>ac_Operation = ''create_completion'', ac_InputSchema = schemaCompletion,
       ac_MinimumScope = \<lparr>ms_ResourceKeys = [''model''],
       ms_RequiresAccount = True\<rparr>, ac_RiskLabel = RiskLabelMedium, ac_Method = ''POST'',
       ac_Path = completion, ac_RedactionRules = Some [],
       ac_ResponseFields = completionResponseFields, ac_Rollback = RollbackAutomatic,
       ac_Idempotency = NonIdempotent,
       ac_Nature = no_nature\<lparr>n_ExternalCommunication := True\<rparr>\<rparr>,
     \<lparr>ac_Operation = ''read_models'', ac_InputSchema = schemaNoInput,
       ac_MinimumScope = \<lparr>ms_ResourceKeys = [''account''],
       ms_RequiresAccount = True\<rparr>, ac_RiskLabel = RiskLabelLow, ac_Method = ''GET'',
       ac_Path = models, ac_RedactionRules = Some [], ac_ResponseFields = [''data'', ''id'',
       ''object'', ''owned_by'', ''created''], ac_Rollback = RollbackNone,
       ac_Idempotency = Idempotent, ac_Nature = no_nature\<rparr>])"

section \<open>The adapters that are registered\<close>

text \<open>What each adapter answers to the registry; the base address is the default one unless an
  option replaces it.\<close>

definition github_adapter :: "string \<Rightarrow> adapter" where
  "github_adapter baseURL = \<lparr>ad_Service = ''github'', ad_Kind = KindGitHub,
     ad_Capabilities = github_capabilities,
     ad_BaseURL = (if baseURL = [] then ''https://api.github.com'' else baseURL),
     ad_AuthScheme = AuthBearer\<rparr>"

definition cloudflare_adapter :: "string \<Rightarrow> adapter" where
  "cloudflare_adapter baseURL = \<lparr>ad_Service = ''cloudflare'', ad_Kind = KindCloudflare,
     ad_Capabilities = cloudflare_capabilities,
     ad_BaseURL = (if baseURL = [] then ''https://api.cloudflare.com/client/v4'' else baseURL),
     ad_AuthScheme = AuthBearer\<rparr>"

fun provider_String :: "provider \<Rightarrow> string" where
  "provider_String ProviderOpenAI = ''openai''"
| "provider_String ProviderAnthropic = ''anthropic''"
| "provider_String (ProviderOther s) = s"

definition model_AuthScheme :: "provider \<Rightarrow> auth_scheme" where
  "model_AuthScheme p = (if p = ProviderAnthropic then AuthHeader else AuthBearer)"

definition model_adapter :: "provider \<Rightarrow> string \<Rightarrow> adapter app_result" where
  "model_adapter p baseURL =
     (case endpoints p of None \<Rightarrow> Inl (apperr_New CodeInvalidConfiguration)
      | Some _ \<Rightarrow> Inr \<lparr>ad_Service = provider_String p, ad_Kind = KindModel,
          ad_Capabilities = model_capabilities p,
          ad_BaseURL = (if baseURL \<noteq> [] then baseURL
            else if p = ProviderAnthropic then ''https://api.anthropic.com/v1''
            else ''https://api.openai.com/v1''),
          ad_AuthScheme = model_AuthScheme p\<rparr>)"

text \<open>\<open>assembleAdapters\<close> of \<open>cli/assemble.go\<close>; \<open>elsewhere\<close> is the table of other base addresses,
  empty in a release build.\<close>

definition assembleAdapters :: "(string \<Rightarrow> string) \<Rightarrow> unit registry app_result" where
  "assembleAdapters elsewhere =
     obind (model_adapter ProviderOpenAI (elsewhere ''openai'')) (\<lambda>openAI.
     obind (model_adapter ProviderAnthropic (elsewhere ''anthropic'')) (\<lambda>anthropic.
     registry_New [Some (github_adapter (elsewhere ''github'')),
       Some (cloudflare_adapter (elsewhere ''cloudflare'')), Some openAI, Some anthropic]))"

section \<open>Start-up succeeds, and a request means one operation\<close>

definition declarable :: "adapter_capability list \<Rightarrow> bool" where
  "declarable cs \<longleftrightarrow> cs \<noteq> [] \<and> list_all (\<lambda>c. is_ok (capability_Validate c)) cs
     \<and> distinct (map ac_Operation cs)"

lemma add_operations_declarable:
  assumes "list_all (\<lambda>c. is_ok (capability_Validate c)) cs" and "distinct (map ac_Operation cs)"
    and "\<forall>c \<in> set cs. gm_get ops (ac_Operation c) = None"
  shows "\<exists>ops'. add_operations cs ops = Inr ops'"
  using assms
proof (induction cs arbitrary: ops)
  case (Cons c cs)
  have "\<forall>d \<in> set cs. gm_get (gm_put (ac_Operation c) c ops) (ac_Operation d) = None"
    using Cons.prems by (metis distinct.simps(2) gm_get_put image_eqI list.set_intros(2)
        list.simps(9) set_map)
  with Cons show ?case by auto
qed simp

lemma registry_add_declarable:
  assumes "trim_space (ad_Service a) \<noteq> []" and "validKind (ad_Kind a)"
    and "gm_get (rg_adapters r) (trim_space (ad_Service a)) = None" and "declarable (ad_Capabilities a)"
  shows "\<exists>r'. registry_add (Some a) r = Inr r'
     \<and> rg_adapters r' = gm_put (trim_space (ad_Service a)) a (rg_adapters r)"
proof -
  obtain ops where "add_operations (ad_Capabilities a) [] = Inr ops"
    using assms(4) add_operations_declarable [of "ad_Capabilities a" "[]"]
    by (auto simp: declarable_def)
  with assms show ?thesis by (simp add: registry_add_def Let_def declarable_def)
qed

lemma add_adapters_declarable:
  assumes "list_all (\<lambda>a. trim_space (ad_Service a) \<noteq> [] \<and> validKind (ad_Kind a)
      \<and> declarable (ad_Capabilities a)) adapters"
    and "distinct (map (\<lambda>a. trim_space (ad_Service a)) adapters)"
    and "\<forall>a \<in> set adapters. gm_get (rg_adapters r) (trim_space (ad_Service a)) = None"
  shows "\<exists>r'. add_adapters (map Some adapters) r = Inr r'"
  using assms
proof (induction adapters arbitrary: r)
  case (Cons a adapters)
  then obtain r1 where r1: "registry_add (Some a) r = Inr r1"
    "rg_adapters r1 = gm_put (trim_space (ad_Service a)) a (rg_adapters r)"
    using registry_add_declarable [of a r] by auto
  have "\<exists>r'. add_adapters (map Some adapters) r1 = Inr r'"
    using Cons.prems by (intro Cons.IH) (auto simp: r1(2) image_iff)
  with r1(1) show ?case by simp
qed simp

text \<open>No two operations of a table can answer the same request.  Compared is the shape of each:
  its method and its segments, a placeholder fitting anything.\<close>

definition shape :: "adapter_capability \<Rightarrow> string \<times> string option list" where
  "shape c = (to_lower (ac_Method c),
     map (\<lambda>s. if is_placeholder s then None else Some s) (path_segments (ac_Path c)))"

fun compatible :: "string option list \<Rightarrow> string option list \<Rightarrow> bool" where
  "compatible (a # as) (b # bs) = ((a = None \<or> b = None \<or> a = b) \<and> compatible as bs)"
| "compatible [] [] = True"
| "compatible _ _ = False"

definition apart :: "string \<times> string option list \<Rightarrow> string \<times> string option list \<Rightarrow> bool" where
  "apart x y \<longleftrightarrow> fst x \<noteq> fst y \<or> \<not> compatible (snd x) (snd y)"

lemma compatible_iff: "compatible as bs \<longleftrightarrow> list_all2 (\<lambda>a b. a = None \<or> b = None \<or> a = b) as bs"
  by (induction as bs rule: compatible.induct) auto

lemma overlap_compatible: "overlap (ac_Path c) (ac_Path d) \<Longrightarrow> compatible (snd (shape c)) (snd (shape d))"
  unfolding overlap_def compatible_iff shape_def
  by (auto simp: list_all2_conv_all_nth)

lemma compatible_sym: "compatible as bs \<longleftrightarrow> compatible bs as"
  by (induction as bs rule: compatible.induct) auto

lemma unambiguous_apart: "sorted_wrt apart (map shape cs) \<Longrightarrow> unambiguous cs"
proof (induction cs)
  case (Cons c cs)
  have off: "\<not> (equal_fold (ac_Method c) (ac_Method d) \<and> overlap (ac_Path c) (ac_Path d))
      \<and> \<not> (equal_fold (ac_Method d) (ac_Method c) \<and> overlap (ac_Path d) (ac_Path c))"
    if "d \<in> set cs" for d
  proof -
    from that Cons.prems have "apart (shape c) (shape d)" by simp
    then show ?thesis using overlap_compatible [of c d] overlap_compatible [of d c] compatible_sym
      by (auto simp: apart_def equal_fold_def) (auto simp: shape_def)
  qed
  from Cons have "unambiguous cs" by simp
  with off show ?case by (simp add: unambiguous_def) blast
qed (simp add: unambiguous_def)

lemma github_declarable: "declarable github_capabilities"
  unfolding declarable_def github_capabilities_def list.pred_inject
  by (intro conjI; code_simp)

lemma cloudflare_declarable: "declarable cloudflare_capabilities"
  unfolding declarable_def cloudflare_capabilities_def list.pred_inject
  by (intro conjI; code_simp)

lemma model_declarable:
  "declarable (model_capabilities ProviderOpenAI)"
  "declarable (model_capabilities ProviderAnthropic)"
  by code_simp+

lemma github_shapes: "map shape github_capabilities =
  [(''get'', [Some ''repos'', None, None]),
   (''get'', [Some ''repos'', None, None, Some ''issues'', None]),
   (''get'', [Some ''repos'', None, None, Some ''pulls'', None]),
   (''get'', [Some ''repos'', None, None, Some ''actions'', Some ''runs'', None]),
   (''get'', [Some ''repos'', None, None, Some ''actions'', Some ''runs'', None, Some ''logs'']),
   (''post'', [Some ''repos'', None, None, Some ''issues'']),
   (''post'', [Some ''repos'', None, None, Some ''pulls'']),
   (''post'', [Some ''repos'', None, None, Some ''issues'', None, Some ''comments'']),
   (''post'', [Some ''repos'', None, None, Some ''git'', Some ''refs'']),
   (''put'', [Some ''repos'', None, None, Some ''pulls'', None, Some ''merge'']),
   (''delete'', [Some ''repos'', None, None]),
   (''put'', [Some ''repos'', None, None, Some ''collaborators'', None]),
   (''put'', [Some ''repos'', None, None, Some ''actions'', Some ''secrets'', None]),
   (''put'', [Some ''repos'', None, None, Some ''actions'', Some ''permissions''])]"
  by code_simp

lemma cloudflare_shapes: "map shape cloudflare_capabilities =
  [(''get'', [Some ''zones'', None]),
   (''get'', [Some ''zones'', None, Some ''dns_records'']),
   (''get'', [Some ''zones'', None, Some ''dns_records'', None]),
   (''post'', [Some ''zones'', None, Some ''dns_records'']),
   (''put'', [Some ''zones'', None, Some ''dns_records'', None]),
   (''delete'', [Some ''zones'', None, Some ''dns_records'', None]),
   (''get'', [Some ''accounts'', None, Some ''cfd_tunnel'', None]),
   (''post'', [Some ''zones'', None, Some ''purge_cache'']),
   (''delete'', [Some ''zones'', None]),
   (''put'', [Some ''user'', Some ''tokens'', None]),
   (''put'', [Some ''accounts'', None, Some ''members'', None]),
   (''patch'', [Some ''zones'', None, Some ''dns_records'']),
   (''put'', [Some ''zones'', None, Some ''firewall'', Some ''rules'', None])]"
  by code_simp

lemma model_shapes:
  "map shape (model_capabilities ProviderOpenAI)
     = [(''post'', [Some ''chat'', Some ''completions'']), (''get'', [Some ''models''])]"
  "map shape (model_capabilities ProviderAnthropic)
     = [(''post'', [Some ''messages'']), (''get'', [Some ''models''])]"
  by code_simp+

lemma tables_unambiguous:
  "unambiguous github_capabilities" "unambiguous cloudflare_capabilities"
  "unambiguous (model_capabilities ProviderOpenAI)"
  "unambiguous (model_capabilities ProviderAnthropic)"
  by (rule unambiguous_apart;
      simp add: github_shapes cloudflare_shapes model_shapes apart_def)+

text \<open>In a registry, what \<open>Resolve\<close> finds for a service whose operations are unambiguous is what
  the declared table says, in whatever order the operations are visited.\<close>

lemma set_map_filter: "set (List.map_filter f xs) = {y. \<exists>x \<in> set xs. f x = Some y}"
  by (induction xs) (auto split: option.split)

definition table_lookup ::
    "adapter_capability list \<Rightarrow> string \<Rightarrow> string \<Rightarrow> (adapter_capability \<times> string go_map) app_result" where
  "table_lookup cs method path =
     (case resolve_in cs method path of
        None \<Rightarrow> Inl (apperr_New CodeCapabilityNotOffered) | Some found \<Rightarrow> Inr found)"

lemma Resolve_table:
  assumes new: "registry_New adapters = Inr r" and a: "declares adapters service a"
    and un: "unambiguous (ad_Capabilities a)"
    and order: "set order = set (registry_Operations r service)"
  shows "registry_Resolve order r service method path = table_lookup (ad_Capabilities a) method path"
proof -
  have "gm_get (rg_adapters r) service = Some a"
    using registry_New_Inr(2) [OF new] a by (simp add: registry_Adapter_iff)
  then obtain ops where ops: "gm_get (rg_capabilities r) service = Some ops"
    using registry_ok_fresh [OF registry_New_Inr(1) [OF new], of service] by auto
  have "declares adapters service b \<longleftrightarrow> b = a" for b
    using registry_New_Inr(2) [OF new] a by (metis sum.inject(2))
  then have cap: "gm_get ops op = Some c \<longleftrightarrow> c \<in> set (ad_Capabilities a) \<and> ac_Operation c = op" for op c
    using registry_New_Inr(3) [OF new, of service op c] ops
    by (auto simp: offers_iff [unfolded offers_def])
  have "set order = dom (gm_get ops)"
    using order ops by (simp add: registry_Operations_def dom_map_of_conv_image_fst)
  then have "set (List.map_filter (gm_get ops) order) = set (ad_Capabilities a)"
    unfolding set_map_filter using cap by (auto simp: dom_def)
  then have "resolve_in (List.map_filter (gm_get ops) order) method path
      = resolve_in (ad_Capabilities a) method path" by (rule resolve_in_unique [OF un])
  then show ?thesis using ops by (simp add: registry_Resolve_def table_lookup_def)
qed

definition builtin_adapters :: "(string \<Rightarrow> string) \<Rightarrow> adapter list" where
  "builtin_adapters elsewhere =
     [github_adapter (elsewhere ''github''), cloudflare_adapter (elsewhere ''cloudflare''),
      projr (model_adapter ProviderOpenAI (elsewhere ''openai'')),
      projr (model_adapter ProviderAnthropic (elsewhere ''anthropic''))]"

lemma assembleAdapters_eq:
  "assembleAdapters elsewhere = registry_New (map Some (builtin_adapters elsewhere))"
  by (simp add: assembleAdapters_def builtin_adapters_def model_adapter_def)

lemma builtin_fields:
  "map ad_Service (builtin_adapters elsewhere) = [''github'', ''cloudflare'', ''openai'', ''anthropic'']"
  "map ad_Capabilities (builtin_adapters elsewhere) = [github_capabilities, cloudflare_capabilities,
     model_capabilities ProviderOpenAI, model_capabilities ProviderAnthropic]"
  "list_all (\<lambda>a. validKind (ad_Kind a)) (builtin_adapters elsewhere)"
  by (simp_all add: builtin_adapters_def github_adapter_def cloudflare_adapter_def model_adapter_def)

lemma trim_services:
  "map trim_space [''github'', ''cloudflare'', ''openai'', ''anthropic'']
     = [''github'', ''cloudflare'', ''openai'', ''anthropic'']"
  by code_simp

lemma builtin_services: "map (\<lambda>a. trim_space (ad_Service a)) (builtin_adapters elsewhere)
    = [''github'', ''cloudflare'', ''openai'', ''anthropic'']"
  using builtin_fields(1) [of elsewhere] trim_services
  by (metis (no_types, lifting) map_map o_apply map_eq_conv)

lemma builtin_tables:
  assumes "a \<in> set (builtin_adapters elsewhere)"
  shows "declarable (ad_Capabilities a) \<and> unambiguous (ad_Capabilities a)"
proof -
  from assms have "ad_Capabilities a \<in> {github_capabilities, cloudflare_capabilities,
      model_capabilities ProviderOpenAI, model_capabilities ProviderAnthropic}"
    using builtin_fields(2) [of elsewhere]
    by (metis (no_types, lifting) image_eqI list.set(1,2) list.set_map)
  then show ?thesis
    using github_declarable cloudflare_declarable model_declarable tables_unambiguous by auto
qed

lemma builtin_registry: "\<exists>r. registry_New (map Some (builtin_adapters elsewhere)) = Inr r"
proof -
  let ?as = "builtin_adapters elsewhere"
  have "trim_space (ad_Service a) \<noteq> []" if "a \<in> set ?as" for a
  proof -
    from that have "trim_space (ad_Service a) \<in> set (map (\<lambda>a. trim_space (ad_Service a)) ?as)" by auto
    then show ?thesis unfolding builtin_services by auto
  qed
  then show ?thesis unfolding registry_New_def
    using builtin_tables builtin_fields(3)
    by (intro add_adapters_declarable) (auto simp: list_all_iff builtin_services)
qed

lemma builtin_Services:
  assumes "registry_New (map Some (builtin_adapters elsewhere)) = Inr r"
  shows "registry_Services r = [''anthropic'', ''cloudflare'', ''github'', ''openai'']"
proof (rule sorted_distinct_set_unique)
  have "set (registry_Services r) = set (map (\<lambda>a. trim_space (ad_Service a)) (builtin_adapters elsewhere))"
    using registry_New_Inr(2) [OF assms]
    by (force simp: registry_Services_def registry_Adapter_iff declares_def
        dom_map_of_conv_image_fst [symmetric])
  then show "set (registry_Services r) = set [''anthropic'', ''cloudflare'', ''github'', ''openai'']"
    unfolding builtin_services by auto
  show "sorted (registry_Services r)" "distinct (registry_Services r)"
    using registry_New_Inr(1) [OF assms] gm_ok_distinct
    by (auto simp: registry_Services_def registry_ok_def)
  show "sorted [''anthropic'', ''cloudflare'', ''github'', ''openai'']"
    "distinct [''anthropic'', ''cloudflare'', ''github'', ''openai'']" by code_simp+
qed



text \<open>The comments above the tables count thirteen GitHub and twelve Cloudflare declarations.\<close>

lemma table_sizes:
  "length github_capabilities = 14" "length github_executable = 9"
  "length cloudflare_capabilities = 13"
  by (simp_all add: github_capabilities_def github_executable_def cloudflare_capabilities_def)

end
