(* ===== verification/Adapter_Exec.thy ===== *)
theory Adapter_Exec
  imports Adapter_Redact Service_Catalog
begin

text \<open>
  The execution contract of \<open>internal/adapter/registry/execute.go\<close>, what the adapters have in
  common -- filling in a path template and translating the status of an external service -- and
  the GitHub adapter (\<open>internal/adapter/github/adapter.go\<close>, \<open>execute.go\<close>).  \<open>buildPath\<close> stands word
  for word in the GitHub, Cloudflare and generic adapters.
\<close>

section \<open>Inputs, outputs and the surroundings of an adapter\<close>

record model_budget =
  mb_MaxCostMicros :: int
  mb_MaxRequests :: int

record model_usage =
  mu_Requests :: int
  mu_InputTokens :: int
  mu_OutputTokens :: int
  mu_CostMicros :: int
  mu_Estimated :: bool

record execute_input =
  xi_Operation :: string
  xi_Resource :: "string go_map"
  xi_Query :: url_values
  xi_Input :: string
  xi_Budget :: model_budget
  xi_Spent :: model_usage
  xi_Credential :: string
  xi_OperationID :: string

record execute_output =
  xo_Result :: adapter_outcome
  xo_Usage :: model_usage

record preview_input =
  vi_Operation :: string
  vi_Resource :: "string go_map"
  vi_Input :: string
  vi_Credential :: string
  vi_OperationID :: string

definition no_budget :: model_budget where
  "no_budget = \<lparr>mb_MaxCostMicros = 0, mb_MaxRequests = 0\<rparr>"

definition no_usage :: model_usage where
  "no_usage = \<lparr>mu_Requests = 0, mu_InputTokens = 0, mu_OutputTokens = 0, mu_CostMicros = 0,
     mu_Estimated = False\<rparr>"

text \<open>What an adapter works with: the network, its client, \<open>json.Unmarshal\<close> of a text and
  \<open>json.Marshal\<close> of a value, the lengths of the raw elements of a \<open>messages\<close> member, and the
  address functions.\<close>

record exec_env =
  ee_net :: net
  ee_client :: client
  ee_decode :: "string \<Rightarrow> jtext"
  ee_marshal :: "json \<Rightarrow> string"
  ee_messageSizes :: "string \<Rightarrow> nat list"
  ee_urls :: url_lib

text \<open>A method of an adapter that may send requests.\<close>

type_synonym ('i, 'o) sending = "'i \<Rightarrow> outbound list \<Rightarrow> 'o app_result \<times> outbound list"

section \<open>Paths and statuses\<close>

definition invalidResource :: "string \<Rightarrow> app_error" where
  "invalidResource operationID = WithOperationID (apperr_New CodeInvalidRequest) operationID"

fun fill_segments :: "string go_map \<Rightarrow> string \<Rightarrow> string list \<Rightarrow> string list app_result" where
  "fill_segments resource operationID [] = Inr []"
| "fill_segments resource operationID (segment # segments) =
     (if \<not> is_placeholder segment
      then obind (fill_segments resource operationID segments) (\<lambda>filled. Inr (segment # filled))
      else (case gm_get resource (placeholder_key segment) of
              None \<Rightarrow> Inl (invalidResource operationID)
            | Some v \<Rightarrow>
                if trim_space v = [] then Inl (invalidResource operationID)
                else if contains_any v ''/?#'' \<or> str_contains v ''..''
                then Inl (invalidResource operationID)
                else obind (fill_segments resource operationID segments) (\<lambda>filled. Inr (v # filled))))"

definition buildPath :: "adapter_capability \<Rightarrow> string go_map \<Rightarrow> string \<Rightarrow> string app_result" where
  "buildPath c resource operationID =
     obind (fill_segments resource operationID (path_segments (ac_Path c)))
       (\<lambda>filled. Inr (''/'' @ join_with ''/'' filled))"

definition upstreamError :: "int \<Rightarrow> string \<Rightarrow> app_error" where
  "upstreamError status operationID = WithOperationID (apperr_New
     (if status = 401 \<or> status = 403 then CodeCredentialNotAuthorized
      else if status = 404 then CodeNotFound
      else if status = 409 then CodeConflict
      else if status < 500 then CodeInvalidRequest
      else CodeGatewayUnavailable)) operationID"

text \<open>The map \<open>byOperation\<close> an adapter builds of its declarations: the last of a name counts.\<close>

definition byOperation :: "adapter_capability list \<Rightarrow> string \<Rightarrow> adapter_capability option" where
  "byOperation declarations op = map_of (rev (map (\<lambda>c. (ac_Operation c, c)) declarations)) op"

section \<open>GitHub\<close>

definition github_render ::
    "exec_env \<Rightarrow> adapter_capability \<Rightarrow> string \<Rightarrow> json option app_result" where
  "github_render env c body =
     (if ac_Operation c \<noteq> ''read_actions_logs'' then Redact (ee_decode env) (ee_urls env) body c
      else Inr (Some (JObj [(''logs'', JStr (marshal_str
             (RedactActionsLog (ee_urls env) body (capability_rules c))))])))"

definition bearer_request ::
    "adapter_capability \<Rightarrow> string \<Rightarrow> execute_input \<Rightarrow> client_request" where
  "bearer_request c path request = \<lparr>hq_Capability = c, hq_Path = path, hq_Query = [],
     hq_Body = (if capability_Write c then xi_Input request else []), hq_AuthScheme = AuthBearer,
     hq_AuthHeader = [], hq_Credential = xi_Credential request,
     hq_OperationID = xi_OperationID request\<rparr>"

definition github_Execute :: "exec_env \<Rightarrow> (execute_input, adapter_outcome) sending" where
  "github_Execute env request sent =
     (case byOperation github_capabilities (xi_Operation request) of
        None \<Rightarrow> (Inl (WithOperationID (apperr_New CodeCapabilityNotOffered) (xi_OperationID request)), sent)
      | Some c \<Rightarrow>
          if xi_Operation request \<notin> set github_executable
          then (Inl (WithOperationID (apperr_New CodeNotImplemented) (xi_OperationID request)), sent)
          else
            (case buildPath c (xi_Resource request) (xi_OperationID request) of
               Inl e \<Rightarrow> (Inl e, sent)
             | Inr path \<Rightarrow>
                 (case client_Do (ee_net env) (ee_client env) (bearer_request c path request) sent of
                    ((response, err), sent') \<Rightarrow>
                      (Inr (case err of
                              Some e \<Rightarrow> Failure (xi_OperationID request) e
                            | None \<Rightarrow>
                                if hs_StatusCode response \<ge> 400
                                then FromUpstream (hs_StatusCode response)
                                       (Failure (xi_OperationID request)
                                         (upstreamError (hs_StatusCode response) (xi_OperationID request)))
                                else (case github_render env c (hs_Body response) of
                                        Inl e \<Rightarrow> FromUpstream (hs_StatusCode response)
                                          (Failure (xi_OperationID request) e)
                                      | Inr data \<Rightarrow> FromUpstream (hs_StatusCode response)
                                          (Success (xi_OperationID request) data []))), sent'))))"

text \<open>Every \<open>ExecuteCapability\<close> hands the result on without a usage, except the model's.\<close>

definition github_ExecuteCapability :: "exec_env \<Rightarrow> (execute_input, execute_output) sending" where
  "github_ExecuteCapability env input sent =
     (case github_Execute env input sent of
        (Inl e, sent') \<Rightarrow> (Inl e, sent')
      | (Inr r, sent') \<Rightarrow> (Inr \<lparr>xo_Result = r, xo_Usage = no_usage\<rparr>, sent'))"

section \<open>A path that was built fits its template\<close>

lemma dots_append:
  "str_contains (x @ CHR ''/'' # y) ''..'' \<Longrightarrow> str_contains x ''..'' \<or> str_contains y ''..''"
proof (induction x)
  case (Cons c x)
  then show ?case by (cases x) (auto simp: has_prefix_def)
qed (simp add: has_prefix_def)

lemma dots_join: "str_contains (join_with ''/'' ws) ''..'' \<Longrightarrow> \<exists>w \<in> set ws. str_contains w ''..''"
  by (induction "''/''" ws rule: join_with.induct) (auto dest!: dots_append)

text \<open>What a segment of the template is filled with.\<close>

definition fills :: "string go_map \<Rightarrow> string \<Rightarrow> string \<Rightarrow> bool" where
  "fills resource e g \<longleftrightarrow> (if is_placeholder e
     then gm_get resource (placeholder_key e) = Some g \<and> trim_space g \<noteq> []
       \<and> \<not> contains_any g ''/?#'' \<and> \<not> str_contains g ''..''
     else g = e)"

lemma fill_segments_Inr:
  "fill_segments resource i es = Inr gs \<Longrightarrow> list_all2 (fills resource) es gs"
proof (induction resource i es arbitrary: gs rule: fill_segments.induct)
  case (2 resource i e es)
  show ?case
  proof (cases "is_placeholder e")
    case False
    with 2 show ?thesis by (auto simp: obind_iffs fills_def [of resource e])
  next
    case True
    with 2(3) obtain g gs' where g: "gm_get resource (placeholder_key e) = Some g"
      "trim_space g \<noteq> []" "\<not> (contains_any g ''/?#'' \<or> str_contains g ''..'')"
      and gs: "fill_segments resource i es = Inr gs'" "gs = g # gs'"
      by (auto simp: obind_iffs split: option.splits if_splits)
    have "\<not> \<not> is_placeholder e" using True by simp
    from 2(2) [OF this g(1,2,3) gs(1)] show ?thesis using True g gs(2)
      by (simp add: fills_def [of resource e])
  qed
qed simp

lemma match_segments_filled:
  assumes "list_all2 (\<lambda>e g. g \<noteq> [] \<and> fills resource e g) es gs"
  shows "\<exists>captured'. match_segments es gs captured = Some captured'
     \<and> (\<forall>k. gm_get captured' k = (if \<exists>e \<in> set es. is_placeholder e \<and> placeholder_key e = k
          then gm_get resource k else gm_get captured k))"
  using assms
proof (induction es gs arbitrary: captured rule: list_all2_induct)
  case (Cons e es g gs)
  show ?case
  proof (cases "is_placeholder e")
    case True
    obtain captured' where
      "match_segments es gs (gm_put (placeholder_key e) g captured) = Some captured'"
      "\<forall>k. gm_get captured' k = (if \<exists>e \<in> set es. is_placeholder e \<and> placeholder_key e = k
          then gm_get resource k else gm_get (gm_put (placeholder_key e) g captured) k)"
      using Cons.IH by blast
    moreover have "gm_get resource (placeholder_key e) = Some g"
      using True Cons.hyps by (simp add: fills_def)
    ultimately show ?thesis using True Cons.hyps by (intro exI [of _ captured']) auto
  next
    case False
    then have "g = e" using Cons.hyps by (simp add: fills_def)
    with False Cons.hyps Cons.IH [of captured] show ?thesis by auto
  qed
qed simp

lemma trim_space_Nil [simp]: "trim_space [] = []"
  by (simp add: trim_space_def)

lemma fills_segment:
  assumes "fills resource e g" and "e \<noteq> []" and "CHR ''/'' \<notin> set e" and "\<not> str_contains e ''..''"
  shows "g \<noteq> [] \<and> CHR ''/'' \<notin> set g \<and> \<not> str_contains g ''..''"
proof (cases "is_placeholder e")
  case True
  with assms(1) have "trim_space g \<noteq> []" "\<not> contains_any g ''/?#''" "\<not> str_contains g ''..''"
    by (auto simp: fills_def)
  moreover from this(2) have "CHR ''/'' \<notin> set g" by (simp add: contains_any_def list_ex_iff) blast
  ultimately show ?thesis by auto
next
  case False
  with assms show ?thesis by (simp add: fills_def)
qed

lemma list_all2_in2: "list_all2 P xs ys \<Longrightarrow> y \<in> set ys \<Longrightarrow> \<exists>x \<in> set xs. P x y"
  by (metis in_set_conv_nth list_all2_conv_all_nth)

lemma list_all2_in1: "list_all2 P xs ys \<Longrightarrow> x \<in> set xs \<Longrightarrow> \<exists>y \<in> set ys. P x y"
  by (metis in_set_conv_nth list_all2_conv_all_nth)

text \<open>Templates without empty segments and without dots to climb with.\<close>

definition tidy :: "string \<Rightarrow> bool" where
  "tidy template \<longleftrightarrow> list_all (\<lambda>s. s \<noteq> [] \<and> \<not> str_contains s ''..'') (path_segments template)"

text \<open>What was approved is what is called.  If the resource values fill in a template, the path
  fits the same template, and reading the path back yields exactly the given value for every
  placeholder: no value can add a segment, climb out of its place or begin a query.\<close>

theorem buildPath_MatchPath:
  assumes "buildPath c resource operationID = Inr path" and "tidy (ac_Path c)"
  shows "\<exists>captured. MatchPath (ac_Path c) path = Some captured
     \<and> (\<forall>segment \<in> set (path_segments (ac_Path c)). is_placeholder segment \<longrightarrow>
          gm_get captured (placeholder_key segment) = gm_get resource (placeholder_key segment)
          \<and> gm_get resource (placeholder_key segment) \<noteq> None)"
proof -
  let ?es = "path_segments (ac_Path c)"
  from assms(1) obtain gs where gs: "fill_segments resource operationID ?es = Inr gs"
    and path: "path = ''/'' @ join_with ''/'' gs" by (auto simp: buildPath_def obind_iffs)
  note filled = fill_segments_Inr [OF gs]
  have all: "list_all2 (\<lambda>e g. g \<noteq> [] \<and> fills resource e g) ?es gs"
    and ok: "\<forall>g \<in> set gs. CHR ''/'' \<notin> set g \<and> \<not> str_contains g ''..''"
  proof -
    have e: "e \<noteq> [] \<and> CHR ''/'' \<notin> set e \<and> \<not> str_contains e ''..''" if "e \<in> set ?es" for e
      using that assms(2) split_on_segments [of e "CHR ''/''"]
      by (auto simp: tidy_def list_all_iff path_segments_def)
    show "list_all2 (\<lambda>e g. g \<noteq> [] \<and> fills resource e g) ?es gs"
      using filled by (rule list.rel_mono_strong) (use e fills_segment in blast)
    show "\<forall>g \<in> set gs. CHR ''/'' \<notin> set g \<and> \<not> str_contains g ''..''"
      using list_all2_in2 [OF filled] e fills_segment by blast
  qed
  have "gs \<noteq> []" using filled by (auto simp: path_segments_def)
  then have segs: "path_segments path = gs"
    using ok split_on_join [of gs "CHR ''/''"] trim_prefix_append [of "''/''"]
    by (simp add: path_segments_def path)
  have "\<not> str_contains (join_with ''/'' gs) ''..''" using dots_join ok by blast
  then have dots: "\<not> str_contains path ''..''"
    using dots_append [of "[]" "join_with ''/'' gs"] path by auto
  obtain captured where cap: "match_segments ?es gs [] = Some captured"
    "\<forall>k. gm_get captured k = (if \<exists>e \<in> set ?es. is_placeholder e \<and> placeholder_key e = k
          then gm_get resource k else gm_get [] k)"
    using match_segments_filled [OF all] by blast
  have "gm_get resource (placeholder_key e) \<noteq> None" if "e \<in> set ?es" "is_placeholder e" for e
  proof -
    from list_all2_in1 [OF filled that(1)] obtain g where "fills resource e g" by blast
    with that(2) show ?thesis by (simp add: fills_def)
  qed
  moreover have "has_prefix path ''/''" unfolding path by (rule has_prefix_append)
  then have "MatchPath (ac_Path c) path = Some captured"
    using cap(1) dots list_all2_lengthD [OF filled] by (simp add: MatchPath_def segs)
  ultimately show ?thesis using cap(2) by auto
qed

theorem buildPath_MatchPath_witness:
  "buildPath example_delete [(''zone'', ''z1'')] ''op'' = Inr ''/zones/z1''
   \<and> (\<exists>captured. MatchPath ''/zones/{zone}'' ''/zones/z1'' = Some captured
        \<and> gm_get captured ''zone'' = Some ''z1'')
   \<and> buildPath example_delete [(''zone'', ''z1/../x'')] ''op''
       = Inl (WithOperationID (apperr_New CodeInvalidRequest) ''op'')"
proof -
  have built: "buildPath example_delete [(''zone'', ''z1'')] ''op'' = Inr ''/zones/z1''"
    and bad: "buildPath example_delete [(''zone'', ''z1/../x'')] ''op''
       = Inl (WithOperationID (apperr_New CodeInvalidRequest) ''op'')"
    and tidy: "tidy (ac_Path example_delete)"
    and seg: "''{zone}'' \<in> set (path_segments (ac_Path example_delete))"
      "is_placeholder ''{zone}''" "placeholder_key ''{zone}'' = ''zone''"
    by code_simp+
  have "ac_Path example_delete = ''/zones/{zone}''" by (simp add: example_delete_def)
  then show ?thesis using buildPath_MatchPath [OF built tidy] seg built bad by fastforce
qed

lemma builtin_templates_tidy:
  "list_all (\<lambda>c. tidy (ac_Path c)) github_capabilities"
  "list_all (\<lambda>c. tidy (ac_Path c)) cloudflare_capabilities"
  "list_all (\<lambda>c. tidy (ac_Path c)) (model_capabilities ProviderOpenAI)"
  "list_all (\<lambda>c. tidy (ac_Path c)) (model_capabilities ProviderAnthropic)"
  by code_simp+

text \<open>A template that ends in a slash passes validation, but nothing ever fits it: the path it is
  filled to is refused by the channel.\<close>

lemma trailing_slash_is_dead:
  "capability_Validate (example_delete\<lparr>ac_Path := ''/zones/{zone}/''\<rparr>) = Ok ()
   \<and> buildPath (example_delete\<lparr>ac_Path := ''/zones/{zone}/''\<rparr>) [(''zone'', ''z1'')] ''op''
       = Inr ''/zones/z1/''
   \<and> MatchPath ''/zones/{zone}/'' ''/zones/z1/'' = None"
  by (intro conjI; code_simp)

section \<open>The contract of an executor\<close>

text \<open>
  What the exchange relies on when it calls \<open>ExecuteCapability\<close>: an operation that is not declared
  is refused before anything is sent, and a run sends a bounded number of permitted requests.
\<close>

locale adapter_executor =
  fixes caps :: "adapter_capability list"
    and run :: "(execute_input, 'o) sending"
    and allowed :: "outbound \<Rightarrow> bool"
    and bound :: nat
  assumes undeclared: "xi_Operation i \<notin> ac_Operation ` set caps
      \<Longrightarrow> \<exists>e. run i sent = (Inl e, sent) \<and> ae_Code e = CodeCapabilityNotOffered"
    and confined: "sends_within allowed bound (run i)"
begin

text \<open>The bounds of several runs add up, and all of them stay permitted.\<close>

lemma runs_confined:
  "\<exists>new. fold (\<lambda>i sent. snd (run i sent)) inputs sent = sent @ new
     \<and> length new \<le> bound * length inputs \<and> list_all allowed new"
proof (induction inputs arbitrary: sent)
  case (Cons i inputs)
  obtain new where new: "snd (run i sent) = sent @ new" "length new \<le> bound" "list_all allowed new"
    using confined by (rule sends_withinE)
  from Cons.IH [of "sent @ new"] obtain more where
    "fold (\<lambda>i sent. snd (run i sent)) inputs (sent @ new) = (sent @ new) @ more"
    "length more \<le> bound * length inputs" "list_all allowed more" by blast
  with new show ?case by (intro exI [of _ "new @ more"]) simp
qed simp

lemma sends_only_declared:
  assumes "snd (run i sent) \<noteq> sent"
  shows "xi_Operation i \<in> ac_Operation ` set caps"
proof (rule ccontr)
  assume "\<not> ?thesis"
  then obtain e where "run i sent = (Inl e, sent)" using undeclared by blast
  with assms show False by simp
qed

end

lemma byOperation_Some:
  "byOperation cs op = Some c \<Longrightarrow> c \<in> set cs \<and> ac_Operation c = op"
  by (auto simp: byOperation_def dest!: map_of_SomeD)

lemma byOperation_None: "byOperation cs op = None \<longleftrightarrow> op \<notin> ac_Operation ` set cs"
  by (simp add: byOperation_def map_of_eq_None_iff image_image)

section \<open>An answer was asked for\<close>

lemma http_Do_sends_one: "length sent < length (snd (http_Do net c first current via sent))"
proof (induction net c first current via sent rule: http_Do.induct)
  case (1 net c first current via sent)
  show ?case
    by (subst http_Do.simps)
      (auto split: sum.splits option.splits location.splits dest!: 1)
qed

lemma client_attempt_sends_one:
  assumes "client_attempt net c request sent = (Inr response, sent')"
  shows "length sent < length sent'"
proof -
  from assms obtain header rp where "http_Do net c (request_outbound c request header)
      (request_outbound c request header) 0 sent = (Inr rp, sent')"
    by (auto simp: client_attempt_def Let_def split: if_splits sum.splits prod.splits)
  then show ?thesis using http_Do_sends_one by (metis snd_conv)
qed

lemma client_loop_sends_one:
  assumes "client_loop net c request attempts attempt lastErr sent = ((response, None), sent')"
    and "attempt \<le> attempts"
  shows "length sent < length sent'"
  using assms
proof (induction "Suc attempts - attempt" arbitrary: attempt lastErr sent)
  case (Suc n)
  obtain out s1 where out: "client_attempt net c request sent = (out, s1)"
    by (cases "client_attempt net c request sent")
  have grows: "length s1 \<le> length sent'"
    if "client_loop net c request attempts (Suc attempt) err s1 = ((response, None), sent')" for err
    using client_loop_sends [of net c request attempts "Suc attempt" err] that
    by (metis sends_withinE snd_conv length_append le_add1)
  show ?case
  proof (cases out)
    case (Inr r)
    then have more: "length sent < length s1" using client_attempt_sends_one out by blast
    from Suc(3,4) out Inr consider "sent' = s1"
      | "client_loop net c request attempts (Suc attempt) None s1 = ((response, None), sent')"
      by (auto simp: client_loop.simps [of net c request attempts attempt] split: if_splits)
    then show ?thesis using more grows by cases force+
  next
    case (Inl e)
    with Suc(3,4) out have again:
      "client_loop net c request attempts (Suc attempt) (Some e) s1 = ((response, None), sent')"
      by (auto simp: client_loop.simps [of net c request attempts attempt] split: if_splits)
    then have le: "Suc attempt \<le> attempts"
      by (auto simp: client_loop.simps [of net c request attempts "Suc attempt"] split: if_splits)
    have "n = Suc attempts - Suc attempt" using Suc(2) by simp
    from Suc(1) [OF this again le] have "length s1 < length sent'" .
    moreover have "length sent \<le> length s1"
      using client_attempt_sends [of net c request] out
      by (metis sends_withinE snd_conv length_append le_add1)
    ultimately show ?thesis by simp
  qed
qed simp

lemma client_Do_sends_one:
  "client_Do net c request sent = ((response, None), sent') \<Longrightarrow> length sent < length sent'"
  by (rule client_loop_sends_one [of net c request "max_attempts request" 1 None])
    (auto simp: client_Do_def max_attempts_def MaxRetries_def split: if_splits)

section \<open>The GitHub adapter keeps to its table\<close>

lemma github_Execute_sends:
  obtains (none) "snd (github_Execute env request sent) = sent"
  | (sent) c path where "byOperation github_capabilities (xi_Operation request) = Some c"
      "xi_Operation request \<in> set github_executable"
      "buildPath c (xi_Resource request) (xi_OperationID request) = Inr path"
      "snd (github_Execute env request sent)
         = snd (client_Do (ee_net env) (ee_client env) (bearer_request c path request) sent)"
proof (cases "byOperation github_capabilities (xi_Operation request)")
  case None
  then show thesis by (intro none) (simp add: github_Execute_def)
next
  case (Some c)
  show thesis
  proof (cases "xi_Operation request \<in> set github_executable")
    case False
    with Some show thesis by (intro none) (simp add: github_Execute_def)
  next
    case True
    show thesis
    proof (cases "buildPath c (xi_Resource request) (xi_OperationID request)")
      case (Inl e)
      with Some True show thesis by (intro none) (simp add: github_Execute_def)
    next
      case (Inr path)
      with Some True show thesis
        by (intro sent) (simp_all add: github_Execute_def case_prod_unfold)
    qed
  qed
qed

lemma max_attempts_le: "maxRedirects * max_attempts request \<le> 15"
  by (simp add: max_attempts_def MaxRetries_def maxRedirects_def)

lemma github_Execute_confined:
  "sends_within (on_host (ee_client env)) 15 (github_Execute env request)"
proof (rule sends_withinI)
  fix sent
  show "\<exists>new. snd (github_Execute env request sent) = sent @ new \<and> length new \<le> 15
      \<and> list_all (on_host (ee_client env)) new"
  proof (cases rule: github_Execute_sends [of env request sent])
    case (sent c path)
    obtain new where "snd (client_Do (ee_net env) (ee_client env) (bearer_request c path request) sent)
        = sent @ new" "length new \<le> maxRedirects * max_attempts (bearer_request c path request)"
      "list_all (permitted (ee_net env) (ee_client env) (bearer_request c path request)) new"
      using client_Do_sends by (rule sends_withinE)
    with sent(4) max_attempts_le show ?thesis
      by (intro exI [of _ new]) (auto simp: list_all_iff permitted_def intro: le_trans)
  qed simp
qed

lemma github_run_cases: "snd (github_ExecuteCapability env i sent) = snd (github_Execute env i sent)"
  by (auto simp: github_ExecuteCapability_def split: prod.splits sum.splits)

interpretation github: adapter_executor github_capabilities "github_ExecuteCapability env"
  "on_host (ee_client env)" 15
proof
  show "\<exists>e. github_ExecuteCapability env i sent = (Inl e, sent) \<and> ae_Code e = CodeCapabilityNotOffered"
    if "xi_Operation i \<notin> ac_Operation ` set github_capabilities" for i sent
    using that by (simp add: github_ExecuteCapability_def github_Execute_def flip: byOperation_None)
  show "sends_within (on_host (ee_client env)) 15 (github_ExecuteCapability env i)" for i
    using github_Execute_confined [of env i] by (simp add: sends_within_def github_run_cases)
qed

lemma github_executable_not_high:
  "list_all (\<lambda>c. ac_Operation c \<in> set github_executable \<longrightarrow> ac_RiskLabel c \<noteq> RiskLabelHigh)
     github_capabilities"
  by (simp add: github_capabilities_def github_executable_def)

text \<open>The GitHub adapter sends only what it declares and implements.  A run that sends anything
  executes a declared operation that is not labelled high, with all resource values in place; it
  sends the declared method to the path that those values fill in, on the host of its base
  address, with the redirects the service asks for and at most fifteen requests in all.  A
  high-risk operation is refused as not implemented without a request.\<close>

theorem github_sends_only_what_it_declares:
  "(\<exists>new. snd (github_Execute env request sent) = sent @ new \<and> length new \<le> 15
      \<and> (new \<noteq> [] \<longrightarrow> (\<exists>c path. c \<in> set github_capabilities
           \<and> ac_Operation c = xi_Operation request \<and> ac_RiskLabel c \<noteq> RiskLabelHigh
           \<and> buildPath c (xi_Resource request) (xi_OperationID request) = Inr path
           \<and> MatchPath (ac_Path c) path \<noteq> None
           \<and> list_all (permitted (ee_net env) (ee_client env) (bearer_request c path request)) new)))
   \<and> (\<forall>c. byOperation github_capabilities (xi_Operation request) = Some c
        \<and> ac_RiskLabel c = RiskLabelHigh
        \<longrightarrow> github_Execute env request sent
            = (Inl (WithOperationID (apperr_New CodeNotImplemented) (xi_OperationID request)), sent))"
proof -
  have "github_Execute env request sent
      = (Inl (WithOperationID (apperr_New CodeNotImplemented) (xi_OperationID request)), sent)"
    if c: "byOperation github_capabilities (xi_Operation request) = Some c" "ac_RiskLabel c = RiskLabelHigh"
    for c
  proof -
    have "xi_Operation request \<notin> set github_executable"
      using byOperation_Some [OF c(1)] c(2) github_executable_not_high by (auto simp: list_all_iff)
    with c(1) show ?thesis by (simp add: github_Execute_def)
  qed
  moreover have "\<exists>new. snd (github_Execute env request sent) = sent @ new \<and> length new \<le> 15
      \<and> (new \<noteq> [] \<longrightarrow> (\<exists>c path. c \<in> set github_capabilities
           \<and> ac_Operation c = xi_Operation request \<and> ac_RiskLabel c \<noteq> RiskLabelHigh
           \<and> buildPath c (xi_Resource request) (xi_OperationID request) = Inr path
           \<and> MatchPath (ac_Path c) path \<noteq> None
           \<and> list_all (permitted (ee_net env) (ee_client env) (bearer_request c path request)) new))"
  proof (cases rule: github_Execute_sends [of env request sent])
    case (sent c path)
    let ?rq = "bearer_request c path request"
    note c = byOperation_Some [OF sent(1)]
    obtain new where new: "snd (client_Do (ee_net env) (ee_client env) ?rq sent) = sent @ new"
      "length new \<le> maxRedirects * max_attempts ?rq"
      "list_all (permitted (ee_net env) (ee_client env) ?rq) new"
      using client_Do_sends by (rule sends_withinE)
    have "ac_RiskLabel c \<noteq> RiskLabelHigh" "tidy (ac_Path c)"
      using c sent(2) github_executable_not_high builtin_templates_tidy(1) by (auto simp: list_all_iff)
    moreover have "MatchPath (ac_Path c) path \<noteq> None" if "new \<noteq> []"
      using client_Do_only_allowed [of "ee_net env" "ee_client env" ?rq sent] new(1) that
      by (auto simp: pathAllowed_def bearer_request_def)
    ultimately show ?thesis using c sent(3,4) new le_trans [OF new(2) max_attempts_le] by auto
  qed simp
  ultimately show ?thesis by blast
qed

section \<open>A sample run\<close>

definition sample_env :: "net \<Rightarrow> exec_env" where
  "sample_env net = \<lparr>ee_net = net, ee_client = sample_client,
     ee_decode = (\<lambda>body. if body = ''ok'' then Parsed (JObj [(''name'', JStr ''r''), (''owner'', JNull)])
       else Malformed), ee_marshal = (\<lambda>_. []), ee_messageSizes = (\<lambda>_. []), ee_urls = plain_urls\<rparr>"

definition sample_input :: "string \<Rightarrow> execute_input" where
  "sample_input op = \<lparr>xi_Operation = op, xi_Resource = [(''owner'', ''o''), (''repo'', ''r'')],
     xi_Query = [], xi_Input = [], xi_Budget = no_budget, xi_Spent = no_usage,
     xi_Credential = ''s3cret'', xi_OperationID = ''op1''\<rparr>"

definition ok_net :: net where
  "ok_net = \<lparr>nt_RoundTrip = (\<lambda>sent o'. Inr (answer 200 ''ok'')), nt_Wait = (\<lambda>sent d. True)\<rparr>"

text \<open>An answer that is no redirect ends an attempt; a final status ends the call.\<close>

lemma client_Do_answer:
  assumes "pathAllowed (ac_Path (hq_Capability request)) (hq_Path request)"
    and "list_all token_char (ac_Method (hq_Capability request))"
    and "injectCredential (if hq_Body request \<noteq> [] then header_Set ''Content-Type'' ''application/json'' []
      else []) request = Inr header"
    and "nt_RoundTrip net sent (request_outbound c request header) = Inr (answer status body)"
    and "status \<notin> {301, 302, 303, 307, 308, 429}" and "status < 500"
    and "int (length body) \<le> cl_maxBytes c"
  shows "client_Do net c request sent
    = ((\<lparr>hs_StatusCode = status, hs_Body = body, hs_Attempts = 1\<rparr>, None),
       sent @ [request_outbound c request header])"
proof -
  have "http_Do net c (request_outbound c request header) (request_outbound c request header) 0 sent
      = (Inr (answer status body), sent @ [request_outbound c request header])"
    using assms(4,5) by (subst http_Do.simps) (simp add: redirectBehavior_def answer_def)
  moreover have "read_reply c (answer status body) (hq_OperationID request)
      = Inr (no_response\<lparr>hs_StatusCode := status, hs_Body := body\<rparr>)"
    using assms(7) by (simp add: read_reply_def answer_def Let_def)
  ultimately have "client_attempt net c request sent
      = (Inr (no_response\<lparr>hs_StatusCode := status, hs_Body := body\<rparr>),
         sent @ [request_outbound c request header])"
    using assms(2,3) by (simp add: client_attempt_def Let_def)
  moreover have "1 \<le> max_attempts request" by (simp add: max_attempts_def MaxRetries_def)
  ultimately show ?thesis using assms(1,5,6)
    by (simp add: client_Do_def client_loop.simps retryableStatus_def no_response_def)
qed

lemma sample_github_run:
  "\<exists>first. github_Execute (sample_env ok_net) (sample_input ''read_repository'') []
     = (Inr (FromUpstream 200 (Success ''op1'' (Some (JObj [(''name'', JStr ''r'')])) [])), [first])"
proof -
  let ?c = "github_capabilities ! 0" and ?in = "sample_input ''read_repository''"
  let ?rq = "bearer_request ?c ''/repos/o/r'' ?in"
  have found: "byOperation github_capabilities ''read_repository'' = Some ?c"
    and path: "buildPath ?c (xi_Resource ?in) ''op1'' = Inr ''/repos/o/r''"
    and exe: "''read_repository'' \<in> set github_executable"
    and render: "github_render (sample_env ok_net) ?c ''ok'' = Inr (Some (JObj [(''name'', JStr ''r'')]))"
    by code_simp+
  have pre: "pathAllowed (ac_Path (hq_Capability ?rq)) (hq_Path ?rq)"
    "list_all token_char (ac_Method (hq_Capability ?rq))"
    "injectCredential (if hq_Body ?rq \<noteq> [] then header_Set ''Content-Type'' ''application/json'' [] else [])
       ?rq = Inr [(''Authorization'', ''Bearer s3cret'')]" by code_simp+
  have run: "client_Do ok_net sample_client ?rq []
      = ((\<lparr>hs_StatusCode = 200, hs_Body = ''ok'', hs_Attempts = 1\<rparr>, None),
         [request_outbound sample_client ?rq [(''Authorization'', ''Bearer s3cret'')]])"
    using client_Do_answer [OF pre, of ok_net "[]" sample_client 200 "''ok''"]
    by (simp add: ok_net_def)
  then show ?thesis using found path exe render
    by (simp add: github_Execute_def sample_input_def sample_env_def)
qed

theorem github_sends_only_what_it_declares_witness:
  "fst (github_Execute (sample_env ok_net) (sample_input ''read_repository'') [])
     = Inr (FromUpstream 200 (Success ''op1'' (Some (JObj [(''name'', JStr ''r'')])) []))
   \<and> (\<exists>first. snd (github_Execute (sample_env ok_net) (sample_input ''read_repository'') []) = [first]
        \<and> on_host sample_client first)
   \<and> github_Execute (sample_env ok_net) (sample_input ''delete_repository'') []
     = (Inl (WithOperationID (apperr_New CodeNotImplemented) ''op1''), [])"
proof -
  have high: "byOperation github_capabilities ''delete_repository'' = Some (github_capabilities ! 10)"
    "ac_RiskLabel (github_capabilities ! 10) = RiskLabelHigh" by code_simp+
  show ?thesis
    using github_sends_only_what_it_declares [of "sample_env ok_net" "sample_input ''read_repository''" "[]"]
      github_sends_only_what_it_declares [of "sample_env ok_net" "sample_input ''delete_repository''" "[]"]
      sample_github_run high by (auto simp: permitted_def sample_env_def sample_input_def)
qed

end
