(* ===== verification/Net_Address.thy ===== *)
theory Net_Address
  imports App_Error "HOL-Library.Word"
begin

text \<open>
  Addresses as Go's \<open>net\<close> package keeps them -- a slice of four or sixteen bytes -- and the ranges a
  user-defined service must not point at, from \<open>internal/adapter/generichttp/definition.go\<close>.  The
  test of the code masks bytes; \<open>inside_ranges\<close> says the same with the number of an address.
\<close>

unbundle bit_operations_syntax

section \<open>Addresses and networks\<close>

type_synonym net_ip = "8 word list"

text \<open>\<open>IP.To4\<close>: sixteen bytes that map an IPv4 address are shortened to it.\<close>

definition mapped_prefix :: net_ip where
  "mapped_prefix = replicate 10 0 @ [0xFF, 0xFF]"

definition To4 :: "net_ip \<Rightarrow> net_ip option" where
  "To4 a = (if length a = 4 then Some a
     else if length a = 16 \<and> take 12 a = mapped_prefix then Some (drop 12 a)
     else None)"

definition IsUnspecified :: "net_ip \<Rightarrow> bool" where
  "IsUnspecified a \<longleftrightarrow> To4 a = Some (replicate 4 0) \<or> a = replicate 16 0"

definition IsMulticast :: "net_ip \<Rightarrow> bool" where
  "IsMulticast a = (case To4 a of Some a4 \<Rightarrow> a4 ! 0 AND 0xF0 = 0xE0
     | None \<Rightarrow> length a = 16 \<and> a ! 0 = 0xFF)"

definition IsInterfaceLocalMulticast :: "net_ip \<Rightarrow> bool" where
  "IsInterfaceLocalMulticast a \<longleftrightarrow> length a = 16 \<and> a ! 0 = 0xFF \<and> a ! 1 AND 0x0F = 1"

text \<open>\<open>CIDRMask\<close>, byte by byte: \<open>n\<close> one bits, then zeros.\<close>

fun CIDRMask :: "nat \<Rightarrow> nat \<Rightarrow> net_ip" where
  "CIDRMask n 0 = []"
| "CIDRMask n (Suc l) =
     (if n \<ge> 8 then 0xFF # CIDRMask (n - 8) l else NOT (drop_bit n 0xFF) # CIDRMask 0 l)"

record ip_net =
  in_IP :: net_ip
  in_Mask :: net_ip

text \<open>\<open>IPNet.Contains\<close>.\<close>

definition net_Contains :: "ip_net \<Rightarrow> net_ip \<Rightarrow> bool" where
  "net_Contains n a =
     (let x = (case To4 a of Some a4 \<Rightarrow> a4 | None \<Rightarrow> a) in
      length x = length (in_IP n)
      \<and> list_all (\<lambda>i. in_IP n ! i AND in_Mask n ! i = x ! i AND in_Mask n ! i) [0..<length x])"

section \<open>The blocked ranges\<close>

text \<open>An address with the number of leading bits that count, the parsed form of the table.\<close>

definition blockedRanges :: "(net_ip \<times> nat) list" where
  "blockedRanges =
     [([0, 0, 0, 0], 8), ([10, 0, 0, 0], 8), ([100, 64, 0, 0], 10), ([127, 0, 0, 0], 8),
      ([169, 254, 0, 0], 16), ([172, 16, 0, 0], 12), ([192, 168, 0, 0], 16),
      (replicate 15 0 @ [1], 128), (0xFC # replicate 15 0, 7), (0xFE # 0x80 # replicate 14 0, 10)]"

definition parseBlocked :: "(net_ip \<times> nat) list \<Rightarrow> ip_net list" where
  "parseBlocked ranges = map (\<lambda>(ip, ones). \<lparr>in_IP = map2 (AND) ip (CIDRMask ones (length ip)),
     in_Mask = CIDRMask ones (length ip)\<rparr>) ranges"

definition invalidDefinition :: app_error where
  "invalidDefinition = apperr_New CodeInvalidConfiguration"

definition checkIP :: "net_ip \<Rightarrow> unit app_result" where
  "checkIP address =
     (if IsUnspecified address \<or> IsMulticast address \<or> IsInterfaceLocalMulticast address
      then Inl invalidDefinition
      else if list_ex (\<lambda>n. net_Contains n address) (parseBlocked blockedRanges)
      then Inl invalidDefinition
      else Inr ())"

section \<open>The ranges as numbers\<close>

fun ip_number :: "net_ip \<Rightarrow> nat" where
  "ip_number [] = 0"
| "ip_number (b # a) = unat b * 256 ^ length a + ip_number a"

definition inside_v4 :: "nat set" where
  "inside_v4 = {0..<2^24} \<union> {0x0A000000..<0x0B000000} \<union> {0x64400000..<0x64800000}
     \<union> {0x7F000000..<0x80000000} \<union> {0xA9FE0000..<0xA9FF0000} \<union> {0xAC100000..<0xAC200000}
     \<union> {0xC0A80000..<0xC0A90000} \<union> {0xE0000000..<0xF0000000}"

definition inside_v6 :: "nat set" where
  "inside_v6 = {0, 1} \<union> {0xFC * 2^120..<0xFE * 2^120} \<union> {0xFE80 * 2^112..<0xFEC0 * 2^112}
     \<union> {0xFF * 2^120..<2^128}"

definition inside_ranges :: "net_ip \<Rightarrow> bool" where
  "inside_ranges a = (case To4 a of Some a4 \<Rightarrow> ip_number a4 \<in> inside_v4
     | None \<Rightarrow> ip_number a \<in> inside_v6)"

lemma byte_bound [simp]: "unat (b :: 8 word) < 256"
  using unsigned_less [of b, where ?'a = nat] by simp

lemma ip_number_bound: "ip_number a < 256 ^ length a"
proof (induction a)
  case (Cons b a)
  then have "ip_number (b # a) < Suc (unat b) * 256 ^ length a" by simp
  also have "\<dots> \<le> 256 * 256 ^ length a" using byte_bound [of b] by (intro mult_right_mono) linarith+
  finally show ?case by simp
qed simp

text \<open>An interval of numbers whose ends are multiples of a power is a condition on leading bytes.\<close>

lemma leading_interval:
  fixes x r p lo hi :: nat
  assumes "r < p"
  shows "x * p + r \<in> {lo * p..<hi * p} \<longleftrightarrow> x \<in> {lo..<hi}"
proof -
  have "lo * p \<le> x * p + r \<longleftrightarrow> lo \<le> x" and "x * p + r < hi * p \<longleftrightarrow> x < hi"
    using assms by (metis add.commute div_mult_self3 div_less less_eq_div_iff_mult_less_eq
        add.right_neutral gr_implies_not0 neq0_conv, metis add.commute div_mult_self3 div_less
        div_less_iff_less_mult add.right_neutral gr_implies_not0 neq0_conv)
  then show ?thesis by simp
qed

text \<open>The masks of the table keep the high bits of a byte.\<close>

lemma high_bits:
  fixes b :: "8 word"
  shows "unat (b AND NOT (mask n)) = unat b div 2 ^ n * 2 ^ n"
proof -
  have "push_bit n (drop_bit n b) = b AND NOT (mask n)"
    by (rule bit_eqI) (auto simp: bit_simps)
  moreover have "push_bit n (drop_bit n b) = b - take_bit n b"
    using bits_ident [of n b] by (simp add: algebra_simps)
  moreover have t: "unat (take_bit n b) = unat b mod 2 ^ n"
    by (simp add: unsigned_take_bit_eq flip: take_bit_eq_mod)
  moreover have "take_bit n b \<le> b" by (simp add: word_le_nat_alt t)
  ultimately have "unat (b AND NOT (mask n)) = unat b - unat b mod 2 ^ n"
    by (metis unat_sub)
  then show ?thesis by (simp add: minus_mod_eq_div_mult)
qed

lemma byte_masks:
  fixes b :: "8 word"
  shows "unat (b AND 0xF0) = unat b div 16 * 16" and "unat (b AND 0xC0) = unat b div 64 * 64"
    and "unat (b AND 0xFE) = unat b div 2 * 2" and "b AND 0xFF = b"
proof -
  have masks: "(0xF0 :: 8 word) = NOT (mask 4)" "(0xC0 :: 8 word) = NOT (mask 6)"
    "(0xFE :: 8 word) = NOT (mask 1)" "(0xFF :: 8 word) = NOT (mask 0)" by (simp_all add: mask_numeral)
  show "unat (b AND 0xF0) = unat b div 16 * 16" unfolding masks(1) high_bits by simp
  show "unat (b AND 0xC0) = unat b div 64 * 64" unfolding masks(2) high_bits by simp
  show "unat (b AND 0xFE) = unat b div 2 * 2" unfolding masks(3) high_bits by simp
  show "b AND 0xFF = b" unfolding masks(4) by simp
qed

lemma parsed_ranges: "parseBlocked blockedRanges =
   [\<lparr>in_IP = [0, 0, 0, 0], in_Mask = [0xFF, 0, 0, 0]\<rparr>, \<lparr>in_IP = [10, 0, 0, 0], in_Mask = [0xFF, 0, 0, 0]\<rparr>,
    \<lparr>in_IP = [100, 64, 0, 0], in_Mask = [0xFF, 0xC0, 0, 0]\<rparr>, \<lparr>in_IP = [127, 0, 0, 0], in_Mask = [0xFF, 0, 0, 0]\<rparr>,
    \<lparr>in_IP = [169, 254, 0, 0], in_Mask = [0xFF, 0xFF, 0, 0]\<rparr>, \<lparr>in_IP = [172, 16, 0, 0], in_Mask = [0xFF, 0xF0, 0, 0]\<rparr>,
    \<lparr>in_IP = [192, 168, 0, 0], in_Mask = [0xFF, 0xFF, 0, 0]\<rparr>,
    \<lparr>in_IP = [0, 0, 0, 0, 0, 0, 0, 0, 0, 0, 0, 0, 0, 0, 0, 1],
      in_Mask = [0xFF, 0xFF, 0xFF, 0xFF, 0xFF, 0xFF, 0xFF, 0xFF, 0xFF, 0xFF, 0xFF, 0xFF, 0xFF, 0xFF, 0xFF, 0xFF]\<rparr>,
    \<lparr>in_IP = [0xFC, 0, 0, 0, 0, 0, 0, 0, 0, 0, 0, 0, 0, 0, 0, 0],
      in_Mask = [0xFE, 0, 0, 0, 0, 0, 0, 0, 0, 0, 0, 0, 0, 0, 0, 0]\<rparr>,
    \<lparr>in_IP = [0xFE, 0x80, 0, 0, 0, 0, 0, 0, 0, 0, 0, 0, 0, 0, 0, 0],
      in_Mask = [0xFF, 0xC0, 0, 0, 0, 0, 0, 0, 0, 0, 0, 0, 0, 0, 0, 0]\<rparr>]"
  by code_simp

lemma upt_code: "[0..<4] = [0, 1, 2, 3 :: nat]"
  "[0..<16] = [0, 1, 2, 3, 4, 5, 6, 7, 8, 9, 10, 11, 12, 13, 14, 15 :: nat]"
  by code_simp+

lemma To4_four [simp]: "To4 [a, b, c, d] = Some [a, b, c, d]"
  by (simp add: To4_def)

lemma byte_eq: "(b :: 8 word) = c \<longleftrightarrow> unat b = unat c"
  by (simp add: word_unat_eq_iff)


lemma masked_interval:
  fixes x p k :: nat
  assumes "0 < p"
  shows "x div p * p = k * p \<longleftrightarrow> x \<in> {k * p..<Suc k * p}"
proof -
  have "x div p * p + x mod p \<in> {k * p..<Suc k * p} \<longleftrightarrow> x div p \<in> {k..<Suc k}"
    using assms by (intro leading_interval) simp
  then show ?thesis using assms by auto
qed

lemma byte_conds:
  fixes b :: "8 word"
  shows "b AND 0xF0 = 0xE0 \<longleftrightarrow> unat b \<in> {0xE0..<0xF0}" and "b AND 0xF0 = 0x10 \<longleftrightarrow> unat b \<in> {0x10..<0x20}"
    and "b AND 0xC0 = 0x40 \<longleftrightarrow> unat b \<in> {0x40..<0x80}" and "b AND 0xC0 = 0x80 \<longleftrightarrow> unat b \<in> {0x80..<0xC0}"
    and "b AND 0xFE = 0xFC \<longleftrightarrow> unat b \<in> {0xFC..<0xFE}"
  using masked_interval [of 16 "unat b" 14] masked_interval [of 16 "unat b" 1]
    masked_interval [of 64 "unat b" 1] masked_interval [of 64 "unat b" 2]
    masked_interval [of 2 "unat b" 126]
  unfolding byte_eq byte_masks by simp_all

lemma contains_v4: "list_ex (\<lambda>n. net_Contains n [a, b, c, d]) (parseBlocked blockedRanges)
   \<longleftrightarrow> a \<in> {0, 10, 127} \<or> a = 100 \<and> unat b \<in> {0x40..<0x80} \<or> a = 169 \<and> b = 254
     \<or> a = 172 \<and> unat b \<in> {0x10..<0x20} \<or> a = 192 \<and> b = 168"
  unfolding parsed_ranges net_Contains_def
  by (simp add: upt_code byte_masks(4) byte_conds) blast

lemma contains_v6:
  assumes "To4 [a0, a1, a2, a3, a4, a5, a6, a7, a8, a9, a10, a11, a12, a13, a14, a15] = None"
  shows "list_ex (\<lambda>n. net_Contains n [a0, a1, a2, a3, a4, a5, a6, a7, a8, a9, a10, a11, a12, a13, a14, a15])
      (parseBlocked blockedRanges)
    \<longleftrightarrow> [a0, a1, a2, a3, a4, a5, a6, a7, a8, a9, a10, a11, a12, a13, a14, a15] = [0,0,0,0,0,0,0,0,0,0,0,0,0,0,0,1]
      \<or> unat a0 \<in> {0xFC..<0xFE} \<or> a0 = 0xFE \<and> unat a1 \<in> {0x80..<0xC0}"
  unfolding parsed_ranges net_Contains_def
  using assms by (simp add: upt_code byte_masks(4) byte_conds)

lemma two_bytes:
  fixes x y k m n :: nat
  assumes "y < 256" and "n \<le> 256"
  shows "x * 256 + y \<in> {k * 256 + m..<k * 256 + n} \<longleftrightarrow> x = k \<and> y \<in> {m..<n}"
proof (cases x k rule: linorder_cases)
  case less
  then have "x * 256 + 256 \<le> k * 256" by simp
  with assms less show ?thesis by simp
next
  case greater
  then have "k * 256 + 256 \<le> x * 256" by simp
  with assms greater show ?thesis by simp
qed simp

lemma leading_byte:
  "ip_number (a # r) \<in> {l * 256 ^ length r..<h * 256 ^ length r} \<longleftrightarrow> unat a \<in> {l..<h}"
  using leading_interval [OF ip_number_bound] by simp

lemma leading_bytes:
  assumes "n \<le> 256"
  shows "ip_number (a # b # r) \<in> {(k * 256 + m) * 256 ^ length r..<(k * 256 + n) * 256 ^ length r}
     \<longleftrightarrow> unat a = k \<and> unat b \<in> {m..<n}"
  using leading_interval [OF ip_number_bound [of r], of "unat a * 256 + unat b" "k * 256 + m" "k * 256 + n"]
    two_bytes [OF _ assms, of "unat b" "unat a" k m]
  by (simp add: algebra_simps)
lemma ip_number_inj:
  "length a = length b \<Longrightarrow> ip_number a = ip_number b \<longleftrightarrow> a = b"
proof (induction a b rule: list_induct2)
  case (Cons x xs y ys)
  have "(unat x * p + r) div p = unat x" "(unat x * p + r) mod p = r" if "r < p" for x :: "8 word" and p r :: nat
    using that by simp_all
  then have "unat x * 256 ^ length xs + ip_number xs = unat y * 256 ^ length xs + ip_number ys
      \<longleftrightarrow> unat x = unat y \<and> ip_number xs = ip_number ys"
    using ip_number_bound [of xs] ip_number_bound [of ys] Cons.hyps by metis
  with Cons show ?case by (simp add: byte_eq)
qed simp

lemma v4_number: "ip_number [a, b, c, d] \<in> inside_v4 \<longleftrightarrow>
   a \<in> {0, 10, 127} \<or> a = 100 \<and> unat b \<in> {0x40..<0x80} \<or> a = 169 \<and> b = 254
     \<or> a = 172 \<and> unat b \<in> {0x10..<0x20} \<or> a = 192 \<and> b = 168 \<or> unat a \<in> {0xE0..<0xF0}"
proof -
  let ?n = "ip_number [a, b, c, d]"
  note one = leading_byte [where a = a and r = "[b, c, d]"] and two = leading_bytes [where a = a and b = b and r = "[c, d]"]
  have "?n \<in> {0..<2^24} \<longleftrightarrow> a = 0" using one [where l = 0 and h = 1] by (simp add: byte_eq)
  moreover have "?n \<in> {0x0A000000..<0x0B000000} \<longleftrightarrow> a = 10" using one [where l = 10 and h = 11] by (simp add: byte_eq) linarith
  moreover have "?n \<in> {0x7F000000..<0x80000000} \<longleftrightarrow> a = 127" using one [where l = 127 and h = 128] by (simp add: byte_eq) linarith
  moreover have "?n \<in> {0xE0000000..<0xF0000000} \<longleftrightarrow> unat a \<in> {0xE0..<0xF0}" using one [where l = "0xE0" and h = "0xF0"] by simp
  moreover have "?n \<in> {0x64400000..<0x64800000} \<longleftrightarrow> a = 100 \<and> unat b \<in> {0x40..<0x80}"
    using two [where n = "0x80" and k = 100 and m = "0x40"] by (simp add: byte_eq)
  moreover have "?n \<in> {0xA9FE0000..<0xA9FF0000} \<longleftrightarrow> a = 169 \<and> b = 254"
    using two [where n = 255 and k = 169 and m = 254] by (simp add: byte_eq) linarith
  moreover have "?n \<in> {0xAC100000..<0xAC200000} \<longleftrightarrow> a = 172 \<and> unat b \<in> {0x10..<0x20}"
    using two [where n = "0x20" and k = 172 and m = "0x10"] by (simp add: byte_eq)
  moreover have "?n \<in> {0xC0A80000..<0xC0A90000} \<longleftrightarrow> a = 192 \<and> b = 168"
    using two [where n = 169 and k = 192 and m = 168] by (simp add: byte_eq) linarith
  ultimately show ?thesis unfolding inside_v4_def Un_iff by (simp only:) blast
qed

lemma ip_number_zeros: "ip_number (replicate n 0) = 0" "ip_number (replicate n 0 @ [1]) = 1"
  by (induction n) simp_all

lemma v6_number:
  assumes "a = [a0, a1, a2, a3, a4, a5, a6, a7, a8, a9, a10, a11, a12, a13, a14, a15]"
  shows "ip_number a \<in> inside_v6 \<longleftrightarrow> a = replicate 16 0 \<or> a = replicate 15 0 @ [1]
     \<or> unat a0 \<in> {0xFC..<0xFE} \<or> a0 = 0xFE \<and> unat a1 \<in> {0x80..<0xC0} \<or> a0 = 0xFF"
proof -
  let ?r = "[a1, a2, a3, a4, a5, a6, a7, a8, a9, a10, a11, a12, a13, a14, a15]"
  note one = leading_byte [where a = a0 and r = ?r]
    and two = leading_bytes [where a = a0 and b = a1
      and r = "[a2, a3, a4, a5, a6, a7, a8, a9, a10, a11, a12, a13, a14, a15]"]
  have len: "length a = 16" using assms by simp
  have "ip_number a = 0 \<longleftrightarrow> a = replicate 16 0" "ip_number a = 1 \<longleftrightarrow> a = replicate 15 0 @ [1]"
    using ip_number_inj [of a "replicate 16 0"] ip_number_inj [of a "replicate 15 0 @ [1]"] len
    unfolding ip_number_zeros by (simp_all only: length_replicate length_append list.size One_nat_def)
  moreover have "ip_number a \<in> {0xFC * 2^120..<0xFE * 2^120} \<longleftrightarrow> unat a0 \<in> {0xFC..<0xFE}"
    unfolding assms using one [where l = "0xFC" and h = "0xFE"] by simp
  moreover have "ip_number a \<in> {0xFF * 2^120..<2^128} \<longleftrightarrow> a0 = 0xFF"
    unfolding assms using one [where l = "0xFF" and h = "0x100"] byte_bound [of a0]
    by (simp add: byte_eq) linarith
  moreover have "ip_number a \<in> {0xFE80 * 2^112..<0xFEC0 * 2^112} \<longleftrightarrow> a0 = 0xFE \<and> unat a1 \<in> {0x80..<0xC0}"
    unfolding assms using two [where k = "0xFE" and m = "0x80" and n = "0xC0"] by (simp add: byte_eq)
  ultimately show ?thesis unfolding inside_v6_def Un_iff insert_iff empty_iff by (simp only:) blast
qed

text \<open>The check is the specification: a four-byte address, or one mapped into sixteen bytes, is
  refused exactly when its number lies in a reserved IPv4 range, and any other sixteen-byte
  address exactly when its number lies in a reserved IPv6 range.\<close>

lemma list16: "length a = 16 \<Longrightarrow> \<exists>a0 a1 a2 a3 a4 a5 a6 a7 a8 a9 a10 a11 a12 a13 a14 a15.
    a = [a0, a1, a2, a3, a4, a5, a6, a7, a8, a9, a10, a11, a12, a13, a14, a15]"
  by (simp add: numeral_eq_Suc length_Suc_conv) blast

lemma checkIP_v4: "checkIP [a, b, c, d] = Inr () \<longleftrightarrow> ip_number [a, b, c, d] \<notin> inside_v4"
  unfolding checkIP_def contains_v4 v4_number
  by (auto simp: IsUnspecified_def IsMulticast_def IsInterfaceLocalMulticast_def byte_conds numeral_eq_Suc)

lemma checkIP_mapped:
  assumes "length a = 16" and "To4 a = Some x"
  shows "checkIP a = checkIP x" and "length x = 4"
proof -
  from assms have x: "x = drop 12 a" and t: "take 12 a = mapped_prefix"
    by (auto simp: To4_def split: if_splits)
  show len: "length x = 4" using x assms(1) by simp
  then have "To4 x = Some x" by (simp add: To4_def)
  moreover have "a ! 0 = 0" using arg_cong [OF t, of "\<lambda>l. l ! 0"] by (simp add: mapped_prefix_def nth_append)
  moreover have "a \<noteq> replicate 16 0"
    using arg_cong [OF t, of "\<lambda>l. l ! 10"] by (auto simp: mapped_prefix_def nth_append)
  ultimately show "checkIP a = checkIP x"
    using assms len by (auto simp: checkIP_def IsUnspecified_def IsMulticast_def
        IsInterfaceLocalMulticast_def net_Contains_def Let_def)
qed

lemma checkIP_v6:
  assumes "length a = 16" and "To4 a = None"
  shows "checkIP a = Inr () \<longleftrightarrow> ip_number a \<notin> inside_v6"
proof -
  obtain a0 a1 a2 a3 a4 a5 a6 a7 a8 a9 a10 a11 a12 a13 a14 a15 where
    a: "a = [a0, a1, a2, a3, a4, a5, a6, a7, a8, a9, a10, a11, a12, a13, a14, a15]"
    using list16 [OF assms(1)] by blast
  have "list_ex (\<lambda>n. net_Contains n a) (parseBlocked blockedRanges)
    \<longleftrightarrow> a = replicate 15 0 @ [1] \<or> unat a0 \<in> {0xFC..<0xFE} \<or> a0 = 0xFE \<and> unat a1 \<in> {0x80..<0xC0}"
    using contains_v6 assms(2) unfolding a by (simp add: numeral_eq_Suc)
  moreover have "IsUnspecified a \<longleftrightarrow> a = replicate 16 0" "IsMulticast a \<longleftrightarrow> a0 = 0xFF"
    "IsInterfaceLocalMulticast a \<longrightarrow> a0 = 0xFF"
    using assms a by (simp_all add: IsUnspecified_def IsMulticast_def IsInterfaceLocalMulticast_def)
  ultimately show ?thesis unfolding checkIP_def v6_number [OF a] by auto
qed

lemma list4: "length a = 4 \<Longrightarrow> \<exists>w x y z. a = [w, x, y, z]"
  by (simp add: numeral_eq_Suc length_Suc_conv) blast

lemma checkIP_ranges:
  assumes "length address = 4 \<or> length address = 16"
  shows "checkIP address = (if inside_ranges address then Inl invalidDefinition else Inr ())"
proof -
  have four: "checkIP x = Inr () \<longleftrightarrow> ip_number x \<notin> inside_v4" if "length x = 4" for x
    using list4 [OF that] checkIP_v4 by (elim exE) simp
  have "checkIP address = Inr () \<longleftrightarrow> \<not> inside_ranges address"
  proof (cases "length address = 4")
    case True
    then show ?thesis using four by (simp add: inside_ranges_def To4_def)
  next
    case False
    with assms have len: "length address = 16" by simp
    then show ?thesis
    proof (cases "To4 address")
      case (Some x)
      with checkIP_mapped [OF len] four show ?thesis by (simp add: inside_ranges_def)
    next
      case None
      with checkIP_v6 [OF len] show ?thesis by (simp add: inside_ranges_def)
    qed
  qed
  then show ?thesis by (auto simp: checkIP_def)
qed

text \<open>The network test of a user-defined service is exactly its table.  A four-byte address, or
  the same address mapped into sixteen bytes, is refused if and only if its number lies in the
  reserved IPv4 ranges -- this network, private, carrier, loopback, link-local, multicast -- and
  every other sixteen-byte address if and only if its number lies in the reserved IPv6 ranges:
  masking byte by byte, shortening mapped addresses and the multicast tests together leave no gap
  at the edges of a range.\<close>

theorem checkIP_exact:
  assumes "length address = 4 \<or> length address = 16"
  shows "checkIP address = (if inside_ranges address then Inl invalidDefinition else Inr ())"
  using assms by (rule checkIP_ranges)

theorem checkIP_exact_witness:
  "checkIP [10, 0, 0, 1] = Inl invalidDefinition \<and> checkIP [172, 31, 255, 255] = Inl invalidDefinition
   \<and> checkIP [172, 32, 0, 0] = Inr () \<and> checkIP (mapped_prefix @ [127, 0, 0, 1]) = Inl invalidDefinition
   \<and> checkIP [0xFE, 0xBF, 0, 0, 0, 0, 0, 0, 0, 0, 0, 0, 0, 0, 0, 0] = Inl invalidDefinition"
proof -
  let ?low = "[0xFE, 0xBF, 0, 0, 0, 0, 0, 0, 0, 0, 0, 0, 0, 0, 0, 0] :: net_ip"
  have "inside_ranges [10, 0, 0, 1]" "inside_ranges [172, 31, 255, 255]" "\<not> inside_ranges [172, 32, 0, 0]"
    by (simp_all add: inside_ranges_def inside_v4_def)
  moreover have "inside_ranges (mapped_prefix @ [127, 0, 0, 1])"
    by (simp add: inside_ranges_def To4_def inside_v4_def) (simp add: mapped_prefix_def)
  moreover have "inside_ranges [0xFE, 0xBF, 0, 0, 0, 0, 0, 0, 0, 0, 0, 0, 0, 0, 0, 0]"
  proof -
    have "To4 ?low = None" by code_simp
    then show ?thesis using v6_number [of ?low] by (simp add: inside_ranges_def)
  qed
  moreover have "length (mapped_prefix @ [127, 0, 0, 1 :: 8 word]) = 16" by (simp add: mapped_prefix_def)
  ultimately show ?thesis
    using checkIP_exact [of "[10, 0, 0, 1]"] checkIP_exact [of "[172, 31, 255, 255]"]
      checkIP_exact [of "[172, 32, 0, 0]"] checkIP_exact [of "mapped_prefix @ [127, 0, 0, 1]"]
      checkIP_exact [of "[0xFE, 0xBF, 0, 0, 0, 0, 0, 0, 0, 0, 0, 0, 0, 0, 0, 0]"] by simp
qed

text \<open>The table knows no translated addresses: the well-known NAT64 form of the loopback address and
  the class of reserved IPv4 addresses with the broadcast address pass.\<close>

lemma translated_loopback_passes:
  "checkIP [0, 0x64, 0xFF, 0x9B, 0, 0, 0, 0, 0, 0, 0, 0, 127, 0, 0, 1] = Inr ()"
  "checkIP [255, 255, 255, 255] = Inr ()"
  by code_simp+

end
