(* ===== verification/Generic_HTTP.thy ===== *)
theory Generic_HTTP
  imports Adapter_Exec Net_Address
begin

text \<open>
  Model of \<open>internal/adapter/generichttp\<close>: a service the user describes.  \<open>New\<close> validates the
  description and refuses a base address that points into the user's own networks; \<open>Execute\<close>
  looks the name up again before every call.  \<open>url.Parse\<close>, \<open>net.ParseIP\<close> and the name resolver are
  parameters; the resolver's answer depends on what was sent before, so a name may change its
  addresses at any time.
\<close>

section \<open>Definitions given by the user\<close>

record operation_definition =
  od_Operation :: string
  od_Method :: string
  od_Path :: string
  od_InputSchema :: jtext
  od_RiskLabel :: risk_label
  od_RedactionRules :: "string list option"
  od_ResponseFields :: "string list"
  od_Rollback :: rollback
  od_Idempotency :: idempotency
  od_Nature :: nature
  od_ResourceKeys :: "string list"

record http_definition =
  hd_Service :: string
  hd_DisplayName :: string
  hd_BaseURL :: string
  hd_AuthScheme :: auth_scheme
  hd_AuthHeader :: string
  hd_Operations :: "operation_definition list"

record host_lib =
  hl_Parse :: "string \<Rightarrow> url option"
  hl_ParseIP :: "string \<Rightarrow> net_ip option"
  hl_Resolve :: "outbound list \<Rightarrow> string \<Rightarrow> net_ip list option"

definition capability_of :: "operation_definition \<Rightarrow> adapter_capability" where
  "capability_of operation = \<lparr>ac_Operation = od_Operation operation,
     ac_InputSchema = od_InputSchema operation,
     ac_MinimumScope = \<lparr>ms_ResourceKeys = od_ResourceKeys operation, ms_RequiresAccount = True\<rparr>,
     ac_RiskLabel = od_RiskLabel operation, ac_Method = od_Method operation,
     ac_Path = od_Path operation, ac_RedactionRules = od_RedactionRules operation,
     ac_ResponseFields = od_ResponseFields operation, ac_Rollback = od_Rollback operation,
     ac_Idempotency = od_Idempotency operation, ac_Nature = od_Nature operation\<rparr>"

fun declare_operations :: "operation_definition list \<Rightarrow> adapter_capability list app_result" where
  "declare_operations [] = Inr []"
| "declare_operations (operation # operations) =
     (if \<not> is_ok (capability_Validate (capability_of operation)) then Inl declarationError
      else obind (declare_operations operations) (\<lambda>declared. Inr (capability_of operation # declared)))"

definition definition_capabilities :: "http_definition \<Rightarrow> adapter_capability list app_result" where
  "definition_capabilities d =
     (if hd_Operations d = [] then Inl invalidDefinition else declare_operations (hd_Operations d))"

definition validateShape :: "http_definition \<Rightarrow> unit app_result" where
  "validateShape d =
     (if trim_space (hd_Service d) = [] then Inl invalidDefinition
      else if trim_space (hd_DisplayName d) = [] then Inl invalidDefinition
      else if hd_AuthScheme d \<noteq> AuthNone \<and> hd_AuthScheme d \<noteq> AuthBearer \<and> hd_AuthScheme d \<noteq> AuthHeader
      then Inl invalidDefinition
      else if hd_AuthScheme d = AuthHeader \<and> trim_space (hd_AuthHeader d) = []
      then Inl invalidDefinition
      else Inr ())"

section \<open>The host behind an address\<close>

text \<open>\<open>URL.Hostname\<close>: without the port and the brackets of an IPv6 literal.\<close>

definition is_digit_char :: "char \<Rightarrow> bool" where
  "is_digit_char c \<longleftrightarrow> CHR ''0'' \<le> c \<and> c \<le> CHR ''9''"

definition strip_port :: "string \<Rightarrow> string" where
  "strip_port host =
     (if CHR '':'' \<notin> set host then host
      else (let port = takeWhile (\<lambda>c. c \<noteq> CHR '':'') (rev host) in
        if list_all is_digit_char port then take (length host - Suc (length port)) host else host))"

definition Hostname :: "url \<Rightarrow> string" where
  "Hostname u = (let host = strip_port (u_Host u) in
     if has_prefix host ''['' \<and> has_suffix host '']'' then butlast (tl host) else host)"

fun check_addresses :: "net_ip list \<Rightarrow> unit app_result" where
  "check_addresses [] = Inr ()"
| "check_addresses (address # addresses) =
     obind (checkIP address) (\<lambda>_. check_addresses addresses)"

definition checkHost ::
    "(string \<Rightarrow> net_ip option) \<Rightarrow> (string \<Rightarrow> net_ip list option) \<Rightarrow> string \<Rightarrow> unit app_result" where
  "checkHost parseIP resolve host =
     (case parseIP host of
        Some literal \<Rightarrow> checkIP literal
      | None \<Rightarrow>
          (case resolve host of
             None \<Rightarrow> Inl invalidDefinition
           | Some addresses \<Rightarrow>
               if addresses = [] then Inl invalidDefinition else check_addresses addresses))"

definition validateBaseURL ::
    "host_lib \<Rightarrow> (string \<Rightarrow> net_ip list option) \<Rightarrow> string \<Rightarrow> unit app_result" where
  "validateBaseURL lib resolve rawURL =
     (case hl_Parse lib rawURL of
        None \<Rightarrow> Inl invalidDefinition
      | Some parsed \<Rightarrow>
          if u_Scheme parsed \<noteq> ''https'' then Inl invalidDefinition
          else if Hostname parsed = [] then Inl invalidDefinition
          else if u_User parsed \<noteq> None then Inl invalidDefinition
          else checkHost (hl_ParseIP lib) resolve (Hostname parsed))"

section \<open>The adapter\<close>

record generic_adapter =
  ga_definition :: http_definition
  ga_client :: client
  ga_host :: string
  ga_byOperation :: "adapter_capability go_map"
  ga_declarations :: "adapter_capability list"

definition generic_make ::
    "http_definition \<Rightarrow> client \<Rightarrow> string \<Rightarrow> adapter_capability list \<Rightarrow> generic_adapter" where
  "generic_make d c host declared = \<lparr>ga_definition = d, ga_client = c, ga_host = host,
     ga_byOperation = gm_of_list (map (\<lambda>cap. (ac_Operation cap, cap)) declared),
     ga_declarations = declared\<rparr>"

text \<open>\<open>given\<close> is the client of the options; \<open>sent\<close> is the moment of the call.\<close>

definition generic_New ::
    "host_lib \<Rightarrow> http_definition \<Rightarrow> client option \<Rightarrow> outbound list \<Rightarrow> generic_adapter app_result" where
  "generic_New lib d given sent =
     obind (validateShape d) (\<lambda>_.
     obind (definition_capabilities d) (\<lambda>declared.
     obind (validateBaseURL lib (hl_Resolve lib sent) (hd_BaseURL d)) (\<lambda>_.
     obind (case given of Some c \<Rightarrow> Inr c
            | None \<Rightarrow> NewClient (hl_Parse lib) \<lparr>co_BaseURL = hd_BaseURL d, co_Timeout = 0,
                co_MaxResponseBytes = 0, co_Backoff = 0\<rparr>) (\<lambda>c.
     case hl_Parse lib (hd_BaseURL d) of
       None \<Rightarrow> Inl invalidDefinition
     | Some parsed \<Rightarrow> Inr (generic_make d c (Hostname parsed) declared)))))"

definition generic_registered :: "generic_adapter \<Rightarrow> adapter" where
  "generic_registered a = \<lparr>ad_Service = hd_Service (ga_definition a), ad_Kind = KindGenericHTTP,
     ad_Capabilities = ga_declarations a, ad_BaseURL = hd_BaseURL (ga_definition a),
     ad_AuthScheme = hd_AuthScheme (ga_definition a)\<rparr>"

definition generic_request ::
    "generic_adapter \<Rightarrow> adapter_capability \<Rightarrow> string \<Rightarrow> execute_input \<Rightarrow> client_request" where
  "generic_request a c path request = \<lparr>hq_Capability = c, hq_Path = path, hq_Query = xi_Query request,
     hq_Body = (if capability_Write c then xi_Input request else []),
     hq_AuthScheme = hd_AuthScheme (ga_definition a), hq_AuthHeader = hd_AuthHeader (ga_definition a),
     hq_Credential = xi_Credential request, hq_OperationID = xi_OperationID request\<rparr>"

definition generic_conclude ::
    "exec_env \<Rightarrow> adapter_capability \<Rightarrow> string \<Rightarrow> client_response \<times> app_error option \<Rightarrow> adapter_outcome" where
  "generic_conclude env c operationID answered =
     (case answered of (response, err) \<Rightarrow>
        (case err of
           Some e \<Rightarrow> Failure operationID e
         | None \<Rightarrow>
             if hs_StatusCode response \<ge> 400
             then FromUpstream (hs_StatusCode response)
                    (Failure operationID (upstreamError (hs_StatusCode response) operationID))
             else (case Redact (ee_decode env) (ee_urls env) (hs_Body response) c of
                     Inl e \<Rightarrow> FromUpstream (hs_StatusCode response) (Failure operationID e)
                   | Inr data \<Rightarrow> FromUpstream (hs_StatusCode response) (Success operationID data []))))"

definition generic_Execute ::
    "exec_env \<Rightarrow> host_lib \<Rightarrow> generic_adapter \<Rightarrow> (execute_input, adapter_outcome) sending" where
  "generic_Execute env lib a request sent =
     (case gm_get (ga_byOperation a) (xi_Operation request) of
        None \<Rightarrow> (Inl (WithOperationID (apperr_New CodeCapabilityNotOffered) (xi_OperationID request)), sent)
      | Some c \<Rightarrow>
          (case buildPath c (xi_Resource request) (xi_OperationID request) of
             Inl e \<Rightarrow> (Inl e, sent)
           | Inr path \<Rightarrow>
               (case checkHost (hl_ParseIP lib) (hl_Resolve lib sent) (ga_host a) of
                  Inl _ \<Rightarrow> (Inl (WithOperationID (apperr_New CodePathNotAllowed) (xi_OperationID request)), sent)
                | Inr _ \<Rightarrow>
                    (case client_Do (ee_net env) (ga_client a) (generic_request a c path request) sent of
                       (answered, sent') \<Rightarrow>
                         (Inr (generic_conclude env c (xi_OperationID request) answered), sent')))))"

definition generic_ExecuteCapability ::
    "exec_env \<Rightarrow> host_lib \<Rightarrow> generic_adapter \<Rightarrow> (execute_input, execute_output) sending" where
  "generic_ExecuteCapability env lib a input sent =
     (case generic_Execute env lib a input sent of
        (Inl e, sent') \<Rightarrow> (Inl e, sent')
      | (Inr r, sent') \<Rightarrow> (Inr \<lparr>xo_Result = r, xo_Usage = no_usage\<rparr>, sent'))"

section \<open>What a built adapter guarantees\<close>

lemma declare_operations_Inr:
  "declare_operations operations = Inr declared
     \<Longrightarrow> declared = map capability_of operations \<and> (\<forall>c \<in> set declared. capability_Validate c = Ok ())"
proof (induction operations arbitrary: declared)
  case (Cons operation operations)
  then obtain rest where "is_ok (capability_Validate (capability_of operation))"
    "declare_operations operations = Inr rest" "declared = capability_of operation # rest"
    by (auto simp: obind_iffs split: if_splits)
  with Cons.IH show ?case by (cases "capability_Validate (capability_of operation)") auto
qed simp

text \<open>The addresses a host stands for when it is looked up.\<close>

definition targets :: "host_lib \<Rightarrow> outbound list \<Rightarrow> string \<Rightarrow> net_ip list" where
  "targets lib sent host = (case hl_ParseIP lib host of Some ip \<Rightarrow> [ip]
     | None \<Rightarrow> (case hl_Resolve lib sent host of Some ips \<Rightarrow> ips | None \<Rightarrow> []))"

definition outside :: "net_ip \<Rightarrow> bool" where
  "outside ip \<longleftrightarrow> (length ip = 4 \<or> length ip = 16 \<longrightarrow> \<not> inside_ranges ip)"

lemma checkIP_outside: "checkIP ip = Inr () \<Longrightarrow> outside ip"
  using checkIP_ranges [of ip] by (auto simp: outside_def split: if_splits)

lemma check_addresses_outside: "check_addresses ips = Inr () \<Longrightarrow> list_all outside ips"
  by (induction ips) (auto simp: obind_iffs intro: checkIP_outside)

lemma checkHost_targets:
  "checkHost (hl_ParseIP lib) (hl_Resolve lib sent) host = Inr ()
     \<Longrightarrow> targets lib sent host \<noteq> [] \<and> list_all outside (targets lib sent host)"
  by (auto simp: checkHost_def targets_def checkIP_outside check_addresses_outside
      split: option.splits if_splits)

lemma generic_New_Inr:
  assumes "generic_New lib d given sent = Inr a"
  obtains base c declared where "hl_Parse lib (hd_BaseURL d) = Some base" "u_Scheme base = ''https''"
    "Hostname base \<noteq> []" "u_User base = None"
    "checkHost (hl_ParseIP lib) (hl_Resolve lib sent) (Hostname base) = Inr ()"
    "declared = map capability_of (hd_Operations d)" "\<forall>cap \<in> set declared. capability_Validate cap = Ok ()"
    "a = generic_make d c (Hostname base) declared" "given = Some c \<or> given = None \<and> cl_baseURL c = base"
  using assms
  by (auto simp: generic_New_def definition_capabilities_def validateBaseURL_def NewClient_def obind_iffs
      dest!: declare_operations_Inr split: option.splits if_splits)

lemma generic_byOperation:
  assumes "gm_get (ga_byOperation (generic_make d c host declared)) op = Some cap"
  shows "cap \<in> set declared \<and> ac_Operation cap = op"
proof -
  have "(op, cap) \<in> set (ga_byOperation (generic_make d c host declared))"
    using assms by (rule map_of_SomeD)
  then show ?thesis
    using gm_of_list_set [of "map (\<lambda>cap. (ac_Operation cap, cap)) declared"] by (auto simp: generic_make_def)
qed

lemma generic_Execute_sends:
  obtains (none) "snd (generic_Execute env lib a request sent) = sent"
  | (sent) c path where "gm_get (ga_byOperation a) (xi_Operation request) = Some c"
      "buildPath c (xi_Resource request) (xi_OperationID request) = Inr path"
      "checkHost (hl_ParseIP lib) (hl_Resolve lib sent) (ga_host a) = Inr ()"
      "snd (generic_Execute env lib a request sent)
         = snd (client_Do (ee_net env) (ga_client a) (generic_request a c path request) sent)"
proof (cases "gm_get (ga_byOperation a) (xi_Operation request)")
  case None
  then show thesis by (intro none) (simp add: generic_Execute_def)
next
  case (Some c)
  show thesis
  proof (cases "buildPath c (xi_Resource request) (xi_OperationID request)")
    case (Inl e)
    with Some show thesis by (intro none) (simp add: generic_Execute_def)
  next
    case (Inr path)
    show thesis
    proof (cases "checkHost (hl_ParseIP lib) (hl_Resolve lib sent) (ga_host a)")
      case (Inl e)
      with Some Inr show thesis by (intro none) (simp add: generic_Execute_def)
    next
      case ok: (Inr u)
      with Some Inr show thesis by (intro sent) (simp_all add: generic_Execute_def case_prod_unfold)
    qed
  qed
qed

lemma generic_Execute_confined:
  "sends_within (on_host (ga_client a)) 15 (generic_Execute env lib a request)"
proof (rule sends_withinI)
  fix sent
  show "\<exists>new. snd (generic_Execute env lib a request sent) = sent @ new \<and> length new \<le> 15
      \<and> list_all (on_host (ga_client a)) new"
  proof (cases rule: generic_Execute_sends [of env lib a request sent])
    case (sent c path)
    obtain new where "snd (client_Do (ee_net env) (ga_client a) (generic_request a c path request) sent)
        = sent @ new" "length new \<le> maxRedirects * max_attempts (generic_request a c path request)"
      "list_all (permitted (ee_net env) (ga_client a) (generic_request a c path request)) new"
      using client_Do_sends by (rule sends_withinE)
    with sent(4) max_attempts_le show ?thesis
      by (intro exI [of _ new]) (auto simp: list_all_iff permitted_def intro: le_trans)
  qed simp
qed

lemma generic_run_cases:
  "snd (generic_ExecuteCapability env lib a i sent) = snd (generic_Execute env lib a i sent)"
  by (auto simp: generic_ExecuteCapability_def split: prod.splits sum.splits)

lemma generic_undeclared:
  "op \<notin> ac_Operation ` set declared
     \<Longrightarrow> gm_get (ga_byOperation (generic_make d c host declared)) op = None"
  using generic_byOperation by (cases "gm_get (ga_byOperation (generic_make d c host declared)) op") blast+

interpretation generic: adapter_executor declared
  "generic_ExecuteCapability env lib (generic_make d c host declared)" "on_host c" 15
proof
  let ?a = "generic_make d c host declared"
  show "\<exists>e. generic_ExecuteCapability env lib ?a i sent = (Inl e, sent) \<and> ae_Code e = CodeCapabilityNotOffered"
    if "xi_Operation i \<notin> ac_Operation ` set declared" for i sent
    using generic_undeclared [OF that, of d c host]
    by (simp add: generic_ExecuteCapability_def generic_Execute_def)
  have "ga_client ?a = c" by (simp add: generic_make_def)
  then show "sends_within (on_host c) 15 (generic_ExecuteCapability env lib ?a i)" for i
    using generic_Execute_confined [of ?a env lib] by (simp add: sends_within_def generic_run_cases)
qed


section \<open>A sample service\<close>

text \<open>A name that leads outside when it is first looked up and to the machine itself afterwards.\<close>

definition shop_lib :: host_lib where
  "shop_lib = \<lparr>hl_Parse = (\<lambda>s. if s = ''https://shop.test'' then Some \<lparr>u_Scheme = ''https'', u_User = None,
       u_Host = ''shop.test:8443'', u_Path = [], u_RawQuery = [], u_Fragment = []\<rparr> else None),
     hl_ParseIP = (\<lambda>_. None),
     hl_Resolve = (\<lambda>sent host. Some (if sent = [] then [[93, 184, 216, 34]] else [[127, 0, 0, 1]]))\<rparr>"

definition shop :: http_definition where
  "shop = \<lparr>hd_Service = ''shop'', hd_DisplayName = ''Shop'', hd_BaseURL = ''https://shop.test'',
     hd_AuthScheme = AuthBearer, hd_AuthHeader = [], hd_Operations = [\<lparr>od_Operation = ''read_item'',
       od_Method = ''GET'', od_Path = ''/items/{owner}'', od_InputSchema = Parsed (JObj []),
       od_RiskLabel = RiskLabelLow, od_RedactionRules = Some [], od_ResponseFields = [''name''],
       od_Rollback = RollbackNone, od_Idempotency = Idempotent, od_Nature = no_nature,
       od_ResourceKeys = [''owner'']\<rparr>]\<rparr>"

abbreviation shop_operation :: adapter_capability where
  "shop_operation \<equiv> capability_of (hd (hd_Operations shop))"

definition shop_client :: client where
  "shop_client = \<lparr>cl_baseURL = \<lparr>u_Scheme = ''https'', u_User = None, u_Host = ''shop.test:8443'',
     u_Path = [], u_RawQuery = [], u_Fragment = []\<rparr>, cl_timeout = DefaultTimeout,
     cl_maxBytes = DefaultMaxResponseBytes, cl_backoff = DefaultBackoff\<rparr>"

definition shop_adapter :: generic_adapter where
  "shop_adapter = generic_make shop shop_client ''shop.test'' [shop_operation]"

lemma shop_built: "generic_New shop_lib shop None [] = Inr shop_adapter"
  by code_simp

lemma shop_call:
  "\<exists>first. snd (generic_Execute (sample_env ok_net) shop_lib shop_adapter (sample_input ''read_item'') [])
      = [first]"
proof -
  let ?in = "sample_input ''read_item''"
  let ?rq = "generic_request shop_adapter shop_operation ''/items/o'' ?in"
  have found: "gm_get (ga_byOperation shop_adapter) (xi_Operation ?in) = Some shop_operation"
    and path: "buildPath shop_operation (xi_Resource ?in) (xi_OperationID ?in) = Inr ''/items/o''"
    and host: "checkHost (hl_ParseIP shop_lib) (hl_Resolve shop_lib []) (ga_host shop_adapter) = Inr ()"
    and client: "ga_client shop_adapter = shop_client" "5 \<le> cl_maxBytes shop_client" by code_simp+
  have pre: "pathAllowed (ac_Path (hq_Capability ?rq)) (hq_Path ?rq)"
    "list_all token_char (ac_Method (hq_Capability ?rq))"
    "injectCredential (if hq_Body ?rq \<noteq> [] then header_Set ''Content-Type'' ''application/json'' [] else [])
       ?rq = Inr [(''Authorization'', ''Bearer s3cret'')]" by code_simp+
  have "snd (client_Do ok_net shop_client ?rq [])
      = [request_outbound shop_client ?rq [(''Authorization'', ''Bearer s3cret'')]]"
    using client_Do_answer [OF pre, of ok_net "[]" shop_client 200 "''ok''"] client(2)
    by (simp add: ok_net_def)
  then show ?thesis using found path host client(1)
    by (simp add: generic_Execute_def sample_env_def case_prod_unfold)
qed


end
