(* ===== verification/Crypto_Envelope.thy ===== *)
theory Crypto_Envelope
  imports App_Error "HOL-Library.Word"
begin

text \<open>
  Model of \<open>internal/platform/crypto\<close>: the self-describing envelope around a sealed text.  Argon2id
  and XChaCha20-Poly1305 are parameters, as is the source of random bytes, whose n-th draw may
  fail; bytes and the parameters of the key derivation keep their widths.
\<close>

unbundle bit_operations_syntax

section \<open>Parameters and the header\<close>

type_synonym bytes = "8 word list"

definition FormatVersion :: "8 word" where "FormatVersion = 1"
definition KDFArgon2id :: "8 word" where "KDFArgon2id = 1"
definition AEADXChaCha20Poly1305 :: "8 word" where "AEADXChaCha20Poly1305 = 1"

text \<open>\<open>keyLength\<close>, \<open>NonceSizeX\<close> and \<open>Overhead\<close> are constants of the cipher.\<close>

definition keyLength :: nat where "keyLength = 32"
definition NonceSizeX :: nat where "NonceSizeX = 24"
definition Overhead :: nat where "Overhead = 16"
definition saltLength :: nat where "saltLength = 16"
definition headerLength :: nat where "headerLength = 1 + 1 + 1 + 4 + 4 + 1 + 1"

record kdf_params =
  kp_MemoryKiB :: "32 word"
  kp_Iterations :: "32 word"
  kp_Parallelism :: "8 word"

definition MinMemoryKiB :: "32 word" where "MinMemoryKiB = 64 * 1024"
definition MinIterations :: "32 word" where "MinIterations = 3"
definition MinParallelism :: "8 word" where "MinParallelism = 4"

definition DefaultParams :: kdf_params where
  "DefaultParams = \<lparr>kp_MemoryKiB = MinMemoryKiB, kp_Iterations = MinIterations,
     kp_Parallelism = MinParallelism\<rparr>"

definition weakParams :: app_error where
  "weakParams = apperr_New CodeInvalidConfiguration"

definition params_Validate :: "kdf_params \<Rightarrow> unit app_result" where
  "params_Validate p =
     (if kp_MemoryKiB p < MinMemoryKiB then Inl weakParams
      else if kp_Iterations p < MinIterations then Inl weakParams
      else if kp_Parallelism p < MinParallelism then Inl weakParams
      else Inr ())"

record envelope_header =
  eh_FormatVersion :: "8 word"
  eh_KDF :: "8 word"
  eh_AEAD :: "8 word"
  eh_Params :: kdf_params
  eh_SaltLength :: nat

text \<open>\<open>binary.BigEndian\<close>.\<close>

definition Uint32 :: "bytes \<Rightarrow> 32 word" where
  "Uint32 b = (push_bit 24 (ucast (b ! 0)) OR push_bit 16 (ucast (b ! 1))) OR
     (push_bit 8 (ucast (b ! 2)) OR ucast (b ! 3))"

definition PutUint32 :: "32 word \<Rightarrow> bytes" where
  "PutUint32 v = [ucast (drop_bit 24 v), ucast (drop_bit 16 v), ucast (drop_bit 8 v), ucast v]"

definition malformed :: app_error where
  "malformed = apperr_New CodeInvalidRequest"

definition sub_slice :: "nat \<Rightarrow> nat \<Rightarrow> 'a list \<Rightarrow> 'a list" where
  "sub_slice from till xs = take (till - from) (drop from xs)"

definition ParseHeader :: "bytes \<Rightarrow> envelope_header app_result" where
  "ParseHeader sealed =
     (if length sealed < headerLength then Inl malformed
      else (let header = \<lparr>eh_FormatVersion = sealed ! 0, eh_KDF = sealed ! 1, eh_AEAD = sealed ! 2,
              eh_Params = \<lparr>kp_MemoryKiB = Uint32 (sub_slice 3 7 sealed),
                kp_Iterations = Uint32 (sub_slice 7 11 sealed), kp_Parallelism = sealed ! 11\<rparr>,
              eh_SaltLength = unat (sealed ! 12)\<rparr> in
            if eh_FormatVersion header \<noteq> FormatVersion then Inl malformed
            else if eh_KDF header \<noteq> KDFArgon2id then Inl malformed
            else if eh_AEAD header \<noteq> AEADXChaCha20Poly1305 then Inl malformed
            else if eh_SaltLength header = 0 then Inl malformed
            else Inr header))"

definition encodeHeader :: "kdf_params \<Rightarrow> int \<Rightarrow> bytes app_result" where
  "encodeHeader params salt_length =
     (if salt_length \<le> 0 \<or> salt_length > 255 then Inl (apperr_New CodeInternal)
      else Inr ([FormatVersion, KDFArgon2id, AEADXChaCha20Poly1305]
        @ PutUint32 (kp_MemoryKiB params) @ PutUint32 (kp_Iterations params)
        @ [kp_Parallelism params, word_of_int salt_length]))"

section \<open>Sealing and opening\<close>

record crypto_lib =
  cy_IDKey :: "bytes \<Rightarrow> bytes \<Rightarrow> 32 word \<Rightarrow> 32 word \<Rightarrow> 8 word \<Rightarrow> nat \<Rightarrow> bytes"
  cy_Seal :: "bytes \<Rightarrow> bytes \<Rightarrow> bytes \<Rightarrow> bytes \<Rightarrow> bytes"
  cy_Open :: "bytes \<Rightarrow> bytes \<Rightarrow> bytes \<Rightarrow> bytes \<Rightarrow> bytes option"

definition deriveKey :: "crypto_lib \<Rightarrow> bytes \<Rightarrow> bytes \<Rightarrow> kdf_params \<Rightarrow> bytes" where
  "deriveKey lib password salt params =
     cy_IDKey lib password salt (kp_Iterations params) (kp_MemoryKiB params) (kp_Parallelism params) keyLength"

text \<open>\<open>entropy i n\<close> is the i-th reading of n random bytes.\<close>

definition seal_envelope ::
    "crypto_lib \<Rightarrow> (nat \<Rightarrow> nat \<Rightarrow> bytes option) \<Rightarrow> bytes \<Rightarrow> bytes \<Rightarrow> kdf_params \<Rightarrow> bytes app_result" where
  "seal_envelope lib entropy password plaintext params =
     obind (params_Validate params) (\<lambda>_.
     if password = [] then Inl (apperr_New CodeInvalidRequest)
     else (case entropy 0 saltLength of
             None \<Rightarrow> Inl (apperr_New CodeInternal)
           | Some salt \<Rightarrow>
               obind (encodeHeader params (int (length salt))) (\<lambda>header.
               let key = deriveKey lib password salt params in
               if length key \<noteq> keyLength then Inl (apperr_New CodeInternal)
               else (case entropy 1 NonceSizeX of
                       None \<Rightarrow> Inl (apperr_New CodeInternal)
                     | Some nonce \<Rightarrow>
                         Inr (header @ salt @ nonce @ cy_Seal lib key nonce plaintext (header @ salt))))))"

definition decryptFailed :: app_error where
  "decryptFailed = apperr_New CodeUnauthenticated"

definition open_envelope :: "crypto_lib \<Rightarrow> bytes \<Rightarrow> bytes \<Rightarrow> bytes app_result" where
  "open_envelope lib password sealed =
     obind (ParseHeader sealed) (\<lambda>header.
     obind (params_Validate (eh_Params header)) (\<lambda>_.
     let saltEnd = headerLength + eh_SaltLength header; nonceEnd = saltEnd + NonceSizeX in
     if length sealed < nonceEnd + Overhead then Inl malformed
     else (let salt = sub_slice headerLength saltEnd sealed; nonce = sub_slice saltEnd nonceEnd sealed;
             ciphertext = drop nonceEnd sealed; key = deriveKey lib password salt (eh_Params header) in
           if length key \<noteq> keyLength then Inl (apperr_New CodeInternal)
           else (case cy_Open lib key nonce ciphertext (take headerLength sealed @ salt) of
                   None \<Rightarrow> Inl decryptFailed
                 | Some plaintext \<Rightarrow> Inr plaintext))))"

text \<open>What is documented of the library: a key has the length asked for, the cipher opens what it
  sealed under the same key, nonce and associated data, adds its overhead, and opens nothing else
  -- a text that opens is the one that sealing the result yields.\<close>

definition crypto_sound :: "crypto_lib \<Rightarrow> bool" where
  "crypto_sound lib \<longleftrightarrow>
     (\<forall>password salt t m p n. length (cy_IDKey lib password salt t m p n) = n)
     \<and> (\<forall>key nonce plaintext ad. cy_Open lib key nonce (cy_Seal lib key nonce plaintext ad) ad = Some plaintext
          \<and> length (cy_Seal lib key nonce plaintext ad) = length plaintext + Overhead)
     \<and> (\<forall>key nonce ciphertext ad plaintext. cy_Open lib key nonce ciphertext ad = Some plaintext
          \<longrightarrow> ciphertext = cy_Seal lib key nonce plaintext ad)"

definition entropy_sound :: "(nat \<Rightarrow> nat \<Rightarrow> bytes option) \<Rightarrow> bool" where
  "entropy_sound entropy \<longleftrightarrow> (\<forall>i n b. entropy i n = Some b \<longrightarrow> length b = n)"

section \<open>The header survives\<close>

lemma Uint32_Put: "Uint32 (PutUint32 v) = v"
proof (rule bit_word_eqI)
  fix n assume "n < LENGTH(32)"
  then have "n < 32" by simp
  then consider "n < 8" | "8 \<le> n" "n < 16" | "16 \<le> n" "n < 24" | "24 \<le> n" "n < 32" by linarith
  then show "bit (Uint32 (PutUint32 v)) n \<longleftrightarrow> bit v n"
    by cases (auto simp: Uint32_def PutUint32_def bit_simps)
qed

lemma Put_Uint32: "length b = 4 \<Longrightarrow> PutUint32 (Uint32 b) = b"
proof -
  assume "length b = 4"
  then obtain w x y z where b: "b = [w, x, y, z]" by (auto simp: numeral_eq_Suc length_Suc_conv)
  have "ucast (drop_bit 24 (Uint32 b)) = w" "ucast (drop_bit 16 (Uint32 b)) = x"
    "ucast (drop_bit 8 (Uint32 b)) = y" "ucast (Uint32 b) = z"
    by (rule bit_word_eqI; auto simp: b Uint32_def bit_simps dest: bit_imp_le_length)+
  then show ?thesis by (simp add: b PutUint32_def)
qed

lemma PutUint32_length [simp]: "length (PutUint32 v) = 4"
  by (simp add: PutUint32_def)

lemma encodeHeader_length: "encodeHeader params n = Inr header \<Longrightarrow> length header = headerLength"
  by (auto simp: encodeHeader_def headerLength_def split: if_splits)

lemma ParseHeader_encode:
  assumes "encodeHeader params (int n) = Inr header"
  shows "ParseHeader (header @ rest) = Inr \<lparr>eh_FormatVersion = FormatVersion, eh_KDF = KDFArgon2id,
     eh_AEAD = AEADXChaCha20Poly1305, eh_Params = params, eh_SaltLength = n\<rparr>"
proof -
  let ?m = "PutUint32 (kp_MemoryKiB params)" and ?t = "PutUint32 (kp_Iterations params)"
  from assms have n: "0 < n" "n \<le> 255"
    and header: "header = [FormatVersion, KDFArgon2id, AEADXChaCha20Poly1305] @ ?m @ ?t
      @ [kp_Parallelism params, word_of_nat n]"
    by (auto simp: encodeHeader_def split: if_splits)
  have "sub_slice 3 7 (header @ rest) = ?m" "sub_slice 7 11 (header @ rest) = ?t"
    by (simp_all add: header sub_slice_def)
  moreover have "(header @ rest) ! 0 = FormatVersion" "(header @ rest) ! 1 = KDFArgon2id"
    "(header @ rest) ! 2 = AEADXChaCha20Poly1305" "(header @ rest) ! 11 = kp_Parallelism params"
    "(header @ rest) ! 12 = word_of_nat n"
    by (simp_all add: header nth_append)
  moreover have "unat (word_of_nat n :: 8 word) = n"
    using n(2) by (simp add: unat_of_nat take_bit_nat_eq_self)
  moreover have "\<not> length (header @ rest) < headerLength"
    using encodeHeader_length [OF assms] by simp
  ultimately show ?thesis using n(1) by (simp add: ParseHeader_def Uint32_Put)
qed

lemma encode_ParseHeader:
  assumes "ParseHeader sealed = Inr header"
  shows "encodeHeader (eh_Params header) (int (eh_SaltLength header)) = Inr (take headerLength sealed)"
    and "headerLength \<le> length sealed"
proof -
  from assms show len: "headerLength \<le> length sealed"
    by (auto simp: ParseHeader_def split: if_splits)
  then obtain v k a m0 m1 m2 m3 t0 t1 t2 t3 par n rest where
    sealed: "sealed = v # k # a # m0 # m1 # m2 # m3 # t0 # t1 # t2 # t3 # par # n # rest"
    by (auto simp: headerLength_def numeral_eq_Suc Suc_le_length_iff)
  have "sub_slice 3 7 sealed = [m0, m1, m2, m3]" "sub_slice 7 11 sealed = [t0, t1, t2, t3]"
    by (simp_all add: sealed sub_slice_def)
  moreover have "sealed ! 0 = v" "sealed ! 1 = k" "sealed ! 2 = a" "sealed ! 11 = par" "sealed ! 12 = n"
    by (simp_all add: sealed)
  ultimately have "v = FormatVersion" "k = KDFArgon2id" "a = AEADXChaCha20Poly1305" "unat n \<noteq> 0"
    and "eh_Params header = \<lparr>kp_MemoryKiB = Uint32 [m0, m1, m2, m3],
      kp_Iterations = Uint32 [t0, t1, t2, t3], kp_Parallelism = par\<rparr>" "eh_SaltLength header = unat n"
    using assms len by (auto simp: ParseHeader_def Let_def split: if_splits)
  moreover have "int (unat n) \<le> 255" using unsigned_less [of n, where ?'a = int] by simp
  moreover have "word_of_int (int (unat n)) = n" "unat n \<noteq> 0 \<longrightarrow> uint n \<noteq> 0" by (simp, metis nat_0 unat_eq_nat_uint)
  ultimately show "encodeHeader (eh_Params header) (int (eh_SaltLength header)) = Inr (take headerLength sealed)"
    using Put_Uint32 [of "[m0, m1, m2, m3]"] Put_Uint32 [of "[t0, t1, t2, t3]"]
    by (simp add: encodeHeader_def sealed headerLength_def)
qed

section \<open>What was sealed opens, and what opens was sealed\<close>

lemma sub_slice_parts:
  "sub_slice (length a) (length a + length b) (a @ b @ c) = b"
  by (simp add: sub_slice_def)

lemma sealed_opens:
  assumes "crypto_sound lib" and "entropy_sound entropy"
    and "seal_envelope lib entropy password plaintext params = Inr sealed"
  shows "open_envelope lib password sealed = Inr plaintext
     \<and> password \<noteq> [] \<and> params_Validate params = Inr ()
     \<and> (\<exists>header. ParseHeader sealed = Inr header \<and> eh_Params header = params
          \<and> eh_SaltLength header = saltLength)
     \<and> length sealed = headerLength + saltLength + NonceSizeX + length plaintext + Overhead"
proof -
  from assms(3) obtain salt nonce header where valid: "params_Validate params = Inr ()" "password \<noteq> []"
    and e: "entropy 0 saltLength = Some salt" "entropy 1 NonceSizeX = Some nonce"
    and h: "encodeHeader params (int (length salt)) = Inr header"
    and sealed: "sealed = header @ salt @ nonce
        @ cy_Seal lib (deriveKey lib password salt params) nonce plaintext (header @ salt)"
    by (auto simp: seal_envelope_def obind_iffs Let_def split: if_splits option.splits)
  have len: "length salt = saltLength" "length nonce = NonceSizeX" "length header = headerLength"
    using assms(2) e encodeHeader_length [OF h] by (auto simp: entropy_sound_def)
  let ?key = "deriveKey lib password salt params"
  let ?text = "cy_Seal lib ?key nonce plaintext (header @ salt)"
  have lib: "length ?key = keyLength" "cy_Open lib ?key nonce ?text (header @ salt) = Some plaintext"
    "length ?text = length plaintext + Overhead"
    using assms(1) by (simp_all add: crypto_sound_def deriveKey_def)
  have parse: "ParseHeader sealed = Inr \<lparr>eh_FormatVersion = FormatVersion, eh_KDF = KDFArgon2id,
     eh_AEAD = AEADXChaCha20Poly1305, eh_Params = params, eh_SaltLength = saltLength\<rparr>"
    using ParseHeader_encode [OF h, of "salt @ nonce @ ?text"] len(1) by (simp add: sealed)
  have cut: "sub_slice headerLength (headerLength + saltLength) sealed = salt"
    "sub_slice (headerLength + saltLength) (headerLength + saltLength + NonceSizeX) sealed = nonce"
    "drop (headerLength + saltLength + NonceSizeX) sealed = ?text" "take headerLength sealed = header"
    using len by (simp_all add: sealed sub_slice_def)
  have size: "length sealed = headerLength + saltLength + NonceSizeX + length plaintext + Overhead"
    using len lib(3) by (simp add: sealed)
  then have "open_envelope lib password sealed = Inr plaintext"
    using parse valid lib cut by (simp add: open_envelope_def Let_def)
  with valid parse size show ?thesis by auto
qed

text \<open>C33: An envelope opens again under the password it was sealed with.  Whenever \<open>Seal\<close> returns an
  envelope, its header says the parameters used, which are at least the minimum, and a salt of
  sixteen bytes; the password was not empty; \<open>Open\<close> under the same password returns exactly the
  sealed text.\<close>

theorem sealed_envelope_opens:
  assumes "crypto_sound lib" and "entropy_sound entropy"
    and "seal_envelope lib entropy password plaintext params = Inr sealed"
  shows "open_envelope lib password sealed = Inr plaintext
     \<and> password \<noteq> [] \<and> params_Validate params = Inr ()
     \<and> (\<exists>header. ParseHeader sealed = Inr header \<and> eh_Params header = params
          \<and> eh_SaltLength header = saltLength)
     \<and> length sealed = headerLength + saltLength + NonceSizeX + length plaintext + Overhead"
  using assms by (rule sealed_opens)

text \<open>C32: Nothing but an envelope of the right password opens.  When \<open>Open\<close> returns a text, the
  envelope is bit for bit what sealing that text under this password yields for some salt, nonce
  and parameters, and those parameters are not below the minimum: a header that asks for weaker
  ones is refused before the password is used.\<close>

theorem opened_envelope_was_sealed:
  assumes "crypto_sound lib" and "open_envelope lib password sealed = Inr plaintext"
  shows "\<exists>params salt nonce header. encodeHeader params (int (length salt)) = Inr header
     \<and> params_Validate params = Inr () \<and> salt \<noteq> [] \<and> length nonce = NonceSizeX
     \<and> sealed = header @ salt @ nonce
         @ cy_Seal lib (deriveKey lib password salt params) nonce plaintext (header @ salt)"
proof -
  let ?n = "\<lambda>h. headerLength + eh_SaltLength h"
  from assms(2) obtain h where parse: "ParseHeader sealed = Inr h"
    and valid: "params_Validate (eh_Params h) = Inr ()"
    and long: "?n h + NonceSizeX + Overhead \<le> length sealed"
    and opened: "cy_Open lib (deriveKey lib password (sub_slice headerLength (?n h) sealed) (eh_Params h))
        (sub_slice (?n h) (?n h + NonceSizeX) sealed) (drop (?n h + NonceSizeX) sealed)
        (take headerLength sealed @ sub_slice headerLength (?n h) sealed) = Some plaintext"
    by (auto simp: open_envelope_def obind_iffs Let_def not_less split: if_splits option.splits)
  let ?salt = "sub_slice headerLength (?n h) sealed" and ?nonce = "sub_slice (?n h) (?n h + NonceSizeX) sealed"
  let ?header = "take headerLength sealed"
  have len: "length ?salt = eh_SaltLength h" "length ?nonce = NonceSizeX"
    using long by (simp_all add: sub_slice_def)
  moreover have "encodeHeader (eh_Params h) (int (eh_SaltLength h)) = Inr ?header"
    using encode_ParseHeader(1) [OF parse] .
  moreover have "eh_SaltLength h \<noteq> 0" using parse by (auto simp: ParseHeader_def Let_def split: if_splits)
  moreover have "sealed = ?header @ ?salt @ ?nonce @ drop (?n h + NonceSizeX) sealed"
    by (simp add: sub_slice_def) (metis add.commute append_take_drop_id drop_drop)
  moreover have "drop (?n h + NonceSizeX) sealed = cy_Seal lib (deriveKey lib password ?salt (eh_Params h))
      ?nonce plaintext (?header @ ?salt)" using assms(1) opened by (auto simp: crypto_sound_def)
  ultimately show ?thesis
    using valid by (intro exI [of _ "eh_Params h"] exI [of _ ?salt] exI [of _ ?nonce] exI [of _ ?header]) auto
qed

section \<open>A sample cipher\<close>

text \<open>A cipher with the documented properties, far from a secret one: the tag repeats a byte of the
  key.\<close>

definition sample_crypto :: crypto_lib where
  "sample_crypto = \<lparr>cy_IDKey = (\<lambda>password salt t m p n. replicate n (fold (+) password 0)),
     cy_Seal = (\<lambda>key nonce plaintext ad. plaintext @ replicate Overhead (hd (key @ [0]))),
     cy_Open = (\<lambda>key nonce ciphertext ad.
       if Overhead \<le> length ciphertext
          \<and> drop (length ciphertext - Overhead) ciphertext = replicate Overhead (hd (key @ [0]))
       then Some (take (length ciphertext - Overhead) ciphertext) else None)\<rparr>"

definition sample_entropy :: "nat \<Rightarrow> nat \<Rightarrow> bytes option" where
  "sample_entropy i n = Some (replicate n (of_nat i))"

lemma sample_crypto_sound: "crypto_sound sample_crypto" "entropy_sound sample_entropy"
proof -
  show "crypto_sound sample_crypto"
    unfolding crypto_sound_def sample_crypto_def
    by (auto split: if_splits) (metis append_take_drop_id)
  show "entropy_sound sample_entropy" by (auto simp: entropy_sound_def sample_entropy_def)
qed

definition sample_sealed :: bytes where
  "sample_sealed = [1, 1, 1, 0, 1, 0, 0, 0, 0, 0, 3, 4, 16] @ replicate 16 0 @ replicate 24 1
     @ [7, 9] @ replicate 16 5"

lemma sample_seal: "seal_envelope sample_crypto sample_entropy [2, 3] [7, 9] DefaultParams = Inr sample_sealed"
  by code_simp

theorem sealed_envelope_opens_witness:
  "open_envelope sample_crypto [2, 3] sample_sealed = Inr [7, 9] \<and> length sample_sealed = 71"
  using sealed_envelope_opens [OF sample_crypto_sound sample_seal]
  by (simp add: headerLength_def saltLength_def NonceSizeX_def Overhead_def)

theorem opened_envelope_was_sealed_witness:
  "\<exists>params salt nonce header. salt \<noteq> [] \<and> length nonce = NonceSizeX
     \<and> params_Validate params = Inr () \<and> sample_sealed = header @ salt @ nonce
         @ cy_Seal sample_crypto (deriveKey sample_crypto [2, 3] salt params) nonce [7, 9] (header @ salt)"
proof -
  have "open_envelope sample_crypto [2, 3] sample_sealed = Inr [7, 9]" by code_simp
  from opened_envelope_was_sealed [OF sample_crypto_sound(1) this] show ?thesis by blast
qed

end
