(* ===== verification/Local_Vault.thy ===== *)
theory Local_Vault
  imports Crypto_Envelope
begin

text \<open>
  Model of \<open>internal/credential/localvault\<close>: the encrypted vault, its lock, its idle timeout and the
  lockout after failed passwords.  Each call holds the vault's mutex from start to end, so an
  operation is one function on the state.  The clock, the file system and the random source are
  schedules indexed by a counter of steps: whatever they do at a step, a theorem over all of them
  covers it.  \<open>json.Marshal\<close> and \<open>json.Unmarshal\<close> of the entries are parameters.
\<close>

section \<open>State and environment\<close>

definition DefaultIdleTimeout :: duration where "DefaultIdleTimeout = 15 * minute"
definition MaxUnlockFailures :: int where "MaxUnlockFailures = 3"
definition LockoutDuration :: duration where "LockoutDuration = 60 * second"

record unlock_outcome =
  uo_LockoutBegan :: bool
  uo_LockedUntil :: instant

record vault_env =
  ve_crypto :: crypto_lib
  ve_encode :: "bytes go_map \<Rightarrow> bytes"
  ve_decode :: "bytes \<Rightarrow> bytes go_map option"
  ve_clock :: "nat \<Rightarrow> instant"
  ve_fails :: "nat \<Rightarrow> bool"
  ve_entropy :: "nat \<Rightarrow> nat \<Rightarrow> nat \<Rightarrow> bytes option"

text \<open>\<open>vs_file\<close> is the file of the vault; the temporary file beside it is never read.\<close>

record vault_state =
  vs_tick :: nat
  vs_file :: "bytes option"
  vs_idleTimeout :: duration
  vs_master :: bytes
  vs_lastActive :: instant
  vs_failures :: int
  vs_lockedUntil :: instant

definition vault_New :: "duration \<Rightarrow> bytes option \<Rightarrow> vault_state" where
  "vault_New idle file = \<lparr>vs_tick = 0, vs_file = file,
     vs_idleTimeout = (if idle \<le> 0 then DefaultIdleTimeout else idle), vs_master = [],
     vs_lastActive = 0, vs_failures = 0, vs_lockedUntil = 0\<rparr>"

definition tick_on :: "vault_state \<Rightarrow> vault_state" where
  "tick_on s = s\<lparr>vs_tick := Suc (vs_tick s)\<rparr>"

definition vault_now :: "vault_env \<Rightarrow> vault_state \<Rightarrow> instant" where
  "vault_now env s = ve_clock env (vs_tick s)"

definition step_fails :: "vault_env \<Rightarrow> vault_state \<Rightarrow> bool" where
  "step_fails env s = ve_fails env (vs_tick s)"

definition vault_locked :: app_error where
  "vault_locked = apperr_New CodeVaultLocked"

definition unlockFailed :: app_error where
  "unlockFailed = apperr_New CodeUnauthenticated"

definition lockedOut :: app_error where
  "lockedOut = apperr_New CodeProviderLockedTimeout"

section \<open>The parts every operation is made of\<close>

definition lockLocked :: "vault_state \<Rightarrow> vault_state" where
  "lockLocked s = s\<lparr>vs_master := [], vs_lastActive := 0\<rparr>"

definition touchLocked :: "vault_env \<Rightarrow> vault_state \<Rightarrow> vault_state" where
  "touchLocked env s = tick_on (s\<lparr>vs_lastActive := vault_now env s\<rparr>)"

definition unlockLocked :: "vault_env \<Rightarrow> bytes \<Rightarrow> vault_state \<Rightarrow> vault_state" where
  "unlockLocked env master s = touchLocked env (s\<lparr>vs_master := master\<rparr>)"

definition activeLocked :: "vault_env \<Rightarrow> vault_state \<Rightarrow> unit app_result \<times> vault_state" where
  "activeLocked env s =
     (if vs_master s = [] then (Inl vault_locked, s)
      else if vs_lastActive s = 0 then (Inr (), s)
      else if vault_now env s - vs_lastActive s \<ge> vs_idleTimeout s
      then (Inl vault_locked, lockLocked (tick_on s))
      else (Inr (), tick_on s))"

definition readEntries ::
    "vault_env \<Rightarrow> bytes \<Rightarrow> vault_state \<Rightarrow> bytes go_map app_result \<times> vault_state" where
  "readEntries env master s =
     ((case vs_file s of
         None \<Rightarrow> Inl (apperr_New CodeNotFound)
       | Some sealed \<Rightarrow>
           if step_fails env s then Inl (apperr_New CodeNotFound)
           else obind (open_envelope (ve_crypto env) master sealed) (\<lambda>plaintext.
             case ve_decode env plaintext of
               None \<Rightarrow> Inl (apperr_New CodeInternal)
             | Some entries \<Rightarrow> Inr entries)), tick_on s)"

text \<open>\<open>writeSealed\<close>: the directory, the temporary file, the renaming; only the last one changes the
  vault's file.\<close>

definition writeSealed :: "vault_env \<Rightarrow> bytes \<Rightarrow> vault_state \<Rightarrow> unit app_result \<times> vault_state" where
  "writeSealed env sealed s =
     (if step_fails env s then (Inl (apperr_New CodeInternal), tick_on s)
      else if step_fails env (tick_on s) then (Inl (apperr_New CodeInternal), tick_on (tick_on s))
      else if step_fails env (tick_on (tick_on s))
      then (Inl (apperr_New CodeInternal), tick_on (tick_on (tick_on s)))
      else (Inr (), (tick_on (tick_on (tick_on s)))\<lparr>vs_file := Some sealed\<rparr>))"

definition writeEntries ::
    "vault_env \<Rightarrow> bytes \<Rightarrow> bytes go_map \<Rightarrow> vault_state \<Rightarrow> unit app_result \<times> vault_state" where
  "writeEntries env master entries s =
     (case seal_envelope (ve_crypto env) (ve_entropy env (vs_tick s)) master (ve_encode env entries)
             DefaultParams of
        Inl e \<Rightarrow> (Inl e, tick_on s)
      | Inr sealed \<Rightarrow> writeSealed env sealed (tick_on s))"

section \<open>The operations\<close>

definition vault_Create :: "vault_env \<Rightarrow> bytes \<Rightarrow> vault_state \<Rightarrow> unit app_result \<times> vault_state" where
  "vault_Create env master s =
     (if step_fails env s then (Inl (apperr_New CodeInternal), tick_on s)
      else if vs_file s \<noteq> None then (Inl (apperr_New CodeConflict), tick_on s)
      else (case writeEntries env master [] (tick_on s) of
              (Inl e, s') \<Rightarrow> (Inl e, s')
            | (Inr _, s') \<Rightarrow> (Inr (), unlockLocked env master s')))"

definition vault_Unlock ::
    "vault_env \<Rightarrow> bytes \<Rightarrow> vault_state \<Rightarrow> (unlock_outcome \<times> app_error option) \<times> vault_state" where
  "vault_Unlock env master s =
     (let now = vault_now env s; s1 = tick_on s in
      if now < vs_lockedUntil s
      then ((\<lparr>uo_LockoutBegan = False, uo_LockedUntil = vs_lockedUntil s\<rparr>, Some lockedOut), s1)
      else (case readEntries env master s1 of
              (Inl _, s2) \<Rightarrow>
                (let s3 = (lockLocked s2)\<lparr>vs_failures := vs_failures s2 + 1\<rparr> in
                 if vs_failures s3 < MaxUnlockFailures
                 then ((\<lparr>uo_LockoutBegan = False, uo_LockedUntil = 0\<rparr>, Some unlockFailed), s3)
                 else ((\<lparr>uo_LockoutBegan = True, uo_LockedUntil = now + LockoutDuration\<rparr>, Some lockedOut),
                       s3\<lparr>vs_failures := 0, vs_lockedUntil := now + LockoutDuration\<rparr>))
            | (Inr _, s2) \<Rightarrow>
                ((\<lparr>uo_LockoutBegan = False, uo_LockedUntil = 0\<rparr>, None),
                 unlockLocked env master (s2\<lparr>vs_failures := 0, vs_lockedUntil := 0\<rparr>))))"

definition vault_Lock :: "vault_state \<Rightarrow> vault_state" where
  "vault_Lock s = lockLocked s"

definition vault_IsUnlocked :: "vault_env \<Rightarrow> vault_state \<Rightarrow> bool \<times> vault_state" where
  "vault_IsUnlocked env s = (case activeLocked env s of (r, s') \<Rightarrow> (r = Inr (), s'))"

text \<open>What \<open>Get\<close>, \<open>Put\<close>, \<open>Delete\<close> and \<open>References\<close> begin with.\<close>

definition with_entries ::
    "vault_env \<Rightarrow> (bytes go_map \<Rightarrow> vault_state \<Rightarrow> 'a app_result \<times> vault_state) \<Rightarrow> vault_state
       \<Rightarrow> 'a app_result \<times> vault_state" where
  "with_entries env act s =
     (case activeLocked env s of
        (Inl e, s1) \<Rightarrow> (Inl e, s1)
      | (Inr _, s1) \<Rightarrow>
          (case readEntries env (vs_master s1) s1 of
             (Inl e, s2) \<Rightarrow> (Inl e, s2)
           | (Inr entries, s2) \<Rightarrow> act entries s2))"

definition vault_Get :: "vault_env \<Rightarrow> string \<Rightarrow> vault_state \<Rightarrow> bytes app_result \<times> vault_state" where
  "vault_Get env reference = with_entries env (\<lambda>entries s.
     case gm_get entries reference of
       None \<Rightarrow> (Inl (apperr_New CodeNotFound), s)
     | Some stored \<Rightarrow> (Inr stored, touchLocked env s))"

text \<open>Writing the entries back, then noting the activity.\<close>

definition store_entries ::
    "vault_env \<Rightarrow> bytes go_map \<Rightarrow> vault_state \<Rightarrow> unit app_result \<times> vault_state" where
  "store_entries env entries s =
     (case writeEntries env (vs_master s) entries s of
        (Inl e, s') \<Rightarrow> (Inl e, s')
      | (Inr _, s') \<Rightarrow> (Inr (), touchLocked env s'))"

definition vault_Put ::
    "vault_env \<Rightarrow> string \<Rightarrow> bytes \<Rightarrow> vault_state \<Rightarrow> unit app_result \<times> vault_state" where
  "vault_Put env reference v s =
     (if reference = [] then (Inl (apperr_New CodeInvalidRequest), s)
      else with_entries env (\<lambda>entries. store_entries env (gm_put reference v entries)) s)"

definition vault_Delete :: "vault_env \<Rightarrow> string \<Rightarrow> vault_state \<Rightarrow> unit app_result \<times> vault_state" where
  "vault_Delete env reference = with_entries env (\<lambda>entries s.
     case gm_get entries reference of
       None \<Rightarrow> (Inl (apperr_New CodeNotFound), s)
     | Some _ \<Rightarrow> store_entries env (filter (\<lambda>(k, _). k \<noteq> reference) entries) s)"

definition vault_References :: "vault_env \<Rightarrow> vault_state \<Rightarrow> string list app_result \<times> vault_state" where
  "vault_References env = with_entries env (\<lambda>entries s. (Inr (map fst entries), touchLocked env s))"

definition vault_ExportBackup :: "vault_env \<Rightarrow> vault_state \<Rightarrow> bytes app_result \<times> vault_state" where
  "vault_ExportBackup env s =
     ((case vs_file s of
         None \<Rightarrow> Inl (apperr_New CodeNotFound)
       | Some sealed \<Rightarrow>
           if step_fails env s then Inl (apperr_New CodeNotFound)
           else obind (ParseHeader sealed) (\<lambda>_. Inr sealed)), tick_on s)"

definition vault_RestoreBackup ::
    "vault_env \<Rightarrow> bytes \<Rightarrow> bytes \<Rightarrow> vault_state \<Rightarrow> unit app_result \<times> vault_state" where
  "vault_RestoreBackup env backup master s =
     (case open_envelope (ve_crypto env) master backup of
        Inl _ \<Rightarrow> (Inl unlockFailed, lockLocked s)
      | Inr _ \<Rightarrow>
          (case writeSealed env backup s of
             (Inl e, s') \<Rightarrow> (Inl e, s')
           | (Inr _, s') \<Rightarrow> (Inr (), unlockLocked env master s')))"

section \<open>Runs\<close>

datatype vault_op = OpCreate bytes | OpUnlock bytes | OpLock | OpIsUnlocked | OpGet string
  | OpPut string bytes | OpDelete string | OpReferences | OpExport | OpRestore bytes bytes

fun run_vault_op :: "vault_env \<Rightarrow> vault_op \<Rightarrow> vault_state \<Rightarrow> vault_state" where
  "run_vault_op env (OpCreate m) s = snd (vault_Create env m s)"
| "run_vault_op env (OpUnlock m) s = snd (vault_Unlock env m s)"
| "run_vault_op env OpLock s = vault_Lock s"
| "run_vault_op env OpIsUnlocked s = snd (vault_IsUnlocked env s)"
| "run_vault_op env (OpGet k) s = snd (vault_Get env k s)"
| "run_vault_op env (OpPut k v) s = snd (vault_Put env k v s)"
| "run_vault_op env (OpDelete k) s = snd (vault_Delete env k s)"
| "run_vault_op env OpReferences s = snd (vault_References env s)"
| "run_vault_op env OpExport s = snd (vault_ExportBackup env s)"
| "run_vault_op env (OpRestore b m) s = snd (vault_RestoreBackup env b m s)"

definition run_vault :: "vault_env \<Rightarrow> vault_op list \<Rightarrow> vault_state \<Rightarrow> vault_state" where
  "run_vault env = fold (run_vault_op env)"

text \<open>A relation every part of an operation keeps is kept by every operation: the shape of the
  proofs below.\<close>

locale vault_relation =
  fixes env :: vault_env
    and R :: "vault_state \<Rightarrow> vault_state \<Rightarrow> bool"
  assumes refl: "R s s"
    and trans: "R s t \<Longrightarrow> R t u \<Longrightarrow> R s u"
    and tick: "R s (tick_on s)"
    and lock: "R s (lockLocked s)"
    and touch: "R s (touchLocked env s)"
begin

lemma active: "R s (snd (activeLocked env s))"
  using refl trans [OF tick lock] tick by (simp add: activeLocked_def)

lemma reading: "R s (snd (readEntries env m s))"
  using tick by (simp add: readEntries_def)

lemma entries:
  assumes "\<And>e s. R s (snd (act e s))"
  shows "R s (snd (with_entries env act s))"
proof -
  obtain r s1 q s2 where a: "activeLocked env s = (r, s1)" and q: "readEntries env (vs_master s1) s1 = (q, s2)"
    by (meson surj_pair)
  have "R s s1" "R s1 s2" using active [of s] reading [of s1 "vs_master s1"] a q by simp_all
  then have "R s s2" by (rule trans)
  with a q \<open>R s s1\<close> assms trans show ?thesis
    by (auto simp: with_entries_def split: sum.splits)
qed

lemma quiet_operations:
  "R s (snd (vault_Get env k s))" "R s (snd (vault_References env s))"
  "R s (vault_Lock s)" "R s (snd (vault_IsUnlocked env s))" "R s (snd (vault_ExportBackup env s))"
proof -
  show "R s (snd (vault_Get env k s))" unfolding vault_Get_def
    by (rule entries) (auto simp: refl touch split: option.splits)
  show "R s (snd (vault_References env s))" unfolding vault_References_def
    by (rule entries) (simp add: touch)
  show "R s (vault_Lock s)" by (simp add: vault_Lock_def lock)
  show "R s (snd (vault_IsUnlocked env s))"
    using active [of s] by (simp add: vault_IsUnlocked_def case_prod_unfold)
  show "R s (snd (vault_ExportBackup env s))" by (simp add: vault_ExportBackup_def tick)
qed

end

text \<open>Operations that put another envelope or another key in place.\<close>

definition envelope_of :: "vault_env \<Rightarrow> bytes \<Rightarrow> bytes \<Rightarrow> bool" where
  "envelope_of env m sealed \<longleftrightarrow> (\<exists>p. open_envelope (ve_crypto env) m sealed = Inr p)
     \<or> (\<exists>i p. seal_envelope (ve_crypto env) (ve_entropy env i) m p DefaultParams = Inr sealed)"

locale vault_installing = vault_relation +
  assumes install: "envelope_of env m sealed \<Longrightarrow> R s (s\<lparr>vs_file := Some sealed, vs_master := m\<rparr>)"
begin

lemma unlocking:
  assumes "vs_file s = Some sealed" and "envelope_of env m sealed"
  shows "R s (unlockLocked env m s)"
proof -
  have "s\<lparr>vs_master := m\<rparr> = s\<lparr>vs_file := Some sealed, vs_master := m\<rparr>" using assms(1) by simp
  with install [OF assms(2), of s] have "R s (s\<lparr>vs_master := m\<rparr>)" by simp
  then show ?thesis unfolding unlockLocked_def using touch trans by blast
qed

lemma ticks: "R s (tick_on (tick_on (tick_on s)))" "R s (tick_on (tick_on s))"
  using tick trans by blast+

text \<open>A write that succeeds, followed by setting the key it was made with, is an installation; one
  that fails only takes time.\<close>

lemma written:
  assumes "writeSealed env sealed s = (r, s')" and "envelope_of env m sealed"
  shows "case r of Inl e \<Rightarrow> R s s' | Inr _ \<Rightarrow> vs_file s' = Some sealed \<and> vs_master s' = vs_master s
      \<and> R s (s'\<lparr>vs_master := m\<rparr>)"
  using assms ticks [of s] tick [of s]
    trans [OF ticks(1) install [OF assms(2)], of s]
  by (auto simp: writeSealed_def tick_on_def split: if_splits)

lemma written_entries:
  assumes "writeEntries env m entries s = (r, s')"
  shows "case r of Inl e \<Rightarrow> R s s' | Inr _ \<Rightarrow> vs_master s' = vs_master s \<and> R s (s'\<lparr>vs_master := m\<rparr>)"
proof (cases "seal_envelope (ve_crypto env) (ve_entropy env (vs_tick s)) m (ve_encode env entries) DefaultParams")
  case (Inl e)
  with assms tick [of s] show ?thesis by (auto simp: writeEntries_def)
next
  case (Inr sealed)
  then have "envelope_of env m sealed" by (auto simp: envelope_of_def)
  with assms Inr written [of sealed "tick_on s" r s' m] trans [OF tick]
  show ?thesis by (auto simp: writeEntries_def tick_on_def split: sum.splits)
qed

lemma storing: "R s (snd (store_entries env entries s))"
proof (cases "writeEntries env (vs_master s) entries s")
  case (Pair r s')
  show ?thesis
  proof (cases r)
    case (Inl e)
    with written_entries [OF Pair] Pair show ?thesis by (simp add: store_entries_def)
  next
    case (Inr u)
    with written_entries [OF Pair] have "vs_master s' = vs_master s" "R s (s'\<lparr>vs_master := vs_master s\<rparr>)"
      by simp_all
    then have "R s s'" by (metis (full_types) vault_state.surjective vault_state.update_convs(4))
    then have "R s (touchLocked env s')" using touch by (rule trans)
    with Pair Inr show ?thesis by (simp add: store_entries_def)
  qed
qed

lemma writing_operations:
  "R s (snd (vault_Put env k v s))" "R s (snd (vault_Delete env k s))"
  "R s (snd (vault_Create env m s))" "R s (snd (vault_RestoreBackup env b m s))"
proof -
  have "R s (snd (with_entries env (\<lambda>entries. store_entries env (gm_put k v entries)) s))"
    by (rule entries) (rule storing)
  then show "R s (snd (vault_Put env k v s))" by (simp add: vault_Put_def refl)
  show "R s (snd (vault_Delete env k s))" unfolding vault_Delete_def
    by (rule entries) (auto simp: refl storing split: option.splits)
  show "R s (snd (vault_Create env m s))"
  proof (cases "writeEntries env m [] (tick_on s)")
    case (Pair r s')
    have "R s (snd (case r of Inl e \<Rightarrow> (Inl e, s') | Inr _ \<Rightarrow> (Inr (), unlockLocked env m s')))"
    proof (cases r)
      case (Inl e)
      with written_entries [OF Pair] trans [OF tick] show ?thesis by simp
    next
      case (Inr u)
      with written_entries [OF Pair] have "R (tick_on s) (s'\<lparr>vs_master := m\<rparr>)" by simp
      with Inr trans [OF tick] trans [OF _ touch] show ?thesis by (simp add: unlockLocked_def)
    qed
    with Pair tick [of s] show ?thesis by (simp add: vault_Create_def case_prod_unfold split: sum.splits)
  qed
  show "R s (snd (vault_RestoreBackup env b m s))"
  proof (cases "open_envelope (ve_crypto env) m b")
    case (Inr p)
    then have e: "envelope_of env m b" by (simp add: envelope_of_def)
    show ?thesis
    proof (cases "writeSealed env b s")
      case (Pair r s')
      have "R s (snd (case r of Inl e \<Rightarrow> (Inl e, s') | Inr _ \<Rightarrow> (Inr (), unlockLocked env m s')))"
      proof (cases r)
        case (Inl e)
        with written [OF Pair e] show ?thesis by simp
      next
        case (Inr u)
        with written [OF Pair e] have "R s (s'\<lparr>vs_master := m\<rparr>)" by simp
        with Inr trans [OF _ touch] show ?thesis by (simp add: unlockLocked_def)
      qed
      with Pair Inr show ?thesis by (simp add: vault_RestoreBackup_def case_prod_unfold split: sum.splits)
    qed
  qed (simp add: vault_RestoreBackup_def lock)
qed

lemma other_operations: "(\<And>m. op \<noteq> OpUnlock m) \<Longrightarrow> R s (run_vault_op env op s)"
  using quiet_operations writing_operations by (cases op) (simp_all, metis)

end

section \<open>Guessing is slow\<close>

text \<open>Only \<open>Unlock\<close> moves the counters.\<close>

definition steady :: "vault_state \<Rightarrow> vault_state \<Rightarrow> bool" where
  "steady s t \<longleftrightarrow> vs_tick s \<le> vs_tick t \<and> vs_failures t = vs_failures s
     \<and> vs_lockedUntil t = vs_lockedUntil s"

interpretation steady: vault_installing env steady
  by unfold_locales (auto simp: steady_def tick_on_def lockLocked_def touchLocked_def)

text \<open>The instants at which a run tests a password, and whether it was the right one.\<close>

definition unlock_test :: "vault_env \<Rightarrow> vault_op \<Rightarrow> vault_state \<Rightarrow> (instant \<times> bool) list" where
  "unlock_test env op s = (case op of
     OpUnlock m \<Rightarrow> if vault_now env s < vs_lockedUntil s then []
       else [(vault_now env s, \<not> isl (fst (readEntries env m (tick_on s))))]
   | _ \<Rightarrow> [])"

fun unlock_log :: "vault_env \<Rightarrow> vault_op list \<Rightarrow> vault_state \<Rightarrow> (instant \<times> bool) list" where
  "unlock_log env [] s = []"
| "unlock_log env (op # ops) s = unlock_test env op s @ unlock_log env ops (run_vault_op env op s)"

text \<open>The lockout as an automaton over that log: failures counted so far, and the instant before
  which nothing is tested.\<close>

fun paced :: "int \<Rightarrow> instant \<Rightarrow> (instant \<times> bool) list \<Rightarrow> bool" where
  "paced f till [] = True"
| "paced f till ((t, ok) # log) = (till \<le> t
     \<and> (if ok then paced 0 0 log
        else if f + 1 < MaxUnlockFailures then paced (f + 1) till log
        else paced 0 (t + LockoutDuration) log))"

lemma Unlock_counters:
  fixes env s m
  defines "s' \<equiv> snd (vault_Unlock env m s)"
  shows "vs_tick s < vs_tick s'"
    and "vault_now env s < vs_lockedUntil s \<Longrightarrow>
      vs_failures s' = vs_failures s \<and> vs_lockedUntil s' = vs_lockedUntil s"
    and "\<not> vault_now env s < vs_lockedUntil s \<Longrightarrow>
      (if \<not> isl (fst (readEntries env m (tick_on s))) then vs_failures s' = 0 \<and> vs_lockedUntil s' = 0
       else if vs_failures s + 1 < MaxUnlockFailures
       then vs_failures s' = vs_failures s + 1 \<and> vs_lockedUntil s' = vs_lockedUntil s
       else vs_failures s' = 0 \<and> vs_lockedUntil s' = vault_now env s + LockoutDuration)"
proof -
  obtain r s2 where r: "readEntries env m (tick_on s) = (r, s2)" by fastforce
  then have "vs_tick s < vs_tick s2 \<and> vs_failures s2 = vs_failures s \<and> vs_lockedUntil s2 = vs_lockedUntil s"
    by (auto simp: readEntries_def tick_on_def)
  with r show "vs_tick s < vs_tick s'"
    "vault_now env s < vs_lockedUntil s \<Longrightarrow>
      vs_failures s' = vs_failures s \<and> vs_lockedUntil s' = vs_lockedUntil s"
    "\<not> vault_now env s < vs_lockedUntil s \<Longrightarrow>
      (if \<not> isl (fst (readEntries env m (tick_on s))) then vs_failures s' = 0 \<and> vs_lockedUntil s' = 0
       else if vs_failures s + 1 < MaxUnlockFailures
       then vs_failures s' = vs_failures s + 1 \<and> vs_lockedUntil s' = vs_lockedUntil s
       else vs_failures s' = 0 \<and> vs_lockedUntil s' = vault_now env s + LockoutDuration)"
    unfolding s'_def by (cases r; auto simp: vault_Unlock_def Let_def tick_on_def lockLocked_def
        unlockLocked_def touchLocked_def)+
qed

lemma log_paced: "paced (vs_failures s) (vs_lockedUntil s) (unlock_log env ops s)"
proof (induction ops arbitrary: s)
  case (Cons op ops)
  show ?case
  proof (cases "\<exists>m. op = OpUnlock m")
    case True
    then obtain m where m: "op = OpUnlock m" by blast
    show ?thesis
      using Cons.IH [of "snd (vault_Unlock env m s)"] Unlock_counters(2,3) [of env s m]
      by (auto simp: m unlock_test_def not_less split: if_splits)
  next
    case False
    then have "steady s (run_vault_op env op s)" using steady.other_operations by blast
    moreover have "unlock_test env op s = []" using False by (auto simp: unlock_test_def split: vault_op.splits)
    ultimately show ?thesis using Cons.IH [of "run_vault_op env op s"] by (simp add: steady_def)
  qed
qed simp

lemma paced_suffix:
  "paced f till (pre @ rest) \<Longrightarrow> 0 \<le> f \<Longrightarrow> f < MaxUnlockFailures
     \<Longrightarrow> \<exists>f' till'. 0 \<le> f' \<and> f' < MaxUnlockFailures \<and> paced f' till' rest"
proof (induction f till pre rule: paced.induct)
  case (2 f till t ok log)
  then show ?case by (auto simp: MaxUnlockFailures_def split: if_splits)
qed auto

lemma log_times:
  assumes "mono (ve_clock env)"
  shows "sorted (map fst (unlock_log env ops s)) \<and> (\<forall>e \<in> set (unlock_log env ops s). vault_now env s \<le> fst e)"
proof (induction ops arbitrary: s)
  case (Cons op ops)
  have later: "vs_tick s \<le> vs_tick (run_vault_op env op s)"
  proof (cases "\<exists>m. op = OpUnlock m")
    case True
    then show ?thesis using Unlock_counters(1) by (metis less_imp_le run_vault_op.simps(2))
  next
    case False
    then show ?thesis using steady.other_operations by (meson steady_def)
  qed
  then have "vault_now env s \<le> vault_now env (run_vault_op env op s)"
    using assms by (simp add: vault_now_def mono_def)
  moreover have "\<forall>e \<in> set (unlock_test env op s). fst e = vault_now env s" "length (unlock_test env op s) \<le> 1"
    by (auto simp: unlock_test_def split: vault_op.splits)
  ultimately show ?case using Cons.IH [of "run_vault_op env op s"]
    by (cases "unlock_test env op s") (auto simp: sorted_append)
qed simp

lemma Unlock_locked_out:
  "vault_now env s < vs_lockedUntil s \<Longrightarrow> vault_Unlock env m s
     = ((\<lparr>uo_LockoutBegan = False, uo_LockedUntil = vs_lockedUntil s\<rparr>, Some lockedOut), tick_on s)"
  by (simp add: vault_Unlock_def Let_def)

lemma Unlock_refused:
  assumes "isl (fst (readEntries env m (tick_on s)))"
  shows "fst (vault_Unlock env m s) = fst (vault_Unlock env m (s\<lparr>vs_file := None\<rparr>))"
proof -
  obtain e s2 where r: "readEntries env m (tick_on s) = (Inl e, s2)"
    using assms by (metis isl_def prod.collapse)
  then have "vs_failures s2 = vs_failures s" by (auto simp: readEntries_def tick_on_def)
  moreover have "readEntries env m (tick_on (s\<lparr>vs_file := None\<rparr>))
      = (Inl (apperr_New CodeNotFound), tick_on (tick_on (s\<lparr>vs_file := None\<rparr>)))"
    by (simp add: readEntries_def tick_on_def)
  ultimately show ?thesis using r
    by (simp add: vault_Unlock_def Let_def tick_on_def lockLocked_def vault_now_def)
qed


definition slow_env :: vault_env where
  "slow_env = \<lparr>ve_crypto = sample_crypto, ve_encode = (\<lambda>_. []), ve_decode = (\<lambda>_. Some []),
     ve_clock = (\<lambda>n. int n * (10 * second)), ve_fails = (\<lambda>_. False), ve_entropy = (\<lambda>_. sample_entropy)\<rparr>"


section \<open>Only the password opens\<close>

definition vault_sound :: "vault_env \<Rightarrow> bool" where
  "vault_sound env \<longleftrightarrow> crypto_sound (ve_crypto env) \<and> (\<forall>i. entropy_sound (ve_entropy env i))"

definition opens :: "vault_env \<Rightarrow> bytes \<Rightarrow> bytes option \<Rightarrow> bool" where
  "opens env m file \<longleftrightarrow> (\<exists>sealed p. file = Some sealed \<and> open_envelope (ve_crypto env) m sealed = Inr p)"

definition key_fits :: "vault_env \<Rightarrow> vault_state \<Rightarrow> bool" where
  "key_fits env s \<longleftrightarrow> (vs_master s \<noteq> [] \<longrightarrow> opens env (vs_master s) (vs_file s))"

definition keeps_key :: "vault_env \<Rightarrow> vault_state \<Rightarrow> vault_state \<Rightarrow> bool" where
  "keeps_key env s t \<longleftrightarrow> (vault_sound env \<longrightarrow> key_fits env s \<longrightarrow> key_fits env t)"

lemma envelope_opens: "vault_sound env \<Longrightarrow> envelope_of env m sealed \<Longrightarrow> opens env m (Some sealed)"
  using sealed_opens by (force simp: vault_sound_def envelope_of_def opens_def)

interpretation key: vault_installing env "keeps_key env"
  by unfold_locales (auto simp: keeps_key_def key_fits_def tick_on_def lockLocked_def touchLocked_def
      envelope_opens)

lemma Unlock_None:
  assumes "snd (fst (vault_Unlock env m s)) = None"
  shows "opens env m (vs_file s) \<and> vs_master (snd (vault_Unlock env m s)) = m
     \<and> vs_file (snd (vault_Unlock env m s)) = vs_file s"
proof -
  obtain r s2 where r: "readEntries env m (tick_on s) = (r, s2)" by fastforce
  with assms obtain entries where "r = Inr entries"
    by (cases r) (auto simp: vault_Unlock_def Let_def split: if_splits)
  with r assms show ?thesis
    by (auto simp: vault_Unlock_def Let_def readEntries_def obind_iffs opens_def tick_on_def
        unlockLocked_def touchLocked_def split: if_splits option.splits)
qed

lemma Unlock_Some:
  assumes "snd (fst (vault_Unlock env m s)) = Some e"
  shows "vs_file (snd (vault_Unlock env m s)) = vs_file s
     \<and> vs_master (snd (vault_Unlock env m s)) \<in> {[], vs_master s}"
proof -
  obtain r s2 where r: "readEntries env m (tick_on s) = (r, s2)" by fastforce
  then have "vs_file s2 = vs_file s" by (auto simp: readEntries_def tick_on_def)
  with r assms show ?thesis
    by (cases r) (auto simp: vault_Unlock_def Let_def tick_on_def lockLocked_def)
qed

lemma run_op_key: "keeps_key env s (run_vault_op env op s)"
proof (cases "\<exists>m. op = OpUnlock m")
  case True
  then obtain m where m: "op = OpUnlock m" by blast
  show ?thesis
  proof (cases "snd (fst (vault_Unlock env m s))")
    case None
    with Unlock_None [OF None] m show ?thesis by (simp add: keeps_key_def key_fits_def)
  next
    case (Some e)
    with Unlock_Some [OF Some] m show ?thesis by (auto simp: keeps_key_def key_fits_def)
  qed
qed (use key.other_operations in blast)

lemma run_vault_key: "keeps_key env s (run_vault env ops s)"
  unfolding run_vault_def
proof (induction ops arbitrary: s)
  case (Cons op ops)
  then show ?case using run_op_key key.trans by (simp, blast)
qed (simp add: key.refl)

definition expired :: "vault_env \<Rightarrow> vault_state \<Rightarrow> bool" where
  "expired env s \<longleftrightarrow> vs_lastActive s \<noteq> 0 \<and> vault_now env s - vs_lastActive s \<ge> vs_idleTimeout s"

lemma active_locked:
  "vs_master s = [] \<or> expired env s \<Longrightarrow> fst (activeLocked env s) = Inl vault_locked
     \<and> vs_master (snd (activeLocked env s)) = [] \<and> vs_file (snd (activeLocked env s)) = vs_file s"
  by (auto simp: activeLocked_def expired_def lockLocked_def tick_on_def)

lemma entries_locked:
  assumes "vs_master s = [] \<or> expired env s"
  shows "fst (with_entries env act s) = Inl vault_locked \<and> vs_master (snd (with_entries env act s)) = []
     \<and> vs_file (snd (with_entries env act s)) = vs_file s"
  using active_locked [OF assms] by (auto simp: with_entries_def split: prod.splits sum.splits)


section \<open>A vault is a map\<close>

text \<open>JSON returns entries with plain names unchanged; other names may be coerced to valid text.\<close>

definition plain_name :: "string \<Rightarrow> bool" where
  "plain_name k \<longleftrightarrow> list_all (\<lambda>c. of_char c < (128 :: nat)) k"

definition plain_entries :: "bytes go_map \<Rightarrow> bool" where
  "plain_entries m \<longleftrightarrow> gm_ok m \<and> (\<forall>k \<in> fst ` set m. plain_name k)"

definition json_sound :: "vault_env \<Rightarrow> bool" where
  "json_sound env \<longleftrightarrow> (\<forall>m. plain_entries m \<longrightarrow> ve_decode env (ve_encode env m) = Some m)"

definition contents :: "vault_env \<Rightarrow> vault_state \<Rightarrow> bytes go_map option" where
  "contents env s = (case vs_file s of None \<Rightarrow> None
     | Some sealed \<Rightarrow> (case open_envelope (ve_crypto env) (vs_master s) sealed of
         Inl _ \<Rightarrow> None | Inr p \<Rightarrow> ve_decode env p))"

lemma contents_same: "vs_file t = vs_file s \<Longrightarrow> vs_master t = vs_master s \<Longrightarrow> contents env t = contents env s"
  by (simp add: contents_def split: option.split)

lemma same_parts [simp]:
  "vs_file (tick_on s) = vs_file s" "vs_master (tick_on s) = vs_master s"
  "vs_file (touchLocked env s) = vs_file s" "vs_master (touchLocked env s) = vs_master s"
  "vs_file (lockLocked s) = vs_file s"
  by (simp_all add: tick_on_def touchLocked_def lockLocked_def)

lemma with_entries_cases:
  assumes "contents env s = Some m"
  obtains (refused) e s' where "with_entries env act s = (Inl e, s')" "vs_file s' = vs_file s"
      "vs_master s = [] \<or> expired env s \<or> (\<exists>i. ve_fails env i)"
  | (read) s' where "with_entries env act s = act m s'" "vs_file s' = vs_file s"
      "vs_master s' = vs_master s" "vs_master s \<noteq> []"
proof -
  obtain r s1 where a: "activeLocked env s = (r, s1)" by fastforce
  show thesis
  proof (cases r)
    case (Inl e)
    with a have "vs_file s1 = vs_file s" "vs_master s = [] \<or> expired env s"
      by (auto simp: activeLocked_def expired_def split: if_splits)
    with a Inl show thesis by (intro refused [of e s1]) (auto simp: with_entries_def)
  next
    case (Inr u)
    with a have s1: "vs_file s1 = vs_file s" "vs_master s1 = vs_master s" "vs_master s \<noteq> []"
      by (auto simp: activeLocked_def split: if_splits)
    show thesis
    proof (cases "step_fails env s1")
      case True
      with assms s1 have "readEntries env (vs_master s1) s1 = (Inl (apperr_New CodeNotFound), tick_on s1)"
        by (auto simp: readEntries_def contents_def split: option.splits)
      with a Inr True s1 show thesis
        by (intro refused [of "apperr_New CodeNotFound" "tick_on s1"]) (auto simp: with_entries_def step_fails_def)
    next
      case False
      with assms s1 have "readEntries env (vs_master s1) s1 = (Inr m, tick_on s1)"
        by (auto simp: readEntries_def contents_def split: option.splits sum.splits)
      with a Inr s1 show thesis by (intro read [of "tick_on s1"]) (simp_all add: with_entries_def)
    qed
  qed
qed

lemma writeSealed_cases:
  obtains (failed) e s' where "writeSealed env sealed s = (Inl e, s')" "vs_file s' = vs_file s" "\<exists>i. ve_fails env i"
  | (stored) s' where "writeSealed env sealed s = (Inr (), s')" "vs_file s' = Some sealed" "vs_master s' = vs_master s"
  by (cases "writeSealed env sealed s")
    (auto simp: writeSealed_def step_fails_def split: if_splits)

lemma store_entries_cases:
  assumes "vault_sound env" and "json_sound env" and "plain_entries m"
  obtains (failed) e s' where "store_entries env m s = (Inl e, s')" "vs_file s' = vs_file s"
  | (stored) s' where "store_entries env m s = (Inr (), s')" "contents env s' = Some m"
proof -
  let ?seal = "seal_envelope (ve_crypto env) (ve_entropy env (vs_tick s)) (vs_master s) (ve_encode env m) DefaultParams"
  show thesis
  proof (cases ?seal)
    case (Inl e)
    then show thesis by (intro failed [of e "tick_on s"]) (simp_all add: store_entries_def writeEntries_def)
  next
    case (Inr sealed)
    have opened: "open_envelope (ve_crypto env) (vs_master s) sealed = Inr (ve_encode env m)"
      using sealed_opens [OF _ _ Inr] assms(1) by (simp add: vault_sound_def)
    show thesis
    proof (cases rule: writeSealed_cases [of env sealed "tick_on s"])
      case (failed e s')
      with Inr show thesis by (intro that(1) [of e s']) (simp_all add: store_entries_def writeEntries_def)
    next
      case (stored s')
      with opened assms(2,3) have "contents env (touchLocked env s') = Some m"
        by (simp add: contents_def json_sound_def)
      with stored Inr show thesis by (intro that(2) [of "touchLocked env s'"]) (simp_all add: store_entries_def writeEntries_def)
    qed
  qed
qed

lemma plain_put: "plain_entries m \<Longrightarrow> plain_name k \<Longrightarrow> plain_entries (gm_put k v m)"
  by (auto simp: plain_entries_def)

lemma plain_filter: "plain_entries m \<Longrightarrow> plain_entries (filter P m)"
  by (auto simp: plain_entries_def gm_ok_def sorted_wrt_map intro: sorted_wrt_filter)

text \<open>C31: A vault is a map from names to secrets.  While the key opens a file whose entries are plain,
  \<open>Get\<close> answers the entry, \<open>References\<close> the names in ascending order, and leave the contents alone;
  \<open>Put\<close> and \<open>Delete\<close> either replace the contents by the updated map, readable under the same key,
  or fail and leave the file as it was -- a write cut short at any step loses nothing.  On an
  active vault whose file can be read \<open>Get\<close> does answer.\<close>

theorem vault_refines_map:
  assumes "vault_sound env" and "json_sound env"
    and "contents env s = Some m" and "plain_entries m" and "plain_name k"
  shows "(case vault_Get env k s of (r, s') \<Rightarrow>
        vs_file s' = vs_file s \<and> (\<forall>v. r = Inr v \<longrightarrow> gm_get m k = Some v \<and> contents env s' = Some m)
        \<and> (vs_master s \<noteq> [] \<and> \<not> expired env s \<and> (\<forall>i. \<not> ve_fails env i)
             \<longrightarrow> r = (case gm_get m k of None \<Rightarrow> Inl (apperr_New CodeNotFound) | Some v \<Rightarrow> Inr v)))
     \<and> (case vault_References env s of (r, s') \<Rightarrow>
        vs_file s' = vs_file s \<and> (\<forall>ks. r = Inr ks \<longrightarrow> ks = map fst m \<and> sorted ks \<and> distinct ks))
     \<and> (case vault_Put env k v s of (Inr _, s') \<Rightarrow> contents env s' = Some (gm_put k v m)
        | (Inl _, s') \<Rightarrow> vs_file s' = vs_file s)
     \<and> (case vault_Delete env k s of
          (Inr _, s') \<Rightarrow> gm_get m k \<noteq> None \<and> contents env s' = Some (filter (\<lambda>(k', _). k' \<noteq> k) m)
        | (Inl _, s') \<Rightarrow> vs_file s' = vs_file s)"
proof (intro conjI)
  show "case vault_Get env k s of (r, s') \<Rightarrow>
        vs_file s' = vs_file s \<and> (\<forall>v. r = Inr v \<longrightarrow> gm_get m k = Some v \<and> contents env s' = Some m)
        \<and> (vs_master s \<noteq> [] \<and> \<not> expired env s \<and> (\<forall>i. \<not> ve_fails env i)
             \<longrightarrow> r = (case gm_get m k of None \<Rightarrow> Inl (apperr_New CodeNotFound) | Some v \<Rightarrow> Inr v))"
    unfolding vault_Get_def
    using contents_same [of _ s env] assms(3)
    by (cases rule: with_entries_cases [OF assms(3), of "\<lambda>entries s. case gm_get entries k of
       None \<Rightarrow> (Inl (apperr_New CodeNotFound), s) | Some stored \<Rightarrow> (Inr stored, touchLocked env s)"])
      (auto split: option.splits)
  show "case vault_References env s of (r, s') \<Rightarrow>
        vs_file s' = vs_file s \<and> (\<forall>ks. r = Inr ks \<longrightarrow> ks = map fst m \<and> sorted ks \<and> distinct ks)"
    unfolding vault_References_def
    using gm_ok_sorted [of m] gm_ok_distinct [of m] assms(4)
    by (cases rule: with_entries_cases [OF assms(3), of "\<lambda>entries s. (Inr (map fst entries), touchLocked env s)"])
      (auto simp: plain_entries_def)
  have keep: "vs_file t = vs_file s \<Longrightarrow> (case store_entries env m' t of (Inr _, s') \<Rightarrow> contents env s' = Some m'
      | (Inl _, s') \<Rightarrow> vs_file s' = vs_file s)" if "plain_entries m'" for m' t
    by (cases rule: store_entries_cases [OF assms(1,2) that, of t]) auto
  show "case vault_Put env k v s of (Inr _, s') \<Rightarrow> contents env s' = Some (gm_put k v m)
        | (Inl _, s') \<Rightarrow> vs_file s' = vs_file s"
  proof (cases "k = []")
    case False
    then show ?thesis unfolding vault_Put_def using keep [OF plain_put [OF assms(4,5)]]
      by (cases rule: with_entries_cases [OF assms(3), of "\<lambda>entries. store_entries env (gm_put k v entries)"])
        auto
  qed (simp add: vault_Put_def)
  show "case vault_Delete env k s of
          (Inr _, s') \<Rightarrow> gm_get m k \<noteq> None \<and> contents env s' = Some (filter (\<lambda>(k', _). k' \<noteq> k) m)
        | (Inl _, s') \<Rightarrow> vs_file s' = vs_file s"
  proof -
    let ?rest = "filter (\<lambda>(k', _). k' \<noteq> k) m"
    have rest: "case store_entries env ?rest t of (Inr _, s') \<Rightarrow> contents env s' = Some ?rest
        | (Inl _, s') \<Rightarrow> vs_file s' = vs_file s" if "vs_file t = vs_file s" for t
      using keep [OF plain_filter [OF assms(4)] that] .
    show ?thesis using assms(3)
    proof (cases rule: with_entries_cases [of env s m "\<lambda>entries s. case gm_get entries k of
       None \<Rightarrow> (Inl (apperr_New CodeNotFound), s)
     | Some _ \<Rightarrow> store_entries env (filter (\<lambda>(k', _). k' \<noteq> k) entries) s"])
      case (read s')
      with rest [OF read(2)] show ?thesis
        by (cases "gm_get m k") (auto simp: vault_Delete_def case_prod_unfold split: sum.splits)
    qed (simp add: vault_Delete_def)
  qed
qed

section \<open>A sample vault\<close>

text \<open>A serialisation with the documented property: every byte of a name follows a 2, every byte of
  a secret a 3, and an entry begins with a 1.\<close>

definition plain_encode :: "bytes go_map \<Rightarrow> bytes" where
  "plain_encode m = concat (map (\<lambda>(k, v). 1 # concat (map (\<lambda>c. [2, word_of_nat (of_char c)]) k)
     @ concat (map (\<lambda>b. [3, b]) v)) m)"

fun plain_parse :: "bytes \<Rightarrow> string \<times> bytes \<times> bytes go_map" where
  "plain_parse (t # b # rest) =
     (if t = 1 then (case plain_parse (b # rest) of (k, v, m) \<Rightarrow> ([], [], (k, v) # m))
      else case plain_parse rest of (k, v, m) \<Rightarrow>
        if t = 2 then (char_of (unat b) # k, v, m) else (k, b # v, m))"
| "plain_parse [t] = ([], [], [([], [])])"
| "plain_parse [] = ([], [], [])"

definition plain_decode :: "bytes \<Rightarrow> bytes go_map option" where
  "plain_decode b = Some (snd (snd (plain_parse b)))"

lemma plain_parse_secret:
  "plain_parse (concat (map (\<lambda>b. [3, b]) v) @ rest) =
     (case plain_parse rest of (k, v', m) \<Rightarrow> (k, v @ v', m))"
  by (induction v) (auto split: prod.splits)

lemma plain_parse_name:
  "plain_parse (concat (map (\<lambda>c. [2, word_of_nat (of_char c)]) k) @ rest) =
     (case plain_parse rest of (k', v, m) \<Rightarrow> (k @ k', v, m))"
proof (induction k)
  case (Cons c k)
  have "unat (word_of_nat (of_char c) :: 8 word) = of_char c"
    by (simp add: unat_of_nat take_bit_nat_eq_self)
  with Cons show ?case by (auto split: prod.splits)
qed (auto split: prod.splits)

lemma plain_parse_entry:
  "plain_parse (1 # rest) = (case plain_parse rest of (k, v, m) \<Rightarrow> ([], [], (k, v) # m))"
  by (cases rest) auto

lemma plain_parse_encode: "plain_parse (plain_encode m) = ([], [], m)"
  by (induction m) (auto simp: plain_encode_def plain_parse_entry plain_parse_name plain_parse_secret)

definition sample_vault_env :: vault_env where
  "sample_vault_env = \<lparr>ve_crypto = sample_crypto, ve_encode = plain_encode, ve_decode = plain_decode,
     ve_clock = (\<lambda>n. 1 + int n), ve_fails = (\<lambda>_. False), ve_entropy = (\<lambda>_. sample_entropy)\<rparr>"

lemma sample_vault_sound: "vault_sound sample_vault_env" "json_sound sample_vault_env"
  using sample_crypto_sound plain_parse_encode
  by (simp_all add: vault_sound_def json_sound_def sample_vault_env_def plain_decode_def)

definition sample_vault_ops :: "vault_op list" where
  "sample_vault_ops = [OpCreate [2, 3], OpPut ''github'' [7, 9]]"


theorem vault_refines_map_witness:
  "(let s = run_vault sample_vault_env sample_vault_ops (vault_New 0 None) in
     fst (vault_Get sample_vault_env ''github'' s) = Inr [7, 9]
     \<and> fst (vault_References sample_vault_env s) = Inr [''github'']
     \<and> contents sample_vault_env (snd (vault_Put sample_vault_env ''github'' [1] s)) = Some [(''github'', [1])])"
proof -
  let ?s = "run_vault sample_vault_env sample_vault_ops (vault_New 0 None)"
  have now: "contents sample_vault_env ?s = Some [(''github'', [7, 9])]" "vs_master ?s \<noteq> []"
    "\<not> expired sample_vault_env ?s" by code_simp+
  have names: "plain_entries [(''github'', [7, 9])]" "plain_name ''github''" by code_simp+
  have ok: "fst (vault_Put sample_vault_env ''github'' [1] ?s) = Inr ()"
    "fst (vault_References sample_vault_env ?s) = Inr [''github'']" by code_simp+
  note map = vault_refines_map [OF sample_vault_sound now(1) names, of "[1]"]
  obtain r s' where get: "vault_Get sample_vault_env ''github'' ?s = (r, s')" by (rule prod.exhaust)
  obtain q t where put: "vault_Put sample_vault_env ''github'' [1] ?s = (q, t)" by (rule prod.exhaust)
  have "\<not> ve_fails sample_vault_env i" for i by (simp add: sample_vault_env_def)
  with conjunct1 [OF map, unfolded get prod.case] now(2,3)
  have "r = (case gm_get [(''github'', [7, 9])] ''github'' of
      None \<Rightarrow> Inl (apperr_New CodeNotFound) | Some v \<Rightarrow> Inr v)" by blast
  then have "r = Inr [7, 9]" by simp
  moreover have "contents sample_vault_env t = Some [(''github'', [1])]"
    using conjunct1 [OF conjunct2 [OF conjunct2 [OF map]], unfolded put prod.case] ok(1) [unfolded put]
    by simp
  ultimately show ?thesis unfolding Let_def get put using ok(2) by simp
qed

end
