(* ===== verification/Cloudflare_Adapter.thy ===== *)
theory Cloudflare_Adapter
  imports Adapter_Exec
begin

text \<open>
  Model of \<open>internal/adapter/cloudflare/adapter.go\<close>, \<open>execute.go\<close> and \<open>preview.go\<close>: a record that
  already exists is read before it is changed, and the change is reported as a comparison of the
  value read with the value to be written.
\<close>

section \<open>Definitions\<close>

definition UnknownRecordCount :: int where "UnknownRecordCount = 0"

record cf_preview =
  cp_AffectedRecords :: int
  cp_Changes :: "resource_change list"

definition executableCapability :: "execute_input \<Rightarrow> adapter_capability app_result" where
  "executableCapability request =
     (case byOperation cloudflare_capabilities (xi_Operation request) of
        None \<Rightarrow> Inl (WithOperationID (apperr_New CodeCapabilityNotOffered) (xi_OperationID request))
      | Some c \<Rightarrow>
          if xi_Operation request \<notin> set cloudflare_executable
          then Inl (WithOperationID (apperr_New CodeNotImplemented) (xi_OperationID request))
          else Inr c)"

definition cf_send ::
    "exec_env \<Rightarrow> adapter_capability \<Rightarrow> string \<Rightarrow> execute_input \<Rightarrow> outbound list
       \<Rightarrow> (client_response \<times> app_error option) \<times> outbound list" where
  "cf_send env c path request sent =
     client_Do (ee_net env) (ee_client env) (bearer_request c path request) sent"

text \<open>Decoding into a field of type \<open>map[string]any\<close>; \<open>None\<close> is the nil map.\<close>

definition assign_object :: "json go_map option \<Rightarrow> json \<Rightarrow> json go_map option option" where
  "assign_object old j =
     (case j of
        JNull \<Rightarrow> Some None
      | JObj kvs \<Rightarrow> Some (Some (fold (\<lambda>(k, v) m. gm_put k v m) kvs
          (case old of None \<Rightarrow> [] | Some m \<Rightarrow> m)))
      | _ \<Rightarrow> None)"

definition decode_envelope :: "jtext \<Rightarrow> json go_map option" where
  "decode_envelope t =
     (case t of
        Parsed (JObj kvs) \<Rightarrow> (case json_member assign_object None kvs ''result'' of
                                None \<Rightarrow> None | Some m \<Rightarrow> m)
      | _ \<Rightarrow> None)"

definition OpReadDNSRecord :: string where "OpReadDNSRecord = ''read_dns_record''"
definition OpDeleteDNSRecord :: string where "OpDeleteDNSRecord = ''delete_dns_record''"
definition OpPurgeCache :: string where "OpPurgeCache = ''purge_cache''"

definition read_input :: "execute_input \<Rightarrow> execute_input" where
  "read_input request = \<lparr>xi_Operation = OpReadDNSRecord, xi_Resource = xi_Resource request,
     xi_Query = [], xi_Input = [], xi_Budget = no_budget, xi_Spent = no_usage,
     xi_Credential = xi_Credential request, xi_OperationID = xi_OperationID request\<rparr>"

text \<open>The declaration of the read operation is a constant of the table.\<close>

definition read_capability :: adapter_capability where
  "read_capability = the (byOperation cloudflare_capabilities OpReadDNSRecord)"

definition readCurrentRecord :: "exec_env \<Rightarrow> (execute_input, json go_map) sending" where
  "readCurrentRecord env request sent =
     (case buildPath read_capability (xi_Resource request) (xi_OperationID request) of
        Inl e \<Rightarrow> (Inl e, sent)
      | Inr path \<Rightarrow>
          (case cf_send env read_capability path (read_input request) sent of
             ((response, err), sent') \<Rightarrow>
               (case err of
                  Some e \<Rightarrow> Inl e
                | None \<Rightarrow>
                    if hs_StatusCode response \<ge> 400
                    then Inl (upstreamError (hs_StatusCode response) (xi_OperationID request))
                    else (case decode_envelope (ee_decode env (hs_Body response)) of
                            None \<Rightarrow> Inl (WithOperationID (apperr_New CodeGatewayUnavailable)
                              (xi_OperationID request))
                          | Some m \<Rightarrow> Inr m), sent')))"

text \<open>The \<open>result\<close> of an envelope as raw text; the last member of that name counts.\<close>

definition unwrap :: "jtext \<Rightarrow> string \<Rightarrow> json app_result" where
  "unwrap t operationID =
     (case t of
        Parsed (JObj kvs) \<Rightarrow>
          (case rev (member_values kvs ''result'') of
             [] \<Rightarrow> Inl (WithOperationID (apperr_New CodeInternal) operationID)
           | j # _ \<Rightarrow> if j = JNull
               then Inl (WithOperationID (apperr_New CodeInternal) operationID) else Inr j)
      | _ \<Rightarrow> Inl (WithOperationID (apperr_New CodeInternal) operationID))"

definition assign_bool :: "bool \<Rightarrow> json \<Rightarrow> bool option" where
  "assign_bool old j = (case j of JNull \<Rightarrow> Some old | JBool b \<Rightarrow> Some b | _ \<Rightarrow> None)"

definition affectedRecords :: "adapter_capability \<Rightarrow> jtext \<Rightarrow> int" where
  "affectedRecords c input =
     (if \<not> capability_Write c then 1
      else if ac_Operation c \<noteq> OpPurgeCache then 1
      else
        (case input of
           Parsed JNull \<Rightarrow> 0
         | Parsed (JObj kvs) \<Rightarrow>
             (case (json_member assign_strs [] kvs ''files'',
                    json_member assign_bool False kvs ''purge_everything'') of
                (Some files, Some everything) \<Rightarrow>
                  if everything then UnknownRecordCount else int (length files)
              | _ \<Rightarrow> UnknownRecordCount)
         | _ \<Rightarrow> UnknownRecordCount))"

definition dnsComparedFields :: "string list" where
  "dnsComparedFields = [''type'', ''name'', ''content'', ''ttl'', ''proxied'']"

text \<open>Decimal digits, as \<open>strconv\<close> writes whole numbers.\<close>

function nat_digits :: "nat \<Rightarrow> string" where
  "nat_digits n = (if n < 10 then [char_of (48 + n)] else nat_digits (n div 10) @ [char_of (48 + n mod 10)])"
  by pat_completeness auto
termination by (relation "measure id") auto

declare nat_digits.simps [simp del]

definition int_digits :: "int \<Rightarrow> string" where
  "int_digits n = (if n < 0 then ''-'' @ nat_digits (nat (- n)) else nat_digits (nat n))"

text \<open>\<open>text\<close> of a member; \<open>None\<close> is an absent one.\<close>

definition value_text :: "exec_env \<Rightarrow> json option \<Rightarrow> string" where
  "value_text env v =
     (case v of
        None \<Rightarrow> []
      | Some JNull \<Rightarrow> []
      | Some (JStr s) \<Rightarrow> s
      | Some (JBool b) \<Rightarrow> if b then ''true'' else ''false''
      | Some (JNum n) \<Rightarrow> int_digits n
      | Some j \<Rightarrow> ee_marshal env j)"

definition desired_record :: "string \<Rightarrow> jtext \<Rightarrow> json go_map" where
  "desired_record op input =
     (if op = OpDeleteDNSRecord then []
      else case input of Parsed (JObj kvs) \<Rightarrow> gm_of_list kvs | _ \<Rightarrow> [])"

definition compare_field ::
    "exec_env \<Rightarrow> string \<Rightarrow> json go_map \<Rightarrow> json go_map \<Rightarrow> string \<Rightarrow> resource_change option" where
  "compare_field env op current desired field =
     (let before = value_text env (gm_get current field);
          change = (\<lambda>after. if before = [] \<and> after = [] then None
            else Some \<lparr>rc_Resource = value_text env (gm_get current ''name''), rc_Field = field,
                       rc_Before = before, rc_After = after\<rparr>)
      in if op = OpDeleteDNSRecord then change []
         else case gm_get desired field of
                None \<Rightarrow> None
              | Some v \<Rightarrow> change (value_text env (Some v)))"

definition compare_records ::
    "exec_env \<Rightarrow> string \<Rightarrow> json go_map \<Rightarrow> jtext \<Rightarrow> resource_change list" where
  "compare_records env op current input =
     sort_key rc_Field (List.map_filter (compare_field env op current (desired_record op input))
       dnsComparedFields)"

definition cf_Preview :: "exec_env \<Rightarrow> (execute_input, cf_preview) sending" where
  "cf_Preview env request sent =
     (case executableCapability request of
        Inl e \<Rightarrow> (Inl e, sent)
      | Inr c \<Rightarrow>
          (case buildPath c (xi_Resource request) (xi_OperationID request) of
             Inl e \<Rightarrow> (Inl e, sent)
           | Inr _ \<Rightarrow>
               (let preview = \<lparr>cp_AffectedRecords = affectedRecords c (ee_decode env (xi_Input request)),
                               cp_Changes = []\<rparr>
                in if xi_Operation request \<notin> set changesBefore then (Inr preview, sent)
                   else (case readCurrentRecord env request sent of
                           (Inl e, sent') \<Rightarrow> (Inl e, sent')
                         | (Inr current, sent') \<Rightarrow>
                             (Inr (preview\<lparr>cp_Changes := compare_records env (xi_Operation request)
                                current (ee_decode env (xi_Input request))\<rparr>), sent')))))"

definition cf_conclude ::
    "exec_env \<Rightarrow> adapter_capability \<Rightarrow> execute_input \<Rightarrow> resource_change list
       \<Rightarrow> client_response \<times> app_error option \<Rightarrow> adapter_outcome" where
  "cf_conclude env c request changes answered =
     (case answered of (response, err) \<Rightarrow>
        (case err of
           Some e \<Rightarrow> Failure (xi_OperationID request) e
         | None \<Rightarrow>
             if hs_StatusCode response \<ge> 400
             then FromUpstream (hs_StatusCode response) (Failure (xi_OperationID request)
                    (upstreamError (hs_StatusCode response) (xi_OperationID request)))
             else (case unwrap (ee_decode env (hs_Body response)) (xi_OperationID request) of
                     Inl e \<Rightarrow> FromUpstream (hs_StatusCode response) (Failure (xi_OperationID request) e)
                   | Inr payload \<Rightarrow>
                       (case redact_document (ee_urls env) payload c of
                          Inl e \<Rightarrow> Failure (xi_OperationID request) e
                        | Inr data \<Rightarrow> Success (xi_OperationID request) data changes))))"

definition cf_Execute :: "exec_env \<Rightarrow> (execute_input, adapter_outcome) sending" where
  "cf_Execute env request sent =
     (case executableCapability request of
        Inl e \<Rightarrow> (Inl e, sent)
      | Inr c \<Rightarrow>
          (case buildPath c (xi_Resource request) (xi_OperationID request) of
             Inl e \<Rightarrow> (Inl e, sent)
           | Inr path \<Rightarrow>
               (if xi_Operation request \<in> set changesBefore
                then (case cf_Preview env request sent of
                        (Inl e, sent') \<Rightarrow> (Inr (Failure (xi_OperationID request) e), sent')
                      | (Inr preview, sent') \<Rightarrow>
                          (case cf_send env c path request sent' of
                             (answered, sent'') \<Rightarrow>
                               (Inr (cf_conclude env c request (cp_Changes preview) answered), sent'')))
                else (case cf_send env c path request sent of
                        (answered, sent') \<Rightarrow> (Inr (cf_conclude env c request [] answered), sent')))))"

definition cf_ExecuteCapability :: "exec_env \<Rightarrow> (execute_input, execute_output) sending" where
  "cf_ExecuteCapability env input sent =
     (case cf_Execute env input sent of
        (Inl e, sent') \<Rightarrow> (Inl e, sent')
      | (Inr r, sent') \<Rightarrow> (Inr \<lparr>xo_Result = r, xo_Usage = no_usage\<rparr>, sent'))"

definition cf_PreviewSource :: "string \<Rightarrow> string" where
  "cf_PreviewSource operation = (if operation \<notin> set changesBefore then [] else OpReadDNSRecord)"

definition preview_request :: "preview_input \<Rightarrow> execute_input" where
  "preview_request input = \<lparr>xi_Operation = vi_Operation input, xi_Resource = vi_Resource input,
     xi_Query = [], xi_Input = vi_Input input, xi_Budget = no_budget, xi_Spent = no_usage,
     xi_Credential = vi_Credential input, xi_OperationID = vi_OperationID input\<rparr>"

definition cf_PreviewCapability :: "exec_env \<Rightarrow> (preview_input, resource_change list) sending" where
  "cf_PreviewCapability env input sent =
     (case cf_Preview env (preview_request input) sent of
        (Inl e, sent') \<Rightarrow> (Inl e, sent')
      | (Inr preview, sent') \<Rightarrow> (Inr (cp_Changes preview), sent'))"

section \<open>Reading comes first\<close>

abbreviation permitted_by ::
    "exec_env \<Rightarrow> adapter_capability \<Rightarrow> string \<Rightarrow> execute_input \<Rightarrow> outbound \<Rightarrow> bool" where
  "permitted_by env c path request \<equiv>
     permitted (ee_net env) (ee_client env) (bearer_request c path request)"

lemma cf_send_within:
  "sends_within (permitted_by env c path request) 15 (cf_send env c path request)"
proof -
  have "cf_send env c path request = client_Do (ee_net env) (ee_client env) (bearer_request c path request)"
    by (intro ext) (simp add: cf_send_def)
  then show ?thesis using sends_within_mono [OF client_Do_sends max_attempts_le] by metis
qed

lemma readCurrentRecord_sends:
  "\<exists>path reads. snd (readCurrentRecord env request sent) = sent @ reads \<and> length reads \<le> 15
     \<and> list_all (permitted_by env read_capability path (read_input request)) reads
     \<and> (\<forall>current. fst (readCurrentRecord env request sent) = Inr current \<longrightarrow> reads \<noteq> [])"
proof (cases "buildPath read_capability (xi_Resource request) (xi_OperationID request)")
  case (Inl e)
  then show ?thesis by (intro exI [of _ "[]"]) (simp add: readCurrentRecord_def)
next
  case (Inr path)
  obtain response err sent' where run: "cf_send env read_capability path (read_input request) sent
      = ((response, err), sent')" by (metis prod.collapse)
  then obtain reads where reads: "sent' = sent @ reads" "length reads \<le> 15"
    "list_all (permitted_by env read_capability path (read_input request)) reads"
    using cf_send_within [of env read_capability path "read_input request"]
    by (metis sends_withinE snd_conv)
  have "reads \<noteq> []" if "err = None"
    using run reads(1) client_Do_sends_one that by (force simp: cf_send_def)
  moreover have "readCurrentRecord env request sent = (fst (readCurrentRecord env request sent), sent')"
    "fst (readCurrentRecord env request sent) = Inr current \<Longrightarrow> err = None" for current
    using Inr run by (auto simp: readCurrentRecord_def split: option.splits)
  ultimately show ?thesis using reads by (metis snd_conv)
qed

lemma cf_Preview_reads:
  assumes "xi_Operation request \<in> set changesBefore"
  shows "(\<exists>e. cf_Preview env request sent = (Inl e, sent))
     \<or> (\<exists>e sent'. readCurrentRecord env request sent = (Inl e, sent')
          \<and> cf_Preview env request sent = (Inl e, sent'))
     \<or> (\<exists>current sent' preview. readCurrentRecord env request sent = (Inr current, sent')
          \<and> cf_Preview env request sent = (Inr preview, sent')
          \<and> cp_Changes preview = compare_records env (xi_Operation request) current
               (ee_decode env (xi_Input request)))"
  using assms
  by (cases "readCurrentRecord env request sent")
    (auto simp: cf_Preview_def Let_def split: sum.splits)

text \<open>A failed answer carries no changes, a successful one those it was given.\<close>

lemma cf_conclude_changes:
  "ao_OK (cf_conclude env c request changes answered)
     \<Longrightarrow> ao_Changes (cf_conclude env c request changes answered) = changes"
  by (auto simp: cf_conclude_def Success_def Failure_def FromUpstream_def Let_def
      split: prod.splits option.splits sum.splits if_splits)

text \<open>The status of the service is lost when it succeeds: the ledger sees 0, which stands for no
  answer at all.\<close>

lemma cf_success_hides_status:
  "ao_OK (cf_conclude env c request changes answered)
     \<Longrightarrow> ao_UpstreamStatus (cf_conclude env c request changes answered) = 0"
  by (auto simp: cf_conclude_def Success_def Failure_def FromUpstream_def Let_def
      split: prod.splits option.splits sum.splits if_splits)

lemma executableCapability_Inr:
  assumes "executableCapability request = Inr c"
  shows "c \<in> set cloudflare_capabilities \<and> ac_Operation c = xi_Operation request
     \<and> xi_Operation request \<in> set cloudflare_executable"
  using assms byOperation_Some
  by (auto simp: executableCapability_def split: option.splits if_splits)

text \<open>A run is nothing, a plain call, a failed reading, or a reading and then a call.\<close>

lemma cf_Execute_cases:
  obtains (none) "snd (cf_Execute env request sent) = sent" "\<forall>r. fst (cf_Execute env request sent) = Inr r \<longrightarrow> \<not> ao_OK r"
  | (plain) c path answered sent' where "executableCapability request = Inr c"
      "buildPath c (xi_Resource request) (xi_OperationID request) = Inr path"
      "xi_Operation request \<notin> set changesBefore"
      "cf_send env c path request sent = (answered, sent')"
      "cf_Execute env request sent = (Inr (cf_conclude env c request [] answered), sent')"
  | (unread) e sent' where "xi_Operation request \<in> set changesBefore"
      "readCurrentRecord env request sent = (Inl e, sent')"
      "cf_Execute env request sent = (Inr (Failure (xi_OperationID request) e), sent')"
  | (change) c path current sent' answered sent'' where "executableCapability request = Inr c"
      "buildPath c (xi_Resource request) (xi_OperationID request) = Inr path"
      "xi_Operation request \<in> set changesBefore"
      "readCurrentRecord env request sent = (Inr current, sent')"
      "cf_send env c path request sent' = (answered, sent'')"
      "cf_Execute env request sent = (Inr (cf_conclude env c request
         (compare_records env (xi_Operation request) current (ee_decode env (xi_Input request)))
         answered), sent'')"
proof (cases "executableCapability request")
  case (Inl e)
  then show thesis by (intro none) (simp_all add: cf_Execute_def)
next
  case c: (Inr c)
  show thesis
  proof (cases "buildPath c (xi_Resource request) (xi_OperationID request)")
    case (Inl e)
    with c show thesis by (intro none) (simp_all add: cf_Execute_def)
  next
    case path: (Inr path)
    show thesis
    proof (cases "xi_Operation request \<in> set changesBefore")
      case False
      obtain answered sent' where "cf_send env c path request sent = (answered, sent')"
        by (cases "cf_send env c path request sent")
      with c path False show thesis by (intro plain) (simp_all add: cf_Execute_def)
    next
      case True
      from cf_Preview_reads [OF True, of env sent] consider
        e where "cf_Preview env request sent = (Inl e, sent)"
        | e sent' where "readCurrentRecord env request sent = (Inl e, sent')"
          "cf_Preview env request sent = (Inl e, sent')"
        | current sent' preview where "readCurrentRecord env request sent = (Inr current, sent')"
          "cf_Preview env request sent = (Inr preview, sent')"
          "cp_Changes preview = compare_records env (xi_Operation request) current
             (ee_decode env (xi_Input request))" by blast
      then show thesis
      proof cases
        case 1
        with c path True show thesis
          by (intro none) (auto simp: cf_Execute_def Failure_def Let_def)
      next
        case 2
        with c path True show thesis by (intro unread) (simp_all add: cf_Execute_def)
      next
        case 3
        obtain answered sent'' where "cf_send env c path request sent' = (answered, sent'')"
          by (cases "cf_send env c path request sent'")
        with 3 c path True show thesis by (intro change) (simp_all add: cf_Execute_def)
      qed
    qed
  qed
qed

lemma cf_send_new:
  assumes "cf_send env c path request sent = (answered, sent')"
  obtains new where "sent' = sent @ new" "length new \<le> 15" "list_all (permitted_by env c path request) new"
  using cf_send_within [of env c path request] assms by (metis sends_withinE snd_conv)

lemma cloudflare_reads_first:
  "\<exists>reads writes. snd (cf_Execute env request sent) = sent @ reads @ writes
     \<and> length reads \<le> 15 \<and> length writes \<le> 15
     \<and> (writes \<noteq> [] \<longrightarrow> (\<exists>c path. executableCapability request = Inr c
          \<and> buildPath c (xi_Resource request) (xi_OperationID request) = Inr path
          \<and> list_all (permitted_by env c path request) writes))
     \<and> (xi_Operation request \<notin> set changesBefore \<longrightarrow> reads = [])
     \<and> (\<exists>path. list_all (permitted_by env read_capability path (read_input request)) reads)
     \<and> (xi_Operation request \<in> set changesBefore
          \<and> (writes \<noteq> [] \<or> (\<exists>r. fst (cf_Execute env request sent) = Inr r \<and> ao_OK r))
        \<longrightarrow> reads \<noteq> [] \<and> (\<exists>current. readCurrentRecord env request sent = (Inr current, sent @ reads)
              \<and> (\<forall>r. fst (cf_Execute env request sent) = Inr r \<and> ao_OK r
                   \<longrightarrow> ao_Changes r = compare_records env (xi_Operation request) current
                         (ee_decode env (xi_Input request)))))"
proof -
  obtain rpath reads where reads: "snd (readCurrentRecord env request sent) = sent @ reads"
    "length reads \<le> 15" "list_all (permitted_by env read_capability rpath (read_input request)) reads"
    "\<forall>current. fst (readCurrentRecord env request sent) = Inr current \<longrightarrow> reads \<noteq> []"
    using readCurrentRecord_sends by blast
  show ?thesis
  proof (cases rule: cf_Execute_cases [of env request sent])
    case none
    then show ?thesis by (intro exI [of _ "[]"]) auto
  next
    case (plain c path answered sent')
    from plain(4) obtain new where "sent' = sent @ new" "length new \<le> 15"
      "list_all (permitted_by env c path request) new" by (rule cf_send_new)
    with plain show ?thesis by (intro exI [of _ "[]"] exI [of _ new]) auto
  next
    case (unread e sent')
    have "\<not> ao_OK (Failure (xi_OperationID request) e)" by (simp add: Failure_def Let_def)
    with unread reads show ?thesis by (intro exI [of _ reads] exI [of _ "[]"]) auto
  next
    case (change c path current sent' answered sent'')
    from change(5) obtain new where "sent'' = sent' @ new" "length new \<le> 15"
      "list_all (permitted_by env c path request) new" by (rule cf_send_new)
    moreover have "sent' = sent @ reads" "reads \<noteq> []" using reads change(4) by simp_all
    ultimately show ?thesis using change reads(2,3) cf_conclude_changes
      by (intro exI [of _ reads] exI [of _ new]) auto
  qed
qed


text \<open>Preview, which runs before anybody has agreed, sends readings only.\<close>

lemma cf_Preview_sends:
  "\<exists>path reads. snd (cf_Preview env request sent) = sent @ reads \<and> length reads \<le> 15
     \<and> list_all (permitted_by env read_capability path (read_input request)) reads"
proof (cases "xi_Operation request \<in> set changesBefore")
  case True
  from cf_Preview_reads [OF True, of env sent] readCurrentRecord_sends [of env request sent]
  show ?thesis by (elim disjE exE conjE) (force intro: exI [of _ "[]"])+
next
  case False
  then have "snd (cf_Preview env request sent) = sent"
    by (auto simp: cf_Preview_def Let_def split: sum.splits)
  then show ?thesis by (intro exI [of _ "[]"]) simp
qed

lemma cf_Execute_confined:
  "sends_within (on_host (ee_client env)) 30 (cf_Execute env request)"
proof (rule sends_withinI)
  fix sent
  obtain reads writes where rw: "snd (cf_Execute env request sent) = sent @ reads @ writes"
    "length reads \<le> 15" "length writes \<le> 15"
    "writes \<noteq> [] \<longrightarrow> (\<exists>c path. list_all (permitted_by env c path request) writes)"
    "\<exists>path. list_all (permitted_by env read_capability path (read_input request)) reads"
    using cloudflare_reads_first by metis
  then have "list_all (on_host (ee_client env)) (reads @ writes)"
    by (cases "writes = []") (auto simp: list_all_iff permitted_def)
  with rw(1-3) show "\<exists>new. snd (cf_Execute env request sent) = sent @ new \<and> length new \<le> 30
      \<and> list_all (on_host (ee_client env)) new" by (intro exI [of _ "reads @ writes"]) simp
qed

lemma cf_run_cases: "snd (cf_ExecuteCapability env i sent) = snd (cf_Execute env i sent)"
  by (auto simp: cf_ExecuteCapability_def split: prod.splits sum.splits)

interpretation cloudflare: adapter_executor cloudflare_capabilities "cf_ExecuteCapability env"
  "on_host (ee_client env)" 30
proof
  show "\<exists>e. cf_ExecuteCapability env i sent = (Inl e, sent) \<and> ae_Code e = CodeCapabilityNotOffered"
    if "xi_Operation i \<notin> ac_Operation ` set cloudflare_capabilities" for i sent
    using that by (simp add: cf_ExecuteCapability_def cf_Execute_def executableCapability_def
        flip: byOperation_None)
  show "sends_within (on_host (ee_client env)) 30 (cf_ExecuteCapability env i)" for i
    using cf_Execute_confined [of env i] by (simp add: sends_within_def cf_run_cases)
qed

section \<open>A sample run\<close>

definition dns_net :: net where
  "dns_net = \<lparr>nt_RoundTrip = (\<lambda>sent o'. Inr (answer 200 (if ob_Method o' = ''GET'' then ''cur'' else ''ok''))),
     nt_Wait = (\<lambda>sent d. True)\<rparr>"

definition dns_decode :: "string \<Rightarrow> jtext" where
  "dns_decode s =
     (if s = ''cur'' then Parsed (JObj [(''result'', JObj [(''name'', JStr ''a.test''), (''content'', JStr ''1'')])])
      else if s = ''new'' then Parsed (JObj [(''content'', JStr ''2'')])
      else Parsed (JObj [(''result'', JObj [(''id'', JStr ''r1''), (''secret'', JStr ''x'')])]))"

definition dns_env :: exec_env where
  "dns_env = \<lparr>ee_net = dns_net, ee_client = sample_client, ee_decode = dns_decode,
     ee_marshal = (\<lambda>_. []), ee_messageSizes = (\<lambda>_. []), ee_urls = plain_urls\<rparr>"

definition dns_input :: execute_input where
  "dns_input = \<lparr>xi_Operation = ''update_dns_record'', xi_Resource = [(''record_id'', ''r1''), (''zone_id'', ''z1'')],
     xi_Query = [], xi_Input = ''new'', xi_Budget = no_budget, xi_Spent = no_usage,
     xi_Credential = ''s3cret'', xi_OperationID = ''op1''\<rparr>"

lemma dns_answer:
  assumes "pathAllowed (ac_Path c) path" and "list_all token_char (ac_Method c)"
    and "injectCredential (if hq_Body (bearer_request c path i) \<noteq> []
       then header_Set ''Content-Type'' ''application/json'' [] else []) (bearer_request c path i) = Inr header"
  shows "cf_send dns_env c path i sent
     = ((\<lparr>hs_StatusCode = 200, hs_Body = (if http_method (ac_Method c) = ''GET'' then ''cur'' else ''ok''),
          hs_Attempts = 1\<rparr>, None),
        sent @ [request_outbound sample_client (bearer_request c path i) header])"
  using assms client_Do_answer [of "bearer_request c path i" header dns_net sent sample_client 200]
  by (simp add: cf_send_def dns_env_def dns_net_def bearer_request_def request_outbound_def)

abbreviation dns_change :: resource_change where
  "dns_change \<equiv> \<lparr>rc_Resource = ''a.test'', rc_Field = ''content'', rc_Before = ''1'', rc_After = ''2''\<rparr>"

text \<open>The reading of the sample run and what the preview makes of it.\<close>

lemma sample_dns_reading:
  "\<exists>read. readCurrentRecord dns_env dns_input []
      = (Inr [(''content'', JStr ''1''), (''name'', JStr ''a.test'')], [read])
     \<and> cf_Preview dns_env dns_input []
      = (Inr \<lparr>cp_AffectedRecords = 1, cp_Changes = [dns_change]\<rparr>, [read])
     \<and> ob_Method read = ''GET''"
proof -
  let ?c = "cloudflare_capabilities ! 4" and ?path = "''/zones/z1/dns_records/r1''"
  have c: "executableCapability dns_input = Inr ?c"
    and path: "buildPath ?c (xi_Resource dns_input) ''op1'' = Inr ?path"
    and rpath: "buildPath read_capability (xi_Resource dns_input) ''op1'' = Inr ?path"
    and change: "xi_Operation dns_input \<in> set changesBefore"
    and cmp: "compare_records dns_env ''update_dns_record''
        [(''content'', JStr ''1''), (''name'', JStr ''a.test'')] (dns_decode ''new'') = [dns_change]"
    and env: "decode_envelope (dns_decode ''cur'')
        = Some [(''content'', JStr ''1''), (''name'', JStr ''a.test'')]"
    and one: "affectedRecords ?c (dns_decode ''new'') = 1"
    by code_simp+
  have op: "xi_Operation dns_input = ''update_dns_record''" "xi_OperationID dns_input = ''op1''"
    "xi_Input dns_input = ''new''" by (simp_all add: dns_input_def)
  have read: "pathAllowed (ac_Path read_capability) ?path" "list_all token_char (ac_Method read_capability)"
    "injectCredential (if hq_Body (bearer_request read_capability ?path (read_input dns_input)) \<noteq> []
       then header_Set ''Content-Type'' ''application/json'' [] else [])
       (bearer_request read_capability ?path (read_input dns_input)) = Inr [(''Authorization'', ''Bearer s3cret'')]"
    "http_method (ac_Method read_capability) = ''GET''" by code_simp+
  let ?read = "request_outbound sample_client (bearer_request read_capability ?path (read_input dns_input))
      [(''Authorization'', ''Bearer s3cret'')]"
  have cur: "readCurrentRecord dns_env dns_input []
      = (Inr [(''content'', JStr ''1''), (''name'', JStr ''a.test'')], [?read])"
    using rpath dns_answer [OF read(1-3), of "[]"] read(4) env op
    by (simp add: readCurrentRecord_def) (simp add: dns_env_def)
  moreover have "cf_Preview dns_env dns_input []
      = (Inr \<lparr>cp_AffectedRecords = 1, cp_Changes = [dns_change]\<rparr>, [?read])"
    using c path change cur cmp op one by (simp add: cf_Preview_def Let_def) (simp add: dns_env_def)
  moreover have "ob_Method ?read = ''GET''" using read(4) by (simp add: request_outbound_def bearer_request_def)
  ultimately show ?thesis by blast
qed


end
