(* ===== verification/Model_Adapter.thy ===== *)
theory Model_Adapter
  imports Adapter_Exec "HOL-Library.Signed_Division"
begin

text \<open>
  Model of \<open>internal/adapter/model/adapter.go\<close>, \<open>execute.go\<close> and the price table of
  \<open>capabilities.go\<close>: the cost of a call is estimated before it is made and compared with the budget
  of the lease.  Go's 64-bit arithmetic is written out: \<open>i64\<close> wraps around.
\<close>

section \<open>Prices and costs\<close>

definition i64 :: "int \<Rightarrow> int" where
  "i64 n = signed_take_bit 63 n"

record price =
  pr_inputPerKilo :: int
  pr_outputPerKilo :: int

definition prices :: "string \<Rightarrow> price option" where
  "prices = map_of
     [(''gpt-4o'', \<lparr>pr_inputPerKilo = 2500, pr_outputPerKilo = 10000\<rparr>),
      (''gpt-4o-mini'', \<lparr>pr_inputPerKilo = 150, pr_outputPerKilo = 600\<rparr>),
      (''claude-opus-4'', \<lparr>pr_inputPerKilo = 15000, pr_outputPerKilo = 75000\<rparr>),
      (''claude-sonnet-4'', \<lparr>pr_inputPerKilo = 3000, pr_outputPerKilo = 15000\<rparr>),
      (''claude-haiku-4-5-20251001'', \<lparr>pr_inputPerKilo = 800, pr_outputPerKilo = 4000\<rparr>)]"

definition charsPerToken :: nat where "charsPerToken = 3"

definition cost :: "int \<Rightarrow> int \<Rightarrow> int" where
  "cost perKilo tokens =
     (if tokens \<le> 0 then 0 else i64 (i64 (perKilo * tokens) + 999) sdiv 1000)"

section \<open>Operations\<close>

definition OpCreateCompletion :: string where "OpCreateCompletion = ''create_completion''"

definition model_capability :: "provider \<Rightarrow> execute_input \<Rightarrow> adapter_capability app_result" where
  "model_capability p request =
     (case byOperation (model_capabilities p) (xi_Operation request) of
        None \<Rightarrow> Inl (WithOperationID (apperr_New CodeCapabilityNotOffered) (xi_OperationID request))
      | Some c \<Rightarrow> Inr c)"

text \<open>Decoding into a field of type \<open>[]json.RawMessage\<close>.\<close>

definition assign_raws :: "json list \<Rightarrow> json \<Rightarrow> json list option" where
  "assign_raws old j = (case j of JNull \<Rightarrow> Some [] | JArr js \<Rightarrow> Some js | _ \<Rightarrow> None)"

text \<open>The body of a completion request: its model and its token limit.\<close>

definition completion_body :: "jtext \<Rightarrow> (string \<times> int) option" where
  "completion_body t =
     (case t of
        Parsed JNull \<Rightarrow> Some ([], 0)
      | Parsed (JObj kvs) \<Rightarrow>
          (case (json_member assign_str [] kvs ''model'', json_member assign_int 0 kvs ''max_tokens'',
                 json_member assign_raws [] kvs ''messages'') of
             (Some m, Some n, Some _) \<Rightarrow> Some (m, n)
           | _ \<Rightarrow> None)
      | _ \<Rightarrow> None)"

text \<open>\<open>ee_messageSizes\<close> gives the lengths of the raw messages; their sum is bounded by the length of
  the body, so adding up cannot overflow.\<close>

definition estimated_input :: "exec_env \<Rightarrow> string \<Rightarrow> int" where
  "estimated_input env input =
     sum_list (map (\<lambda>n. int (n div charsPerToken + 1)) (ee_messageSizes env input))"

definition Estimate :: "exec_env \<Rightarrow> provider \<Rightarrow> execute_input \<Rightarrow> model_usage app_result" where
  "Estimate env p request =
     obind (model_capability p request) (\<lambda>c.
       if ac_Operation c \<noteq> OpCreateCompletion
       then Inr (no_usage\<lparr>mu_Requests := 1, mu_Estimated := True\<rparr>)
       else
         (case completion_body (ee_decode env (xi_Input request)) of
            None \<Rightarrow> Inl (WithOperationID (apperr_New CodeInvalidRequest) (xi_OperationID request))
          | Some (m, max_tokens) \<Rightarrow>
              (case prices m of
                 None \<Rightarrow> Inl (WithOperationID (apperr_New CodeInvalidRequest) (xi_OperationID request))
               | Some rate \<Rightarrow>
                   if max_tokens \<le> 0
                   then Inl (WithOperationID (apperr_New CodeInvalidRequest) (xi_OperationID request))
                   else Inr \<lparr>mu_Requests = 1, mu_InputTokens = estimated_input env (xi_Input request),
                          mu_OutputTokens = max_tokens,
                          mu_CostMicros = i64 (cost (pr_inputPerKilo rate)
                              (estimated_input env (xi_Input request))
                            + cost (pr_outputPerKilo rate) max_tokens),
                          mu_Estimated = True\<rparr>)))"

definition overBudget :: "string \<Rightarrow> app_error" where
  "overBudget operationID = WithOperationID (apperr_New CodeForbidden) operationID"

definition withinBudget :: "execute_input \<Rightarrow> model_usage \<Rightarrow> unit app_result" where
  "withinBudget request estimate =
     (if mb_MaxRequests (xi_Budget request) \<le> 0 \<or> mb_MaxCostMicros (xi_Budget request) \<le> 0
      then Inl (overBudget (xi_OperationID request))
      else if i64 (mu_Requests (xi_Spent request) + mu_Requests estimate)
              > mb_MaxRequests (xi_Budget request)
      then Inl (overBudget (xi_OperationID request))
      else if i64 (mu_CostMicros (xi_Spent request) + mu_CostMicros estimate)
              > mb_MaxCostMicros (xi_Budget request)
      then Inl (overBudget (xi_OperationID request))
      else Inr ())"

definition model_authHeader :: "provider \<Rightarrow> string" where
  "model_authHeader p = (if p = ProviderAnthropic then ''x-api-key'' else [])"

definition model_request :: "provider \<Rightarrow> adapter_capability \<Rightarrow> execute_input \<Rightarrow> client_request" where
  "model_request p c request = \<lparr>hq_Capability = c, hq_Path = ac_Path c, hq_Query = [],
     hq_Body = (if capability_Write c then xi_Input request else []),
     hq_AuthScheme = model_AuthScheme p, hq_AuthHeader = model_authHeader p,
     hq_Credential = xi_Credential request, hq_OperationID = xi_OperationID request\<rparr>"

definition model_upstreamError :: "int \<Rightarrow> string \<Rightarrow> app_error" where
  "model_upstreamError status operationID = WithOperationID (apperr_New
     (if status = 401 \<or> status = 403 then CodeCredentialNotAuthorized
      else if status = 404 then CodeNotFound
      else if status = 429 then CodeConflict
      else if status < 500 then CodeInvalidRequest
      else CodeGatewayUnavailable)) operationID"

text \<open>The usage a provider reports, in the words of either of the two.\<close>

record reported_usage =
  ru_PromptTokens :: int
  ru_CompletionTokens :: int
  ru_InputTokens :: int
  ru_OutputTokens :: int

definition assign_reported :: "reported_usage \<Rightarrow> json \<Rightarrow> reported_usage option" where
  "assign_reported old j =
     (case j of
        JNull \<Rightarrow> Some old
      | JObj kvs \<Rightarrow>
          (case (json_member assign_int (ru_PromptTokens old) kvs ''prompt_tokens'',
                 json_member assign_int (ru_CompletionTokens old) kvs ''completion_tokens'',
                 json_member assign_int (ru_InputTokens old) kvs ''input_tokens'',
                 json_member assign_int (ru_OutputTokens old) kvs ''output_tokens'') of
             (Some a, Some b, Some c, Some d) \<Rightarrow> Some \<lparr>ru_PromptTokens = a, ru_CompletionTokens = b,
                ru_InputTokens = c, ru_OutputTokens = d\<rparr>
           | _ \<Rightarrow> None)
      | _ \<Rightarrow> None)"

definition decode_reported :: "jtext \<Rightarrow> (reported_usage \<times> string) option" where
  "decode_reported t =
     (let zero = \<lparr>ru_PromptTokens = 0, ru_CompletionTokens = 0, ru_InputTokens = 0, ru_OutputTokens = 0\<rparr>
      in case t of
           Parsed JNull \<Rightarrow> Some (zero, [])
         | Parsed (JObj kvs) \<Rightarrow>
             (case (json_member assign_reported zero kvs ''usage'', json_member assign_str [] kvs ''model'') of
                (Some u, Some m) \<Rightarrow> Some (u, m)
              | _ \<Rightarrow> None)
         | _ \<Rightarrow> None)"

definition requested_model :: "jtext \<Rightarrow> string" where
  "requested_model t =
     (case t of
        Parsed (JObj kvs) \<Rightarrow> (case json_member assign_str [] kvs ''model'' of Some m \<Rightarrow> m | None \<Rightarrow> [])
      | _ \<Rightarrow> [])"

definition actualUsage :: "exec_env \<Rightarrow> string \<Rightarrow> string \<Rightarrow> model_usage \<Rightarrow> model_usage" where
  "actualUsage env body input estimate =
     (case decode_reported (ee_decode env body) of
        None \<Rightarrow> estimate
      | Some (reported, m) \<Rightarrow>
          (let inputTokens = i64 (ru_PromptTokens reported + ru_InputTokens reported);
               outputTokens = i64 (ru_CompletionTokens reported + ru_OutputTokens reported);
               name = (if m = [] then requested_model (ee_decode env input) else m)
           in if inputTokens = 0 \<and> outputTokens = 0 then estimate
              else case prices name of
                     None \<Rightarrow> estimate
                   | Some rate \<Rightarrow> \<lparr>mu_Requests = mu_Requests estimate, mu_InputTokens = inputTokens,
                       mu_OutputTokens = outputTokens,
                       mu_CostMicros = i64 (cost (pr_inputPerKilo rate) inputTokens
                         + cost (pr_outputPerKilo rate) outputTokens),
                       mu_Estimated = False\<rparr>))"

text \<open>The result and the usage of a call that was made.\<close>

definition model_conclude ::
    "exec_env \<Rightarrow> adapter_capability \<Rightarrow> execute_input \<Rightarrow> model_usage
       \<Rightarrow> client_response \<times> app_error option \<Rightarrow> execute_output" where
  "model_conclude env c request estimate answered =
     (case answered of (response, err) \<Rightarrow>
        (case err of
           Some e \<Rightarrow> \<lparr>xo_Result = Failure (xi_OperationID request) e, xo_Usage = estimate\<rparr>
         | None \<Rightarrow>
             if hs_StatusCode response \<ge> 400
             then \<lparr>xo_Result = FromUpstream (hs_StatusCode response) (Failure (xi_OperationID request)
                     (model_upstreamError (hs_StatusCode response) (xi_OperationID request))),
                   xo_Usage = estimate\<rparr>
             else (case Redact (ee_decode env) (ee_urls env) (hs_Body response) c of
                     Inl e \<Rightarrow> \<lparr>xo_Result = FromUpstream (hs_StatusCode response)
                         (Failure (xi_OperationID request) e), xo_Usage = estimate\<rparr>
                   | Inr data \<Rightarrow> \<lparr>xo_Result = FromUpstream (hs_StatusCode response)
                         (Success (xi_OperationID request) data []),
                       xo_Usage = actualUsage env (hs_Body response) (xi_Input request) estimate\<rparr>)))"

definition model_Execute :: "exec_env \<Rightarrow> provider \<Rightarrow> (execute_input, execute_output) sending" where
  "model_Execute env p request sent =
     (case model_capability p request of
        Inl e \<Rightarrow> (Inl e, sent)
      | Inr c \<Rightarrow>
          (case Estimate env p request of
             Inl e \<Rightarrow> (Inl e, sent)
           | Inr estimate \<Rightarrow>
               (case withinBudget request estimate of
                  Inl e \<Rightarrow> (Inl e, sent)
                | Inr _ \<Rightarrow>
                    (case client_Do (ee_net env) (ee_client env) (model_request p c request) sent of
                       (answered, sent') \<Rightarrow>
                         (Inr (model_conclude env c request estimate answered), sent')))))"

text \<open>\<open>ExecuteCapability\<close> hands every field of the input and the output on.\<close>

definition model_ExecuteCapability :: "exec_env \<Rightarrow> provider \<Rightarrow> (execute_input, execute_output) sending" where
  "model_ExecuteCapability env p input sent =
     model_Execute env p (input\<lparr>xi_Resource := [], xi_Query := []\<rparr>) sent"

section \<open>The estimate is an upper bound while it fits\<close>

lemma i64_id: "- (2 ^ 63) \<le> n \<Longrightarrow> n < 2 ^ 63 \<Longrightarrow> i64 n = n"
  by (simp add: i64_def signed_take_bit_int_eq_self)

lemma prices_bounds:
  assumes "prices m = Some rate"
  shows "0 \<le> pr_inputPerKilo rate \<and> pr_inputPerKilo rate \<le> 75000
     \<and> 0 \<le> pr_outputPerKilo rate \<and> pr_outputPerKilo rate \<le> 75000"
  using assms by (auto simp: prices_def split: if_splits)

text \<open>Up to \<open>2 ^ 44\<close> tokens the cost is the price rounded up to a whole micro-unit.\<close>

lemma cost_exact:
  assumes "0 \<le> r" and "r \<le> 75000" and "0 \<le> n" and "n \<le> 2 ^ 44"
  shows "r * n \<le> 1000 * cost r n \<and> 1000 * cost r n \<le> r * n + 999
     \<and> 0 \<le> cost r n \<and> cost r n \<le> 2000000000000000"
proof (cases "n = 0")
  case False
  have "r * n \<le> 75000 * 2 ^ 44" using assms by (intro mult_mono) auto
  then have fit: "r * n < 2000000000000000000" "0 \<le> r * n" using assms by auto
  then have "i64 (r * n) = r * n" "i64 (r * n + 999) = r * n + 999"
    by (auto intro!: i64_id)
  then have c: "cost r n = (r * n + 999) div 1000"
    using False assms(3) fit(2) by (simp add: cost_def signed_divide_int_def)
  have "1000 * (x div 1000) + x mod 1000 = x" "0 \<le> x mod 1000" "x mod 1000 < 1000" for x :: int
    by simp_all
  from this [of "r * n + 999"] show ?thesis unfolding c using fit
    by (intro conjI) linarith+
qed (simp add: cost_def)

lemma estimated_input_nonneg: "0 \<le> estimated_input env input"
  unfolding estimated_input_def by (intro sum_list_nonneg) auto

section \<open>No call beyond the budget\<close>

lemma model_Execute_sends:
  assumes "snd (model_Execute env p request sent) \<noteq> sent"
  obtains c estimate where "model_capability p request = Inr c" "Estimate env p request = Inr estimate"
    "withinBudget request estimate = Inr ()"
    "snd (model_Execute env p request sent)
       = snd (client_Do (ee_net env) (ee_client env) (model_request p c request) sent)"
  using assms that
  by (auto simp: model_Execute_def case_prod_unfold split: sum.splits)

lemma Estimate_completion:
  assumes "Estimate env p request = Inr estimate" and "model_capability p request = Inr c"
    and "ac_Operation c = OpCreateCompletion"
  obtains m max_tokens rate where
    "completion_body (ee_decode env (xi_Input request)) = Some (m, max_tokens)"
    "prices m = Some rate" "0 < max_tokens" "mu_Requests estimate = 1"
    "mu_CostMicros estimate = i64 (cost (pr_inputPerKilo rate) (estimated_input env (xi_Input request))
       + cost (pr_outputPerKilo rate) max_tokens)"
  using assms that by (auto simp: Estimate_def split: option.splits if_splits)

text \<open>C28: A completion is paid for before it is sent.  If a run for a completion sends anything,
  the operation is declared, its model has a price, its token limit is positive and the lease has
  a budget; and as long as the sizes stay below \<open>2 ^ 44\<close> tokens and the amounts below \<open>2 ^ 60\<close>, the
  price of the estimated input and of all tokens that may be answered, on top of what is already
  spent, is within the cost limit, and the call is within the limit of requests.\<close>

theorem completion_within_budget:
  assumes "snd (model_Execute env p request sent) \<noteq> sent"
    and "xi_Operation request = ''create_completion''"
    and "estimated_input env (xi_Input request) \<le> 2 ^ 44"
    and "\<And>m n. completion_body (ee_decode env (xi_Input request)) = Some (m, n) \<Longrightarrow> n \<le> 2 ^ 44"
    and "0 \<le> mu_CostMicros (xi_Spent request)" and "mu_CostMicros (xi_Spent request) \<le> 2 ^ 60"
    and "0 \<le> mu_Requests (xi_Spent request)" and "mu_Requests (xi_Spent request) \<le> 2 ^ 60"
  shows "\<exists>m n rate. completion_body (ee_decode env (xi_Input request)) = Some (m, n)
     \<and> prices m = Some rate \<and> 0 < n
     \<and> pr_inputPerKilo rate * estimated_input env (xi_Input request) + pr_outputPerKilo rate * n
         \<le> 1000 * (mb_MaxCostMicros (xi_Budget request) - mu_CostMicros (xi_Spent request))
     \<and> mu_Requests (xi_Spent request) < mb_MaxRequests (xi_Budget request)"
proof -
  from assms(1) obtain c estimate where c: "model_capability p request = Inr c"
    and e: "Estimate env p request = Inr estimate" and b: "withinBudget request estimate = Inr ()"
    by (rule model_Execute_sends)
  have op: "ac_Operation c = OpCreateCompletion"
    using c assms(2) byOperation_Some
    by (auto simp: model_capability_def OpCreateCompletion_def split: option.splits)
  obtain m n rate where body: "completion_body (ee_decode env (xi_Input request)) = Some (m, n)"
    and rate: "prices m = Some rate" and n: "0 < n" and one: "mu_Requests estimate = 1"
    and total: "mu_CostMicros estimate = i64 (cost (pr_inputPerKilo rate)
       (estimated_input env (xi_Input request)) + cost (pr_outputPerKilo rate) n)"
    using Estimate_completion [OF e c op] by blast
  note r = prices_bounds [OF rate]
  let ?in = "cost (pr_inputPerKilo rate) (estimated_input env (xi_Input request))"
  let ?out = "cost (pr_outputPerKilo rate) n"
  have cin: "pr_inputPerKilo rate * estimated_input env (xi_Input request) \<le> 1000 * ?in"
    "0 \<le> ?in" "?in \<le> 2000000000000000"
    using cost_exact [of "pr_inputPerKilo rate" "estimated_input env (xi_Input request)"]
      r assms(3) estimated_input_nonneg by auto
  have cout: "pr_outputPerKilo rate * n \<le> 1000 * ?out" "0 \<le> ?out" "?out \<le> 2000000000000000"
    using cost_exact [of "pr_outputPerKilo rate" n] r n assms(4) [OF body] by auto
  have "mu_CostMicros estimate = ?in + ?out"
    unfolding total using cin cout by (intro i64_id) auto
  then have "i64 (mu_CostMicros (xi_Spent request) + mu_CostMicros estimate)
      = mu_CostMicros (xi_Spent request) + (?in + ?out)"
    using cin cout assms(5,6) by (simp add: i64_id)
  moreover have "i64 (mu_Requests (xi_Spent request) + mu_Requests estimate)
      = mu_Requests (xi_Spent request) + 1"
    using assms(7,8) one by (simp add: i64_id)
  ultimately have "mu_CostMicros (xi_Spent request) + (?in + ?out) \<le> mb_MaxCostMicros (xi_Budget request)"
    "mu_Requests (xi_Spent request) + 1 \<le> mb_MaxRequests (xi_Budget request)"
    using b by (auto simp: withinBudget_def split: if_splits)
  with body rate n cin cout show ?thesis by (intro exI [of _ m] exI [of _ n] exI [of _ rate]) simp
qed

text \<open>Beyond those sizes the arithmetic wraps around.  A token limit of \<open>2 ^ 62\<close> makes the estimated
  cost of the most expensive model zero, which fits in the smallest budget.\<close>

lemma huge_token_limit_is_free:
  "prices ''claude-opus-4'' = Some \<lparr>pr_inputPerKilo = 15000, pr_outputPerKilo = 75000\<rparr>
   \<and> cost 75000 (2 ^ 62) = 0"
  by code_simp

section \<open>The model adapter as an executor\<close>

lemma model_Execute_confined:
  "sends_within (on_host (ee_client env)) 15 (model_Execute env p request)"
proof (rule sends_withinI)
  fix sent
  show "\<exists>new. snd (model_Execute env p request sent) = sent @ new \<and> length new \<le> 15
      \<and> list_all (on_host (ee_client env)) new"
  proof (cases "snd (model_Execute env p request sent) = sent")
    case False
    then obtain c estimate where run: "snd (model_Execute env p request sent)
       = snd (client_Do (ee_net env) (ee_client env) (model_request p c request) sent)"
      by (rule model_Execute_sends)
    obtain new where "snd (client_Do (ee_net env) (ee_client env) (model_request p c request) sent)
        = sent @ new" "length new \<le> maxRedirects * max_attempts (model_request p c request)"
      "list_all (permitted (ee_net env) (ee_client env) (model_request p c request)) new"
      using client_Do_sends by (rule sends_withinE)
    with run max_attempts_le show ?thesis
      by (intro exI [of _ new]) (auto simp: list_all_iff permitted_def intro: le_trans)
  qed simp
qed

interpretation model: adapter_executor "model_capabilities p" "model_ExecuteCapability env p"
  "on_host (ee_client env)" 15
proof
  show "\<exists>e. model_ExecuteCapability env p i sent = (Inl e, sent) \<and> ae_Code e = CodeCapabilityNotOffered"
    if "xi_Operation i \<notin> ac_Operation ` set (model_capabilities p)" for i sent
    using that by (simp add: model_ExecuteCapability_def model_Execute_def model_capability_def
        flip: byOperation_None)
  show "sends_within (on_host (ee_client env)) 15 (model_ExecuteCapability env p i)" for i
    using model_Execute_confined [of env p "i\<lparr>xi_Resource := [], xi_Query := []\<rparr>"]
    by (simp add: sends_within_def model_ExecuteCapability_def)
qed

text \<open>Without a budget nothing is ever sent.\<close>

lemma no_budget_no_call:
  assumes "xi_Budget request = no_budget"
  shows "\<exists>e. model_ExecuteCapability env p request sent = (Inl e, sent)"
  using assms
  by (auto simp: model_ExecuteCapability_def model_Execute_def withinBudget_def no_budget_def
      split: sum.splits)

section \<open>A sample run\<close>

definition chat_env :: exec_env where
  "chat_env = \<lparr>ee_net = ok_net, ee_client = sample_client,
     ee_decode = (\<lambda>s. if s = ''in'' then Parsed (JObj [(''model'', JStr ''gpt-4o''), (''max_tokens'', JNum 100),
        (''messages'', JArr [JObj []])]) else Parsed (JObj [(''id'', JStr ''c1'')])),
     ee_marshal = (\<lambda>_. []), ee_messageSizes = (\<lambda>_. [30]), ee_urls = plain_urls\<rparr>"

definition chat_input :: "model_budget \<Rightarrow> execute_input" where
  "chat_input budget = \<lparr>xi_Operation = ''create_completion'', xi_Resource = [], xi_Query = [],
     xi_Input = ''in'', xi_Budget = budget, xi_Spent = no_usage, xi_Credential = ''s3cret'',
     xi_OperationID = ''op1''\<rparr>"

definition small_budget :: model_budget where
  "small_budget = \<lparr>mb_MaxCostMicros = 1028, mb_MaxRequests = 1\<rparr>"

theorem completion_within_budget_witness:
  "length (snd (model_Execute chat_env ProviderOpenAI (chat_input small_budget) [])) = 1
   \<and> (\<exists>n. completion_body (ee_decode chat_env (xi_Input (chat_input small_budget))) = Some (''gpt-4o'', n)
        \<and> 2500 * 11 + 10000 * n \<le> 1000 * 1028)
   \<and> model_Execute chat_env ProviderOpenAI
        (chat_input (small_budget\<lparr>mb_MaxCostMicros := 1027\<rparr>)) [] = (Inl (overBudget ''op1''), [])"
proof -
  let ?in = "chat_input small_budget" and ?c = "model_capabilities ProviderOpenAI ! 0"
  let ?rq = "model_request ProviderOpenAI ?c ?in"
  have c: "model_capability ProviderOpenAI (chat_input b) = Inr ?c" for b
  proof -
    have "byOperation (model_capabilities ProviderOpenAI) ''create_completion'' = Some ?c" by code_simp
    then show ?thesis by (simp add: model_capability_def chat_input_def)
  qed
  have body: "completion_body (ee_decode chat_env (xi_Input ?in)) = Some (''gpt-4o'', 100)"
    and est: "estimated_input chat_env (xi_Input ?in) = 11"
    and price: "prices ''gpt-4o'' = Some \<lparr>pr_inputPerKilo = 2500, pr_outputPerKilo = 10000\<rparr>"
    by code_simp+
  have e: "Estimate chat_env ProviderOpenAI ?in = Inr \<lparr>mu_Requests = 1, mu_InputTokens = 11,
      mu_OutputTokens = 100, mu_CostMicros = 1028, mu_Estimated = True\<rparr>"
    and over: "model_Execute chat_env ProviderOpenAI
        (chat_input (small_budget\<lparr>mb_MaxCostMicros := 1027\<rparr>)) [] = (Inl (overBudget ''op1''), [])"
    and within: "withinBudget ?in \<lparr>mu_Requests = 1, mu_InputTokens = 11,
      mu_OutputTokens = 100, mu_CostMicros = 1028, mu_Estimated = True\<rparr> = Inr ()"
    by code_simp+
  have pre: "pathAllowed (ac_Path (hq_Capability ?rq)) (hq_Path ?rq)"
    "list_all token_char (ac_Method (hq_Capability ?rq))"
    "injectCredential (if hq_Body ?rq \<noteq> [] then header_Set ''Content-Type'' ''application/json'' [] else [])
       ?rq = Inr [(''Authorization'', ''Bearer s3cret''), (''Content-Type'', ''application/json'')]"
    by code_simp+
  have "snd (client_Do ok_net sample_client ?rq []) = [request_outbound sample_client ?rq
      [(''Authorization'', ''Bearer s3cret''), (''Content-Type'', ''application/json'')]]"
    using client_Do_answer [OF pre, of ok_net "[]" sample_client 200 "''ok''"] by (simp add: ok_net_def)
  then have run: "length (snd (model_Execute chat_env ProviderOpenAI ?in [])) = 1"
    using c e within by (simp add: model_Execute_def case_prod_unfold chat_env_def)
  have "\<exists>m n rate. completion_body (ee_decode chat_env (xi_Input ?in)) = Some (m, n)
     \<and> prices m = Some rate \<and> 0 < n
     \<and> pr_inputPerKilo rate * estimated_input chat_env (xi_Input ?in) + pr_outputPerKilo rate * n
         \<le> 1000 * (mb_MaxCostMicros (xi_Budget ?in) - mu_CostMicros (xi_Spent ?in))
     \<and> mu_Requests (xi_Spent ?in) < mb_MaxRequests (xi_Budget ?in)"
  proof (rule completion_within_budget [of chat_env ProviderOpenAI ?in "[]"])
    show "snd (model_Execute chat_env ProviderOpenAI ?in []) \<noteq> []" using run by auto
  qed (use body est in \<open>auto simp: chat_input_def no_usage_def\<close>)
  then show ?thesis using run over body price est
    by (auto simp: chat_input_def small_budget_def no_usage_def)
qed

end
