(* ===== verification/Exchange.thy ===== *)
theory Exchange
  imports Cloudflare_Adapter Model_Adapter
begin

text \<open>
  Model of \<open>internal/adapter/registry/exchange.go\<close> and \<open>preview.go\<close>: the one stretch of the program
  that plain credentials pass through.  Finding the reference of an identity and fetching a
  credential are the methods of two interfaces and so parameters; the trace of a run records when
  a credential is fetched and when it is wiped.
\<close>

section \<open>Definitions\<close>

text \<open>An adapter may be an \<open>Executor\<close>, a \<open>Previewer\<close>, both or neither.\<close>

record full_adapter = adapter +
  fa_Execute :: "(execute_input, execute_output) sending option"
  fa_Preview :: "((string \<Rightarrow> string) \<times> (preview_input, resource_change list) sending) option"

datatype credential_event = Fetched string | Zeroed string

record xstate =
  xs_Sent :: "outbound list"
  xs_Trace :: "credential_event list"

type_synonym methods = "\<lparr>fa_Execute :: (execute_input, execute_output) sending option,
  fa_Preview :: ((string \<Rightarrow> string) \<times> (preview_input, resource_change list) sending) option\<rparr>"

type_synonym full_registry = "methods registry"

record exchange =
  xg_registry :: full_registry
  xg_Fetch :: "string \<Rightarrow> string app_result"
  xg_ReferenceFor :: "string \<Rightarrow> string app_result"

record exchange_request =
  xr_Service :: string
  xr_Operation :: string
  xr_IdentityID :: string
  xr_Resource :: "string go_map"
  xr_Query :: url_values
  xr_Body :: string
  xr_OperationID :: string

record exchange_reply =
  xy_StatusCode :: int
  xy_UpstreamStatus :: int
  xy_Body :: json
  xy_Usage :: model_usage

text \<open>\<open>None\<close> is a missing dependency.\<close>

definition NewExchange ::
    "full_registry option \<Rightarrow> (string \<Rightarrow> string app_result) option
       \<Rightarrow> (string \<Rightarrow> string app_result) option \<Rightarrow> exchange app_result" where
  "NewExchange registry credentials references =
     (case registry of None \<Rightarrow> Inl (apperr_New CodeInternal)
      | Some r \<Rightarrow>
          (case credentials of None \<Rightarrow> Inl (apperr_New CodeInternal)
           | Some fetch \<Rightarrow>
               (case references of None \<Rightarrow> Inl (apperr_New CodeInternal)
                | Some refs \<Rightarrow> Inr \<lparr>xg_registry = r, xg_Fetch = fetch, xg_ReferenceFor = refs\<rparr>)))"

definition executorFor :: "exchange \<Rightarrow> string \<Rightarrow> (execute_input, execute_output) sending app_result" where
  "executorFor x service =
     obind (registry_Adapter (xg_registry x) service) (\<lambda>a.
       case fa_Execute a of
         None \<Rightarrow> Inl (apperr_New CodeNotImplemented)
       | Some run \<Rightarrow> Inr run)"

text \<open>Results are always serializable, so the error branch of \<open>replyOf\<close> never runs.\<close>

definition replyOf :: "execute_output \<Rightarrow> exchange_reply" where
  "replyOf output = \<lparr>
     xy_StatusCode = (if ao_OK (xo_Result output) then 200 else 502),
     xy_UpstreamStatus = ao_UpstreamStatus (xo_Result output),
     xy_Body = encode_result (xo_Result output),
     xy_Usage = xo_Usage output\<rparr>"

definition send_input :: "exchange_request \<Rightarrow> string \<Rightarrow> execute_input" where
  "send_input request credential = \<lparr>xi_Operation = xr_Operation request,
     xi_Resource = xr_Resource request, xi_Query = xr_Query request, xi_Input = xr_Body request,
     xi_Budget = no_budget, xi_Spent = no_usage, xi_Credential = credential,
     xi_OperationID = xr_OperationID request\<rparr>"

text \<open>The credential is fetched, used and -- by the deferred \<open>Zero\<close>, however the call ends -- wiped.\<close>

definition with_credential ::
    "exchange \<Rightarrow> string \<Rightarrow> (string \<Rightarrow> outbound list \<Rightarrow> 'r app_result \<times> outbound list)
       \<Rightarrow> xstate \<Rightarrow> 'r app_result \<times> xstate" where
  "with_credential x identityID run st =
     (case xg_ReferenceFor x identityID of
        Inl e \<Rightarrow> (Inl e, st)
      | Inr referenceID \<Rightarrow>
          (case xg_Fetch x referenceID of
             Inl e \<Rightarrow> (Inl e, st)
           | Inr credential \<Rightarrow>
               (case run credential (xs_Sent st) of
                  (r, sent') \<Rightarrow> (r, \<lparr>xs_Sent = sent',
                    xs_Trace = xs_Trace st @ [Fetched referenceID, Zeroed referenceID]\<rparr>))))"

definition exchange_Send ::
    "exchange \<Rightarrow> exchange_request \<Rightarrow> xstate \<Rightarrow> exchange_reply app_result \<times> xstate" where
  "exchange_Send x request st =
     (case executorFor x (xr_Service request) of
        Inl e \<Rightarrow> (Inl e, st)
      | Inr run \<Rightarrow>
          (case registry_Capability (xg_registry x) (xr_Service request) (xr_Operation request) of
             Inl e \<Rightarrow> (Inl e, st)
           | Inr _ \<Rightarrow>
               (case with_credential x (xr_IdentityID request)
                   (\<lambda>credential. run (send_input request credential)) st of
                  (Inl e, st') \<Rightarrow> (Inl e, st')
                | (Inr output, st') \<Rightarrow> (Inr (replyOf output), st'))))"

definition previewerFor ::
    "exchange \<Rightarrow> string \<Rightarrow>
       ((string \<Rightarrow> string) \<times> (preview_input, resource_change list) sending) app_result" where
  "previewerFor x service =
     obind (registry_Adapter (xg_registry x) service) (\<lambda>a.
       case fa_Preview a of
         None \<Rightarrow> Inl (apperr_New CodeNotImplemented)
       | Some previewer \<Rightarrow> Inr previewer)"

definition readOnlySource :: "exchange \<Rightarrow> string \<Rightarrow> string \<Rightarrow> unit app_result" where
  "readOnlySource x service operation =
     obind (registry_Capability (xg_registry x) service operation) (\<lambda>c.
       if capability_Write c then Inl (apperr_New CodeCapabilityNotOffered) else Inr ())"

definition preview_of :: "exchange_request \<Rightarrow> string \<Rightarrow> preview_input" where
  "preview_of request credential = \<lparr>vi_Operation = xr_Operation request,
     vi_Resource = xr_Resource request, vi_Input = xr_Body request, vi_Credential = credential,
     vi_OperationID = xr_OperationID request\<rparr>"

definition exchange_Preview ::
    "exchange \<Rightarrow> exchange_request \<Rightarrow> xstate \<Rightarrow> resource_change list app_result \<times> xstate" where
  "exchange_Preview x request st =
     (case previewerFor x (xr_Service request) of
        Inl e \<Rightarrow> (Inl e, st)
      | Inr (source_of, run) \<Rightarrow>
          (case registry_Capability (xg_registry x) (xr_Service request) (xr_Operation request) of
             Inl e \<Rightarrow> (Inl e, st)
           | Inr _ \<Rightarrow>
               (if source_of (xr_Operation request) = [] then (Inr [], st)
                else (case readOnlySource x (xr_Service request) (source_of (xr_Operation request)) of
                        Inl e \<Rightarrow> (Inl e, st)
                      | Inr _ \<Rightarrow> with_credential x (xr_IdentityID request)
                          (\<lambda>credential. run (preview_of request credential)) st))))"

section \<open>The assembled gateway\<close>

text \<open>The four built-in adapters with the methods they have; \<open>envs\<close> gives each its own client.\<close>

definition full_adapters :: "(string \<Rightarrow> string) \<Rightarrow> (string \<Rightarrow> exec_env) \<Rightarrow> methods adapter_scheme list" where
  "full_adapters elsewhere envs =
     [adapter.extend (github_adapter (elsewhere ''github''))
        \<lparr>fa_Execute = Some (github_ExecuteCapability (envs ''github'')), fa_Preview = None\<rparr>,
      adapter.extend (cloudflare_adapter (elsewhere ''cloudflare''))
        \<lparr>fa_Execute = Some (cf_ExecuteCapability (envs ''cloudflare'')),
         fa_Preview = Some (cf_PreviewSource, cf_PreviewCapability (envs ''cloudflare''))\<rparr>,
      adapter.extend (projr (model_adapter ProviderOpenAI (elsewhere ''openai'')))
        \<lparr>fa_Execute = Some (model_ExecuteCapability (envs ''openai'') ProviderOpenAI), fa_Preview = None\<rparr>,
      adapter.extend (projr (model_adapter ProviderAnthropic (elsewhere ''anthropic'')))
        \<lparr>fa_Execute = Some (model_ExecuteCapability (envs ''anthropic'') ProviderAnthropic),
         fa_Preview = None\<rparr>]"

section \<open>The life of a credential\<close>

text \<open>Either nothing happens, or one credential is fetched, used for one run and wiped.\<close>

lemma with_credential_cases:
  obtains (untouched) e where "with_credential x i run st = (Inl e, st)"
  | (used) referenceID credential r sent' where "xg_ReferenceFor x i = Inr referenceID"
      "xg_Fetch x referenceID = Inr credential" "run credential (xs_Sent st) = (r, sent')"
      "with_credential x i run st = (r, \<lparr>xs_Sent = sent',
         xs_Trace = xs_Trace st @ [Fetched referenceID, Zeroed referenceID]\<rparr>)"
proof (cases "xg_ReferenceFor x i")
  case (Inl e)
  then show thesis by (intro untouched) (simp add: with_credential_def)
next
  case ref: (Inr referenceID)
  show thesis
  proof (cases "xg_Fetch x referenceID")
    case (Inl e)
    with ref show thesis by (intro untouched) (simp add: with_credential_def)
  next
    case (Inr credential)
    with ref show thesis
      by (cases "run credential (xs_Sent st)") (auto simp: with_credential_def intro: used)
  qed
qed

lemma exchange_Send_cases:
  obtains (refused) e where "exchange_Send x request st = (Inl e, st)"
  | (ran) a run c referenceID credential out sent' where
      "registry_Adapter (xg_registry x) (xr_Service request) = Inr a" "fa_Execute a = Some run"
      "registry_Capability (xg_registry x) (xr_Service request) (xr_Operation request) = Inr c"
      "xg_ReferenceFor x (xr_IdentityID request) = Inr referenceID"
      "xg_Fetch x referenceID = Inr credential"
      "run (send_input request credential) (xs_Sent st) = (out, sent')"
      "exchange_Send x request st = (map_sum id replyOf out, \<lparr>xs_Sent = sent',
         xs_Trace = xs_Trace st @ [Fetched referenceID, Zeroed referenceID]\<rparr>)"
proof (cases "executorFor x (xr_Service request)")
  case (Inl e)
  then show thesis by (intro refused) (simp add: exchange_Send_def)
next
  case run: (Inr run)
  then obtain a where a: "registry_Adapter (xg_registry x) (xr_Service request) = Inr a"
    "fa_Execute a = Some run" by (auto simp: executorFor_def obind_iffs split: option.splits)
  show thesis
  proof (cases "registry_Capability (xg_registry x) (xr_Service request) (xr_Operation request)")
    case (Inl e)
    with run show thesis by (intro refused) (simp add: exchange_Send_def)
  next
    case c: (Inr c)
    show thesis
    proof (cases rule: with_credential_cases [of x "xr_IdentityID request"
          "\<lambda>credential. run (send_input request credential)" st])
      case (untouched e)
      with run c show thesis by (intro refused) (simp add: exchange_Send_def)
    next
      case (used referenceID credential r sent')
      then have "exchange_Send x request st = (map_sum id replyOf r, \<lparr>xs_Sent = sent',
         xs_Trace = xs_Trace st @ [Fetched referenceID, Zeroed referenceID]\<rparr>)"
        using run c by (cases r) (simp_all add: exchange_Send_def)
      with used a c show thesis by (intro ran)
    qed
  qed
qed

lemma exchange_Preview_cases:
  obtains (idle) r where "exchange_Preview x request st = (r, st)"
  | (ran) a source_of run c d referenceID credential out sent' where
      "registry_Adapter (xg_registry x) (xr_Service request) = Inr a"
      "fa_Preview a = Some (source_of, run)"
      "registry_Capability (xg_registry x) (xr_Service request) (xr_Operation request) = Inr c"
      "registry_Capability (xg_registry x) (xr_Service request) (source_of (xr_Operation request)) = Inr d"
      "\<not> capability_Write d" "source_of (xr_Operation request) \<noteq> []"
      "xg_ReferenceFor x (xr_IdentityID request) = Inr referenceID"
      "xg_Fetch x referenceID = Inr credential"
      "run (preview_of request credential) (xs_Sent st) = (out, sent')"
      "exchange_Preview x request st = (out, \<lparr>xs_Sent = sent',
         xs_Trace = xs_Trace st @ [Fetched referenceID, Zeroed referenceID]\<rparr>)"
proof (cases "previewerFor x (xr_Service request)")
  case (Inl e)
  then show thesis by (intro idle) (simp add: exchange_Preview_def)
next
  case (Inr p)
  then obtain source_of run a where p: "p = (source_of, run)"
    and a: "registry_Adapter (xg_registry x) (xr_Service request) = Inr a" "fa_Preview a = Some p"
    by (cases p) (auto simp: previewerFor_def obind_iffs split: option.splits)
  let ?src = "source_of (xr_Operation request)"
  show thesis
  proof (cases "\<exists>c d. registry_Capability (xg_registry x) (xr_Service request) (xr_Operation request) = Inr c
      \<and> ?src \<noteq> [] \<and> registry_Capability (xg_registry x) (xr_Service request) ?src = Inr d
      \<and> \<not> capability_Write d")
    case False
    then have "\<exists>r. exchange_Preview x request st = (r, st)"
      using Inr p by (auto simp: exchange_Preview_def readOnlySource_def obind_def split: sum.splits)
    then show thesis using idle by blast
  next
    case True
    then obtain c d where c: "registry_Capability (xg_registry x) (xr_Service request)
        (xr_Operation request) = Inr c" "?src \<noteq> []"
      "registry_Capability (xg_registry x) (xr_Service request) ?src = Inr d" "\<not> capability_Write d" by blast
    then have eq: "exchange_Preview x request st = with_credential x (xr_IdentityID request)
        (\<lambda>credential. run (preview_of request credential)) st"
      using Inr p by (simp add: exchange_Preview_def readOnlySource_def)
    show thesis
    proof (cases rule: with_credential_cases [of x "xr_IdentityID request"
          "\<lambda>credential. run (preview_of request credential)" st])
      case (untouched e)
      with eq show thesis by (intro idle) simp
    next
      case (used referenceID credential r sent')
      show thesis
        by (rule ran [OF a(1) a(2) [unfolded p] c(1,3,4,2) used(1-3)]) (use eq used(4) in simp)
    qed
  qed
qed

text \<open>A credential is fetched only for what was declared, and never outlives the call.  In a
  gateway whose registry was built by \<open>New\<close>, a call of \<open>Send\<close> either refuses, touching no
  credential and sending nothing, or it fetches exactly the credential of the identity, for a
  validated operation that an executable adapter declares, runs the adapter once and wipes the
  credential; the agent then sees the status 200 or 502 and the JSON of the redacted result, in
  which the status of the external service does not occur.\<close>

theorem send_fetches_for_declared_only:
  assumes "registry_New adapters = Inr (xg_registry x)"
  shows "(\<exists>e. exchange_Send x request st = (Inl e, st))
    \<or> (\<exists>a run c referenceID credential out sent'.
         Some a \<in> set adapters \<and> trim_space (ad_Service a) = xr_Service request
         \<and> fa_Execute a = Some run \<and> c \<in> set (ad_Capabilities a)
         \<and> ac_Operation c = xr_Operation request \<and> capability_Validate c = Ok ()
         \<and> xg_ReferenceFor x (xr_IdentityID request) = Inr referenceID
         \<and> xg_Fetch x referenceID = Inr credential
         \<and> run (send_input request credential) (xs_Sent st) = (out, sent')
         \<and> snd (exchange_Send x request st) = \<lparr>xs_Sent = sent',
             xs_Trace = xs_Trace st @ [Fetched referenceID, Zeroed referenceID]\<rparr>
         \<and> (\<forall>reply. fst (exchange_Send x request st) = Inr reply \<longrightarrow>
              (\<exists>output. out = Inr output \<and> xy_Body reply = encode_result (xo_Result output)
                 \<and> xy_StatusCode reply = (if ao_OK (xo_Result output) then 200 else 502))))"
proof (cases rule: exchange_Send_cases [of x request st])
  case (ran a run c referenceID credential out sent')
  have "declares adapters (xr_Service request) a" "capability_Validate c = Ok ()"
    using registry_New_Inr [OF assms] ran(1,3) by blast+
  moreover have "c \<in> set (ad_Capabilities a)" "ac_Operation c = xr_Operation request"
    using registry_New_Inr(2,3) [OF assms] ran(1,3) by (metis sum.inject(2))+
  moreover have "\<exists>output. out = Inr output \<and> xy_Body reply = encode_result (xo_Result output)
      \<and> xy_StatusCode reply = (if ao_OK (xo_Result output) then 200 else 502)"
    if "fst (exchange_Send x request st) = Inr reply" for reply
    using that ran(7) by (cases out) (auto simp: replyOf_def)
  ultimately show ?thesis using ran unfolding declares_def
    by (intro disjI2 exI [of _ a] exI [of _ run] exI [of _ c] exI [of _ referenceID]
        exI [of _ credential] exI [of _ out] exI [of _ sent']) simp
qed blast

text \<open>The status of the external service has no place in the JSON of a result.\<close>

lemma encode_result_hides_status: "encode_result (FromUpstream status r) = encode_result r"
  by (simp add: encode_result_def FromUpstream_def)

section \<open>What the assembled gateway can do\<close>

lemma full_adapters_tables:
  "map ad_Service (full_adapters elsewhere envs) = [''github'', ''cloudflare'', ''openai'', ''anthropic'']"
  "map ad_Capabilities (full_adapters elsewhere envs) = [github_capabilities, cloudflare_capabilities,
     model_capabilities ProviderOpenAI, model_capabilities ProviderAnthropic]"
  by (simp_all add: full_adapters_def adapter.extend_def github_adapter_def cloudflare_adapter_def
      model_adapter_def)

lemma full_adapters_services:
  assumes "declares (map Some (full_adapters elsewhere envs)) service a"
  shows "a \<in> set (full_adapters elsewhere envs) \<and> ad_Service a = service"
proof -
  have "map (\<lambda>a. trim_space (ad_Service a)) (full_adapters elsewhere envs)
      = map ad_Service (full_adapters elsewhere envs)"
    using full_adapters_tables(1) [of elsewhere envs] trim_services
    by (metis (no_types, lifting) map_map o_apply map_eq_conv)
  with assms show ?thesis by (auto simp: declares_def)
qed

text \<open>The methods of the adapter of each service.\<close>

lemma full_adapter_methods:
  assumes "a \<in> set (full_adapters elsewhere envs)"
  shows "fa_Preview a \<noteq> None \<Longrightarrow> ad_Service a = ''cloudflare''
      \<and> fa_Preview a = Some (cf_PreviewSource, cf_PreviewCapability (envs ''cloudflare''))"
    and "ad_Service a = ''openai''
      \<Longrightarrow> fa_Execute a = Some (model_ExecuteCapability (envs ''openai'') ProviderOpenAI)"
    and "ad_Service a = ''anthropic''
      \<Longrightarrow> fa_Execute a = Some (model_ExecuteCapability (envs ''anthropic'') ProviderAnthropic)"
  using assms
  by (auto simp: full_adapters_def adapter.extend_def github_adapter_def cloudflare_adapter_def
      model_adapter_def)

lemma read_capability_facts:
  "capability_Validate read_capability = Ok ()" "\<not> capability_Write read_capability"
  "\<not> n_Destructive (ac_Nature read_capability)" "ac_Method read_capability = ''GET''"
  "read_capability \<in> set cloudflare_capabilities"
  by code_simp+

abbreviation reading ::
    "(string \<Rightarrow> exec_env) \<Rightarrow> exchange_request \<Rightarrow> string \<Rightarrow> string \<Rightarrow> outbound \<Rightarrow> bool" where
  "reading envs request credential path \<equiv> permitted_by (envs ''cloudflare'') read_capability path
     (read_input (preview_request (preview_of request credential)))"

lemma cf_PreviewCapability_sends:
  "\<exists>path reads. snd (cf_PreviewCapability env input sent) = sent @ reads \<and> length reads \<le> 15
     \<and> list_all (permitted_by env read_capability path (read_input (preview_request input))) reads"
proof -
  have "snd (cf_PreviewCapability env input sent) = snd (cf_Preview env (preview_request input) sent)"
    by (auto simp: cf_PreviewCapability_def split: prod.splits sum.splits)
  then show ?thesis using cf_Preview_sends [of env "preview_request input" sent] by simp
qed

text \<open>C18: What runs before anybody has agreed only reads.  In the assembled gateway a preview asks
  nothing of any service but Cloudflare, and there only for the two operations that change an
  existing record.  It sends at most fifteen requests, each of them the declared GET of one DNS
  record with the resource values of the request, or a redirect of it; it fetches the credential
  of the identity in no other case, and that credential is wiped when the preview ends.\<close>

theorem preview_only_reads:
  assumes "registry_New (map Some (full_adapters elsewhere envs)) = Inr (xg_registry x)"
  shows "\<exists>events reads. xs_Trace (snd (exchange_Preview x request st)) = xs_Trace st @ events
     \<and> xs_Sent (snd (exchange_Preview x request st)) = xs_Sent st @ reads
     \<and> length reads \<le> 15
     \<and> (events \<noteq> [] \<or> reads \<noteq> [] \<longrightarrow> xr_Service request = ''cloudflare''
          \<and> xr_Operation request \<in> set changesBefore
          \<and> (\<exists>referenceID. xg_ReferenceFor x (xr_IdentityID request) = Inr referenceID
               \<and> events = [Fetched referenceID, Zeroed referenceID]))
     \<and> (\<exists>credential path. list_all (reading envs request credential path) reads)
     \<and> ac_Method read_capability = ''GET'' \<and> capability_Validate read_capability = Ok ()"
proof (cases rule: exchange_Preview_cases [of x request st])
  case (idle r)
  then show ?thesis using read_capability_facts by (intro exI [of _ "[]"]) simp
next
  case (ran a source_of run c d referenceID credential out sent')
  have "declares (map Some (full_adapters elsewhere envs)) (xr_Service request) a"
    using registry_New_Inr(2) [OF assms] ran(1) by blast
  note a = full_adapters_services [OF this]
  have m: "xr_Service request = ''cloudflare''" "source_of = cf_PreviewSource"
    "run = cf_PreviewCapability (envs ''cloudflare'')"
    using full_adapter_methods(1) [OF conjunct1 [OF a]] ran(2) a by auto
  have op: "xr_Operation request \<in> set changesBefore"
    using ran(6) m(2) by (auto simp: cf_PreviewSource_def split: if_splits)
  obtain path reads where "sent' = xs_Sent st @ reads" "length reads \<le> 15"
    "list_all (reading envs request credential path) reads"
    using cf_PreviewCapability_sends [of "envs ''cloudflare''" "preview_of request credential" "xs_Sent st"]
      ran(9) m(3) by (metis snd_conv)
  then show ?thesis using ran(7,10) m(1) op read_capability_facts
    by (intro exI [of _ "[Fetched referenceID, Zeroed referenceID]"] exI [of _ reads]) auto
qed

text \<open>Through the exchange no model is ever called.  \<open>Send\<close> hands the adapter neither a budget
  nor the amount spent, and the model adapter takes a missing budget for none at all: in the
  assembled gateway every request to a model provider fails before anything is sent, also the
  listing of models, whatever lease it has.\<close>

theorem exchange_never_calls_a_model:
  assumes "registry_New (map Some (full_adapters elsewhere envs)) = Inr (xg_registry x)"
    and "xr_Service request \<in> {''openai'', ''anthropic''}"
  shows "(\<exists>e. fst (exchange_Send x request st) = Inl e)
     \<and> xs_Sent (snd (exchange_Send x request st)) = xs_Sent st"
proof (cases rule: exchange_Send_cases [of x request st])
  case (ran a run c referenceID credential out sent')
  have "declares (map Some (full_adapters elsewhere envs)) (xr_Service request) a"
    using registry_New_Inr(2) [OF assms(1)] ran(1) by blast
  note a = full_adapters_services [OF this]
  then obtain env p where "run = model_ExecuteCapability env p"
    using full_adapter_methods(2,3) [OF conjunct1 [OF a]] assms(2) ran(2) by auto
  moreover have "xi_Budget (send_input request credential) = no_budget" by (simp add: send_input_def)
  ultimately obtain e where "out = Inl e" "sent' = xs_Sent st"
    using no_budget_no_call ran(6) by (metis Pair_inject)
  with ran(7) show ?thesis by simp
qed simp

section \<open>Sample runs\<close>

lemma full_registry: "\<exists>reg. registry_New (map Some (full_adapters elsewhere envs)) = Inr reg"
proof -
  let ?as = "full_adapters elsewhere envs"
  have services: "map (\<lambda>a. trim_space (ad_Service a)) ?as = [''github'', ''cloudflare'', ''openai'', ''anthropic'']"
    using full_adapters_tables(1) [of elsewhere envs] trim_services
    by (metis (no_types, lifting) map_map o_apply map_eq_conv)
  have "list_all (\<lambda>s. s \<noteq> []) (map (\<lambda>a. trim_space (ad_Service a)) ?as)"
    "distinct (map (\<lambda>a. trim_space (ad_Service a)) ?as)" unfolding services by simp_all
  moreover have "list_all declarable (map ad_Capabilities ?as)"
    unfolding full_adapters_tables by (simp add: github_declarable cloudflare_declarable model_declarable)
  moreover have "list_all (\<lambda>a. validKind (ad_Kind a)) ?as"
    by (simp add: full_adapters_def adapter.extend_def github_adapter_def cloudflare_adapter_def
        model_adapter_def)
  ultimately show ?thesis unfolding registry_New_def
    by (intro add_adapters_declarable) (auto simp: list_all_iff)
qed

definition sample_envs :: "string \<Rightarrow> exec_env" where
  "sample_envs service = (if service = ''cloudflare'' then dns_env else sample_env ok_net)"

definition sample_exchange :: "full_registry \<Rightarrow> exchange" where
  "sample_exchange reg = \<lparr>xg_registry = reg,
     xg_Fetch = (\<lambda>ref. if ref = ''ref1'' then Inr ''s3cret'' else Inl (apperr_New CodeVaultLocked)),
     xg_ReferenceFor = (\<lambda>i. if i = ''id1'' then Inr ''ref1'' else Inl (apperr_New CodeNotFound))\<rparr>"

definition sample_call :: "string \<Rightarrow> string \<Rightarrow> string go_map \<Rightarrow> string \<Rightarrow> exchange_request" where
  "sample_call service operation resource body = \<lparr>xr_Service = service, xr_Operation = operation,
     xr_IdentityID = ''id1'', xr_Resource = resource, xr_Query = [], xr_Body = body,
     xr_OperationID = ''op1''\<rparr>"

definition fresh :: xstate where "fresh = \<lparr>xs_Sent = [], xs_Trace = []\<rparr>"

lemma sample_lookup:
  assumes "registry_New (map Some (full_adapters (\<lambda>_. []) sample_envs)) = Inr reg"
    and "a \<in> set (full_adapters (\<lambda>_. []) sample_envs)"
  shows "registry_Adapter reg (ad_Service a) = Inr a"
    and "c \<in> set (ad_Capabilities a) \<Longrightarrow> registry_Capability reg (ad_Service a) (ac_Operation c) = Inr c"
proof -
  have "trim_space (ad_Service a) = ad_Service a"
  proof -
    have "ad_Service a \<in> set [''github'', ''cloudflare'', ''openai'', ''anthropic'']"
      using assms(2) full_adapters_tables(1) [of "\<lambda>_. []" sample_envs] by (metis image_eqI list.set_map)
    then show ?thesis using trim_services by auto
  qed
  then have "declares (map Some (full_adapters (\<lambda>_. []) sample_envs)) (ad_Service a) a"
    using assms(2) by (simp add: declares_def)
  then show "registry_Adapter reg (ad_Service a) = Inr a"
    "c \<in> set (ad_Capabilities a) \<Longrightarrow> registry_Capability reg (ad_Service a) (ac_Operation c) = Inr c"
    using registry_New_Inr(2,3) [OF assms(1)] by blast+
qed

abbreviation sample_github :: "methods adapter_scheme" where
  "sample_github \<equiv> full_adapters (\<lambda>_. []) sample_envs ! 0"

abbreviation sample_cloudflare :: "methods adapter_scheme" where
  "sample_cloudflare \<equiv> full_adapters (\<lambda>_. []) sample_envs ! 1"

lemma sample_adapters:
  "sample_github \<in> set (full_adapters (\<lambda>_. []) sample_envs)" "ad_Service sample_github = ''github''"
  "ad_Capabilities sample_github = github_capabilities"
  "fa_Execute sample_github = Some (github_ExecuteCapability (sample_env ok_net))"
  "sample_cloudflare \<in> set (full_adapters (\<lambda>_. []) sample_envs)"
  "ad_Service sample_cloudflare = ''cloudflare''"
  "ad_Capabilities sample_cloudflare = cloudflare_capabilities"
  "fa_Preview sample_cloudflare = Some (cf_PreviewSource, cf_PreviewCapability dns_env)"
  by (simp_all add: full_adapters_def adapter.extend_def github_adapter_def cloudflare_adapter_def
      sample_envs_def)

theorem send_fetches_for_declared_only_witness:
  "\<exists>reg reply. registry_New (map Some (full_adapters (\<lambda>_. []) sample_envs)) = Inr reg
     \<and> fst (exchange_Send (sample_exchange reg)
         (sample_call ''github'' ''read_repository'' [(''owner'', ''o''), (''repo'', ''r'')] []) fresh) = Inr reply
     \<and> xy_StatusCode reply = 200
     \<and> xs_Trace (snd (exchange_Send (sample_exchange reg)
         (sample_call ''github'' ''read_repository'' [(''owner'', ''o''), (''repo'', ''r'')] []) fresh))
       = [Fetched ''ref1'', Zeroed ''ref1'']"
proof -
  obtain reg where reg: "registry_New (map Some (full_adapters (\<lambda>_. []) sample_envs)) = Inr reg"
    using full_registry by blast
  let ?x = "sample_exchange reg"
    and ?rq = "sample_call ''github'' ''read_repository'' [(''owner'', ''o''), (''repo'', ''r'')] []"
  have x: "xg_registry ?x = reg" by (simp add: sample_exchange_def)
  have "github_capabilities ! 0 \<in> set github_capabilities"
    "ac_Operation (github_capabilities ! 0) = ''read_repository''"
    by (simp_all add: github_capabilities_def)
  then have "registry_Adapter reg ''github'' = Inr sample_github"
    "registry_Capability reg ''github'' ''read_repository'' = Inr (github_capabilities ! 0)"
    using sample_lookup [OF reg sample_adapters(1)] sample_adapters(2,3) by metis+
  moreover have "send_input ?rq ''s3cret'' = sample_input ''read_repository''"
    by (simp add: send_input_def sample_call_def sample_input_def)
  ultimately obtain reply where reply: "fst (exchange_Send ?x ?rq fresh) = Inr reply"
    using sample_github_run sample_adapters(4)
    by (auto simp: exchange_Send_def executorFor_def with_credential_def sample_exchange_def
        sample_call_def fresh_def github_ExecuteCapability_def)
  then have "xy_StatusCode reply = 200"
    using \<open>registry_Adapter _ _ = _\<close> \<open>registry_Capability _ _ _ = _\<close> \<open>send_input _ _ = _\<close>
      sample_github_run sample_adapters(4)
    by (auto simp: exchange_Send_def executorFor_def with_credential_def sample_exchange_def
        sample_call_def fresh_def github_ExecuteCapability_def replyOf_def FromUpstream_def Success_def)
  moreover have "xs_Trace (snd (exchange_Send ?x ?rq fresh)) = [Fetched ''ref1'', Zeroed ''ref1'']"
    using send_fetches_for_declared_only [of _ ?x ?rq fresh, unfolded x, OF reg] reply
    by (auto simp: sample_exchange_def sample_call_def fresh_def split: if_splits)
  ultimately show ?thesis using reg reply by blast
qed

theorem exchange_never_calls_a_model_witness:
  "\<exists>reg e. registry_New (map Some (full_adapters (\<lambda>_. []) sample_envs)) = Inr reg
     \<and> fst (exchange_Send (sample_exchange reg) (sample_call ''openai'' ''read_models'' [] []) fresh) = Inl e"
proof -
  obtain reg where reg: "registry_New (map Some (full_adapters (\<lambda>_. []) sample_envs)) = Inr reg"
    using full_registry by blast
  have "xg_registry (sample_exchange reg) = reg" "xr_Service (sample_call ''openai'' ''read_models'' [] []) = ''openai''"
    by (simp_all add: sample_exchange_def sample_call_def)
  then show ?thesis
    using exchange_never_calls_a_model [of "\<lambda>_. []" sample_envs "sample_exchange reg"
        "sample_call ''openai'' ''read_models'' [] []" fresh] reg by auto
qed

theorem preview_only_reads_witness:
  "\<exists>reg. registry_New (map Some (full_adapters (\<lambda>_. []) sample_envs)) = Inr reg
     \<and> fst (exchange_Preview (sample_exchange reg) (sample_call ''cloudflare'' ''update_dns_record''
          [(''record_id'', ''r1''), (''zone_id'', ''z1'')] ''new'') fresh) = Inr [dns_change]
     \<and> xs_Trace (snd (exchange_Preview (sample_exchange reg) (sample_call ''cloudflare'' ''update_dns_record''
          [(''record_id'', ''r1''), (''zone_id'', ''z1'')] ''new'') fresh)) = [Fetched ''ref1'', Zeroed ''ref1'']"
proof -
  obtain reg where reg: "registry_New (map Some (full_adapters (\<lambda>_. []) sample_envs)) = Inr reg"
    using full_registry by blast
  let ?x = "sample_exchange reg" and ?rq = "sample_call ''cloudflare'' ''update_dns_record''
      [(''record_id'', ''r1''), (''zone_id'', ''z1'')] ''new''"
  have x: "xg_registry ?x = reg" by (simp add: sample_exchange_def)
  have "cloudflare_capabilities ! 4 \<in> set cloudflare_capabilities"
    "ac_Operation (cloudflare_capabilities ! 4) = ''update_dns_record''"
    "cloudflare_capabilities ! 2 \<in> set cloudflare_capabilities"
    "ac_Operation (cloudflare_capabilities ! 2) = ''read_dns_record''"
    by (simp_all add: cloudflare_capabilities_def)
  then have look: "registry_Adapter reg ''cloudflare'' = Inr sample_cloudflare"
    "registry_Capability reg ''cloudflare'' ''update_dns_record'' = Inr (cloudflare_capabilities ! 4)"
    "registry_Capability reg ''cloudflare'' ''read_dns_record'' = Inr (cloudflare_capabilities ! 2)"
    using sample_lookup [OF reg sample_adapters(5)] sample_adapters(6,7) by metis+
  have src: "cf_PreviewSource ''update_dns_record'' = ''read_dns_record''"
    "\<not> capability_Write (cloudflare_capabilities ! 2)" by code_simp+
  have "preview_request (preview_of ?rq ''s3cret'') = dns_input"
    by (simp add: preview_request_def preview_of_def sample_call_def dns_input_def)
  then have run: "fst (exchange_Preview ?x ?rq fresh) = Inr [dns_change]"
    "xs_Sent (snd (exchange_Preview ?x ?rq fresh)) \<noteq> []"
    using look src sample_dns_reading sample_adapters(8)
    by (auto simp: exchange_Preview_def previewerFor_def readOnlySource_def with_credential_def
        sample_exchange_def sample_call_def fresh_def cf_PreviewCapability_def)
  have "xs_Trace (snd (exchange_Preview ?x ?rq fresh)) = [Fetched ''ref1'', Zeroed ''ref1'']"
    using preview_only_reads [of "\<lambda>_. []" sample_envs ?x ?rq fresh, unfolded x, OF reg] run(2)
    by (auto simp: sample_exchange_def sample_call_def fresh_def)
  with reg run(1) show ?thesis by blast
qed

end
