(* ===== verification/Declarations.thy ===== *)
theory Declarations
  imports Adapter_Registry Agent_Repo
begin

text \<open>
  The stored declarations of adapters (\<open>internal/store/repo/adapter.go\<close> with the statements of
  \<open>service_adapters.sql.go\<close>) and the bridge to them from the adapters compiled in
  (\<open>internal/orchestration/declare.go\<close>): connecting a service writes the declaration of its adapter,
  and what is written there is what requests are later resolved against.
\<close>

section \<open>The table\<close>

definition declaration_check :: "adapter_declaration \<Rightarrow> bool" where
  "declaration_check d \<longleftrightarrow> validKind (decl_Kind d)
     \<and> decl_AuthScheme d \<in> {AuthNone, AuthBearer, AuthHeader}
     \<and> json_valid (decl_Capabilities d) \<and> json_valid (decl_AllowedPaths d)
     \<and> json_valid (decl_AllowedMethods d) \<and> json_valid (decl_RedactionRules d)
     \<and> decl_DefaultRiskLevel d \<in> {RiskLabelLow, RiskLabelMedium, RiskLabelHigh}
     \<and> decl_Status d \<in> {AdapterEnabled, AdapterDisabled}"

definition createServiceAdapter :: "adapter_declaration \<Rightarrow> db \<Rightarrow> (adapter_declaration \<times> db) result" where
  "createServiceAdapter x d =
     (let row = x\<lparr>decl_CreatedAt := encodeTime (decl_CreatedAt x),
            decl_UpdatedAt := encodeTime (decl_UpdatedAt x)\<rparr> in
      rbind (sql_insert (declaration_check row) (decl_ID row \<notin> decl_ID ` set (db_declarations d)
          \<and> decl_Service row \<notin> decl_Service ` set (db_declarations d)) True row (db_declarations d))
        (\<lambda>(r, rows). Ok (r, d\<lparr>db_declarations := rows\<rparr>)))"

definition CreateDeclaration :: "adapter_declaration \<Rightarrow> adapter_declaration io" where
  "CreateDeclaration x = io_write (createServiceAdapter x)"

definition DeclarationByID :: "string \<Rightarrow> adapter_declaration io" where
  "DeclarationByID i = io_read (\<lambda>d. found (row_by decl_ID i (db_declarations d)))"

definition DeclarationByService :: "string \<Rightarrow> adapter_declaration io" where
  "DeclarationByService service = io_read (\<lambda>d. found (row_by decl_Service service (db_declarations d)))"

text \<open>\<open>WHERE status = 'enabled' ORDER BY service LIMIT ?\<close>.\<close>

definition enabled_declarations :: "int \<Rightarrow> db \<Rightarrow> adapter_declaration list" where
  "enabled_declarations limit d = take (nat limit)
     (sort_key decl_Service (filter (\<lambda>x. decl_Status x = AdapterEnabled) (db_declarations d)))"

definition EnabledDeclarations :: "int \<Rightarrow> adapter_declaration list io" where
  "EnabledDeclarations limit =
     (if limit \<le> 0 then io_lift invalidLimit else io_read (\<lambda>d. Ok (enabled_declarations limit d)))"

definition update_declaration ::
    "string \<Rightarrow> (adapter_declaration \<Rightarrow> adapter_declaration) \<Rightarrow> adapter_declaration io" where
  "update_declaration i f =
     io_write (\<lambda>d. not_found_update
       (sql_update declaration_check (\<lambda>x. decl_ID x = i) f (db_declarations d))
       (\<lambda>rows. d\<lparr>db_declarations := rows\<rparr>))"

definition SetDeclarationStatus :: "string \<Rightarrow> adapter_status \<Rightarrow> instant \<Rightarrow> adapter_declaration io" where
  "SetDeclarationStatus i status at =
     update_declaration i (\<lambda>x. x\<lparr>decl_Status := status, decl_UpdatedAt := encodeTime at\<rparr>)"

definition UpdateDeclaration :: "adapter_declaration \<Rightarrow> adapter_declaration io" where
  "UpdateDeclaration y =
     update_declaration (decl_ID y) (\<lambda>x. x\<lparr>decl_BaseURL := decl_BaseURL y,
       decl_AuthScheme := decl_AuthScheme y, decl_Capabilities := decl_Capabilities y,
       decl_AllowedPaths := decl_AllowedPaths y, decl_AllowedMethods := decl_AllowedMethods y,
       decl_RedactionRules := decl_RedactionRules y,
       decl_DefaultRiskLevel := decl_DefaultRiskLevel y,
       decl_UpdatedAt := encodeTime (decl_UpdatedAt y)\<rparr>)"

section \<open>Connecting a service\<close>

text \<open>The outcome of a call on the adapters, among the computations on the database.\<close>

definition io_app :: "'a app_result \<Rightarrow> 'a io" where
  "io_app r = io_lift (case r of Inl e \<Rightarrow> Err (ae_Code e) | Inr a \<Rightarrow> Ok a)"

definition declaration_of :: "'x registry \<Rightarrow> string \<Rightarrow> adapter_declaration io" where
  "declaration_of registry service =
     io_bind (io_app (registry_Adapter registry service)) (\<lambda>adapter.
     let declared = ad_Capabilities adapter in
     io_bind (io_lift (EncodeCapabilities service declared)) (\<lambda>capabilities.
     io_bind (io_lift (EncodePaths declared)) (\<lambda>paths.
     io_bind (io_lift (EncodeMethods declared)) (\<lambda>methods.
     io_bind (io_lift (EncodeRedactionRules declared)) (\<lambda>redaction.
     io_bind io_new_id (\<lambda>i.
     io_bind io_now (\<lambda>now.
       io_return \<lparr>decl_ID = i, decl_Service = service, decl_Kind = ad_Kind adapter,
         decl_DisplayName = service, decl_BaseURL = ad_BaseURL adapter,
         decl_AuthScheme = ad_AuthScheme adapter, decl_Capabilities = capabilities,
         decl_AllowedPaths = paths, decl_AllowedMethods = methods, decl_RedactionRules = redaction,
         decl_DefaultRiskLevel = DefaultRiskOf declared, decl_Status = AdapterEnabled,
         decl_CreatedAt = now, decl_UpdatedAt = now\<rparr>)))))))"

definition EnsureDeclared :: "'x registry \<Rightarrow> string \<Rightarrow> unit io" where
  "EnsureDeclared registry service =
     io_bind (io_try (DeclarationByService service)) (\<lambda>known. case known of
        Inr d \<Rightarrow> io_return ()
      | Inl c \<Rightarrow>
          if c \<noteq> CodeNotFound then io_fail c
          else io_bind (declaration_of registry service) (\<lambda>derived.
               io_bind (io_try (CreateDeclaration derived)) (\<lambda>created. case created of
                  Inr d \<Rightarrow> io_return ()
                | Inl c \<Rightarrow> if c = CodeConflict then io_return () else io_fail c)))"

section \<open>What the table keeps\<close>

text \<open>A declaration keeps its identity: service, kind and name are never rewritten.\<close>

definition declaration_evolves :: "adapter_declaration \<Rightarrow> adapter_declaration \<Rightarrow> bool" where
  "declaration_evolves x y \<longleftrightarrow> decl_ID y = decl_ID x \<and> decl_Service y = decl_Service x
     \<and> decl_Kind y = decl_Kind x \<and> decl_DisplayName y = decl_DisplayName x
     \<and> decl_CreatedAt y = decl_CreatedAt x"

interpretation declaration_rows: growing_table declaration_evolves
  by unfold_locales (auto simp: declaration_evolves_def)

definition declarations_ok :: "db \<Rightarrow> bool" where
  "declarations_ok d \<longleftrightarrow> table_ok decl_ID declaration_check (db_declarations d)
     \<and> distinct (map decl_Service (db_declarations d))"

definition declaration_history :: "db \<Rightarrow> db \<Rightarrow> bool" where
  "declaration_history d d' \<longleftrightarrow> rows_evolve declaration_evolves (db_declarations d) (db_declarations d')
     \<and> (declarations_ok d \<longrightarrow> declarations_ok d')"

interpretation declarations: db_history declaration_history
  using declaration_rows.evolve_refl declaration_rows.evolve_trans
  by unfold_locales (unfold declaration_history_def, blast+)

lemma createServiceAdapter_Ok:
  "createServiceAdapter x d = Ok (r, d') \<Longrightarrow>
     r = x\<lparr>decl_CreatedAt := encodeTime (decl_CreatedAt x), decl_UpdatedAt := encodeTime (decl_UpdatedAt x)\<rparr>
     \<and> declaration_check r \<and> decl_ID x \<notin> decl_ID ` set (db_declarations d)
     \<and> decl_Service x \<notin> decl_Service ` set (db_declarations d)
     \<and> d' = d\<lparr>db_declarations := db_declarations d @ [r]\<rparr>"
  by (auto simp: createServiceAdapter_def Let_def rbind_iffs sql_insert_Ok)

lemma createServiceAdapter_history:
  assumes "createServiceAdapter x d = Ok (r, d')"
  shows "declaration_history d d'"
proof -
  from createServiceAdapter_Ok [OF assms] have r: "declaration_check r"
    "decl_ID r \<notin> decl_ID ` set (db_declarations d)" "decl_Service r \<notin> decl_Service ` set (db_declarations d)"
    and d': "d' = d\<lparr>db_declarations := db_declarations d @ [r]\<rparr>" by auto
  from table_ok_insert [of decl_ID declaration_check "db_declarations d" r] r show ?thesis
    unfolding declaration_history_def declarations_ok_def d' by (simp add: declaration_rows.evolve_append)
qed

lemma createServiceAdapter_conflict:
  "createServiceAdapter x d = Err CodeConflict \<Longrightarrow> decl_ID x \<in> decl_ID ` set (db_declarations d)
     \<or> decl_Service x \<in> decl_Service ` set (db_declarations d)"
  by (auto simp: createServiceAdapter_def Let_def rbind_iffs sql_insert_def split: if_splits)

lemma update_declaration_keeps:
  assumes "\<And>x. declaration_evolves x (f x)"
  shows "declarations.keeps (update_declaration i f)"
  unfolding update_declaration_def
proof (rule declarations.keeps_write)
  fix d a d'
  assume "not_found_update (sql_update declaration_check (\<lambda>x. decl_ID x = i) f (db_declarations d))
      (\<lambda>rows. d\<lparr>db_declarations := rows\<rparr>) = Ok (a, d')"
  then obtain rows where
    u: "sql_update declaration_check (\<lambda>x. decl_ID x = i) f (db_declarations d) = Ok (Some (a, rows))"
    and d': "d' = d\<lparr>db_declarations := rows\<rparr>"
    by (auto simp: not_found_update_def rbind_iffs split: option.splits)
  have evolve: "rows_evolve declaration_evolves (db_declarations d) rows"
    using declaration_rows.evolve_sql_update [OF u] assms by blast
  have services: "map decl_Service rows = map decl_Service (db_declarations d)"
  proof -
    from u have "rows = map (\<lambda>x. if decl_ID x = i then f x else x) (db_declarations d)"
      by (elim sql_update_Some)
    then show ?thesis using assms by (simp add: declaration_evolves_def)
  qed
  have "table_ok decl_ID declaration_check rows"
    if "table_ok decl_ID declaration_check (db_declarations d)"
    by (rule table_ok_update [OF that u]) (use assms in \<open>auto simp: declaration_evolves_def\<close>)
  then show "declaration_history d d'"
    using evolve services unfolding declaration_history_def declarations_ok_def d' by simp
qed

lemma EnsureDeclared_keeps: "declarations.keeps (EnsureDeclared registry service)"
  unfolding EnsureDeclared_def declaration_of_def io_app_def Let_def CreateDeclaration_def
    DeclarationByService_def
  by (intro declarations.keeps_rules declarations.keeps_write createServiceAdapter_history)

lemma declarations_keep:
  "declarations.keeps (CreateDeclaration x)" "declarations.keeps (SetDeclarationStatus i status at)"
  "declarations.keeps (UpdateDeclaration x)" "declarations.keeps (EnsureDeclared registry service)"
  by (simp_all add: CreateDeclaration_def SetDeclarationStatus_def UpdateDeclaration_def
      EnsureDeclared_keeps update_declaration_keeps declaration_evolves_def
      declarations.keeps_write createServiceAdapter_history)

section \<open>What connecting a service writes\<close>

text \<open>The declaration derived from an adapter, up to its identifier and its times.\<close>

definition derived_from :: "'x adapter_scheme \<Rightarrow> string \<Rightarrow> adapter_declaration \<Rightarrow> bool" where
  "derived_from a service d \<longleftrightarrow> decl_Service d = service \<and> decl_Kind d = ad_Kind a
     \<and> decl_BaseURL d = ad_BaseURL a \<and> decl_AuthScheme d = ad_AuthScheme a
     \<and> decl_Status d = AdapterEnabled \<and> decl_DefaultRiskLevel d = DefaultRiskOf (ad_Capabilities a)
     \<and> EncodeCapabilities service (ad_Capabilities a) = Ok (decl_Capabilities d)"

lemma io_app_Ok: "io_app r w = (Inr a, w') \<longleftrightarrow> r = Inr a \<and> w' = w"
  by (cases r) (auto simp: io_app_def io_lift_def)

lemma declaration_of_Ok:
  assumes "declaration_of registry service w = (Ok d, w')"
  obtains a i n where "registry_Adapter registry service = Inr a" "derived_from a service d"
    "w_ids w n = Some i" "decl_ID d = i" "w_db w' = w_db w"
  using assms that
  by (auto simp: declaration_of_def Let_def io_bind_Ok_iff io_app_Ok io_lift_Ok io_new_id_Ok io_now_Ok
      io_return_Ok derived_from_def)


text \<open>A declaration that was switched off stays off: connecting the service again reports success and
  changes nothing.\<close>

lemma connecting_leaves_disabled:
  assumes "row_by decl_Service service (db_declarations (w_db w)) = Some d"
    and "decl_Status d = AdapterDisabled" and "\<not> w_fault w (w_tick w)"
  shows "EnsureDeclared registry service w = (Ok (), tick w)"
  using assms by (simp add: EnsureDeclared_def io_bind_def io_try_def DeclarationByService_def io_read_def
      found_def io_return_def)

text \<open>A service no adapter knows is refused with the code of a capability that is not offered.\<close>

lemma unknown_service_refused:
  assumes "row_by decl_Service service (db_declarations (w_db w)) = None"
    and "gm_get (rg_adapters registry) service = None" and "\<not> w_fault w (w_tick w)"
  shows "EnsureDeclared registry service w = (Err CodeCapabilityNotOffered, tick w)"
  using assms by (simp add: EnsureDeclared_def io_bind_def io_try_def DeclarationByService_def io_read_def
      found_def declaration_of_def registry_Adapter_def io_app_def io_lift_def apperr_New_def)

definition dns_adapter :: adapter where
  "dns_adapter = \<lparr>ad_Service = ''dns'', ad_Kind = KindCloudflare, ad_Capabilities = [example_declared],
     ad_BaseURL = ''https://dns.example'', ad_AuthScheme = AuthBearer\<rparr>"

definition dns_registry :: "unit registry" where
  "dns_registry = \<lparr>rg_adapters = [(''dns'', dns_adapter)], rg_capabilities = []\<rparr>"


end
