(* ===== verification/Credential_Repo.thy ===== *)
theory Credential_Repo
  imports Lease_Repo Request_Repo Agent_Repo
begin

text \<open>
  The repositories of credential providers and references (\<open>internal/store/repo/credential.go\<close> with
  the statements of \<open>internal/store/queries\<close>) and the creation of an identity, which points to a
  reference.  A reference says where a secret is kept -- provider, item, field -- and never holds
  it.  Registering a provider and a reference is one transaction that finds or creates each.
\<close>

section \<open>Providers\<close>

definition provider_check :: "credential_provider \<Rightarrow> bool" where
  "provider_check p \<longleftrightarrow> cp_Kind p \<in> {KindOnePassword, KindMacOSKeychain, KindLocalVault}"

definition provider_name :: "credential_provider \<Rightarrow> provider_kind \<times> string" where
  "provider_name p = (cp_Kind p, cp_Label p)"

definition createCredentialProvider ::
    "credential_provider \<Rightarrow> db \<Rightarrow> (credential_provider \<times> db) result" where
  "createCredentialProvider p d =
     (let row = p\<lparr>cp_CreatedAt := encodeTime (cp_CreatedAt p),
            cp_UpdatedAt := encodeTime (cp_UpdatedAt p)\<rparr> in
      rbind (sql_insert (provider_check row) (cp_ID row \<notin> cp_ID ` set (db_providers d)
          \<and> provider_name row \<notin> provider_name ` set (db_providers d)) True row (db_providers d))
        (\<lambda>(r, rows). Ok (r, d\<lparr>db_providers := rows\<rparr>)))"

definition CreateProvider :: "credential_provider \<Rightarrow> credential_provider io" where
  "CreateProvider p = io_write (createCredentialProvider p)"

definition ProviderByID :: "string \<Rightarrow> credential_provider io" where
  "ProviderByID i = io_read (\<lambda>d. found (row_by cp_ID i (db_providers d)))"

definition ProviderByKindAndLabel :: "provider_kind \<Rightarrow> string \<Rightarrow> credential_provider io" where
  "ProviderByKindAndLabel kind label =
     io_read (\<lambda>d. found (row_by provider_name (kind, label) (db_providers d)))"

section \<open>References\<close>

definition reference_check :: "credential_reference \<Rightarrow> bool" where
  "reference_check r \<longleftrightarrow> json_valid (cr_Metadata r) \<and> json_valid (cr_Capabilities r)
     \<and> cr_HealthStatus r \<in> {HealthOK, HealthNeedsReauth, HealthUnavailable}"

text \<open>Where the secret is kept: the key of the unique index.\<close>

definition coordinates :: "credential_reference \<Rightarrow> string \<times> string \<times> string" where
  "coordinates r = (cr_ProviderID r, cr_ItemRef r, cr_Field r)"

definition createParams :: "credential_reference \<Rightarrow> credential_reference" where
  "createParams r = r\<lparr>cr_LastVerifiedAt := optionalTime (cr_LastVerifiedAt r),
     cr_CreatedAt := encodeTime (cr_CreatedAt r), cr_UpdatedAt := encodeTime (cr_UpdatedAt r)\<rparr>"

definition createCredentialReference ::
    "credential_reference \<Rightarrow> db \<Rightarrow> (credential_reference \<times> db) result" where
  "createCredentialReference row d =
     rbind (sql_insert (reference_check row) (cr_ID row \<notin> cr_ID ` set (db_references d)
          \<and> coordinates row \<notin> coordinates ` set (db_references d))
        (ref_ok (cr_ProviderID row) (map cp_ID (db_providers d))) row (db_references d))
       (\<lambda>(r, rows). Ok (r, d\<lparr>db_references := rows\<rparr>))"

definition CreateReference :: "credential_reference \<Rightarrow> credential_reference io" where
  "CreateReference r = io_write (createCredentialReference (createParams r))"

definition ReferenceByID :: "string \<Rightarrow> credential_reference io" where
  "ReferenceByID i = io_read (\<lambda>d. found (row_by cr_ID i (db_references d)))"

definition updateCredentialReferenceHealth ::
    "string \<Rightarrow> health_status \<Rightarrow> instant \<Rightarrow> instant \<Rightarrow> credential_reference list
     \<Rightarrow> (credential_reference \<times> credential_reference list) option result" where
  "updateCredentialReferenceHealth i status verifiedAt at rows =
     sql_update reference_check (\<lambda>r. cr_ID r = i)
       (\<lambda>r. r\<lparr>cr_HealthStatus := status, cr_LastVerifiedAt := verifiedAt, cr_UpdatedAt := at\<rparr>) rows"

definition SetReferenceHealth ::
    "string \<Rightarrow> health_status \<Rightarrow> instant \<Rightarrow> instant \<Rightarrow> credential_reference io" where
  "SetReferenceHealth i status verifiedAt at =
     io_write (\<lambda>d. not_found_update
       (updateCredentialReferenceHealth i status (optionalTime verifiedAt) (encodeTime at)
          (db_references d))
       (\<lambda>rows. d\<lparr>db_references := rows\<rparr>))"

section \<open>Registration\<close>

definition findOrCreateProvider :: "credential_provider \<Rightarrow> db \<Rightarrow> (string \<times> db) result" where
  "findOrCreateProvider p d =
     (case row_by provider_name (provider_name p) (db_providers d) of
        Some existing \<Rightarrow> Ok (cp_ID existing, d)
      | None \<Rightarrow> rbind (createCredentialProvider p d) (\<lambda>(row, d'). Ok (cp_ID row, d')))"

definition findOrCreateReference ::
    "credential_reference \<Rightarrow> db \<Rightarrow> (credential_reference \<times> db) result" where
  "findOrCreateReference r d =
     (case row_by coordinates (coordinates r) (db_references d) of
        Some existing \<Rightarrow> Ok (existing, d)
      | None \<Rightarrow> createCredentialReference (createParams r) d)"

text \<open>The transaction: when one of its statements fails, neither table changes.\<close>

definition registration_tx ::
    "credential_provider \<Rightarrow> credential_reference \<Rightarrow> db \<Rightarrow> (credential_reference \<times> db) result" where
  "registration_tx p r d =
     rbind (findOrCreateProvider p d) (\<lambda>(providerID, d').
       findOrCreateReference (r\<lparr>cr_ProviderID := providerID\<rparr>) d')"

definition CreateRegistration ::
    "credential_provider \<Rightarrow> credential_reference \<Rightarrow> credential_reference io" where
  "CreateRegistration p r = io_write (registration_tx p r)"

section \<open>Identities\<close>

definition createIdentity :: "identity \<Rightarrow> db \<Rightarrow> (identity \<times> db) result" where
  "createIdentity i d =
     (let row = i\<lparr>identity_CreatedAt := encodeTime (identity_CreatedAt i),
            identity_UpdatedAt := encodeTime (identity_UpdatedAt i)\<rparr> in
      rbind (sql_insert (identity_check row) (identity_ID row \<notin> identity_ID ` set (db_identities d)
          \<and> (identity_Service row, identity_AccountLabel row)
             \<notin> (\<lambda>x. (identity_Service x, identity_AccountLabel x)) ` set (db_identities d))
          (ref_ok (identity_CredentialReferenceID row) (map cr_ID (db_references d)))
          row (db_identities d))
        (\<lambda>(r, rows). Ok (r, d\<lparr>db_identities := rows\<rparr>)))"

definition CreateIdentity :: "identity \<Rightarrow> identity io" where
  "CreateIdentity i = io_write (createIdentity i)"

section \<open>What the tables keep\<close>

text \<open>A reference keeps its place, its service and its account; only its health is written.\<close>

definition reference_evolves :: "credential_reference \<Rightarrow> credential_reference \<Rightarrow> bool" where
  "reference_evolves r r' \<longleftrightarrow> r' = r\<lparr>cr_HealthStatus := cr_HealthStatus r',
     cr_LastVerifiedAt := cr_LastVerifiedAt r', cr_UpdatedAt := cr_UpdatedAt r'\<rparr>"

interpretation reference_rows: growing_table reference_evolves
proof
  show "reference_evolves r r" for r by (simp add: reference_evolves_def)
  show "reference_evolves a c" if "reference_evolves a b" "reference_evolves b c" for a b c
    using that unfolding reference_evolves_def by (cases a; cases b; cases c) simp
qed

interpretation provider_rows: growing_table "(=) :: credential_provider \<Rightarrow> _"
  by unfold_locales auto

text \<open>What the constraints say of the two tables together.\<close>

definition credentials_ok :: "db \<Rightarrow> bool" where
  "credentials_ok d \<longleftrightarrow> table_ok cp_ID provider_check (db_providers d)
     \<and> table_ok cr_ID reference_check (db_references d)
     \<and> distinct (map provider_name (db_providers d)) \<and> distinct (map coordinates (db_references d))
     \<and> cr_ProviderID ` set (db_references d) \<subseteq> cp_ID ` set (db_providers d)"

text \<open>The database apart from the two tables.\<close>

definition beyond_credentials :: "db \<Rightarrow> db" where
  "beyond_credentials d = d\<lparr>db_providers := [], db_references := []\<rparr>"

lemma beyond_credentials_upd [simp]:
  "beyond_credentials (d\<lparr>db_providers := ps\<rparr>) = beyond_credentials d"
  "beyond_credentials (d\<lparr>db_references := rs\<rparr>) = beyond_credentials d"
  by (simp_all add: beyond_credentials_def)

definition credential_history :: "db \<Rightarrow> db \<Rightarrow> bool" where
  "credential_history d d' \<longleftrightarrow> rows_evolve (=) (db_providers d) (db_providers d')
     \<and> rows_evolve reference_evolves (db_references d) (db_references d')
     \<and> (credentials_ok d \<longrightarrow> credentials_ok d')"

interpretation credentials: db_history credential_history
  using reference_rows.evolve_refl reference_rows.evolve_trans
    provider_rows.evolve_refl provider_rows.evolve_trans
  by unfold_locales (unfold credential_history_def, blast+)

lemma reference_evolvesD:
  assumes "reference_evolves r r'"
  shows "cr_ID r' = cr_ID r" "coordinates r' = coordinates r" "cr_ProviderID r' = cr_ProviderID r"
    "cr_ItemRef r' = cr_ItemRef r" "cr_Field r' = cr_Field r" "cr_Service r' = cr_Service r"
    "cr_AccountLabel r' = cr_AccountLabel r"
proof -
  have "cr_ID (r\<lparr>cr_HealthStatus := h, cr_LastVerifiedAt := v, cr_UpdatedAt := u\<rparr>) = cr_ID r"
    "coordinates (r\<lparr>cr_HealthStatus := h, cr_LastVerifiedAt := v, cr_UpdatedAt := u\<rparr>) = coordinates r"
    "cr_Service (r\<lparr>cr_HealthStatus := h, cr_LastVerifiedAt := v, cr_UpdatedAt := u\<rparr>) = cr_Service r"
    "cr_AccountLabel (r\<lparr>cr_HealthStatus := h, cr_LastVerifiedAt := v, cr_UpdatedAt := u\<rparr>)
       = cr_AccountLabel r" for h v u
    by (simp_all add: coordinates_def)
  with assms show "cr_ID r' = cr_ID r" "coordinates r' = coordinates r" "cr_Service r' = cr_Service r"
    "cr_AccountLabel r' = cr_AccountLabel r" unfolding reference_evolves_def by metis+
  then show "cr_ProviderID r' = cr_ProviderID r" "cr_ItemRef r' = cr_ItemRef r" "cr_Field r' = cr_Field r"
    by (simp_all add: coordinates_def)
qed

lemma createCredentialProvider_Ok:
  "createCredentialProvider p d = Ok (row, d') \<Longrightarrow> provider_name row = provider_name p \<and> cp_ID row = cp_ID p
     \<and> provider_check row \<and> cp_ID row \<notin> cp_ID ` set (db_providers d)
     \<and> provider_name row \<notin> provider_name ` set (db_providers d)
     \<and> d' = d\<lparr>db_providers := db_providers d @ [row]\<rparr>"
  by (auto simp: createCredentialProvider_def Let_def rbind_iffs sql_insert_Ok provider_name_def)

lemma createCredentialReference_Ok:
  "createCredentialReference r d = Ok (row, d') \<Longrightarrow> row = r \<and> reference_check r
     \<and> cr_ID r \<notin> cr_ID ` set (db_references d) \<and> coordinates r \<notin> coordinates ` set (db_references d)
     \<and> cr_ProviderID r \<in> cp_ID ` set (db_providers d)
     \<and> d' = d\<lparr>db_references := db_references d @ [r]\<rparr>"
  by (auto simp: createCredentialReference_def rbind_iffs sql_insert_Ok ref_ok_def)

lemma createCredentialProvider_history:
  "createCredentialProvider p d = Ok (row, d') \<Longrightarrow> credential_history d d'"
  by (clarsimp dest!: createCredentialProvider_Ok simp: credential_history_def credentials_ok_def
      provider_rows.evolve_append reference_rows.evolve_refl table_ok_insert) blast

lemma createCredentialReference_history:
  "createCredentialReference r d = Ok (row, d') \<Longrightarrow> credential_history d d'"
  by (clarsimp dest!: createCredentialReference_Ok simp: credential_history_def credentials_ok_def
      provider_rows.evolve_refl reference_rows.evolve_append table_ok_insert)

lemma row_by_Some: "row_by key k rows = Some r \<Longrightarrow> r \<in> set rows \<and> key r = k"
  unfolding row_by_def find_Some_iff by (metis nth_mem)

lemma findOrCreateProvider_Ok:
  assumes "findOrCreateProvider p d = Ok (i, d')"
  shows "credential_history d d'" "db_references d' = db_references d"
    "\<exists>row \<in> set (db_providers d'). cp_ID row = i \<and> provider_name row = provider_name p"
    "beyond_credentials d' = beyond_credentials d"
proof -
  have "credential_history d d' \<and> db_references d' = db_references d
    \<and> (\<exists>row \<in> set (db_providers d'). cp_ID row = i \<and> provider_name row = provider_name p)
    \<and> beyond_credentials d' = beyond_credentials d"
  proof (cases "row_by provider_name (provider_name p) (db_providers d)")
    case (Some row)
    with assms have "d' = d" "i = cp_ID row" by (simp_all add: findOrCreateProvider_def)
    with row_by_Some [OF Some] show ?thesis using credentials.hist_refl by blast
  next
    case None
    with assms obtain row where made: "createCredentialProvider p d = Ok (row, d')" "i = cp_ID row"
      by (auto simp: findOrCreateProvider_def rbind_iffs)
    from createCredentialProvider_Ok [OF made(1)] createCredentialProvider_history [OF made(1)] made(2)
    show ?thesis by simp
  qed
  then show "credential_history d d'" "db_references d' = db_references d"
    "\<exists>row \<in> set (db_providers d'). cp_ID row = i \<and> provider_name row = provider_name p"
    "beyond_credentials d' = beyond_credentials d" by blast+
qed

lemma findOrCreateReference_Ok:
  assumes "findOrCreateReference r d = Ok (row, d')"
  shows "credential_history d d'" "db_providers d' = db_providers d"
    "row \<in> set (db_references d')" "coordinates row = coordinates r"
    "beyond_credentials d' = beyond_credentials d"
    "row \<in> set (db_references d) \<and> d' = d \<or> row = createParams r
       \<and> db_references d' = db_references d @ [row]"
proof -
  have "credential_history d d' \<and> db_providers d' = db_providers d
    \<and> row \<in> set (db_references d') \<and> coordinates row = coordinates r
    \<and> beyond_credentials d' = beyond_credentials d
    \<and> (row \<in> set (db_references d) \<and> d' = d \<or> row = createParams r
       \<and> db_references d' = db_references d @ [row])"
  proof (cases "row_by coordinates (coordinates r) (db_references d)")
    case (Some existing)
    with assms have "d' = d" "row = existing" by (simp_all add: findOrCreateReference_def)
    with row_by_Some [OF Some] show ?thesis using credentials.hist_refl by blast
  next
    case None
    with assms have made: "createCredentialReference (createParams r) d = Ok (row, d')"
      by (simp add: findOrCreateReference_def)
    have "coordinates (createParams r) = coordinates r" by (simp add: coordinates_def createParams_def)
    with createCredentialReference_Ok [OF made] createCredentialReference_history [OF made]
    show ?thesis by simp
  qed
  then show "credential_history d d'" "db_providers d' = db_providers d"
    "row \<in> set (db_references d')" "coordinates row = coordinates r"
    "beyond_credentials d' = beyond_credentials d"
    "row \<in> set (db_references d) \<and> d' = d \<or> row = createParams r
       \<and> db_references d' = db_references d @ [row]" by blast+
qed

text \<open>An update of the health evolves the rows and keeps the constraints.\<close>

lemma set_health_Ok:
  assumes "not_found_update (updateCredentialReferenceHealth i s v at (db_references d))
     (\<lambda>rows. d\<lparr>db_references := rows\<rparr>) = Ok (r, d')"
  shows "credential_history d d'" "r \<in> set (db_references d')" "cr_ID r = i"
    "cr_HealthStatus r = s" "\<exists>r0 \<in> set (db_references d). reference_evolves r0 r"
    "\<forall>x \<in> set (db_references d'). cr_ID x = i \<longrightarrow> cr_HealthStatus x = s"
    "beyond_credentials d' = beyond_credentials d"
    "db_providers d' = db_providers d" "length (db_references d') = length (db_references d)"
proof -
  let ?f = "\<lambda>r. r\<lparr>cr_HealthStatus := s, cr_LastVerifiedAt := v, cr_UpdatedAt := at\<rparr>"
  from assms obtain rows where u: "sql_update reference_check (\<lambda>r. cr_ID r = i) ?f (db_references d)
      = Ok (Some (r, rows))" and d': "d' = d\<lparr>db_references := rows\<rparr>"
    by (auto simp: not_found_update_def updateCredentialReferenceHealth_def rbind_iffs
        split: option.splits)
  from u obtain r0 where r0: "r0 \<in> set (db_references d)" "cr_ID r0 = i" "r = ?f r0" "r \<in> set rows"
    and rows: "rows = map (\<lambda>x. if cr_ID x = i then ?f x else x) (db_references d)"
    by (elim sql_update_row) blast
  have ev: "reference_evolves x (?f x)" for x by (simp add: reference_evolves_def)
  have "rows_evolve reference_evolves (db_references d) rows"
    using reference_rows.evolve_sql_update [OF u] ev by blast
  moreover have "map coordinates rows = map coordinates (db_references d)"
    "cr_ProviderID ` set rows = cr_ProviderID ` set (db_references d)"
    unfolding rows set_map image_image by (auto simp: coordinates_def intro!: image_cong)
  moreover have "table_ok cr_ID reference_check rows"
    if "table_ok cr_ID reference_check (db_references d)"
    by (rule table_ok_update [OF that u]) auto
  ultimately show "credential_history d d'"
    unfolding credential_history_def credentials_ok_def d' by (auto simp: provider_rows.evolve_refl)
  show "r \<in> set (db_references d')" "cr_ID r = i" "cr_HealthStatus r = s"
    "\<exists>r0 \<in> set (db_references d). reference_evolves r0 r"
    "beyond_credentials d' = beyond_credentials d"
    "db_providers d' = db_providers d" "length (db_references d') = length (db_references d)"
    using r0 ev d' rows by simp_all blast
  show "\<forall>x \<in> set (db_references d'). cr_ID x = i \<longrightarrow> cr_HealthStatus x = s"
  proof
    fix x assume "x \<in> set (db_references d')"
    then obtain y where "x = (if cr_ID y = i then ?f y else y)" unfolding d' rows by fastforce
    then show "cr_ID x = i \<longrightarrow> cr_HealthStatus x = s" by simp
  qed
qed

lemma registration_tx_Ok:
  assumes "registration_tx p r d = Ok (row, d')"
  shows "credential_history d d'" "row \<in> set (db_references d')"
    "cr_ItemRef row = cr_ItemRef r" "cr_Field row = cr_Field r"
    "\<exists>q \<in> set (db_providers d'). cp_ID q = cr_ProviderID row \<and> provider_name q = provider_name p"
    "beyond_credentials d' = beyond_credentials d"
    "row \<in> set (db_references d) \<or> db_references d' = db_references d @ [row]
       \<and> cr_Service row = cr_Service r \<and> cr_ID row = cr_ID r \<and> cr_HealthStatus row = cr_HealthStatus r
       \<and> cr_AccountLabel row = cr_AccountLabel r"
proof -
  from assms obtain i d1 where p: "findOrCreateProvider p d = Ok (i, d1)"
    and r: "findOrCreateReference (r\<lparr>cr_ProviderID := i\<rparr>) d1 = Ok (row, d')"
    by (auto simp: registration_tx_def rbind_iffs)
  note P = findOrCreateProvider_Ok [OF p] and R = findOrCreateReference_Ok [OF r]
  show "credential_history d d'" using P(1) R(1) by (rule credentials.hist_trans)
  show "row \<in> set (db_references d')" by (rule R(3))
  show "cr_ItemRef row = cr_ItemRef r" "cr_Field row = cr_Field r"
    using R(4) by (simp_all add: coordinates_def)
  show "\<exists>q \<in> set (db_providers d'). cp_ID q = cr_ProviderID row \<and> provider_name q = provider_name p"
    using P(3) R(2,4) by (auto simp: coordinates_def)
  show "beyond_credentials d' = beyond_credentials d"
    using P(4) R(5) by simp
  show "row \<in> set (db_references d) \<or> db_references d' = db_references d @ [row]
       \<and> cr_Service row = cr_Service r \<and> cr_ID row = cr_ID r \<and> cr_HealthStatus row = cr_HealthStatus r
       \<and> cr_AccountLabel row = cr_AccountLabel r"
    using R(6) P(2) by (auto simp: createParams_def)
qed

lemma credential_history_same:
  "db_providers d' = db_providers d \<Longrightarrow> db_references d' = db_references d \<Longrightarrow> credential_history d d'"
  by (simp add: credential_history_def credentials_ok_def provider_rows.evolve_refl
      reference_rows.evolve_refl)

lemma createIdentity_history: "createIdentity i d = Ok (r, d') \<Longrightarrow> credential_history d d'"
  by (rule credential_history_same) (auto simp: createIdentity_def Let_def rbind_iffs sql_insert_Ok)

lemma credential_repo_keeps:
  "credentials.keeps (CreateProvider p)" "credentials.keeps (ProviderByID i)"
  "credentials.keeps (ProviderByKindAndLabel kind label)" "credentials.keeps (CreateReference r)"
  "credentials.keeps (ReferenceByID i)" "credentials.keeps (SetReferenceHealth i s v at)"
  "credentials.keeps (CreateRegistration p r)" "credentials.keeps (CreateIdentity x)"
  unfolding CreateProvider_def ProviderByID_def ProviderByKindAndLabel_def CreateReference_def
    ReferenceByID_def SetReferenceHealth_def CreateRegistration_def CreateIdentity_def
  by (intro credentials.keeps_pure credentials.keeps_write
      createCredentialProvider_history createCredentialReference_history set_health_Ok(1)
      registration_tx_Ok(1) createIdentity_history; assumption)+

end
