(* ===== verification/Unlock_Waiter.thy ===== *)
theory Unlock_Waiter
  imports Go_Base
begin

text \<open>
  Waiting for a locked credential source (\<open>internal/credential/registry/unlock.go\<close>) and the way
  \<open>Registry.Fetch\<close> uses it.  A waiter registers a channel and selects on it, on a timer and on the
  end of its request; unlocking closes the channels of all waiters.  The methods are functions on
  the state of the waiter; requests, the source and the broadcast interleave in the step relation
  \<open>fetch_step\<close>, one step per critical section.
\<close>

section \<open>The waiter\<close>

definition DefaultUnlockTimeout :: duration where "DefaultUnlockTimeout = 2 * minute"

text \<open>What \<open>select\<close> ended with, and the error \<open>Wait\<close> makes of it.\<close>

datatype wait_outcome = Woken | TimedOut | Cancelled

fun wait_error :: "wait_outcome \<Rightarrow> code option" where
  "wait_error Woken = None"
| "wait_error TimedOut = Some CodeProviderLockedTimeout"
| "wait_error Cancelled = Some CodeGatewayUnavailable"

text \<open>Channels are numbered in the order they are made; \<open>uw_closed\<close> are the closed ones.\<close>

record unlock_waiter =
  uw_waiters :: "nat set"
  uw_closed :: "nat set"
  uw_next :: nat

definition NewUnlockWaiter :: unlock_waiter where
  "NewUnlockWaiter = \<lparr>uw_waiters = {}, uw_closed = {}, uw_next = 0\<rparr>"

text \<open>The time \<open>Wait\<close> allows.\<close>

definition unlock_timeout :: "duration \<Rightarrow> duration" where
  "unlock_timeout configured = (if configured \<le> 0 then DefaultUnlockTimeout else configured)"

definition Waiting :: "unlock_waiter \<Rightarrow> nat" where
  "Waiting w = card (uw_waiters w)"

text \<open>Closing a closed channel panics: \<open>None\<close>.\<close>

definition Unlocked :: "unlock_waiter \<Rightarrow> unlock_waiter option" where
  "Unlocked w = (if uw_waiters w \<inter> uw_closed w \<noteq> {} then None
     else Some (w\<lparr>uw_closed := uw_closed w \<union> uw_waiters w, uw_waiters := {}\<rparr>))"

definition register :: "unlock_waiter \<Rightarrow> nat \<times> unlock_waiter" where
  "register w = (uw_next w, w\<lparr>uw_waiters := insert (uw_next w) (uw_waiters w), uw_next := Suc (uw_next w)\<rparr>)"

definition unregister :: "nat \<Rightarrow> unlock_waiter \<Rightarrow> unlock_waiter" where
  "unregister signal w = w\<lparr>uw_waiters := uw_waiters w - {signal}\<rparr>"

section \<open>Fetching while the source may be locked\<close>

text \<open>Where a call of \<open>Registry.Fetch\<close> stands: asking the source, before and in \<open>Wait\<close>, leaving it,
  asking again, and ended with an error or with the secret.\<close>

datatype fetch_pc = Asking | Entering | Selecting nat | Leaving nat wait_outcome | AskingAgain
  | Ended "code option"

record fetch_system =
  fs_locked :: bool
  fs_waiter :: unlock_waiter
  fs_panicked :: bool
  fs_pc :: "nat \<Rightarrow> fetch_pc"
  fs_fired :: "nat set"
  fs_cancelled :: "nat set"

datatype fetch_event = Ask nat | Enter nat | Wake nat | TimeOut nat | Cancel nat | Leave nat
  | AskAgain nat | Fires nat | Cancels nat | Opens | Locks | Broadcast

abbreviation goto :: "nat \<Rightarrow> fetch_pc \<Rightarrow> fetch_system \<Rightarrow> fetch_system" where
  "goto p pc s \<equiv> s\<lparr>fs_pc := (fs_pc s)(p := pc)\<rparr>"

inductive fetch_step :: "fetch_system \<Rightarrow> fetch_event \<Rightarrow> fetch_system \<Rightarrow> bool" where
  ask_locked: "fs_pc s p = Asking \<Longrightarrow> fs_locked s \<Longrightarrow> fetch_step s (Ask p) (goto p Entering s)"
| ask_open: "fs_pc s p = Asking \<Longrightarrow> \<not> fs_locked s \<Longrightarrow> fetch_step s (Ask p) (goto p (Ended None) s)"
| enter: "fs_pc s p = Entering \<Longrightarrow> register (fs_waiter s) = (ch, w)
    \<Longrightarrow> fetch_step s (Enter p) (goto p (Selecting ch) (s\<lparr>fs_waiter := w\<rparr>))"
| wake: "fs_pc s p = Selecting ch \<Longrightarrow> ch \<in> uw_closed (fs_waiter s)
    \<Longrightarrow> fetch_step s (Wake p) (goto p (Leaving ch Woken) s)"
| time_out: "fs_pc s p = Selecting ch \<Longrightarrow> p \<in> fs_fired s
    \<Longrightarrow> fetch_step s (TimeOut p) (goto p (Leaving ch TimedOut) s)"
| cancel: "fs_pc s p = Selecting ch \<Longrightarrow> p \<in> fs_cancelled s
    \<Longrightarrow> fetch_step s (Cancel p) (goto p (Leaving ch Cancelled) s)"
| leave: "fs_pc s p = Leaving ch r
    \<Longrightarrow> fetch_step s (Leave p)
      (goto p (if r = Woken then AskingAgain else Ended (wait_error r))
        (s\<lparr>fs_waiter := unregister ch (fs_waiter s)\<rparr>))"
| ask_again: "fs_pc s p = AskingAgain
    \<Longrightarrow> fetch_step s (AskAgain p) (goto p (Ended (if fs_locked s then Some CodeVaultLocked else None)) s)"
| fires: "fs_pc s p = Selecting ch \<Longrightarrow> fetch_step s (Fires p) (s\<lparr>fs_fired := insert p (fs_fired s)\<rparr>)"
| cancels: "fetch_step s (Cancels p) (s\<lparr>fs_cancelled := insert p (fs_cancelled s)\<rparr>)"
| opens: "fetch_step s Opens (s\<lparr>fs_locked := False\<rparr>)"
| locks: "fetch_step s Locks (s\<lparr>fs_locked := True\<rparr>)"
| broadcast: "Unlocked (fs_waiter s) = Some w \<Longrightarrow> fetch_step s Broadcast (s\<lparr>fs_waiter := w\<rparr>)"
| broadcast_panics: "Unlocked (fs_waiter s) = None \<Longrightarrow> fetch_step s Broadcast (s\<lparr>fs_panicked := True\<rparr>)"

inductive_cases fetch_stepE: "fetch_step s e s'"

inductive fetch_run :: "fetch_system \<Rightarrow> fetch_event list \<Rightarrow> fetch_system \<Rightarrow> bool" where
  run_Nil: "fetch_run s [] s"
| run_Cons: "fetch_step s e t \<Longrightarrow> fetch_run t es u \<Longrightarrow> fetch_run s (e # es) u"

definition fetch_start :: "bool \<Rightarrow> fetch_system" where
  "fetch_start is_locked = \<lparr>fs_locked = is_locked, fs_waiter = NewUnlockWaiter, fs_panicked = False,
     fs_pc = (\<lambda>_. Asking), fs_fired = {}, fs_cancelled = {}\<rparr>"

text \<open>The steps a request takes itself.\<close>

fun own :: "nat \<Rightarrow> fetch_event \<Rightarrow> bool" where
  "own p (Ask q) = (q = p)" | "own p (Enter q) = (q = p)" | "own p (Wake q) = (q = p)"
| "own p (TimeOut q) = (q = p)" | "own p (Cancel q) = (q = p)" | "own p (Leave q) = (q = p)"
| "own p (AskAgain q) = (q = p)" | "own p _ = False"

section \<open>The state in every run\<close>

fun held :: "fetch_pc \<Rightarrow> nat option" where
  "held (Selecting ch) = Some ch" | "held (Leaving ch r) = Some ch" | "held _ = None"

text \<open>Registered channels are open, belong to one request each, and a request that waits has its
  channel registered or closed.\<close>

definition channels_ok :: "unlock_waiter \<Rightarrow> (nat \<Rightarrow> nat option) \<Rightarrow> bool" where
  "channels_ok w h \<longleftrightarrow> uw_waiters w \<inter> uw_closed w = {}
     \<and> (\<forall>ch \<in> uw_waiters w \<union> uw_closed w. ch < uw_next w)
     \<and> (\<forall>p ch. h p = Some ch \<longrightarrow> ch \<in> uw_waiters w \<union> uw_closed w)
     \<and> (\<forall>p q ch. h p = Some ch \<longrightarrow> h q = Some ch \<longrightarrow> p = q)
     \<and> (\<forall>ch \<in> uw_waiters w. \<exists>p. h p = Some ch)"

definition waiter_ok :: "fetch_system \<Rightarrow> bool" where
  "waiter_ok s \<longleftrightarrow> \<not> fs_panicked s \<and> channels_ok (fs_waiter s) (held \<circ> fs_pc s)"

lemma waiter_ok_start: "waiter_ok (fetch_start b)"
  by (simp add: waiter_ok_def channels_ok_def fetch_start_def NewUnlockWaiter_def)

lemma channels_ok_enter:
  assumes ok: "channels_ok w h" and p: "h p = None" and r: "register w = (ch, w')"
  shows "channels_ok w' (h(p \<mapsto> ch))"
proof -
  from ok have "ch \<notin> uw_waiters w \<union> uw_closed w"
    using r unfolding channels_ok_def register_def by blast
  moreover from this have "h q \<noteq> Some ch" for q using ok unfolding channels_ok_def by blast
  moreover have "w' = w\<lparr>uw_waiters := insert ch (uw_waiters w), uw_next := Suc ch\<rparr>" "ch = uw_next w"
    using r by (auto simp: register_def)
  ultimately show ?thesis
    using ok p unfolding channels_ok_def by (auto simp: less_Suc_eq) (metis option.distinct(1))
qed

lemma channels_ok_leave:
  assumes ok: "channels_ok w h" and p: "h p = Some ch"
  shows "channels_ok (unregister ch w) (h(p := None))"
proof -
  have "h q = Some ch \<longleftrightarrow> q = p" for q using ok p unfolding channels_ok_def by blast
  then show ?thesis using ok unfolding channels_ok_def unregister_def by auto (metis option.inject)
qed

lemma channels_ok_broadcast:
  "channels_ok w h \<Longrightarrow> Unlocked w = Some w' \<Longrightarrow> channels_ok w' h"
  unfolding channels_ok_def Unlocked_def by (clarsimp split: if_splits) blast

lemma held_upd: "held \<circ> f(p := pc) = (held \<circ> f)(p := held pc)"
  by (auto simp: fun_eq_iff)

lemma waiter_ok_goto:
  assumes "waiter_ok s" and "held pc = held (fs_pc s p)"
  shows "waiter_ok (goto p pc s)"
proof -
  have "(held \<circ> fs_pc s)(p := held pc) = held \<circ> fs_pc s" using assms(2) by (auto simp: fun_eq_iff)
  with assms(1) show ?thesis by (simp add: waiter_ok_def held_upd)
qed

lemma waiter_ok_step: "fetch_step s e t \<Longrightarrow> waiter_ok s \<Longrightarrow> waiter_ok t"
proof (induction rule: fetch_step.induct)
  case (leave s p ch r)
  then show ?case using channels_ok_leave [of "fs_waiter s" "held \<circ> fs_pc s" p ch]
    by (simp add: waiter_ok_def held_upd)
next
  case (enter s p ch w)
  then show ?case using channels_ok_enter [of "fs_waiter s" "held \<circ> fs_pc s" p ch w]
    by (simp add: waiter_ok_def held_upd)
next
  case (broadcast s w)
  then show ?case using channels_ok_broadcast by (auto simp: waiter_ok_def)
next
  case (broadcast_panics s)
  then show ?case by (auto simp: waiter_ok_def channels_ok_def Unlocked_def split: if_splits)
qed (simp_all add: waiter_ok_goto, simp_all add: waiter_ok_def)

lemma waiter_ok_run: "fetch_run s es t \<Longrightarrow> waiter_ok s \<Longrightarrow> waiter_ok t"
  by (induction rule: fetch_run.induct) (auto intro: waiter_ok_step)

lemma waiter_ok_reached: "fetch_run (fetch_start b) es s \<Longrightarrow> waiter_ok s"
  using waiter_ok_run waiter_ok_start by blast

text \<open>No channel is ever closed twice, and \<open>Waiting\<close> is what the interface shows: however requests,
  unlockings, timers and cancellations interleave, no broadcast panics, and the waiter counts exactly
  the requests that are in \<open>Wait\<close> and have not been woken.\<close>

theorem waiting_counts_requests:
  assumes "fetch_run (fetch_start b) es s"
  shows "\<not> fs_panicked s
    \<and> Waiting (fs_waiter s)
      = card {p. \<exists>ch. held (fs_pc s p) = Some ch \<and> ch \<notin> uw_closed (fs_waiter s)}"
proof -
  let ?w = "fs_waiter s" and ?P = "{p. \<exists>ch. held (fs_pc s p) = Some ch \<and> ch \<notin> uw_closed (fs_waiter s)}"
  from waiter_ok_reached [OF assms] have np: "\<not> fs_panicked s"
    and ok: "channels_ok ?w (held \<circ> fs_pc s)" by (simp_all add: waiter_ok_def)
  have "uw_waiters ?w = (\<lambda>p. the (held (fs_pc s p))) ` ?P"
  proof
    show "uw_waiters ?w \<subseteq> (\<lambda>p. the (held (fs_pc s p))) ` ?P"
    proof
      fix ch assume ch: "ch \<in> uw_waiters ?w"
      then obtain p where "held (fs_pc s p) = Some ch" using ok by (auto simp: channels_ok_def)
      moreover have "ch \<notin> uw_closed ?w" using ch ok by (auto simp: channels_ok_def)
      ultimately show "ch \<in> (\<lambda>p. the (held (fs_pc s p))) ` ?P" by (force intro!: image_eqI)
    qed
    have "ch \<in> uw_waiters ?w" if "held (fs_pc s p) = Some ch" "ch \<notin> uw_closed ?w" for p ch
      using that ok unfolding channels_ok_def by (metis UnE comp_apply)
    then show "(\<lambda>p. the (held (fs_pc s p))) ` ?P \<subseteq> uw_waiters ?w" by auto
  qed
  moreover have "inj_on (\<lambda>p. the (held (fs_pc s p))) ?P"
    using ok by (auto simp: channels_ok_def inj_on_def)
  ultimately have "card (uw_waiters ?w) = card ?P" by (simp add: card_image)
  with np show ?thesis by (simp add: Waiting_def)
qed

section \<open>Every call ends, and a broadcast wakes who waits\<close>

fun steps_left :: "fetch_pc \<Rightarrow> nat" where
  "steps_left Asking = 5" | "steps_left Entering = 4" | "steps_left (Selecting ch) = 3"
| "steps_left (Leaving ch r) = 2" | "steps_left AskingAgain = 1" | "steps_left (Ended r) = 0"

lemma other_steps: "fetch_step s e t \<Longrightarrow> \<not> own p e \<Longrightarrow> fs_pc t p = fs_pc s p"
  by (induction rule: fetch_step.induct) auto

lemma own_steps: "fetch_step s e t \<Longrightarrow> own p e \<Longrightarrow> steps_left (fs_pc t p) < steps_left (fs_pc s p)"
  by (induction rule: fetch_step.induct) auto

lemma closed_stays: "fetch_step s e t \<Longrightarrow> uw_closed (fs_waiter s) \<subseteq> uw_closed (fs_waiter t)"
  by (induction rule: fetch_step.induct) (auto simp: register_def unregister_def Unlocked_def split: if_splits)

lemma run_steps_left:
  "fetch_run s es t \<Longrightarrow> length (filter (own p) es) + steps_left (fs_pc t p) \<le> steps_left (fs_pc s p)"
proof (induction rule: fetch_run.induct)
  case (run_Cons s e t es u)
  then show ?case using own_steps [OF run_Cons.hyps(1), of p] other_steps [OF run_Cons.hyps(1), of p]
    by (cases "own p e") auto
qed simp

definition fetch_errors :: "code set" where
  "fetch_errors = {CodeProviderLockedTimeout, CodeGatewayUnavailable, CodeVaultLocked}"

lemma ended_step:
  "fetch_step s e t \<Longrightarrow> fs_pc s p \<noteq> Ended (Some c) \<Longrightarrow> fs_pc t p = Ended (Some c) \<Longrightarrow> c \<in> fetch_errors"
proof (induction rule: fetch_step.induct)
  case (leave s q ch r)
  then show ?case by (cases r) (auto simp: fetch_errors_def split: if_splits)
qed (auto simp: fetch_errors_def split: if_splits)

lemma ended_run:
  "fetch_run s es t \<Longrightarrow> fs_pc t p = Ended (Some c) \<Longrightarrow> fs_pc s p = Ended (Some c) \<or> c \<in> fetch_errors"
  by (induction rule: fetch_run.induct) (auto dest: ended_step)

lemma own_enabled:
  assumes "\<And>r. fs_pc s p \<noteq> Ended r" and "\<And>ch. fs_pc s p \<noteq> Selecting ch"
  shows "\<exists>e t. own p e \<and> fetch_step s e t"
proof (cases "fs_pc s p")
  case Asking
  then show ?thesis using ask_locked ask_open by (cases "fs_locked s") (metis own.simps(1))+
next
  case Entering
  then show ?thesis using enter by (metis own.simps(2) prod.exhaust)
next
  case (Leaving ch r)
  then show ?thesis using leave by (metis own.simps(6))
next
  case AskingAgain
  then show ?thesis using ask_again by (metis own.simps(7))
qed (use assms in auto)



text \<open>A broadcast that comes between the answer of the locked source and the registration reaches
  nobody: the source is open, and the request waits for its timer and fails.\<close>

lemma late_waiter_misses_unlock:
  "\<exists>s. fetch_run (fetch_start True) [Ask 0, Opens, Broadcast, Enter 0] s
     \<and> \<not> fs_locked s \<and> fs_pc s 0 = Selecting 0 \<and> 0 \<notin> uw_closed (fs_waiter s)
     \<and> (\<exists>t. fetch_run s [Fires 0, TimeOut 0, Leave 0] t
          \<and> \<not> fs_locked t \<and> fs_pc t 0 = Ended (Some CodeProviderLockedTimeout))"
proof -
  let ?s1 = "goto 0 Entering (fetch_start True)"
  let ?s2 = "?s1\<lparr>fs_locked := False\<rparr>"
  let ?s3 = "?s2\<lparr>fs_waiter := NewUnlockWaiter\<rparr>"
  let ?w = "\<lparr>uw_waiters = {0}, uw_closed = {}, uw_next = 1\<rparr>"
  let ?s4 = "goto 0 (Selecting 0) (?s3\<lparr>fs_waiter := ?w\<rparr>)"
  let ?s5 = "?s4\<lparr>fs_fired := insert 0 (fs_fired ?s4)\<rparr>"
  let ?s6 = "goto 0 (Leaving 0 TimedOut) ?s5"
  let ?s7 = "goto 0 (if TimedOut = Woken then AskingAgain else Ended (wait_error TimedOut))
    (?s6\<lparr>fs_waiter := unregister 0 (fs_waiter ?s6)\<rparr>)"
  have 1: "fetch_step (fetch_start True) (Ask 0) ?s1"
    by (rule ask_locked) (simp_all add: fetch_start_def)
  have 2: "fetch_step ?s1 Opens ?s2" by (rule opens)
  have 3: "fetch_step ?s2 Broadcast ?s3"
    by (rule broadcast) (simp add: fetch_start_def Unlocked_def NewUnlockWaiter_def)
  have 4: "fetch_step ?s3 (Enter 0) ?s4"
    by (rule enter) (simp_all add: register_def NewUnlockWaiter_def)
  have 5: "fetch_step ?s4 (Fires 0) ?s5" by (rule fires) simp
  have 6: "fetch_step ?s5 (TimeOut 0) ?s6" by (rule time_out) simp_all
  have 7: "fetch_step ?s6 (Leave 0) ?s7" by (rule leave) simp
  have "fetch_run (fetch_start True) [Ask 0, Opens, Broadcast, Enter 0] ?s4"
    by (intro run_Cons [OF 1] run_Cons [OF 2] run_Cons [OF 3] run_Cons [OF 4] run_Nil)
  moreover have "fetch_run ?s4 [Fires 0, TimeOut 0, Leave 0] ?s7"
    by (intro run_Cons [OF 5] run_Cons [OF 6] run_Cons [OF 7] run_Nil)
  moreover have "\<not> fs_locked ?s4" "fs_pc ?s4 0 = Selecting 0" "0 \<notin> uw_closed (fs_waiter ?s4)"
    "\<not> fs_locked ?s7" "fs_pc ?s7 0 = Ended (Some CodeProviderLockedTimeout)" by simp_all
  ultimately show ?thesis by blast
qed

text \<open>Concrete runs on which the theorems apply.\<close>

lemma waiting_run:
  "\<exists>s t. fetch_run (fetch_start True) [Ask 0, Enter 0] s \<and> fs_pc s 0 = Selecting 0
     \<and> fetch_step s Broadcast t"
proof -
  let ?s1 = "goto 0 Entering (fetch_start True)"
  let ?s2 = "goto 0 (Selecting 0) (?s1\<lparr>fs_waiter := \<lparr>uw_waiters = {0}, uw_closed = {}, uw_next = 1\<rparr>\<rparr>)"
  have 1: "fetch_step (fetch_start True) (Ask 0) ?s1"
    by (rule ask_locked) (simp_all add: fetch_start_def)
  have 2: "fetch_step ?s1 (Enter 0) ?s2"
    by (rule enter) (simp_all add: fetch_start_def register_def NewUnlockWaiter_def)
  have "fetch_step ?s2 Broadcast (?s2\<lparr>fs_waiter := \<lparr>uw_waiters = {}, uw_closed = {0}, uw_next = 1\<rparr>\<rparr>)"
    by (rule broadcast) (simp add: Unlocked_def)
  moreover have "fetch_run (fetch_start True) [Ask 0, Enter 0] ?s2"
    by (intro run_Cons [OF 1] run_Cons [OF 2] run_Nil)
  moreover have "fs_pc ?s2 0 = Selecting 0" by simp
  ultimately show ?thesis by blast
qed

theorem waiting_counts_requests_witness:
  "\<exists>s. fetch_run (fetch_start True) [Ask 0, Enter 0] s \<and> \<not> fs_panicked s"
  using waiting_run waiting_counts_requests by blast



end
