(* ===== verification/Credential_Registry.thy ===== *)
theory Credential_Registry
  imports Credential_Repo Unlock_Waiter Lease
begin

text \<open>
  The credential registry (\<open>internal/credential/registry/registry.go\<close>): the only way to a secret.
  It registers sources and references, fetches a secret through the reference of an identity, probes
  the health of a reference and disconnects it.  A source is a program outside (1Password, the
  keychain) or the local vault; what it answers is a schedule over the moments of the world, and so
  is what the wait for a locked source ends with.
\<close>

section \<open>Sources\<close>

definition ProbeInterval :: duration where "ProbeInterval = minute"

record source =
  src_Available :: "nat \<Rightarrow> code option"
  src_Fetch :: "nat \<Rightarrow> credential_reference \<Rightarrow> code + string"

record credential_registry =
  crg_sources :: "provider_kind \<rightharpoonup> source"
  crg_wait :: "nat \<Rightarrow> wait_outcome"

definition implemented :: "provider_kind list" where
  "implemented = [KindOnePassword, KindMacOSKeychain, KindLocalVault]"

definition supported :: "provider_kind \<Rightarrow> bool" where
  "supported kind = list_ex (\<lambda>known. kind = known) implemented"

definition credential_New :: "(nat \<Rightarrow> wait_outcome) \<Rightarrow> credential_registry" where
  "credential_New unlock = \<lparr>crg_sources = Map.empty, crg_wait = unlock\<rparr>"

definition credential_Register ::
    "provider_kind \<Rightarrow> source option \<Rightarrow> credential_registry \<Rightarrow> credential_registry result" where
  "credential_Register kind source reg =
     (case source of
        None \<Rightarrow> Err CodeInvalidConfiguration
      | Some s \<Rightarrow>
          if \<not> supported kind then Err CodeInvalidConfiguration
          else if crg_sources reg kind \<noteq> None then Err CodeInvalidConfiguration
          else Ok (reg\<lparr>crg_sources := (crg_sources reg)(kind \<mapsto> s)\<rparr>))"

definition Kinds :: "credential_registry \<Rightarrow> provider_kind list" where
  "Kinds reg = filter (\<lambda>kind. crg_sources reg kind \<noteq> None) implemented"

text \<open>Asking a program outside: the answer belongs to the moment, the database is not involved.\<close>

definition ask :: "(nat \<Rightarrow> code + 'a) \<Rightarrow> 'a io" where
  "ask answer = (\<lambda>w. ((case answer (w_tick w) of Inl c \<Rightarrow> Err c | Inr a \<Rightarrow> Ok a), tick w))"

definition source_available :: "source \<Rightarrow> unit io" where
  "source_available s = ask (\<lambda>n. case src_Available s n of None \<Rightarrow> Inr () | Some c \<Rightarrow> Inl c)"

definition source_fetch :: "source \<Rightarrow> credential_reference \<Rightarrow> string io" where
  "source_fetch s reference = ask (\<lambda>n. src_Fetch s n reference)"

definition unlock_wait :: "credential_registry \<Rightarrow> unit io" where
  "unlock_wait reg = ask (\<lambda>n. case wait_error (crg_wait reg n) of None \<Rightarrow> Inr () | Some c \<Rightarrow> Inl c)"

section \<open>Registering a reference\<close>

record credential_registration =
  rs_ProviderID :: string
  rs_ReferenceID :: string
  rs_Kind :: provider_kind
  rs_ProviderLabel :: string
  rs_ItemRef :: string
  rs_Field :: string
  rs_Service :: string
  rs_AccountLabel :: string

definition asCoordinateFailure :: "code \<Rightarrow> code" where
  "asCoordinateFailure c =
     (if c = CodeProviderLockedTimeout \<or> c = CodeVaultLocked then c else CodeCredentialNotAuthorized)"

text \<open>The reference that \<open>resolves\<close> asks for: only the place and the service are set.\<close>

definition probed_place :: "credential_registration \<Rightarrow> credential_reference" where
  "probed_place spec = \<lparr>cr_ID = [], cr_ProviderID = [], cr_ItemRef = rs_ItemRef spec,
     cr_Field = rs_Field spec, cr_Service = rs_Service spec, cr_AccountLabel = [], cr_Metadata = NoText,
     cr_Capabilities = NoText, cr_HealthStatus = HealthOther [], cr_LastVerifiedAt = 0,
     cr_CreatedAt = 0, cr_UpdatedAt = 0\<rparr>"

definition resolves :: "source \<Rightarrow> credential_registration \<Rightarrow> unit io" where
  "resolves s spec =
     io_bind (io_try (source_fetch s (probed_place spec))) (\<lambda>answer. case answer of
        Inl c \<Rightarrow> io_fail (asCoordinateFailure c)
      | Inr v \<Rightarrow> if v = [] then io_fail CodeCredentialNotAuthorized else io_return ())"

definition new_provider :: "credential_registration \<Rightarrow> instant \<Rightarrow> credential_provider" where
  "new_provider spec now = \<lparr>cp_ID = rs_ProviderID spec, cp_Kind = rs_Kind spec,
     cp_Label = rs_ProviderLabel spec, cp_CreatedAt = now, cp_UpdatedAt = now\<rparr>"

definition new_reference :: "credential_registration \<Rightarrow> instant \<Rightarrow> credential_reference" where
  "new_reference spec now = \<lparr>cr_ID = rs_ReferenceID spec, cr_ProviderID = [],
     cr_ItemRef = rs_ItemRef spec, cr_Field = rs_Field spec, cr_Service = rs_Service spec,
     cr_AccountLabel = rs_AccountLabel spec, cr_Metadata = Parsed (JObj []),
     cr_Capabilities = Parsed (JArr []), cr_HealthStatus = HealthOK, cr_LastVerifiedAt = now,
     cr_CreatedAt = now, cr_UpdatedAt = now\<rparr>"

definition RegisterReference ::
    "credential_registry \<Rightarrow> credential_registration \<Rightarrow> credential_reference io" where
  "RegisterReference reg spec =
     (case crg_sources reg (rs_Kind spec) of
        None \<Rightarrow> io_fail CodeProviderUnavailable
      | Some s \<Rightarrow>
          io_bind (source_available s) (\<lambda>_.
          io_bind (resolves s spec) (\<lambda>_.
          io_bind io_now (\<lambda>now.
          io_bind (CreateRegistration (new_provider spec now) (new_reference spec now)) (\<lambda>settled.
            if cr_Service settled \<noteq> rs_Service spec then io_fail CodeConflict
            else if cr_HealthStatus settled \<noteq> HealthOK \<or> cr_LastVerifiedAt settled < now
            then SetReferenceHealth (cr_ID settled) HealthOK now now
            else io_return settled)))))"

section \<open>Fetching, probing, disconnecting\<close>

definition locate :: "credential_registry \<Rightarrow> string \<Rightarrow> (credential_reference \<times> source) io" where
  "locate reg referenceID =
     (if referenceID = [] then io_fail CodeInvalidRequest
      else io_bind (ReferenceByID referenceID) (\<lambda>reference.
           io_bind (ProviderByID (cr_ProviderID reference)) (\<lambda>provider.
             case crg_sources reg (cp_Kind provider) of
               None \<Rightarrow> io_fail CodeProviderUnavailable
             | Some s \<Rightarrow> io_return (reference, s))))"

definition credential_Fetch :: "credential_registry \<Rightarrow> string \<Rightarrow> string io" where
  "credential_Fetch reg referenceID =
     io_bind (locate reg referenceID) (\<lambda>(reference, s).
       if cr_HealthStatus reference \<noteq> HealthOK then io_fail CodeProviderUnavailable
       else io_bind (io_try (source_fetch s reference)) (\<lambda>answer. case answer of
          Inr v \<Rightarrow> io_return v
        | Inl c \<Rightarrow> if c \<noteq> CodeVaultLocked then io_fail c
            else io_bind (unlock_wait reg) (\<lambda>_. source_fetch s reference)))"

definition credential_Probe :: "credential_registry \<Rightarrow> string \<Rightarrow> credential_reference io" where
  "credential_Probe reg referenceID =
     io_bind (locate reg referenceID) (\<lambda>(reference, s).
     io_bind io_now (\<lambda>now.
     io_bind (io_try (source_available s)) (\<lambda>answer. case answer of
        Inl c \<Rightarrow> SetReferenceHealth referenceID HealthUnavailable now now
      | Inr u \<Rightarrow> SetReferenceHealth referenceID HealthOK now now)))"

definition credential_Reference :: "string \<Rightarrow> credential_reference io" where
  "credential_Reference referenceID = ReferenceByID referenceID"

definition Stale :: "credential_reference \<Rightarrow> bool io" where
  "Stale reference =
     (if cr_LastVerifiedAt reference = 0 then io_return True
      else io_bind io_now (\<lambda>now. io_return (\<not> cr_LastVerifiedAt reference > now - ProbeInterval)))"

definition credential_Disconnect :: "string \<Rightarrow> string list io" where
  "credential_Disconnect referenceID =
     io_bind io_now (\<lambda>now.
     io_bind (RevokeLeasesByCredentialReference referenceID now) (\<lambda>revoked.
     io_bind (SetReferenceHealth referenceID HealthUnavailable now now) (\<lambda>_. io_return revoked)))"

section \<open>The registry of sources\<close>

lemma Register_Ok:
  "credential_Register kind source reg = Ok reg'
     \<Longrightarrow> supported kind \<and> crg_sources reg kind = None \<and> crg_sources reg' kind = source \<and> source \<noteq> None"
  by (auto simp: credential_Register_def split: option.splits if_splits)

text \<open>However sources are registered, only the three kinds the program implements ever get in, each
  once, and \<open>Kinds\<close> lists exactly the registered ones.\<close>

fun register_all ::
    "(provider_kind \<times> source option) list \<Rightarrow> credential_registry \<Rightarrow> credential_registry" where
  "register_all [] reg = reg"
| "register_all ((kind, source) # rest) reg =
     register_all rest (case credential_Register kind source reg of Inl e \<Rightarrow> reg | Inr reg' \<Rightarrow> reg')"

lemma register_all_supported:
  "(\<forall>k. crg_sources reg k \<noteq> None \<longrightarrow> supported k)
    \<Longrightarrow> \<forall>k. crg_sources (register_all rest reg) k \<noteq> None \<longrightarrow> supported k"
proof (induction rest arbitrary: reg)
  case (Cons x more)
  obtain kind source where x: "x = (kind, source)" by (cases x)
  let ?next = "case credential_Register kind source reg of Inl e \<Rightarrow> reg | Inr reg' \<Rightarrow> reg'"
  have "\<forall>k. crg_sources ?next k \<noteq> None \<longrightarrow> supported k"
    using Cons.prems by (auto simp: credential_Register_def split: option.splits if_splits)
  from Cons.IH [OF this] x show ?case by simp
qed simp

lemma Kinds_exact:
  "set (Kinds (register_all rest (credential_New unlock)))
     = {k. crg_sources (register_all rest (credential_New unlock)) k \<noteq> None}"
  using register_all_supported [of "credential_New unlock" rest]
  by (auto simp: Kinds_def supported_def list_ex_iff credential_New_def)

section \<open>What the operations do to the database\<close>

lemma ask_keeps [simp]: "credentials.keeps (ask f)"
  by (simp add: credentials.keeps_def ask_def credentials.hist_refl)

lemma ask_db: "w_db (snd (ask f w)) = w_db w"
  by (simp add: ask_def)

lemma ask_Ok: "ask f w = (Inr a, w') \<longleftrightarrow> f (w_tick w) = Inr a \<and> w' = tick w"
  by (auto simp: ask_def split: sum.splits)

lemma ask_Fail: "ask f w = (Inl (Fail c), w') \<longleftrightarrow> f (w_tick w) = Inl c \<and> w' = tick w"
  by (auto simp: ask_def split: sum.splits)

text \<open>Revoking leases does not touch the tables of this theory.\<close>

lemma closing_keeps: "credentials.keeps (Close i st at)"
proof -
  have "credential_history d d'" if "update_lease (closeLease i st t) none d = Ok (a, d')" for t none d a d'
    using that by (intro credential_history_same) (auto simp: update_lease_def rbind_iffs split: option.splits)
  then show ?thesis unfolding Close_def
    by (intro credentials.keeps_if credentials.keeps_pure credentials.keeps_bind credentials.keeps_write)
qed

lemma revoking_keeps: "credentials.keeps (RevokeLeasesByCredentialReference r at)"
  unfolding RevokeLeasesByCredentialReference_def
  by (intro credentials.keeps_rules closing_keeps)

lemmas registry_keeps_rules = credentials.keeps_rules credential_repo_keeps ask_keeps revoking_keeps

lemma registry_keeps:
  "credentials.keeps (RegisterReference reg spec)" "credentials.keeps (credential_Fetch reg i)"
  "credentials.keeps (credential_Probe reg i)" "credentials.keeps (credential_Disconnect i)"
  unfolding RegisterReference_def resolves_def source_available_def source_fetch_def locate_def
    credential_Fetch_def credential_Probe_def credential_Disconnect_def unlock_wait_def
  by (intro registry_keeps_rules)+

section \<open>Registering\<close>

lemma SetReferenceHealth_Ok:
  assumes "SetReferenceHealth i s v at w = (Ok r, w')"
  shows "credential_history (w_db w) (w_db w')" "r \<in> set (db_references (w_db w'))" "cr_ID r = i"
    "cr_HealthStatus r = s" "\<exists>r0 \<in> set (db_references (w_db w)). reference_evolves r0 r"
    "\<forall>x \<in> set (db_references (w_db w')). cr_ID x = i \<longrightarrow> cr_HealthStatus x = s"
    "beyond_credentials (w_db w') = beyond_credentials (w_db w)"
    "db_providers (w_db w') = db_providers (w_db w)"
    "length (db_references (w_db w')) = length (db_references (w_db w))"
proof -
  from assms obtain d where d: "not_found_update (updateCredentialReferenceHealth i s (optionalTime v)
      (encodeTime at) (db_references (w_db w))) (\<lambda>rows. w_db w\<lparr>db_references := rows\<rparr>) = Ok (r, d)"
    and w': "w_db w' = d" by (auto simp: SetReferenceHealth_def io_write_Ok)
  from set_health_Ok [OF d] show "credential_history (w_db w) (w_db w')"
    "r \<in> set (db_references (w_db w'))" "cr_ID r = i"
    "cr_HealthStatus r = s" "\<exists>r0 \<in> set (db_references (w_db w)). reference_evolves r0 r"
    "\<forall>x \<in> set (db_references (w_db w')). cr_ID x = i \<longrightarrow> cr_HealthStatus x = s"
    "beyond_credentials (w_db w') = beyond_credentials (w_db w)"
    "db_providers (w_db w') = db_providers (w_db w)"
    "length (db_references (w_db w')) = length (db_references (w_db w))" unfolding w' by blast+
qed

lemma SetReferenceHealth_Err:
  "SetReferenceHealth i s v at w = (Inl e, w') \<Longrightarrow> w_db w' = w_db w"
  unfolding SetReferenceHealth_def by (rule io_write_Err)

text \<open>A reference that a registration returns is at the place asked for.\<close>

definition at_place :: "credential_registration \<Rightarrow> db \<Rightarrow> credential_reference \<Rightarrow> bool" where
  "at_place spec d r \<longleftrightarrow> cr_ItemRef r = rs_ItemRef spec \<and> cr_Field r = rs_Field spec
     \<and> (\<exists>p \<in> set (db_providers d). cp_ID p = cr_ProviderID r \<and> cp_Kind p = rs_Kind spec
          \<and> cp_Label p = rs_ProviderLabel spec)"

lemma CreateRegistration_Ok:
  assumes "CreateRegistration (new_provider spec now) (new_reference spec now) w = (Ok r, w')"
  shows "credential_history (w_db w) (w_db w')" "r \<in> set (db_references (w_db w'))"
    "at_place spec (w_db w') r" "beyond_credentials (w_db w') = beyond_credentials (w_db w)"
    "r \<in> set (db_references (w_db w))
       \<or> cr_ID r = rs_ReferenceID spec \<and> db_references (w_db w') = db_references (w_db w) @ [r]"
proof -
  from assms obtain d' where tx: "registration_tx (new_provider spec now) (new_reference spec now)
      (w_db w) = Ok (r, d')" and w': "w_db w' = d'"
    by (auto simp: CreateRegistration_def io_write_Ok)
  note T = registration_tx_Ok [OF tx]
  show "credential_history (w_db w) (w_db w')" "r \<in> set (db_references (w_db w'))"
    "beyond_credentials (w_db w') = beyond_credentials (w_db w)" using T(1,2,6) w' by simp_all
  show "at_place spec (w_db w') r"
    using T(3,4,5) w' by (auto simp: at_place_def new_provider_def new_reference_def provider_name_def)
  show "r \<in> set (db_references (w_db w))
       \<or> cr_ID r = rs_ReferenceID spec \<and> db_references (w_db w') = db_references (w_db w) @ [r]"
    using T(7) w' by (auto simp: new_reference_def)
qed

lemma resolves_Ok:
  assumes "resolves s spec w = (Ok u, w')"
  shows "\<exists>v. src_Fetch s (w_tick w) (probed_place spec) = Inr v \<and> v \<noteq> [] \<and> w' = tick w"
proof -
  from assms obtain answer w1 where a: "io_try (source_fetch s (probed_place spec)) w = (Ok answer, w1)"
    and r: "(case answer of Inl c \<Rightarrow> io_fail (asCoordinateFailure c)
      | Inr v \<Rightarrow> if v = [] then io_fail CodeCredentialNotAuthorized else io_return ()) w1 = (Ok u, w')"
    unfolding resolves_def by (rule io_bind_Ok)
  show ?thesis
  proof (cases answer)
    case (Inl c)
    with r show ?thesis by (simp add: io_fail_Ok)
  next
    case (Inr v)
    with r a show ?thesis
      by (simp add: io_fail_Ok io_return_Ok io_try_Ok source_fetch_def ask_Ok split: if_splits)
  qed
qed

lemma source_available_Ok:
  "source_available s w = (Ok u, w') \<Longrightarrow> src_Available s (w_tick w) = None \<and> w' = tick w"
  by (auto simp: source_available_def ask_Ok split: option.splits)

lemma at_place_evolves:
  "at_place spec d r \<Longrightarrow> reference_evolves r r' \<Longrightarrow> db_providers d' = db_providers d \<Longrightarrow> at_place spec d' r'"
  by (auto simp: at_place_def reference_evolvesD)

text \<open>The last step of a registration: restoring the health of a reference that is stored.\<close>

lemma restore_health_Ok:
  assumes ok: "credentials_ok (w_db w)" and settled: "settled \<in> set (db_references (w_db w))"
    and run: "(if cr_HealthStatus settled \<noteq> HealthOK \<or> cr_LastVerifiedAt settled < now
      then SetReferenceHealth (cr_ID settled) HealthOK now now else io_return settled) w = (Ok r, w')"
  shows "r \<in> set (db_references (w_db w'))" "cr_HealthStatus r = HealthOK" "reference_evolves settled r"
    "credentials_ok (w_db w')" "db_providers (w_db w') = db_providers (w_db w)"
    "length (db_references (w_db w')) = length (db_references (w_db w))"
    "beyond_credentials (w_db w') = beyond_credentials (w_db w)"
proof -
  have "r \<in> set (db_references (w_db w')) \<and> cr_HealthStatus r = HealthOK \<and> reference_evolves settled r
    \<and> credentials_ok (w_db w') \<and> db_providers (w_db w') = db_providers (w_db w)
    \<and> length (db_references (w_db w')) = length (db_references (w_db w))
    \<and> beyond_credentials (w_db w') = beyond_credentials (w_db w)"
  proof (cases "cr_HealthStatus settled \<noteq> HealthOK \<or> cr_LastVerifiedAt settled < now")
    case True
    with run have "SetReferenceHealth (cr_ID settled) HealthOK now now w = (Ok r, w')"
      by (simp split: if_splits)
    note S = SetReferenceHealth_Ok [OF this]
    from S(5) obtain r0 where r0: "r0 \<in> set (db_references (w_db w))" "reference_evolves r0 r" by blast
    with S(3) have "cr_ID r0 = cr_ID settled" using reference_evolvesD(1) by metis
    moreover have "table_ok cr_ID reference_check (db_references (w_db w))"
      using ok by (simp add: credentials_ok_def)
    ultimately have "r0 = settled" using table_ok_same r0(1) settled by metis
    moreover have "credentials_ok (w_db w')" using S(1) ok by (simp add: credential_history_def)
    ultimately show ?thesis using S(2,4,7,8,9) r0(2) by blast
  next
    case False
    with run have "r = settled" "w' = w" by (simp_all only: if_False io_return_Ok)
    then show ?thesis using False settled ok reference_rows.row_refl by blast
  qed
  then show "r \<in> set (db_references (w_db w'))" "cr_HealthStatus r = HealthOK"
    "reference_evolves settled r" "credentials_ok (w_db w')"
    "db_providers (w_db w') = db_providers (w_db w)"
    "length (db_references (w_db w')) = length (db_references (w_db w))"
    "beyond_credentials (w_db w') = beyond_credentials (w_db w)" by blast+
qed

text \<open>C23: A successful registration is true of the source and of the tables.  The source of the kind
  was asked and was there, and it gave a non-empty secret for the place; the reference returned is
  stored, healthy, belongs to the service asked for and to a provider of that kind and label; it is
  the one stored before for that place, or the only new one, under the identifier given; and no other
  table changed.\<close>

theorem registration_settles:
  assumes ok: "credentials_ok (w_db w)" and run: "RegisterReference reg spec w = (Ok r, w')"
  shows "(\<exists>s v. crg_sources reg (rs_Kind spec) = Some s \<and> src_Available s (w_tick w) = None
        \<and> src_Fetch s (Suc (w_tick w)) (probed_place spec) = Inr v \<and> v \<noteq> [])
    \<and> r \<in> set (db_references (w_db w')) \<and> cr_HealthStatus r = HealthOK
    \<and> cr_Service r = rs_Service spec \<and> at_place spec (w_db w') r
    \<and> ((\<exists>r0 \<in> set (db_references (w_db w)). reference_evolves r0 r)
       \<or> cr_ID r = rs_ReferenceID spec
          \<and> length (db_references (w_db w')) = Suc (length (db_references (w_db w))))
    \<and> beyond_credentials (w_db w') = beyond_credentials (w_db w)"
proof -
  from run obtain s where s: "crg_sources reg (rs_Kind spec) = Some s"
    by (auto simp: RegisterReference_def io_fail_Ok split: option.splits)
  with run obtain u1 w1 u2 w2 now w3 settled w4 where a: "source_available s w = (Ok u1, w1)"
    and v: "resolves s spec w1 = (Ok u2, w2)" and n: "io_now w2 = (Ok now, w3)"
    and c: "CreateRegistration (new_provider spec now) (new_reference spec now) w3 = (Ok settled, w4)"
    and srv: "cr_Service settled = rs_Service spec"
    and fin: "(if cr_HealthStatus settled \<noteq> HealthOK \<or> cr_LastVerifiedAt settled < now
        then SetReferenceHealth (cr_ID settled) HealthOK now now else io_return settled) w4 = (Ok r, w')"
    by (auto simp: RegisterReference_def io_bind_Ok_iff io_fail_Ok split: if_splits)
  from source_available_Ok [OF a] resolves_Ok [OF v] n have asked: "src_Available s (w_tick w) = None"
    "\<exists>v. src_Fetch s (Suc (w_tick w)) (probed_place spec) = Inr v \<and> v \<noteq> []" and w3: "w_db w3 = w_db w"
    by (auto simp: io_now_Ok)
  note C = CreateRegistration_Ok [OF c, unfolded w3]
  have ok4: "credentials_ok (w_db w4)" using C(1) ok unfolding credential_history_def by blast
  note H = restore_health_Ok [OF ok4 C(2) fin]
  have "cr_Service r = rs_Service spec" "cr_ID r = cr_ID settled"
    using srv reference_evolvesD [OF H(3)] by simp_all
  moreover have "at_place spec (w_db w') r" by (rule at_place_evolves [OF C(3) H(3,5)])
  moreover from C(5) have "(\<exists>r0 \<in> set (db_references (w_db w)). reference_evolves r0 r)
       \<or> cr_ID r = rs_ReferenceID spec
          \<and> length (db_references (w_db w')) = Suc (length (db_references (w_db w)))"
    using H(3,6) calculation(2) by auto
  ultimately show ?thesis using s asked H(1,2,7) C(4) by metis
qed

section \<open>Disconnecting\<close>

interpretation references_kept:
  db_history "\<lambda>d d'. db_references d' = db_references d \<and> db_identities d' = db_identities d"
  by unfold_locales auto

lemma Close_revoked_rows:
  assumes "Close i LeaseRevoked at w = (Ok a, w')"
  obtains rows where "db_leases (w_db w') = map (\<lambda>l. if lease_ID l = i \<and> lease_Status l = LeaseActive
      then l\<lparr>lease_Status := LeaseRevoked, lease_UpdatedAt := encodeTime at\<rparr> else l) (db_leases (w_db w))"
proof -
  from assms obtain rows where u: "closeLease i LeaseRevoked (encodeTime at) (db_leases (w_db w))
      = Ok (Some (a, rows))" and w': "db_leases (w_db w') = rows"
    by (auto simp: Close_def io_Ok_iffs update_lease_Ok)
  from u have "rows = map (\<lambda>l. if lease_ID l = i \<and> lease_Status l = LeaseActive
      then l\<lparr>lease_Status := LeaseRevoked, lease_UpdatedAt := encodeTime at\<rparr> else l) (db_leases (w_db w))"
    unfolding closeLease_def by (elim sql_update_Some)
  with w' that show thesis by simp
qed

interpretation disconnecting: closing db_leases lease_ID "\<lambda>l. lease_Status l = LeaseActive"
    "\<lambda>row. io_bind (Close (lease_ID row) LeaseRevoked at) (\<lambda>_. io_return (lease_ID row))" lease_ID for at
proof
  fix x w a w' r
  assume run: "io_bind (Close (lease_ID x) LeaseRevoked at) (\<lambda>_. io_return (lease_ID x)) w = (Ok a, w')"
    and r: "r \<in> set (db_leases (w_db w'))" "lease_Status r = LeaseActive"
  from run obtain b where "Close (lease_ID x) LeaseRevoked at w = (Ok b, w')"
    by (auto simp: io_bind_Ok_iff io_return_Ok)
  then show "r \<in> set (db_leases (w_db w)) \<and> lease_ID r \<noteq> lease_ID x"
    using r by (elim Close_revoked_rows) (auto split: if_splits)
qed

lemma io_mapM_values:
  "io_mapM f xs w = (Ok ys, w') \<Longrightarrow> (\<And>x w y w'. f x w = (Ok y, w') \<Longrightarrow> y = g x) \<Longrightarrow> ys = map g xs"
  by (induction xs arbitrary: w ys) (auto simp: io_Ok_iffs)

lemma revoking_keeps_references:
  "references_kept.keeps (RevokeLeasesByCredentialReference ref at)"
proof -
  have "db_references d' = db_references d \<and> db_identities d' = db_identities d"
    if "update_lease stmt none d = Ok (a, d')" for stmt none d a d'
    using that by (auto simp: update_lease_Ok)
  then show ?thesis unfolding RevokeLeasesByCredentialReference_def Close_def
    by (intro references_kept.keeps_rules references_kept.keeps_write)
qed

lemma revoke_by_reference_complete:
  assumes run: "RevokeLeasesByCredentialReference ref at w = (Ok ids, w')"
    and fits: "int (length (filter (uses_reference ref (w_db w)) (db_leases (w_db w)))) \<le> 1000"
  shows "set ids = lease_ID ` {l \<in> set (db_leases (w_db w)). uses_reference ref (w_db w) l}"
    "\<forall>l \<in> set (db_leases (w_db w')). \<not> uses_reference ref (w_db w') l"
proof -
  let ?row = "\<lambda>row. io_bind (Close (lease_ID row) LeaseRevoked at) (\<lambda>_. io_return (lease_ID row))"
  let ?rows = "select_leases (uses_reference ref (w_db w)) revocationLimit (db_leases (w_db w))"
  from run have m: "io_mapM ?row ?rows (tick w) = (Ok ids, w')"
    by (auto simp: RevokeLeasesByCredentialReference_def io_bind_Ok_iff io_read_Ok io_fail_Ok
        split: if_splits)
  have sel: "set ?rows = {l \<in> set (db_leases (w_db w)). uses_reference ref (w_db w) l}"
    unfolding select_leases_def by (rule select_all) (use fits in \<open>simp add: revocationLimit_def\<close>)
  have "ids = map lease_ID ?rows"
    by (rule io_mapM_values [OF m]) (auto simp: io_bind_Ok_iff io_return_Ok)
  with sel show "set ids = lease_ID ` {l \<in> set (db_leases (w_db w)). uses_reference ref (w_db w) l}"
    by simp
  have same: "db_identities (w_db w') = db_identities (w_db w)"
    using references_kept.keepsD [OF revoking_keeps_references run] by simp
  show "\<forall>l \<in> set (db_leases (w_db w')). \<not> uses_reference ref (w_db w') l"
  proof (intro ballI notI)
    fix l assume l: "l \<in> set (db_leases (w_db w'))" and uses: "uses_reference ref (w_db w') l"
    then have "uses_reference ref (w_db w) l" "lease_Status l = LeaseActive"
      using same by (simp_all add: uses_reference_def)
    moreover from this disconnecting.shut_all [OF m l] have "l \<in> set (db_leases (w_db w))"
      "lease_ID l \<notin> lease_ID ` set ?rows" by auto
    ultimately show False using sel by blast
  qed
qed

lemma locate_Ok:
  assumes "locate reg i w = (Ok (r, s), w')"
  obtains p where "r \<in> set (db_references (w_db w))" "cr_ID r = i" "p \<in> set (db_providers (w_db w))"
    "cp_ID p = cr_ProviderID r" "crg_sources reg (cp_Kind p) = Some s" "w' = tick (tick w)"
proof -
  from assms obtain p w1 w2 where a: "ReferenceByID i w = (Ok r, w1)"
    and b: "ProviderByID (cr_ProviderID r) w1 = (Ok p, w')" and s: "crg_sources reg (cp_Kind p) = Some s"
    by (auto simp: locate_def io_bind_Ok_iff io_fail_Ok io_return_Ok split: if_splits option.splits)
  from a have "w1 = tick w" "r \<in> set (db_references (w_db w)) \<and> cr_ID r = i"
    by (auto simp: ReferenceByID_def io_read_Ok dest!: found_row_by_Ok)
  moreover from b this have "w' = tick (tick w)"
    "p \<in> set (db_providers (w_db w)) \<and> cp_ID p = cr_ProviderID r"
    by (auto simp: ProviderByID_def io_read_Ok dest!: found_row_by_Ok)
  ultimately show thesis using s that by blast
qed


text \<open>C25: A fetched secret comes fresh from where the reference points.  When \<open>Fetch\<close> succeeds, the
  reference is stored and healthy, the secret is what the source of its provider's kind answered for
  this very reference at a moment within the call -- nothing is kept from an earlier one -- and the
  database is as it was.\<close>

theorem fetch_asks_the_source:
  assumes run: "credential_Fetch reg i w = (Ok v, w')"
  shows "w_db w' = w_db w \<and> (\<exists>r \<in> set (db_references (w_db w)). \<exists>p \<in> set (db_providers (w_db w)). \<exists>s n.
      cr_ID r = i \<and> cr_HealthStatus r = HealthOK \<and> cp_ID p = cr_ProviderID r
      \<and> crg_sources reg (cp_Kind p) = Some s
      \<and> w_tick w < n \<and> n < w_tick w' \<and> src_Fetch s n r = Inr v)"
proof -
  from run obtain r s w1 answer w2 where l: "locate reg i w = (Ok (r, s), w1)"
    and h: "cr_HealthStatus r = HealthOK" and t: "io_try (source_fetch s r) w1 = (Ok answer, w2)"
    and fin: "(case answer of Inr v \<Rightarrow> io_return v
        | Inl c \<Rightarrow> if c \<noteq> CodeVaultLocked then io_fail c
            else io_bind (unlock_wait reg) (\<lambda>_. source_fetch s r)) w2 = (Ok v, w')"
    by (auto simp: credential_Fetch_def io_bind_Ok_iff io_fail_Ok split: if_splits prod.splits)
  from l obtain p where p: "r \<in> set (db_references (w_db w))" "cr_ID r = i"
    "p \<in> set (db_providers (w_db w))" "cp_ID p = cr_ProviderID r" "crg_sources reg (cp_Kind p) = Some s"
    and w1: "w1 = tick (tick w)" by (elim locate_Ok)
  from t have w2: "w2 = tick w1" by (auto simp: io_try_Ok source_fetch_def ask_Ok ask_Fail)
  have "w_db w' = w_db w \<and> (\<exists>n. w_tick w < n \<and> n < w_tick w' \<and> src_Fetch s n r = Inr v)"
  proof (cases answer)
    case (Inr u)
    with t fin w1 w2 have "src_Fetch s (w_tick w1) r = Inr v" "w' = w2"
      by (auto simp: io_try_Ok source_fetch_def ask_Ok io_return_Ok)
    with w1 w2 show ?thesis by (auto intro!: exI [of _ "w_tick w1"])
  next
    case (Inl c)
    with fin obtain u w3 where "unlock_wait reg w2 = (Ok u, w3)" "source_fetch s r w3 = (Ok v, w')"
      by (auto simp: io_bind_Ok_iff io_fail_Ok split: if_splits)
    then have "w3 = tick w2" "src_Fetch s (w_tick w3) r = Inr v" "w' = tick w3"
      by (auto simp: unlock_wait_def source_fetch_def ask_Ok)
    with w1 w2 show ?thesis by (auto intro!: exI [of _ "w_tick w3"])
  qed
  with p h show ?thesis by blast
qed

section \<open>Sequences of operations\<close>

datatype credential_op = OpRegisterReference credential_registration | OpFetch string
  | OpProbe string | OpDisconnect string | OpCreateIdentity identity

fun run_credential_op :: "credential_registry \<Rightarrow> credential_op \<Rightarrow> world \<Rightarrow> world" where
  "run_credential_op reg (OpRegisterReference spec) w = snd (RegisterReference reg spec w)"
| "run_credential_op reg (OpFetch i) w = snd (credential_Fetch reg i w)"
| "run_credential_op reg (OpProbe i) w = snd (credential_Probe reg i w)"
| "run_credential_op reg (OpDisconnect i) w = snd (credential_Disconnect i w)"
| "run_credential_op reg (OpCreateIdentity x) w = snd (CreateIdentity x w)"

lemma run_credential_op_history:
  "credential_history (w_db w) (w_db (run_credential_op reg op w))"
  by (cases op) (auto intro!: registry_keeps [unfolded credentials.keeps_def, rule_format]
      credential_repo_keeps(8) [unfolded credentials.keeps_def, rule_format])

text \<open>C26: What a reference points to never changes.  Whatever operations run in whatever order, and
  whichever statements fail, every stored reference stays stored with its identifier, its provider,
  item and field, its service and account; providers stay as they are; and the constraints of both
  tables -- among them one reference per place and one provider per kind and label -- keep holding.\<close>

theorem references_stay_put:
  assumes "credentials_ok (w_db w)"
  shows "let d' = w_db (fold (run_credential_op reg) ops w) in credentials_ok d'
    \<and> set (db_providers (w_db w)) \<subseteq> set (db_providers d')
    \<and> (\<forall>r \<in> set (db_references (w_db w)). \<exists>r' \<in> set (db_references d'). cr_ID r' = cr_ID r
         \<and> coordinates r' = coordinates r \<and> cr_Service r' = cr_Service r
         \<and> cr_AccountLabel r' = cr_AccountLabel r)"
proof -
  have "credential_history (w_db w) (w_db (fold (run_credential_op reg) ops w))"
  proof (induction ops arbitrary: w)
    case (Cons op ops)
    show ?case using credentials.hist_trans [OF run_credential_op_history Cons.IH] by simp
  qed (simp add: credentials.hist_refl)
  then have h: "credentials_ok (w_db (fold (run_credential_op reg) ops w))"
    "rows_evolve (=) (db_providers (w_db w)) (db_providers (w_db (fold (run_credential_op reg) ops w)))"
    "rows_evolve reference_evolves (db_references (w_db w))
       (db_references (w_db (fold (run_credential_op reg) ops w)))"
    using assms by (simp_all add: credential_history_def)
  have "p \<in> set (db_providers (w_db (fold (run_credential_op reg) ops w)))"
    if "p \<in> set (db_providers (w_db w))" for p
    using provider_rows.evolve_member [OF h(2) that] by blast
  moreover have "\<exists>r' \<in> set (db_references (w_db (fold (run_credential_op reg) ops w))). cr_ID r' = cr_ID r
      \<and> coordinates r' = coordinates r \<and> cr_Service r' = cr_Service r
      \<and> cr_AccountLabel r' = cr_AccountLabel r" if r: "r \<in> set (db_references (w_db w))" for r
  proof -
    obtain r' where "r' \<in> set (db_references (w_db (fold (run_credential_op reg) ops w)))"
      "reference_evolves r r'" using reference_rows.evolve_member [OF h(3) r] by blast
    with reference_evolvesD [OF this(2)] show ?thesis by blast
  qed
  ultimately show ?thesis using h(1) by (simp add: Let_def subset_iff)
qed

section \<open>A registration, a fetch and a disconnect\<close>

definition sample_source :: source where
  "sample_source = \<lparr>src_Available = (\<lambda>n. None), src_Fetch = (\<lambda>n r. Inr (cr_ItemRef r @ ''!''))\<rparr>"

definition sample_registry :: credential_registry where
  "sample_registry = \<lparr>crg_sources = [KindLocalVault \<mapsto> sample_source], crg_wait = (\<lambda>n. Woken)\<rparr>"

definition sample_placement :: credential_registration where
  "sample_placement = \<lparr>rs_ProviderID = ''prov'', rs_ReferenceID = ''cred'', rs_Kind = KindLocalVault,
     rs_ProviderLabel = ''vault'', rs_ItemRef = ''dns'', rs_Field = ''token'', rs_Service = ''dns'',
     rs_AccountLabel = ''acct''\<rparr>"

definition credential_world :: world where
  "credential_world = sample_world (empty_db\<lparr>db_identities := [example_identity],
     db_leases := [example_lease]\<rparr>)"

definition registered_world :: world where
  "registered_world = snd (RegisterReference sample_registry sample_placement credential_world)"

lemma credential_world_ok: "credentials_ok (w_db credential_world)"
  by (simp add: credential_world_def sample_world_def credentials_ok_def table_ok_def empty_db_def)

theorem registration_settles_witness:
  "\<exists>r w'. RegisterReference sample_registry sample_placement credential_world = (Ok r, w')
     \<and> cr_HealthStatus r = HealthOK \<and> cr_Service r = ''dns''"
proof -
  have "is_ok (fst (RegisterReference sample_registry sample_placement credential_world))" by code_simp
  from is_ok_result [OF this] obtain r w' where
    r: "RegisterReference sample_registry sample_placement credential_world = (Ok r, w')" by blast
  from registration_settles [OF credential_world_ok r] r show ?thesis
    by (simp add: sample_placement_def)
qed


theorem fetch_asks_the_source_witness:
  "\<exists>w'. credential_Fetch sample_registry ''cred'' registered_world = (Ok ''dns!'', w')
     \<and> w_db w' = w_db registered_world"
proof -
  have "fst (credential_Fetch sample_registry ''cred'' registered_world) = Ok ''dns!''" by code_simp
  then obtain w' where r: "credential_Fetch sample_registry ''cred'' registered_world = (Ok ''dns!'', w')"
    by (metis prod.collapse)
  from fetch_asks_the_source [OF r] r show ?thesis by blast
qed

theorem references_stay_put_witness:
  "credentials_ok (w_db (fold (run_credential_op sample_registry)
     [OpRegisterReference sample_placement, OpFetch ''cred'', OpDisconnect ''cred''] credential_world))"
  using references_stay_put [OF credential_world_ok, of sample_registry
      "[OpRegisterReference sample_placement, OpFetch ''cred'', OpDisconnect ''cred'']"]
  by (simp only: Let_def)

end
