(* ===== verification/Availability.thy ===== *)
theory Availability
  imports Decision
begin

text \<open>
  Model of \<open>internal/core/gateway/availability.go\<close>: the flag that says whether the gateway accepts
  protected requests.  The two fields are separate atomic booleans and the methods run on any
  goroutine, so beside the methods themselves (one call without interference) there is the
  interleaving of their loads and stores as a step relation over a pool of calls.
\<close>

section \<open>The methods\<close>

record availability =
  av_serving :: bool
  av_stopped :: bool

definition availability_New :: availability where
  "availability_New = \<lparr>av_serving = False, av_stopped = False\<rparr>"

definition gw_Serve :: "availability \<Rightarrow> bool \<times> availability" where
  "gw_Serve a = (if av_stopped a then (False, a) else (True, a\<lparr>av_serving := True\<rparr>))"

definition gw_Stop :: "availability \<Rightarrow> availability" where
  "gw_Stop a = a\<lparr>av_stopped := True, av_serving := False\<rparr>"

definition gw_Serving :: "availability \<Rightarrow> bool" where
  "gw_Serving a = av_serving a"

definition gw_Check :: "availability \<Rightarrow> unit result" where
  "gw_Check a = (if gw_Serving a then Ok () else Err CodeGatewayUnavailable)"

definition gw_Blocker :: "availability \<Rightarrow> blocker \<times> bool" where
  "gw_Blocker a = (if gw_Serving a then (BlockerOther [], False) else (BlockerGatewayOffline, True))"

section \<open>Interleaved calls\<close>

text \<open>Where a call stands.  \<open>Serve\<close> has loaded \<open>stopped\<close> and found it false at \<open>ServeStore\<close>; \<open>Stop\<close>
  has stored \<open>stopped\<close> and not yet \<open>serving\<close> at \<open>StopClear\<close>.\<close>

datatype gw_call = ServeLoad | ServeStore | ServeDone bool | StopMark | StopClear | StopDone
  | CheckLoad | CheckDone "unit result"

text \<open>The next atomic operation of a call.\<close>

fun instr :: "gw_call \<Rightarrow> availability \<Rightarrow> gw_call \<times> availability" where
  "instr ServeLoad a = (if av_stopped a then ServeDone False else ServeStore, a)"
| "instr ServeStore a = (ServeDone True, a\<lparr>av_serving := True\<rparr>)"
| "instr StopMark a = (StopClear, a\<lparr>av_stopped := True\<rparr>)"
| "instr StopClear a = (StopDone, a\<lparr>av_serving := False\<rparr>)"
| "instr CheckLoad a = (CheckDone (gw_Check a), a)"
| "instr c a = (c, a)"

type_synonym gw_pool = "availability \<times> gw_call list"

text \<open>A goroutine calls a method, or a call in flight takes its next atomic operation.\<close>

inductive gw_step :: "gw_pool \<Rightarrow> gw_pool \<Rightarrow> bool" where
  call: "c \<in> {ServeLoad, StopMark, CheckLoad} \<Longrightarrow> gw_step (a, cs) (a, cs @ [c])"
| run: "i < length cs \<Longrightarrow> instr (cs ! i) a = (c, a') \<Longrightarrow> gw_step (a, cs) (a', cs[i := c])"

inductive_cases gw_stepE: "gw_step (a, cs) s"

definition refusing :: "gw_pool \<Rightarrow> bool" where
  "refusing s \<longleftrightarrow> av_stopped (fst s) \<and> \<not> av_serving (fst s) \<and> ServeStore \<notin> set (snd s)"

text \<open>A call that runs undisturbed does what its method does.\<close>

lemma serve_undisturbed:
  "gw_step\<^sup>*\<^sup>* (a, [ServeLoad]) (snd (gw_Serve a), [ServeDone (fst (gw_Serve a))])"
proof (cases "av_stopped a")
  case True
  then have "gw_step (a, [ServeLoad]) (a, [ServeDone False])"
    using gw_step.run [of 0 "[ServeLoad]" a] by simp
  with True show ?thesis by (simp add: gw_Serve_def)
next
  case False
  then have "gw_step (a, [ServeLoad]) (a, [ServeStore])"
    "gw_step (a, [ServeStore]) (a\<lparr>av_serving := True\<rparr>, [ServeDone True])"
    using gw_step.run [of 0 "[ServeLoad]" a] gw_step.run [of 0 "[ServeStore]" a] by simp_all
  with False show ?thesis by (auto simp: gw_Serve_def)
qed

lemma stop_undisturbed: "gw_step\<^sup>*\<^sup>* (a, [StopMark]) (gw_Stop a, [StopDone])"
proof -
  have "gw_step (a, [StopMark]) (a\<lparr>av_stopped := True\<rparr>, [StopClear])"
    "gw_step (a\<lparr>av_stopped := True\<rparr>, [StopClear]) (gw_Stop a, [StopDone])"
    using gw_step.run [of 0 "[StopMark]" a] gw_step.run [of 0 "[StopClear]" "a\<lparr>av_stopped := True\<rparr>"]
    by (simp_all add: gw_Stop_def)
  then show ?thesis by auto
qed

section \<open>Stopping is final\<close>

lemma refusing_step: "gw_step s s' \<Longrightarrow> refusing s \<Longrightarrow> refusing s'"
proof (induction rule: gw_step.induct)
  case (call c a cs)
  then show ?case by (auto simp: refusing_def)
next
  case (run i cs a c a')
  then have "cs ! i \<noteq> ServeStore" by (metis nth_mem refusing_def snd_conv)
  with run show ?case
    by (cases "cs ! i") (auto simp: refusing_def dest!: subsetD [OF set_update_subset_insert])
qed

lemma refusing_forever: "gw_step\<^sup>*\<^sup>* s s' \<Longrightarrow> refusing s \<Longrightarrow> refusing s'"
  by (induction rule: rtranclp_induct) (auto intro: refusing_step)

text \<open>C40: A stopped gateway refuses every request from then on, however calls interleave.  Once
  \<open>Stop\<close> has completed and no \<open>Serve\<close> is between its load and its store, no interleaving of
  further calls of \<open>Serve\<close>, \<open>Stop\<close> and \<open>Check\<close> gets the gateway back into service: \<open>Check\<close> answers
  \<open>gateway_unavailable\<close>, \<open>Blocker\<close> reports the gateway as offline and \<open>Serve\<close> returns false.\<close>

theorem stopped_gateway_refuses:
  assumes "av_stopped a" and "\<not> av_serving a" and "ServeStore \<notin> set cs"
    and "gw_step\<^sup>*\<^sup>* (a, cs) (a', cs')"
  shows "gw_Check a' = Err CodeGatewayUnavailable \<and> gw_Blocker a' = (BlockerGatewayOffline, True)
    \<and> gw_Serve a' = (False, a') \<and> ServeStore \<notin> set cs'"
  using refusing_forever [OF assms(4)] assms(1-3)
  by (simp add: refusing_def gw_Check_def gw_Blocker_def gw_Serve_def gw_Serving_def)

theorem stopped_gateway_refuses_witness:
  "gw_step\<^sup>*\<^sup>* (gw_Stop (snd (gw_Serve availability_New)), [ServeLoad])
     (gw_Stop (snd (gw_Serve availability_New)), [ServeDone False])
   \<and> gw_Check (gw_Stop (snd (gw_Serve availability_New))) = Err CodeGatewayUnavailable"
proof -
  let ?a = "gw_Stop (snd (gw_Serve availability_New))"
  have a: "av_stopped ?a" "\<not> av_serving ?a" by (simp_all add: gw_Stop_def)
  then have "gw_Serve ?a = (False, ?a)" by (simp add: gw_Serve_def)
  with serve_undisturbed [of ?a] have run: "gw_step\<^sup>*\<^sup>* (?a, [ServeLoad]) (?a, [ServeDone False])" by simp
  from stopped_gateway_refuses [OF a _ run] run show ?thesis by simp
qed

text \<open>The condition is needed.  A \<open>Serve\<close> that has loaded \<open>stopped\<close> before \<open>Stop\<close> began stores
  \<open>serving\<close> after \<open>Stop\<close> has completed: both calls have returned, \<open>Stop\<close> was the last to be
  called, and the gateway lets requests through.\<close>

theorem stop_can_be_undone:
  "\<exists>a. gw_step\<^sup>*\<^sup>* (availability_New, [ServeLoad, StopMark]) (a, [ServeDone True, StopDone])
     \<and> av_stopped a \<and> gw_Check a = Ok ()"
proof -
  let ?n = availability_New
  let ?m = "?n\<lparr>av_stopped := True\<rparr>" and ?e = "?n\<lparr>av_stopped := True, av_serving := True\<rparr>"
  have "gw_step (?n, [ServeLoad, StopMark]) (?n, [ServeStore, StopMark])"
    using gw_step.run [of 0 "[ServeLoad, StopMark]" ?n] by (simp add: availability_New_def)
  moreover have "gw_step (?n, [ServeStore, StopMark]) (?m, [ServeStore, StopClear])"
    using gw_step.run [of 1 "[ServeStore, StopMark]" ?n] by simp
  moreover have "gw_step (?m, [ServeStore, StopClear]) (?m, [ServeStore, StopDone])"
    using gw_step.run [of 1 "[ServeStore, StopClear]" ?m] by (simp add: availability_New_def)
  moreover have "gw_step (?m, [ServeStore, StopDone]) (?e, [ServeDone True, StopDone])"
    using gw_step.run [of 0 "[ServeStore, StopDone]" ?m] by simp
  ultimately have "gw_step\<^sup>*\<^sup>* (?n, [ServeLoad, StopMark]) (?e, [ServeDone True, StopDone])" by auto
  then show ?thesis by (intro exI [of _ ?e]) (simp add: gw_Check_def gw_Serving_def)
qed

end
