(* ===== verification/Agent_Proxy.thy ===== *)
theory Agent_Proxy
  imports Exchange Declarations Credential_Registry Availability Agent_Auth Audit_Ledger
begin

text \<open>
  The agent proxy (\<open>internal/transport/proxy\<close>) with the ports the program gives it
  (\<open>internal/cli/proxyports.go\<close>, \<open>proxyservices.go\<close>, \<open>proxyexchange.go\<close>, \<open>authenticator.go\<close>): an agent's
  HTTP request to an external service is forwarded when a session authenticates, an enabled
  declaration owns the host, an operation is declared for the path and a lease covers it -- in this
  order, and with a ledger entry before the answer is handed on.  The state is the database with the
  clock, the network with the credentials fetched so far, and the availability of the gateway.
\<close>

section \<open>The state of the gateway\<close>

record gate =
  gt_world :: world
  gt_net :: xstate
  gt_available :: availability

definition on_world :: "'a io \<Rightarrow> gate \<Rightarrow> 'a result \<times> gate" where
  "on_world m g = (case m (gt_world g) of (r, w) \<Rightarrow> (r, g\<lparr>gt_world := w\<rparr>))"

definition gate_now :: "gate \<Rightarrow> instant \<times> gate" where
  "gate_now g = (w_clock (gt_world g) (w_tick (gt_world g)), g\<lparr>gt_world := tick (gt_world g)\<rparr>)"

text \<open>What is set up once: the hash of session keys, the adapters and the order in which the map of
  their operations is walked, the sources of credentials, how the URL library reads the host of a base
  URL (\<open>None\<close> when it does not parse), and the limit of a request body.\<close>

record gateway =
  gw_hash :: "string \<Rightarrow> string"
  gw_registry :: full_registry
  gw_order :: "string \<Rightarrow> string list"
  gw_credentials :: credential_registry
  gw_host :: "string \<Rightarrow> string option"
  gw_maxBytes :: int

definition DefaultMaxRequestBytes :: int where "DefaultMaxRequestBytes = 4 * 1024 * 1024"

definition max_request_bytes :: "int \<Rightarrow> int" where
  "max_request_bytes configured = (if configured \<le> 0 then DefaultMaxRequestBytes else configured)"

section \<open>Requests, targets, routes\<close>

text \<open>The request line and what else of a request the proxy reads; \<open>None\<close> is a body that cannot be
  read, an empty \<open>px_URLHost\<close> a request that is not in absolute form.\<close>

record proxy_request =
  px_Method :: string
  px_Scheme :: string
  px_URLHost :: string
  px_Path :: string
  px_Query :: url_values
  px_Host :: string
  px_SessionKey :: string
  px_Body :: "string option"

record proxy_caller =
  pc_AgentID :: string
  pc_WorkspaceID :: string

record target =
  tg_Host :: string
  tg_Method :: string
  tg_Path :: string
  tg_Query :: url_values

record route =
  rt_Service :: string
  rt_Operation :: string
  rt_Resource :: "string go_map"

definition no_route :: route where
  "no_route = \<lparr>rt_Service = [], rt_Operation = [], rt_Resource = []\<rparr>"

record lease_grant =
  lg_LeaseID :: string
  lg_IdentityID :: string

definition targetOf :: "proxy_request \<Rightarrow> target result" where
  "targetOf r =
     (if px_URLHost r = [] then Err CodeInvalidRequest
      else if to_lower (px_Scheme r) \<noteq> ''http'' \<and> to_lower (px_Scheme r) \<noteq> ''https''
      then Err CodeInvalidRequest
      else Ok \<lparr>tg_Host = to_lower (px_URLHost r), tg_Method = px_Method r, tg_Path = px_Path r,
             tg_Query = px_Query r\<rparr>)"

definition host_of :: "proxy_request \<Rightarrow> string" where
  "host_of r = (if px_URLHost r \<noteq> [] then to_lower (px_URLHost r)
     else takeWhile (\<lambda>c. c \<noteq> CHR '':'') (px_Host r))"

definition readBody :: "int \<Rightarrow> proxy_request \<Rightarrow> string result" where
  "readBody limit r = (case px_Body r of
     None \<Rightarrow> Err CodeInvalidRequest
   | Some body \<Rightarrow> if int (length body) > limit then Err CodeInvalidRequest else Ok body)"

section \<open>Ports\<close>

definition proxy_authenticate :: "gateway \<Rightarrow> string \<Rightarrow> proxy_caller io" where
  "proxy_authenticate gw key =
     io_bind (Authenticate (gw_hash gw) (NewSessionKey key) \<lparr>pr_PID = 0, pr_ExecutableHash = []\<rparr>)
       (\<lambda>a. io_return \<lparr>pc_AgentID = agent_ID a, pc_WorkspaceID = agent_WorkspaceID a\<rparr>)"

definition maxDeclarations :: int where "maxDeclarations = 200"

definition hostOfBaseURL :: "gateway \<Rightarrow> string \<Rightarrow> string result" where
  "hostOfBaseURL gw base = (case gw_host gw base of
     None \<Rightarrow> Err CodeInternal
   | Some host \<Rightarrow> if host = [] then Err CodeInvalidConfiguration else Ok host)"

definition owns_host :: "gateway \<Rightarrow> string \<Rightarrow> adapter_declaration \<Rightarrow> bool" where
  "owns_host gw host d = (case hostOfBaseURL gw (decl_BaseURL d) of
     Inl e \<Rightarrow> False | Inr declared \<Rightarrow> equal_fold declared host)"

definition serviceFor :: "gateway \<Rightarrow> string \<Rightarrow> string io" where
  "serviceFor gw host =
     (if host = [] then io_fail CodeCapabilityNotOffered
      else io_bind (EnabledDeclarations maxDeclarations) (\<lambda>enabled.
             case find (owns_host gw host) enabled of
               None \<Rightarrow> io_fail CodeCapabilityNotOffered
             | Some d \<Rightarrow> io_return (decl_Service d)))"

definition Lookup :: "gateway \<Rightarrow> target \<Rightarrow> route io" where
  "Lookup gw target =
     io_bind (serviceFor gw (tg_Host target)) (\<lambda>service.
     io_bind (io_app (registry_Resolve (gw_order gw service) (gw_registry gw) service
         (tg_Method target) (tg_Path target))) (\<lambda>(capability, resource).
       io_return \<lparr>rt_Service = service, rt_Operation = ac_Operation capability,
         rt_Resource = resource\<rparr>))"

definition maxActiveLeases :: int where "maxActiveLeases = 200"

definition requestedScope :: "lease \<Rightarrow> proxy_caller \<Rightarrow> route \<Rightarrow> scope result" where
  "requestedScope granted caller route =
     (case decode_scope (lease_ResourceScope granted) of
        None \<Rightarrow> Err CodeInternal
      | Some issued \<Rightarrow> Ok (issued\<lparr>scope_AgentID := pc_AgentID caller,
          scope_WorkspaceID := pc_WorkspaceID caller, scope_Service := rt_Service route,
          scope_Operation := rt_Operation route, scope_Resource := rt_Resource route,
          scope_ResourceKey := ResourceKeyOf (rt_Resource route)\<rparr>))"

text \<open>The loop over the candidates: a lease that cannot be used is passed over, whatever the error.\<close>

fun authorize_loop :: "proxy_caller \<Rightarrow> route \<Rightarrow> lease list \<Rightarrow> lease_grant io" where
  "authorize_loop caller route [] = io_fail CodeCredentialNotAuthorized"
| "authorize_loop caller route (candidate # candidates) =
     (if lease_AgentID candidate \<noteq> pc_AgentID caller \<or> lease_Service candidate \<noteq> rt_Service route
      then authorize_loop caller route candidates
      else (case requestedScope candidate caller route of
              Inl e \<Rightarrow> authorize_loop caller route candidates
            | Inr requested \<Rightarrow>
                io_bind (io_try (lease_Use (lease_ID candidate) requested)) (\<lambda>used. case used of
                   Inl c \<Rightarrow> authorize_loop caller route candidates
                 | Inr l \<Rightarrow> io_return \<lparr>lg_LeaseID = lease_ID l, lg_IdentityID = lease_IdentityID l\<rparr>)))"

definition Authorize :: "proxy_caller \<Rightarrow> route \<Rightarrow> lease_grant io" where
  "Authorize caller route =
     io_bind (lease_Active maxActiveLeases) (authorize_loop caller route)"

text \<open>\<open>credentialReferences.ReferenceFor\<close>.\<close>

definition ReferenceFor :: "string \<Rightarrow> string io" where
  "ReferenceFor identityID =
     io_bind (IdentityByID identityID) (\<lambda>i.
       if identity_CredentialReferenceID i = [] then io_fail CodeProviderUnavailable
       else io_return (identity_CredentialReferenceID i))"

definition as_app :: "'a result \<Rightarrow> 'a app_result" where
  "as_app r = (case r of Inr a \<Rightarrow> Inr a | Inl (Fail c) \<Rightarrow> Inl (apperr_New c)
     | Inl Panic \<Rightarrow> Inl (apperr_New CodeInternal))"

text \<open>A call of the exchange: finding the reference and fetching the secret are reads of the database
  and questions to a source.  They happen when the call gets as far as the credential -- an adapter
  with the method and a declared operation -- and their answers are what the exchange looks at.\<close>

definition exchange_of :: "gateway \<Rightarrow> string result \<Rightarrow> string result \<Rightarrow> exchange" where
  "exchange_of gw reference secret = \<lparr>xg_registry = gw_registry gw,
     xg_Fetch = (\<lambda>_. as_app secret), xg_ReferenceFor = (\<lambda>_. as_app reference)\<rparr>"

definition is_inr :: "'a + 'b \<Rightarrow> bool" where
  "is_inr x = (case x of Inl _ \<Rightarrow> False | Inr _ \<Rightarrow> True)"

definition sends_now :: "full_registry \<Rightarrow> exchange_request \<Rightarrow> bool" where
  "sends_now r request \<longleftrightarrow>
     (case registry_Adapter r (xr_Service request) of Inl _ \<Rightarrow> False | Inr a \<Rightarrow> fa_Execute a \<noteq> None)
     \<and> is_inr (registry_Capability r (xr_Service request) (xr_Operation request))"

definition previews_now :: "full_registry \<Rightarrow> exchange_request \<Rightarrow> bool" where
  "previews_now r request \<longleftrightarrow>
     (case registry_Adapter r (xr_Service request) of
        Inl _ \<Rightarrow> False
      | Inr a \<Rightarrow>
          (case fa_Preview a of
             None \<Rightarrow> False
           | Some (source_of, run) \<Rightarrow> source_of (xr_Operation request) \<noteq> []
               \<and> (case registry_Capability r (xr_Service request) (source_of (xr_Operation request)) of
                    Inl _ \<Rightarrow> False | Inr c \<Rightarrow> \<not> capability_Write c)))
     \<and> is_inr (registry_Capability r (xr_Service request) (xr_Operation request))"

definition gate_exchange ::
    "bool \<Rightarrow> (exchange \<Rightarrow> xstate \<Rightarrow> 'a app_result \<times> xstate) \<Rightarrow> gateway \<Rightarrow> string \<Rightarrow> gate
       \<Rightarrow> 'a result \<times> gate" where
  "gate_exchange gets_there run gw identityID g =
     (case (if gets_there then on_world (ReferenceFor identityID) g else (Err CodeInternal, g)) of
        (reference, g1) \<Rightarrow>
      case (case reference of
              Inl e \<Rightarrow> (Inl e, g1)
            | Inr i \<Rightarrow> on_world (credential_Fetch (gw_credentials gw) i) g1) of (secret, g2) \<Rightarrow>
      case run (exchange_of gw reference secret) (gt_net g2) of (r, net) \<Rightarrow>
        (case r of Inl e \<Rightarrow> Err (ae_Code e) | Inr a \<Rightarrow> Ok a, g2\<lparr>gt_net := net\<rparr>))"

definition proxy_request_of :: "string \<Rightarrow> lease_grant \<Rightarrow> route \<Rightarrow> string \<Rightarrow> exchange_request" where
  "proxy_request_of operationID grant route body = \<lparr>xr_Service = rt_Service route,
     xr_Operation = rt_Operation route, xr_IdentityID = lg_IdentityID grant,
     xr_Resource = rt_Resource route, xr_Query = [], xr_Body = body, xr_OperationID = operationID\<rparr>"

definition proxy_Send ::
    "gateway \<Rightarrow> string \<Rightarrow> lease_grant \<Rightarrow> route \<Rightarrow> string \<Rightarrow> gate \<Rightarrow> exchange_reply result \<times> gate" where
  "proxy_Send gw operationID grant route body =
     (let request = proxy_request_of operationID grant route body in
      gate_exchange (sends_now (gw_registry gw) request) (\<lambda>x. exchange_Send x request) gw
        (lg_IdentityID grant))"

section \<open>Ledger entries\<close>

definition resourceText :: "string go_map \<Rightarrow> jtext" where
  "resourceText resource = Parsed (JObj (map (\<lambda>(k, v). (k, JStr (marshal_str v))) resource))"

definition string_object :: "(string \<times> string) list \<Rightarrow> jtext" where
  "string_object members = Parsed (JObj (map (\<lambda>(k, v). (k, JStr (marshal_str v))) members))"

definition blocked_event :: "string \<Rightarrow> proxy_request \<Rightarrow> string \<Rightarrow> route \<Rightarrow> code \<Rightarrow> audit_event" where
  "blocked_event operationID r host route reason = empty_event\<lparr>event_OperationID := operationID,
     event_Type := EventDenied, event_Service := rt_Service route,
     event_Operation := rt_Operation route, event_Resource := resourceText (rt_Resource route),
     event_ResolvedScope := Parsed (JObj []), event_Verdict := VerdictDeny,
     event_Outcome := OutcomeBlocked,
     event_Metadata := string_object [(''host'', host), (''method'', px_Method r),
       (''path'', px_Path r), (''reason'', code_String reason)]\<rparr>"

definition executed_event ::
    "string \<Rightarrow> proxy_caller \<Rightarrow> target \<Rightarrow> route \<Rightarrow> lease_grant \<Rightarrow> exchange_reply \<Rightarrow> duration \<Rightarrow> audit_event" where
  "executed_event operationID caller target route grant reply elapsed =
     empty_event\<lparr>event_OperationID := operationID, event_Type := EventAdapterExecuted,
       event_AgentID := pc_AgentID caller, event_WorkspaceID := pc_WorkspaceID caller,
       event_IdentityID := lg_IdentityID grant, event_Service := rt_Service route,
       event_Operation := rt_Operation route, event_Resource := resourceText (rt_Resource route),
       event_ResolvedScope := Parsed (JObj []), event_Verdict := VerdictAutoAllow,
       event_LeaseID := lg_LeaseID grant,
       event_Outcome := (if xy_StatusCode reply = 200 then OutcomeSucceeded else OutcomeFailed),
       event_ResponseStatus := xy_UpstreamStatus reply, event_Duration := elapsed,
       event_IsRedacted := True,
       event_Metadata := string_object [(''face'', ''proxy''), (''host'', tg_Host target),
         (''method'', tg_Method target), (''path'', tg_Path target)]\<rparr>"

section \<open>The handler\<close>

datatype proxy_reply = Forwarded exchange_reply | Refused code

fun reason_of :: "go_error \<Rightarrow> code" where
  "reason_of (Fail c) = c"
| "reason_of Panic = CodeInternal"

definition proxy_refuse ::
    "string \<Rightarrow> proxy_request \<Rightarrow> string \<Rightarrow> route \<Rightarrow> go_error \<Rightarrow> gate \<Rightarrow> proxy_reply \<times> gate" where
  "proxy_refuse operationID r host route e g =
     (Refused (reason_of e),
      snd (on_world (Record (blocked_event operationID r host route (reason_of e))) g))"

definition proxy_forward ::
    "gateway \<Rightarrow> string \<Rightarrow> proxy_request \<Rightarrow> target \<Rightarrow> proxy_caller \<Rightarrow> route \<Rightarrow> lease_grant \<Rightarrow> string
       \<Rightarrow> gate \<Rightarrow> proxy_reply \<times> gate" where
  "proxy_forward gw operationID r target caller route grant body g =
     (case gate_now g of (started, g1) \<Rightarrow>
      case proxy_Send gw operationID grant route body g1 of
        (Inl e, g2) \<Rightarrow> proxy_refuse operationID r (tg_Host target) route e g2
      | (Inr reply, g2) \<Rightarrow>
          (case gate_now g2 of (ended, g3) \<Rightarrow>
           case on_world (Record (executed_event operationID caller target route grant reply
               (ended - started))) g3 of
             (Inl e, g4) \<Rightarrow> (Refused (reason_of e), g4)
           | (Inr _, g4) \<Rightarrow> (Forwarded reply, g4)))"

definition proxy_serve :: "gateway \<Rightarrow> string \<Rightarrow> proxy_request \<Rightarrow> gate \<Rightarrow> proxy_reply \<times> gate" where
  "proxy_serve gw operationID r g =
     (case gw_Check (gt_available g) of
        Inl e \<Rightarrow> proxy_refuse operationID r (host_of r) no_route e g
      | Inr _ \<Rightarrow>
     (case targetOf r of
        Inl e \<Rightarrow> proxy_refuse operationID r [] no_route e g
      | Inr target \<Rightarrow>
     (case on_world (proxy_authenticate gw (px_SessionKey r)) g of
        (Inl e, g1) \<Rightarrow> proxy_refuse operationID r (tg_Host target) no_route e g1
      | (Inr caller, g1) \<Rightarrow>
     (case on_world (Lookup gw target) g1 of
        (Inl e, g2) \<Rightarrow> proxy_refuse operationID r (tg_Host target) no_route e g2
      | (Inr route, g2) \<Rightarrow>
     (case readBody (gw_maxBytes gw) r of
        Inl e \<Rightarrow> proxy_refuse operationID r (tg_Host target) route e g2
      | Inr body \<Rightarrow>
     (case on_world (Authorize caller route) g2 of
        (Inl e, g3) \<Rightarrow> proxy_refuse operationID r (tg_Host target) route e g3
      | (Inr grant, g3) \<Rightarrow>
          proxy_forward gw operationID r target caller route grant body g3))))))"

text \<open>\<open>NewHandler\<close>: an operation id first; tunnels are refused.\<close>

definition proxy_handle :: "gateway \<Rightarrow> proxy_request \<Rightarrow> gate \<Rightarrow> proxy_reply \<times> gate" where
  "proxy_handle gw r g =
     (case on_world io_new_id g of
        (Inl e, g1) \<Rightarrow> (Refused CodeInternal, g1)
      | (Inr operationID, g1) \<Rightarrow>
          if px_Method r = ''CONNECT'' then (Refused CodeForbidden, g1)
          else proxy_serve gw operationID r g1)"

text \<open>The status line of an answer.\<close>

definition statusFor :: "code \<Rightarrow> int" where
  "statusFor c =
     (if c \<in> {CodeUnauthenticated, CodeSessionExpired, CodeAgentIdentityUnverifiable} then 407
      else if c \<in> {CodeForbidden, CodeCredentialNotAuthorized, CodeCapabilityNotOffered,
                 CodePathNotAllowed} then 403
      else if c = CodeInvalidRequest then 400
      else if c = CodeAdapterTimeout then 504
      else if c \<in> {CodeGatewayUnavailable, CodeProviderUnavailable, CodeVaultLocked,
                 CodeProviderLockedTimeout} then 502
      else 500)"

definition proxy_status :: "proxy_reply \<Rightarrow> int" where
  "proxy_status reply = (case reply of Forwarded a \<Rightarrow> xy_StatusCode a | Refused c \<Rightarrow> statusFor c)"

section \<open>What the ports have done when they return\<close>

text \<open>Computations that only look, and what the others leave alone.\<close>

interpretation looking: db_history "\<lambda>d d'. d' = d"
  by unfold_locales simp_all

interpretation ground_kept: db_history "\<lambda>d d'. db_identities d' = db_identities d
    \<and> db_declarations d' = db_declarations d \<and> db_audit d' = db_audit d"
  by unfold_locales simp_all

interpretation leases_kept: db_history "\<lambda>d d'. db_leases d' = db_leases d"
  by unfold_locales simp_all

interpretation using_leases: db_history
    "\<lambda>d d'. (lease_table_ok (db_leases d) \<longrightarrow> lease_table_ok (db_leases d')) \<and> lease_history d d'"
  using leases.hist_refl leases.hist_trans by unfold_locales blast+

lemma ask_looks: "looking.keeps (ask f)"
  by (simp add: looking.keeps_def ask_db)

lemma credential_Fetch_looks: "looking.keeps (credential_Fetch reg i)"
  unfolding credential_Fetch_def locate_def ReferenceByID_def ProviderByID_def source_fetch_def
    unlock_wait_def
  by (intro looking.keeps_rules ask_looks)

lemma ReferenceFor_looks: "looking.keeps (ReferenceFor i)"
  unfolding ReferenceFor_def IdentityByID_def by (intro looking.keeps_rules)

lemma Record_keeps_leases: "leases_kept.keeps (Record e)"
  unfolding Record_def prepare_def Append_def
  by (intro leases_kept.keeps_rules leases_kept.keeps_write) (auto simp: appendAuditEvent_Ok)

lemma TouchAgent_keeps_ground:
  "ground_kept.keeps (TouchAgent i at)" "leases_kept.keeps (TouchAgent i at)"
  unfolding TouchAgent_def
  by (auto intro!: ground_kept.keeps_rules ground_kept.keeps_write leases_kept.keeps_rules
      leases_kept.keeps_write simp: update_agent_Ok rbind_iffs)

lemma using_statements:
  "using_leases.keeps (Consume i now)" "using_leases.keeps (Close i st at)"
proof -
  have consume: "(lease_table_ok (db_leases d) \<longrightarrow> lease_table_ok (db_leases d')) \<and> lease_history d d'"
    if "update_lease (consumeLease i t) none d = Ok (r, d')" for t none d r d'
    using lease_exec_ok [of "db_leases d" "SConsume i t"] that
      update_lease_history [OF that consumeLease_evolves]
    by (auto simp: update_lease_Ok after_update_def)
  have close: "(lease_table_ok (db_leases d) \<longrightarrow> lease_table_ok (db_leases d')) \<and> lease_history d d'"
    if "update_lease (closeLease i st t) none d = Ok (r, d')" for t none d r d'
    using lease_exec_ok [of "db_leases d" "SClose i st t"] that
      update_lease_history [OF that closeLease_evolves]
    by (auto simp: update_lease_Ok after_update_def)
  show "using_leases.keeps (Consume i now)" unfolding Consume_def
    by (intro using_leases.keeps_rules using_leases.keeps_write consume)
  show "using_leases.keeps (Close i st at)" unfolding Close_def
    by (intro using_leases.keeps_rules using_leases.keeps_write close)
qed

lemma ground_statements:
  "ground_kept.keeps (Consume i now)" "ground_kept.keeps (Close i st at)"
  unfolding Consume_def Close_def
  by (auto intro!: ground_kept.keeps_rules ground_kept.keeps_write simp: update_lease_Ok)

lemma lease_Use_keeps:
  "using_leases.keeps (lease_Use i s)" "ground_kept.keeps (lease_Use i s)"
  unfolding lease_Use_def LeaseByID_def
  by (intro using_leases.keeps_rules using_statements ground_kept.keeps_rules ground_statements)+

lemma lease_Use_ID: "lease_Use i s w = (Ok l', w') \<Longrightarrow> lease_ID l' = i"
  by (auto simp: lease_Use_def io_Ok_iffs consumable_def split: if_splits elim!: Close_Ok Consume_Ok)

lemma proxy_authenticate_Ok:
  assumes "proxy_authenticate gw key w = (Ok caller, w')"
  obtains a where "a \<in> set (db_agents (w_db w))" "agent_Status a = AgentActive"
    "agent_SessionKeyHash a = HashSessionKey (gw_hash gw) (NewSessionKey key)"
    "agent_SessionExpiresAt a > w_clock w (Suc (w_tick w))" "pc_AgentID caller = agent_ID a"
    "db_leases (w_db w') = db_leases (w_db w)"
    "db_identities (w_db w') = db_identities (w_db w)"
    "db_declarations (w_db w') = db_declarations (w_db w)"
proof -
  from assms obtain x where au: "Authenticate (gw_hash gw) (NewSessionKey key)
      \<lparr>pr_PID = 0, pr_ExecutableHash = []\<rparr> w = (Ok x, w')" and c: "pc_AgentID caller = agent_ID x"
    by (auto simp: proxy_authenticate_def io_Ok_iffs)
  from au obtain a w2 where a: "a \<in> set (db_agents (w_db w))" "agent_Status a = AgentActive"
    "agent_SessionKeyHash a = HashSessionKey (gw_hash gw) (NewSessionKey key)"
    "agent_SessionExpiresAt a > w_clock w (Suc (w_tick w))"
    and t: "TouchAgent (agent_ID a) (w_clock w2 (w_tick w2)) (tick w2) = (Ok x, w')"
    and w2: "w_db w2 = w_db w" by (elim Authenticate_Ok) blast
  from t have "agent_ID x = agent_ID a" by (rule TouchAgent_Ok) simp
  moreover note ground_kept.keepsD [OF TouchAgent_keeps_ground(1) t]
    leases_kept.keepsD [OF TouchAgent_keeps_ground(2) t]
  ultimately show thesis using a c w2 by (intro that [of a]) simp_all
qed

lemma registry_Resolve_Inr:
  assumes "registry_Resolve order r service httpmethod path = Inr (c, resource)"
    and new: "registry_New adapters = Inr r"
  shows "\<exists>a. declares adapters service a \<and> c \<in> set (ad_Capabilities a)" "capability_Validate c = Ok ()"
    "equal_fold (ac_Method c) httpmethod" "MatchPath (ac_Path c) path = Some resource"
proof -
  from assms(1) obtain ops where ops: "gm_get (rg_capabilities r) service = Some ops"
    and res: "resolve_in (List.map_filter (gm_get ops) order) httpmethod path = Some (c, resource)"
    by (auto simp: registry_Resolve_def split: option.splits)
  note R = resolve_in_Some [OF res]
  then obtain name where "gm_get ops name = Some c" by (auto simp: List.map_filter_def)
  with ops have cap: "registry_Capability r service name = Inr c"
    by (simp add: registry_Capability_def)
  then show "\<exists>a. declares adapters service a \<and> c \<in> set (ad_Capabilities a)"
    "capability_Validate c = Ok ()"
    using registry_New_Inr(3,4) [OF new] by blast+
  show "equal_fold (ac_Method c) httpmethod" "MatchPath (ac_Path c) path = Some resource"
    using R by simp_all
qed

lemma Lookup_Ok:
  assumes "Lookup gw t w = (Ok rt, w')"
  obtains d c where "d \<in> set (db_declarations (w_db w))" "decl_Status d = AdapterEnabled"
    "owns_host gw (tg_Host t) d" "rt_Service rt = decl_Service d"
    "registry_Resolve (gw_order gw (decl_Service d)) (gw_registry gw) (decl_Service d)
       (tg_Method t) (tg_Path t) = Inr (c, rt_Resource rt)"
    "rt_Operation rt = ac_Operation c" "w_db w' = w_db w"
proof -
  from assms obtain service w1 c resource where s: "serviceFor gw (tg_Host t) w = (Ok service, w1)"
    and res: "registry_Resolve (gw_order gw service) (gw_registry gw) service (tg_Method t) (tg_Path t)
      = Inr (c, resource)"
    and rt: "rt = \<lparr>rt_Service = service, rt_Operation = ac_Operation c, rt_Resource = resource\<rparr>"
    and w': "w' = w1"
    by (auto simp: Lookup_def io_bind_Ok_iff io_app_Ok io_return_Ok split: prod.splits)
  from s obtain d where "find (owns_host gw (tg_Host t)) (enabled_declarations maxDeclarations (w_db w)) = Some d"
    and d: "service = decl_Service d" "w1 = tick w"
    by (auto simp: serviceFor_def EnabledDeclarations_def maxDeclarations_def io_Ok_iffs
        split: option.splits if_splits)
  then have "d \<in> set (enabled_declarations maxDeclarations (w_db w))" "owns_host gw (tg_Host t) d"
    by (auto simp: find_Some_iff)
  moreover from this(1) have "d \<in> set (db_declarations (w_db w))" "decl_Status d = AdapterEnabled"
    by (auto simp: enabled_declarations_def dest!: in_set_takeD)
  ultimately show thesis using res rt w' d by (intro that [of d c]) simp_all
qed

section \<open>Authorising\<close>

lemma lease_Active_Ok:
  assumes "lease_Active n w = (Ok ls, w')"
  shows "set ls \<subseteq> set (db_leases (w_db w))" "w_db w' = w_db w"
proof -
  have same: "toLeases xs = Ok ys \<Longrightarrow> ys = xs" for xs ys
    by (induction xs arbitrary: ys) (auto simp: rbind_iffs toLease_def)
  show "set ls \<subseteq> set (db_leases (w_db w))" "w_db w' = w_db w"
    using assms by (auto simp: lease_Active_def LeasesByStatus_def list_leases_def io_Ok_iffs
        invalidLimit_def select_leases_def split: if_splits dest!: same in_set_takeD)
qed

lemma authorize_loop_Ok:
  assumes "authorize_loop caller rt ls w = (Ok grant, w')"
  shows "\<exists>l requested w1 l'. l \<in> set ls \<and> lease_AgentID l = pc_AgentID caller
     \<and> lease_Service l = rt_Service rt \<and> requestedScope l caller rt = Ok requested
     \<and> lease_Use (lease_ID l) requested w1 = (Ok l', w')
     \<and> (lease_table_ok (db_leases (w_db w)) \<longrightarrow> lease_table_ok (db_leases (w_db w1)))
     \<and> lease_history (w_db w) (w_db w1)
     \<and> grant = \<lparr>lg_LeaseID = lease_ID l', lg_IdentityID = lease_IdentityID l'\<rparr>"
  using assms
proof (induction ls arbitrary: w)
  case Nil
  then show ?case by (simp add: io_fail_Ok)
next
  case (Cons x ls)
  show ?case
  proof (cases "authorize_loop caller rt ls w = (Ok grant, w')")
    case True
    from Cons.IH [OF this] show ?thesis by (elim exE conjE) (intro exI conjI; (assumption | simp))
  next
    case False
    with Cons.prems obtain requested where here: "lease_AgentID x = pc_AgentID caller"
      "lease_Service x = rt_Service rt" "requestedScope x caller rt = Ok requested"
      by (auto split: if_splits sum.splits)
    with Cons.prems obtain used w1 where u: "io_try (lease_Use (lease_ID x) requested) w = (Ok used, w1)"
      and k: "(case used of Inl c \<Rightarrow> authorize_loop caller rt ls
                 | Inr l \<Rightarrow> io_return \<lparr>lg_LeaseID = lease_ID l, lg_IdentityID = lease_IdentityID l\<rparr>) w1
               = (Ok grant, w')"
      by (auto simp: io_bind_Ok_iff)
    have kept: "(lease_table_ok (db_leases (w_db w)) \<longrightarrow> lease_table_ok (db_leases (w_db w1)))
        \<and> lease_history (w_db w) (w_db w1)"
      using using_leases.keepsD [OF using_leases.keeps_try [OF lease_Use_keeps(1)] u] .
    show ?thesis
    proof (cases used)
      case (Inl c)
      with k have "authorize_loop caller rt ls w1 = (Ok grant, w')" by simp
      from Cons.IH [OF this] obtain l req w2 l' where "l \<in> set ls" "lease_AgentID l = pc_AgentID caller"
        "lease_Service l = rt_Service rt" "requestedScope l caller rt = Ok req"
        "lease_Use (lease_ID l) req w2 = (Ok l', w')"
        "lease_table_ok (db_leases (w_db w1)) \<longrightarrow> lease_table_ok (db_leases (w_db w2))"
        and h: "lease_history (w_db w1) (w_db w2)"
        and "grant = \<lparr>lg_LeaseID = lease_ID l', lg_IdentityID = lease_IdentityID l'\<rparr>" by blast
      moreover have "lease_history (w_db w) (w_db w2)" using kept h leases.hist_trans by blast
      ultimately show ?thesis using kept
        by (intro exI [of _ l] exI [of _ req] exI [of _ w2] exI [of _ l']) simp
    next
      case (Inr l)
      with u k have "lease_Use (lease_ID x) requested w = (Ok l, w')"
        "grant = \<lparr>lg_LeaseID = lease_ID l, lg_IdentityID = lease_IdentityID l\<rparr>"
        by (auto simp: io_try_Ok io_return_Ok)
      with here show ?thesis using leases.hist_refl
        by (intro exI [of _ x] exI [of _ requested] exI [of _ w] exI [of _ l]) simp
    qed
  qed
qed

lemma authorize_keeps:
  "ground_kept.keeps (authorize_loop caller rt ls)" "ground_kept.keeps (Authorize caller rt)"
proof -
  show loop: "ground_kept.keeps (authorize_loop caller rt ls)" for ls
  proof (induction ls)
    case (Cons x ls)
    then show ?case unfolding authorize_loop.simps
      by (intro ground_kept.keeps_rules lease_Use_keeps)
  qed (simp add: ground_kept.keeps_pure)
  show "ground_kept.keeps (Authorize caller rt)"
    unfolding Authorize_def lease_Active_def LeasesByStatus_def list_leases_def
    by (intro ground_kept.keeps_rules loop)
qed

text \<open>The lease that was used: stored and active when the request came, held by the caller, and
  naming the caller, its workspace and exactly what the request asks for; it has been counted.\<close>

definition lease_names :: "lease \<Rightarrow> proxy_caller \<Rightarrow> route \<Rightarrow> bool" where
  "lease_names l caller rt \<longleftrightarrow> lease_AgentID l = pc_AgentID caller \<and> lease_Service l = rt_Service rt
     \<and> lease_Status l = LeaseActive
     \<and> (case decodeGrant (lease_ResourceScope l) of Inl e \<Rightarrow> False | Inr granted \<Rightarrow>
          scope_AgentID granted = pc_AgentID caller \<and> scope_WorkspaceID granted = pc_WorkspaceID caller
          \<and> scope_Service granted = rt_Service rt \<and> scope_Operation granted = rt_Operation rt
          \<and> sameResource (scope_Resource granted) (rt_Resource rt)
          \<and> \<not> hasWildcard (rt_Resource rt))"

lemma Authorize_Ok:
  assumes run: "Authorize caller rt w = (Ok grant, w')" and ok: "lease_table_ok (db_leases (w_db w))"
  obtains l l' where "l \<in> set (db_leases (w_db w))" "lease_names l caller rt"
    "l' \<in> set (db_leases (w_db w'))" "lease_ID l' = lease_ID l"
    "lease_UsedRequests l < lease_UsedRequests l'"
    "grant = \<lparr>lg_LeaseID = lease_ID l, lg_IdentityID = lease_IdentityID l\<rparr>"
proof -
  from run obtain ls w0 where act: "lease_Active maxActiveLeases w = (Ok ls, w0)"
    and loop: "authorize_loop caller rt ls w0 = (Ok grant, w')"
    by (auto simp: Authorize_def io_bind_Ok_iff)
  note A = lease_Active_Ok [OF act]
  from authorize_loop_Ok [OF loop] obtain l requested w1 l' where l: "l \<in> set ls"
    "lease_AgentID l = pc_AgentID caller" "lease_Service l = rt_Service rt"
    and req: "requestedScope l caller rt = Ok requested"
    and use: "lease_Use (lease_ID l) requested w1 = (Ok l', w')"
    and ok1: "lease_table_ok (db_leases (w_db w1))" and h: "lease_history (w_db w) (w_db w1)"
    and grant: "grant = \<lparr>lg_LeaseID = lease_ID l', lg_IdentityID = lease_IdentityID l'\<rparr>"
    using A(2) ok by auto
  from l A have lw: "l \<in> set (db_leases (w_db w))" by blast
  with h obtain m where m: "m \<in> set (db_leases (w_db w1))" "lease_evolves l m"
    unfolding lease_history_def by (elim lease_rows.evolve_member)
  note M = lease_evolves_fields [OF m(2)]
  from lease_Use_Ok [OF ok1 use] obtain n granted where n: "n \<in> set (db_leases (w_db w1))"
    "lease_ID n = lease_ID l" "lease_Status n = LeaseActive"
    "decodeGrant (lease_ResourceScope n) = Ok granted" "CoversIgnoringWindow granted requested"
    "lease_UsedRequests l' = lease_UsedRequests n + 1" "l' \<in> set (db_leases (w_db w'))" by blast
  have nm: "n = m" using lease_exec_same_id [OF ok1 n(1) m(1)] n(2) M(1) by simp
  have "(lease_table_ok (db_leases (w_db w1)) \<longrightarrow> lease_table_ok (db_leases (w_db w')))
      \<and> lease_history (w_db w1) (w_db w')"
    by (rule using_leases.keepsD [OF lease_Use_keeps(1) use])
  then have ok': "lease_table_ok (db_leases (w_db w'))" and h': "lease_history (w_db w1) (w_db w')"
    using ok1 by blast+
  from h' n(1) obtain p where p: "p \<in> set (db_leases (w_db w'))" "lease_evolves n p"
    unfolding lease_history_def by (elim lease_rows.evolve_member)
  have ID: "lease_ID l' = lease_ID l" by (rule lease_Use_ID [OF use])
  have "l' = p" using lease_exec_same_id [OF ok' n(7) p(1)] lease_evolves_fields(1) [OF p(2)] n(2) ID
    by simp
  then have idn: "lease_IdentityID l' = lease_IdentityID l"
    using lease_evolves_fields(7) [OF p(2)] M(7) nm by simp
  have dec: "decodeGrant (lease_ResourceScope l) = Ok granted" using n(4) nm M(3) by simp
  then have "decode_scope (lease_ResourceScope l) = Some granted"
    by (auto simp: decodeGrant_def rbind_iffs split: option.splits)
  with req have r: "requested = granted\<lparr>scope_AgentID := pc_AgentID caller,
      scope_WorkspaceID := pc_WorkspaceID caller, scope_Service := rt_Service rt,
      scope_Operation := rt_Operation rt, scope_Resource := rt_Resource rt,
      scope_ResourceKey := ResourceKeyOf (rt_Resource rt)\<rparr>" by (simp add: requestedScope_def)
  have "lease_Status l = LeaseActive"
    using M(10) n(3) nm by (cases "lease_Status l = LeaseActive") auto
  then have "lease_names l caller rt"
    using n(5) l(2,3) dec unfolding lease_names_def r CoversIgnoringWindow_def covers_def
    by (simp split: if_splits)
  moreover have "lease_UsedRequests l < lease_UsedRequests l'" using n(6) nm M(9) by simp
  ultimately show thesis using that [OF lw _ n(7) ID] grant ID idn by simp
qed

section \<open>Sending\<close>

lemma on_world_looks:
  assumes "looking.keeps m" and "on_world m g = (r, g')"
  shows "w_db (gt_world g') = w_db (gt_world g)" "gt_net g' = gt_net g"
    "m (gt_world g) = (r, gt_world g')"
  using assms looking.keepsD by (auto simp: on_world_def split: prod.splits)

lemma ReferenceFor_Ok:
  "ReferenceFor i w = (Ok ref, w') \<Longrightarrow>
     \<exists>x \<in> set (db_identities (w_db w)). identity_ID x = i \<and> identity_CredentialReferenceID x = ref"
  by (auto simp: ReferenceFor_def IdentityByID_def io_Ok_iffs found_def row_by_def find_Some_iff rbind_iffs
      split: if_splits option.splits)

text \<open>What the network and the credentials see of one call of the exchange.\<close>

definition ran_once ::
    "gateway \<Rightarrow> methods adapter_scheme option list \<Rightarrow> route \<Rightarrow> identity \<Rightarrow> xstate \<Rightarrow> xstate \<Rightarrow> bool" where
  "ran_once gw adapters rt i st st' \<longleftrightarrow> (\<exists>a run input out.
     declares adapters (rt_Service rt) a \<and> fa_Execute a = Some run
     \<and> xi_Operation input = rt_Operation rt \<and> xi_Resource input = rt_Resource rt
     \<and> (\<exists>u u'. credential_Fetch (gw_credentials gw) (identity_CredentialReferenceID i) u
          = (Ok (xi_Credential input), u'))
     \<and> run input (xs_Sent st) = (out, xs_Sent st')
     \<and> xs_Trace st' = xs_Trace st @ [Fetched (identity_CredentialReferenceID i),
          Zeroed (identity_CredentialReferenceID i)])"

text \<open>The reads around a call of the exchange leave the database and the network alone; what the exchange
  is told comes from them.\<close>

lemma gate_exchange_cases:
  assumes "gate_exchange ready run gw i g = (res, g')"
  obtains reference secret r net g2 where "run (exchange_of gw reference secret) (gt_net g) = (r, net)"
    "g' = g2\<lparr>gt_net := net\<rparr>" "res = (case r of Inl e \<Rightarrow> Err (ae_Code e) | Inr a \<Rightarrow> Ok a)"
    "w_db (gt_world g2) = w_db (gt_world g)" "gt_net g2 = gt_net g"
    "\<forall>ref secret'. reference = Ok ref \<and> secret = Ok secret' \<longrightarrow>
       (\<exists>x \<in> set (db_identities (w_db (gt_world g))). identity_ID x = i \<and> identity_CredentialReferenceID x = ref)
       \<and> (\<exists>u u'. credential_Fetch (gw_credentials gw) ref u = (Ok secret', u'))"
proof -
  obtain reference g1 where ref: "(if ready then on_world (ReferenceFor i) g else (Err CodeInternal, g))
      = (reference, g1)" by (metis prod.exhaust)
  obtain secret g2 where sec: "(case reference of Inl e \<Rightarrow> (Inl e, g1)
      | Inr i \<Rightarrow> on_world (credential_Fetch (gw_credentials gw) i) g1) = (secret, g2)"
    by (metis prod.exhaust)
  obtain r net where run: "run (exchange_of gw reference secret) (gt_net g2) = (r, net)" by (metis prod.exhaust)
  have R: "w_db (gt_world g1) = w_db (gt_world g)" "gt_net g1 = gt_net g"
    using ref on_world_looks [OF ReferenceFor_looks] by (cases ready; fastforce)+
  have S: "w_db (gt_world g2) = w_db (gt_world g1)" "gt_net g2 = gt_net g1"
    using sec on_world_looks [OF credential_Fetch_looks] by (cases reference; fastforce)+
  show thesis
  proof (rule that [of reference secret r net g2])
    show "run (exchange_of gw reference secret) (gt_net g) = (r, net)" using run S R by simp
    show "g' = g2\<lparr>gt_net := net\<rparr>" "res = (case r of Inl e \<Rightarrow> Err (ae_Code e) | Inr a \<Rightarrow> Ok a)"
      using assms ref sec run by (simp_all add: gate_exchange_def)
    show "w_db (gt_world g2) = w_db (gt_world g)" "gt_net g2 = gt_net g" using R S by simp_all
  next
    show "\<forall>ref secret'. reference = Ok ref \<and> secret = Ok secret' \<longrightarrow>
       (\<exists>x \<in> set (db_identities (w_db (gt_world g))). identity_ID x = i \<and> identity_CredentialReferenceID x = ref)
       \<and> (\<exists>u u'. credential_Fetch (gw_credentials gw) ref u = (Ok secret', u'))"
    proof (intro allI impI)
      fix rf sc assume ok: "reference = Ok rf \<and> secret = Ok sc"
      with ref have "on_world (ReferenceFor i) g = (Ok rf, g1)" by (cases ready) auto
      from on_world_looks(3) [OF ReferenceFor_looks this]
      have "ReferenceFor i (gt_world g) = (Ok rf, gt_world g1)" .
      from ReferenceFor_Ok [OF this]
      show "(\<exists>x \<in> set (db_identities (w_db (gt_world g))). identity_ID x = i \<and> identity_CredentialReferenceID x = rf)
       \<and> (\<exists>u u'. credential_Fetch (gw_credentials gw) rf u = (Ok sc, u'))"
      using sec ok on_world_looks(3) [OF credential_Fetch_looks] by fastforce
    qed
  qed
qed

lemma gate_Send_cases:
  assumes send: "gate_exchange ready (\<lambda>x. exchange_Send x request) gw (xr_IdentityID request) g = (res, g')"
    and new: "registry_New adapters = Inr (gw_registry gw)"
  shows "w_db (gt_world g') = w_db (gt_world g)"
    and "(\<exists>e. res = Inl e) \<and> gt_net g' = gt_net g
      \<or> (\<exists>i \<in> set (db_identities (w_db (gt_world g))). identity_ID i = xr_IdentityID request
           \<and> ran_once gw adapters \<lparr>rt_Service = xr_Service request, rt_Operation = xr_Operation request,
               rt_Resource = xr_Resource request\<rparr> i (gt_net g) (gt_net g'))"
proof -
  from send obtain reference secret r net g2 where
    run: "exchange_Send (exchange_of gw reference secret) request (gt_net g) = (r, net)"
    and g': "g' = g2\<lparr>gt_net := net\<rparr>" and res: "res = (case r of Inl e \<Rightarrow> Err (ae_Code e) | Inr a \<Rightarrow> Ok a)"
    and same: "w_db (gt_world g2) = w_db (gt_world g)" "gt_net g2 = gt_net g"
    and told: "\<forall>ref secret'. reference = Ok ref \<and> secret = Ok secret' \<longrightarrow>
       (\<exists>x \<in> set (db_identities (w_db (gt_world g))). identity_ID x = xr_IdentityID request
          \<and> identity_CredentialReferenceID x = ref)
       \<and> (\<exists>u u'. credential_Fetch (gw_credentials gw) ref u = (Ok secret', u'))"
    by (rule gate_exchange_cases)
  let ?x = "exchange_of gw reference secret"
  show "w_db (gt_world g') = w_db (gt_world g)" using g' same by simp
  show "(\<exists>e. res = Inl e) \<and> gt_net g' = gt_net g
      \<or> (\<exists>i \<in> set (db_identities (w_db (gt_world g))). identity_ID i = xr_IdentityID request
           \<and> ran_once gw adapters \<lparr>rt_Service = xr_Service request, rt_Operation = xr_Operation request,
               rt_Resource = xr_Resource request\<rparr> i (gt_net g) (gt_net g'))"
  proof (cases rule: exchange_Send_cases [of ?x request "gt_net g"])
    case (refused e)
    with run have "r = Inl e" "net = gt_net g" by simp_all
    with res g' show ?thesis by simp
  next
    case (ran a f c referenceID credential out sent')
    from ran(4) have "reference = Ok referenceID"
      by (auto simp: exchange_of_def as_app_def split: sum.splits go_error.splits)
    moreover from ran(5) have "secret = Ok credential"
      by (auto simp: exchange_of_def as_app_def split: sum.splits go_error.splits)
    ultimately obtain i u u' where i: "i \<in> set (db_identities (w_db (gt_world g)))"
      "identity_ID i = xr_IdentityID request" "identity_CredentialReferenceID i = referenceID"
      and f: "credential_Fetch (gw_credentials gw) referenceID u = (Ok credential, u')"
      using told by blast
    have "declares adapters (xr_Service request) a"
      using ran(1) registry_New_Inr(2) [OF new] by (simp add: exchange_of_def)
    then have "ran_once gw adapters \<lparr>rt_Service = xr_Service request, rt_Operation = xr_Operation request,
               rt_Resource = xr_Resource request\<rparr> i (gt_net g) (gt_net g')"
      unfolding ran_once_def using ran(2,6,7) f i(3) run g'
      by (intro exI [of _ a] exI [of _ f] exI [of _ "send_input request credential"] exI [of _ out])
        (auto simp: send_input_def)
    with i show ?thesis by blast
  qed
qed

lemma proxy_Send_cases:
  assumes send: "proxy_Send gw op grant rt body g = (res, g')"
    and new: "registry_New adapters = Inr (gw_registry gw)"
  shows "w_db (gt_world g') = w_db (gt_world g)"
    and "(\<exists>e. res = Inl e) \<and> gt_net g' = gt_net g
      \<or> (\<exists>i \<in> set (db_identities (w_db (gt_world g))). identity_ID i = lg_IdentityID grant
           \<and> ran_once gw adapters rt i (gt_net g) (gt_net g'))"
proof -
  let ?rq = "proxy_request_of op grant rt body"
  have rq: "xr_IdentityID ?rq = lg_IdentityID grant" "xr_Service ?rq = rt_Service rt"
    "xr_Operation ?rq = rt_Operation rt" "xr_Resource ?rq = rt_Resource rt"
    by (simp_all add: proxy_request_of_def)
  have "gate_exchange (sends_now (gw_registry gw) ?rq) (\<lambda>x. exchange_Send x ?rq) gw (xr_IdentityID ?rq) g
      = (res, g')" using send by (simp add: proxy_Send_def Let_def rq)
  from gate_Send_cases [OF this new]
  show "w_db (gt_world g') = w_db (gt_world g)"
    "(\<exists>e. res = Inl e) \<and> gt_net g' = gt_net g
      \<or> (\<exists>i \<in> set (db_identities (w_db (gt_world g))). identity_ID i = lg_IdentityID grant
           \<and> ran_once gw adapters rt i (gt_net g) (gt_net g'))" unfolding rq by (simp_all add: ran_once_def)
qed

lemma proxy_refuse_eq:
  assumes "proxy_refuse op r host rt e g = (reply, g')"
  shows "reply = Refused (reason_of e)" "gt_net g' = gt_net g"
    "db_leases (w_db (gt_world g')) = db_leases (w_db (gt_world g))"
  using assms leases_kept.keepsD [OF Record_keeps_leases]
  by (auto simp: proxy_refuse_def on_world_def split: prod.splits)

lemma proxy_forward_cases:
  assumes run: "proxy_forward gw op r t caller rt grant body g = (reply, g')"
    and new: "registry_New adapters = Inr (gw_registry gw)"
  shows "db_leases (w_db (gt_world g')) = db_leases (w_db (gt_world g))"
    and "(\<exists>c. reply = Refused c) \<and> gt_net g' = gt_net g
      \<or> (\<exists>i \<in> set (db_identities (w_db (gt_world g))). identity_ID i = lg_IdentityID grant
           \<and> ran_once gw adapters rt i (gt_net g) (gt_net g'))"
    and "reply = Forwarded out \<Longrightarrow> \<exists>e \<in> set (db_audit (w_db (gt_world g'))).
       event_Type e = EventAdapterExecuted \<and> event_OperationID e = op
       \<and> event_AgentID e = pc_AgentID caller \<and> event_LeaseID e = lg_LeaseID grant
       \<and> event_IdentityID e = lg_IdentityID grant
       \<and> event_Service e = rt_Service rt \<and> event_Operation e = rt_Operation rt"
proof -
  let ?g1 = "snd (gate_now g)"
  have g1: "w_db (gt_world ?g1) = w_db (gt_world g)" "gt_net ?g1 = gt_net g"
    by (simp_all add: gate_now_def)
  obtain res g2 where send: "proxy_Send gw op grant rt body ?g1 = (res, g2)" by (metis prod.exhaust)
  note S = proxy_Send_cases [OF send new, unfolded g1]
  have "db_leases (w_db (gt_world g')) = db_leases (w_db (gt_world g))
    \<and> gt_net g' = gt_net g2 \<and> ((\<exists>e. res = Inl e) \<longrightarrow> (\<exists>c. reply = Refused c))
    \<and> (\<forall>out. reply = Forwarded out \<longrightarrow> (\<exists>e \<in> set (db_audit (w_db (gt_world g'))).
       event_Type e = EventAdapterExecuted \<and> event_OperationID e = op
       \<and> event_AgentID e = pc_AgentID caller \<and> event_LeaseID e = lg_LeaseID grant
       \<and> event_IdentityID e = lg_IdentityID grant
       \<and> event_Service e = rt_Service rt \<and> event_Operation e = rt_Operation rt))"
  proof (cases res)
    case (Inl e)
    with run send have "proxy_refuse op r (tg_Host t) rt e g2 = (reply, g')"
      by (simp add: proxy_forward_def gate_now_def)
    from proxy_refuse_eq [OF this] S(1) show ?thesis by simp
  next
    case (Inr a)
    define g3 where "g3 = snd (gate_now g2)"
    have g3: "w_db (gt_world g3) = w_db (gt_world g2)" "gt_net g3 = gt_net g2"
      by (simp_all add: g3_def gate_now_def)
    define ev where "ev = executed_event op caller t rt grant a (fst (gate_now g2) - fst (gate_now g))"
    obtain x w where rec: "Record ev (gt_world g3) = (x, w)" by (metis prod.exhaust)
    have e: "g' = g3\<lparr>gt_world := w\<rparr>"
      "reply = (case x of Inl e \<Rightarrow> Refused (reason_of e) | Inr _ \<Rightarrow> Forwarded a)"
      using run send Inr rec by (auto simp: proxy_forward_def gate_now_def on_world_def g3_def ev_def
          split: sum.splits)
    have kept: "db_leases (w_db w) = db_leases (w_db (gt_world g))"
      using leases_kept.keepsD [OF Record_keeps_leases rec] g3 S(1) by simp
    show ?thesis
    proof (cases x)
      case (Inl err)
      with e kept g3 Inr show ?thesis by simp
    next
      case (Inr ev')
      with rec have "Record ev (gt_world g3) = (Ok ev', w)" by simp
      then obtain i rsrc scp meta where ev': "ev' = appendParams (ev\<lparr>event_ID := i,
          event_CreatedAt := w_clock (gt_world g3) (Suc (w_tick (gt_world g3))),
          event_Resource := rsrc, event_ResolvedScope := scp, event_Metadata := meta\<rparr>)"
        and db: "w_db w = (w_db (gt_world g3))\<lparr>db_audit := db_audit (w_db (gt_world g3)) @ [ev']\<rparr>"
        by (rule Record_Ok)
      have "ev' \<in> set (db_audit (w_db w))" unfolding db by simp
      moreover have "event_Type ev' = EventAdapterExecuted \<and> event_OperationID ev' = op
         \<and> event_AgentID ev' = pc_AgentID caller \<and> event_LeaseID ev' = lg_LeaseID grant
         \<and> event_IdentityID ev' = lg_IdentityID grant
         \<and> event_Service ev' = rt_Service rt \<and> event_Operation ev' = rt_Operation rt"
        unfolding ev' ev_def by (simp add: appendParams_def executed_event_def)
      ultimately show ?thesis using e kept g3 Inr \<open>res = Inr a\<close> by (auto intro: bexI [of _ ev'])
    qed
  qed
  with S(2) show "db_leases (w_db (gt_world g')) = db_leases (w_db (gt_world g))"
    "(\<exists>c. reply = Refused c) \<and> gt_net g' = gt_net g
      \<or> (\<exists>i \<in> set (db_identities (w_db (gt_world g))). identity_ID i = lg_IdentityID grant
           \<and> ran_once gw adapters rt i (gt_net g) (gt_net g'))"
    "reply = Forwarded out \<Longrightarrow> \<exists>e \<in> set (db_audit (w_db (gt_world g'))).
       event_Type e = EventAdapterExecuted \<and> event_OperationID e = op
       \<and> event_AgentID e = pc_AgentID caller \<and> event_LeaseID e = lg_LeaseID grant
       \<and> event_IdentityID e = lg_IdentityID grant
       \<and> event_Service e = rt_Service rt \<and> event_Operation e = rt_Operation rt" by auto
qed

section \<open>No traffic without a lease\<close>

text \<open>Who and what stands behind a request when it may be sent: a live session, an enabled declaration
  that owns the host, and a validated operation declared for just this verb and path.\<close>

definition vouched ::
    "gateway \<Rightarrow> methods adapter_scheme option list \<Rightarrow> proxy_request \<Rightarrow> world \<Rightarrow> proxy_caller \<Rightarrow> route \<Rightarrow> bool" where
  "vouched gw adapters r w caller rt \<longleftrightarrow>
     (\<exists>a \<in> set (db_agents (w_db w)). agent_ID a = pc_AgentID caller \<and> agent_Status a = AgentActive
        \<and> agent_SessionKeyHash a = HashSessionKey (gw_hash gw) (NewSessionKey (px_SessionKey r))
        \<and> agent_SessionExpiresAt a > w_clock w (Suc (w_tick w)))
     \<and> (\<exists>d \<in> set (db_declarations (w_db w)). decl_Service d = rt_Service rt
        \<and> decl_Status d = AdapterEnabled \<and> owns_host gw (to_lower (px_URLHost r)) d)
     \<and> (\<exists>a c. declares adapters (rt_Service rt) a \<and> c \<in> set (ad_Capabilities a)
        \<and> ac_Operation c = rt_Operation rt \<and> capability_Validate c = Ok ()
        \<and> equal_fold (ac_Method c) (px_Method r) \<and> MatchPath (ac_Path c) (px_Path r) = Some (rt_Resource rt))"

lemma proxy_serve_cases:
  assumes ok: "lease_table_ok (db_leases (w_db (gt_world g)))"
    and new: "registry_New adapters = Inr (gw_registry gw)"
    and run: "proxy_serve gw op r g = (reply, g')"
  shows "(\<exists>c. reply = Refused c) \<and> gt_net g' = gt_net g
    \<or> gw_Serving (gt_available g)
      \<and> (\<exists>caller rt. vouched gw adapters r (gt_world g) caller rt
      \<and> (\<exists>l \<in> set (db_leases (w_db (gt_world g))). \<exists>l' \<in> set (db_leases (w_db (gt_world g'))).
           lease_names l caller rt \<and> lease_ID l' = lease_ID l
         \<and> lease_UsedRequests l < lease_UsedRequests l'
         \<and> (\<exists>i \<in> set (db_identities (w_db (gt_world g))). identity_ID i = lease_IdentityID l
              \<and> ran_once gw adapters rt i (gt_net g) (gt_net g'))
         \<and> (\<forall>out. reply = Forwarded out \<longrightarrow> (\<exists>e \<in> set (db_audit (w_db (gt_world g'))).
              event_Type e = EventAdapterExecuted \<and> event_OperationID e = op
              \<and> event_AgentID e = pc_AgentID caller \<and> event_LeaseID e = lease_ID l
              \<and> event_IdentityID e = lease_IdentityID l
              \<and> event_Service e = rt_Service rt \<and> event_Operation e = rt_Operation rt))))"
    (is "?quiet \<or> ?sent")
proof -
  have refuse: ?quiet if "proxy_refuse op r host rt e h = (reply, g')" "gt_net h = gt_net g" for host rt e h
    using proxy_refuse_eq [OF that(1)] that(2) by simp
  show ?thesis
  proof (cases "gw_Check (gt_available g)")
    case (Inl e)
    with run refuse show ?thesis by (simp add: proxy_serve_def)
  next
    case avail: (Inr u)
    then have serving: "gw_Serving (gt_available g)" by (simp add: gw_Check_def split: if_splits)
    show ?thesis
    proof (cases "targetOf r")
      case (Inl e)
      with run avail refuse show ?thesis by (simp add: proxy_serve_def)
    next
      case t: (Inr t)
      then have T: "tg_Host t = to_lower (px_URLHost r)" "tg_Method t = px_Method r" "tg_Path t = px_Path r"
        by (auto simp: targetOf_def split: if_splits)
      obtain ra wa where au: "proxy_authenticate gw (px_SessionKey r) (gt_world g) = (ra, wa)"
        by (metis prod.exhaust)
      show ?thesis
      proof (cases ra)
        case (Inl e)
        with run avail t au refuse show ?thesis by (simp add: proxy_serve_def on_world_def)
      next
        case (Inr caller)
        with au have auth: "proxy_authenticate gw (px_SessionKey r) (gt_world g) = (Ok caller, wa)" by simp
        from auth obtain a where a: "a \<in> set (db_agents (w_db (gt_world g)))" "agent_Status a = AgentActive"
          "agent_SessionKeyHash a = HashSessionKey (gw_hash gw) (NewSessionKey (px_SessionKey r))"
          "agent_SessionExpiresAt a > w_clock (gt_world g) (Suc (w_tick (gt_world g)))"
          "pc_AgentID caller = agent_ID a"
          and wa: "db_leases (w_db wa) = db_leases (w_db (gt_world g))"
          "db_identities (w_db wa) = db_identities (w_db (gt_world g))"
          "db_declarations (w_db wa) = db_declarations (w_db (gt_world g))"
          by (rule proxy_authenticate_Ok)
        obtain rl wl where lo: "Lookup gw t wa = (rl, wl)" by (metis prod.exhaust)
        show ?thesis
        proof (cases rl)
          case (Inl e)
          with run avail t auth lo refuse show ?thesis by (simp add: proxy_serve_def on_world_def)
        next
          case (Inr rt)
          with lo have look: "Lookup gw t wa = (Ok rt, wl)" by simp
          from look obtain d c where d: "d \<in> set (db_declarations (w_db wa))" "decl_Status d = AdapterEnabled"
            "owns_host gw (tg_Host t) d" "rt_Service rt = decl_Service d"
            and c: "registry_Resolve (gw_order gw (decl_Service d)) (gw_registry gw) (decl_Service d)
               (tg_Method t) (tg_Path t) = Inr (c, rt_Resource rt)" "rt_Operation rt = ac_Operation c"
            and wl: "w_db wl = w_db wa" by (rule Lookup_Ok)
          note C = registry_Resolve_Inr [OF c(1) new]
          have vouch: "vouched gw adapters r (gt_world g) caller rt"
            unfolding vouched_def using a d c(2) C wa(3) T by auto
          show ?thesis
          proof (cases "readBody (gw_maxBytes gw) r")
            case (Inl e)
            with run avail t auth look refuse show ?thesis by (simp add: proxy_serve_def on_world_def)
          next
            case body: (Inr body)
            obtain rz wz where az: "Authorize caller rt wl = (rz, wz)" by (metis prod.exhaust)
            show ?thesis
            proof (cases rz)
              case (Inl e)
              with run avail t auth look body az refuse show ?thesis
                by (simp add: proxy_serve_def on_world_def)
            next
              case (Inr grant)
              with az have z: "Authorize caller rt wl = (Ok grant, wz)" by simp
              have okl: "lease_table_ok (db_leases (w_db wl))" using ok wl wa(1) by simp
              from z okl obtain l l' where l: "l \<in> set (db_leases (w_db wl))" "lease_names l caller rt"
                "l' \<in> set (db_leases (w_db wz))" "lease_ID l' = lease_ID l"
                "lease_UsedRequests l < lease_UsedRequests l'"
                and grant: "grant = \<lparr>lg_LeaseID = lease_ID l, lg_IdentityID = lease_IdentityID l\<rparr>"
                by (rule Authorize_Ok)
              have ids: "db_identities (w_db wz) = db_identities (w_db (gt_world g))"
                using ground_kept.keepsD [OF authorize_keeps(2) z] wl wa(2) by simp
              let ?h = "g\<lparr>gt_world := wz\<rparr>"
              have fw: "proxy_forward gw op r t caller rt grant body ?h = (reply, g')"
                using run avail t auth look body z by (simp add: proxy_serve_def on_world_def)
              note F = proxy_forward_cases [OF fw new]
              from F(2) consider "?quiet" | i where "i \<in> set (db_identities (w_db (gt_world g)))"
                "identity_ID i = lease_IdentityID l" "ran_once gw adapters rt i (gt_net g) (gt_net g')"
                using ids grant by auto
              then show ?thesis
              proof cases
                case (2 i)
                have "l \<in> set (db_leases (w_db (gt_world g)))" "l' \<in> set (db_leases (w_db (gt_world g')))"
                  using l(1,3) wl wa(1) F(1) by simp_all
                moreover have "\<forall>out. reply = Forwarded out \<longrightarrow> (\<exists>e \<in> set (db_audit (w_db (gt_world g'))).
                    event_Type e = EventAdapterExecuted \<and> event_OperationID e = op
                    \<and> event_AgentID e = pc_AgentID caller \<and> event_LeaseID e = lease_ID l
                    \<and> event_IdentityID e = lease_IdentityID l
                    \<and> event_Service e = rt_Service rt \<and> event_Operation e = rt_Operation rt)"
                  using F(3) grant by simp
                ultimately have ?sent using serving vouch l(2,4,5) 2
                  by (intro conjI exI [of _ caller] exI [of _ rt] bexI [of _ l] bexI [of _ l'] bexI [of _ i])
                    assumption+
                then show ?thesis ..
              qed blast
            qed
          qed
        qed
      qed
    qed
  qed
qed


section \<open>A forwarded and a refused request\<close>

definition dns_executor :: "(execute_input, execute_output) sending" where
  "dns_executor input sent = (Inr \<lparr>xo_Result = FromUpstream 200 (Success (xi_OperationID input) None []),
     xo_Usage = no_usage\<rparr>, sent)"

definition dns_full_adapter :: "methods adapter_scheme" where
  "dns_full_adapter = adapter.extend dns_adapter \<lparr>fa_Execute = Some dns_executor, fa_Preview = None\<rparr>"

definition dns_gateway :: gateway where
  "dns_gateway = \<lparr>gw_hash = id,
     gw_registry = \<lparr>rg_adapters = [(''dns'', dns_full_adapter)],
       rg_capabilities = [(''dns'', [(''update_record'', example_declared)])]\<rparr>,
     gw_order = (\<lambda>_. [''update_record'']), gw_credentials = sample_registry,
     gw_host = (\<lambda>base. if base = ''https://dns.example'' then Some ''dns.example'' else None),
     gw_maxBytes = max_request_bytes 0\<rparr>"

definition dns_gate :: gate where
  "dns_gate = \<lparr>gt_world = registered_world\<lparr>w_db := (w_db registered_world)\<lparr>
       db_agents := [example_agent\<lparr>agent_SessionKeyHash := HashSessionKey id (NewSessionKey ''k''),
         agent_SessionExpiresAt := 500 * millisecond\<rparr>],
       db_workspaces := [\<lparr>workspace_ID = ''ws'', workspace_Path = ''/w'',
         workspace_ProjectFingerprint = [], workspace_CreatedAt = 1, workspace_UpdatedAt = 1\<rparr>],
       db_declarations := [example_declaration]\<rparr>\<rparr>,
     gt_net = fresh, gt_available = snd (gw_Serve availability_New)\<rparr>"

definition dns_request :: proxy_request where
  "dns_request = \<lparr>px_Method = ''PUT'', px_Scheme = ''http'', px_URLHost = ''DNS.example'',
     px_Path = ''/zones/a.test'', px_Query = [], px_Host = [], px_SessionKey = ''k'', px_Body = Some []\<rparr>"

fun is_forwarded :: "proxy_reply \<Rightarrow> bool" where
  "is_forwarded (Forwarded out) = True"
| "is_forwarded (Refused c) = False"


end
