(* ===== verification/Submissions.thy ===== *)
theory Submissions
  imports Agent_Proxy Handling
begin

text \<open>
  How a stored request reaches the pipeline (\<open>internal/orchestration/submissions.go\<close>): the inputs of a
  decision are collected from the tables and the registry of adapters, the pipeline handles them, and
  when the answer is to wait for a person, the values a change would replace are looked up and stored
  with the request.  Telling the console about the answer has no result and is left out.
\<close>

section \<open>Collecting the inputs\<close>

text \<open>\<open>sb_text\<close> is the text behind a JSON text, which the column of the desired change hands on as it
  is.\<close>

record submissions =
  sb_pipeline :: pipeline
  sb_gateway :: gateway
  sb_text :: "jtext \<Rightarrow> string"

definition maxServiceIdentities :: int where "maxServiceIdentities = 200"

definition soleEnvironment :: "identity list \<Rightarrow> environment" where
  "soleEnvironment identities = (case identities of [i] \<Rightarrow> identity_Environment i | _ \<Rightarrow> EnvironmentOther [])"

definition factsOf :: "nature \<Rightarrow> operation_facts" where
  "factsOf n = \<lparr>of_Destructive = n_Destructive n, of_PermissionChange = n_PermissionChange n,
     of_SecretAccess = n_SecretAccess n, of_Billing = n_Billing n,
     of_ExternalCommunication = n_ExternalCommunication n, of_ResourceCount = 0\<rparr>"

text \<open>\<open>Registry.Capability\<close> with its error folded into a blocker; its zero value declares nothing.\<close>

definition declared_nature :: "full_registry \<Rightarrow> capability_request \<Rightarrow> nature \<times> blocker list" where
  "declared_nature r request =
     (case registry_Capability r (request_Service request) (request_Operation request) of
        Inl e \<Rightarrow> (no_nature, [BlockerCapabilityNotOffered])
      | Inr c \<Rightarrow> (ac_Nature c, []))"

definition inputsFor :: "submissions \<Rightarrow> capability_request \<Rightarrow> pl_inputs io" where
  "inputsFor s request =
     (let (n, declared_blockers) = declared_nature (gw_registry (sb_gateway s)) request in
      io_bind (AgentByID (request_AgentID request)) (\<lambda>agent.
      io_bind (DeviceByID (agent_DeviceID agent)) (\<lambda>device.
      io_bind (EnabledDeclarations maxDeclarations) (\<lambda>declarations.
      io_bind (io_lift (NewCatalog declarations)) (\<lambda>catalog.
      io_bind (IdentitiesForService (request_Service request) maxServiceIdentities) (\<lambda>identities.
        io_return \<lparr>in_Request = request,
          in_Call = \<lparr>call_Tool = (case ToolFor catalog (request_Service request) (request_Operation request)
                of None \<Rightarrow> [] | Some tool \<Rightarrow> tool),
              call_Method = [], call_Path = [], call_Resource = request_Resource request,
              call_DesiredChange = sb_text s (request_DesiredChange request),
              call_IdentityEnvironment = soleEnvironment identities\<rparr>,
          in_Catalog = Some catalog, in_Identities = identities,
          in_WorkspaceBindings = [], in_ResourceBindings = [], in_ManualSelection = [],
          in_AgentTrust = agent_TrustLevel agent, in_DeviceTrust = device_TrustStatus device,
          in_Facts = factsOf n, in_ReadOnlyAutoAllow = False, in_NewService = False,
          in_IdentityChanged = False, in_NewIdentity = False, in_NewResource = False,
          in_Blockers = declared_blockers\<rparr>))))))"

section \<open>Looking before asking\<close>

text \<open>The resource of the resolved scope; whatever cannot be decoded is the nil map.\<close>

definition scopeResource :: "jtext \<Rightarrow> string go_map" where
  "scopeResource resolved =
     (case (case resolved of
              Parsed (JObj m) \<Rightarrow> json_member assign_strmap [] m ''resource''
            | Parsed JNull \<Rightarrow> Some [] | _ \<Rightarrow> None) of
        None \<Rightarrow> [] | Some resource \<Rightarrow> resource)"

definition preview_request_of :: "submissions \<Rightarrow> pl_result \<Rightarrow> decision_record \<Rightarrow> exchange_request" where
  "preview_request_of s result d = \<lparr>xr_Service = request_Service (res_Request result),
     xr_Operation = request_Operation (res_Request result), xr_IdentityID = decision_IdentityID d,
     xr_Resource = scopeResource (decision_ResolvedScope d), xr_Query = [],
     xr_Body = sb_text s (request_DesiredChange (res_Request result)),
     xr_OperationID = request_OperationID (res_Request result)\<rparr>"

definition save_preview :: "pl_result \<Rightarrow> resource_change list \<Rightarrow> gate \<Rightarrow> gate" where
  "save_preview result changes g =
     (case gate_now g of (now, g1) \<Rightarrow>
        snd (on_world (SaveChangePreview (request_ID (res_Request result))
          (Parsed (JArr (map encode_change changes))) StatusAwaitingApproval now) g1))"

definition previewChange :: "submissions \<Rightarrow> pl_result \<Rightarrow> gate \<Rightarrow> gate" where
  "previewChange s result g =
     (case res_Decision result of
        None \<Rightarrow> g
      | Some d \<Rightarrow>
          if decision_Verdict d \<noteq> VerdictRequireApproval then g
          else (let request = preview_request_of s result d; gw = sb_gateway s in
                case gate_exchange (previews_now (gw_registry gw) request)
                    (\<lambda>x. exchange_Preview x request) gw (xr_IdentityID request) g of
                  (Inl e, g1) \<Rightarrow> g1
                | (Inr changes, g1) \<Rightarrow> if changes = [] then g1 else save_preview result changes g1))"

definition submissions_Decide ::
    "submissions \<Rightarrow> capability_request \<Rightarrow> gate \<Rightarrow> pl_result result \<times> gate" where
  "submissions_Decide s request g =
     (case on_world (inputsFor s request) g of
        (Inl e, g1) \<Rightarrow> (Inl e, g1)
      | (Inr inputs, g1) \<Rightarrow>
          (case on_world (Handle (sb_pipeline s) inputs) g1 of
             (Inl e, g2) \<Rightarrow> (Inl e, g2)
           | (Inr result, g2) \<Rightarrow> (Ok result, previewChange s result g2)))"

end
