(* ===== verification/Mcp_Calls.thy ===== *)
theory Mcp_Calls
  imports Submissions
begin

text \<open>
  Calls of tools through the MCP server (\<open>internal/cli/mcpcalls.go\<close>): a call is stored as a request,
  decided, and -- when it is allowed and carries a lease -- counted, sent under the scope of the lease
  with its credential, and recorded.
\<close>

section \<open>Running on the gate\<close>

definition gate_bind ::
    "(gate \<Rightarrow> 'a result \<times> gate) \<Rightarrow> ('a \<Rightarrow> gate \<Rightarrow> 'b result \<times> gate) \<Rightarrow> gate \<Rightarrow> 'b result \<times> gate" where
  "gate_bind m f g = (case m g of (Inl e, g1) \<Rightarrow> (Inl e, g1) | (Inr a, g1) \<Rightarrow> f a g1)"

definition gate_return :: "'a \<Rightarrow> gate \<Rightarrow> 'a result \<times> gate" where
  "gate_return a g = (Ok a, g)"

section \<open>From a call to a request\<close>

record mcp_caller =
  ml_AgentID :: string
  ml_WorkspaceID :: string

record mcp_call =
  mc_Caller :: mcp_caller
  mc_Tool :: string
  mc_Service :: string
  mc_Operation :: string
  mc_Arguments :: jtext

text \<open>A refusal by policy is an answer, with its text; otherwise the document of the redacted reply.\<close>

datatype call_outcome = Refusal string | Answered json

text \<open>The members of the arguments, \<open>None\<close> for the nil map that \<open>null\<close> decodes to.\<close>

definition argument_fields :: "jtext \<Rightarrow> json go_map option result" where
  "argument_fields arguments =
     (case arguments of
        NoText \<Rightarrow> Ok (Some [])
      | Parsed (JObj m) \<Rightarrow> Ok (Some (gm_of_list m))
      | Parsed JNull \<Rightarrow> Ok None
      | _ \<Rightarrow> Err CodeInvalidRequest)"

fun split_fields ::
    "string list \<Rightarrow> json go_map \<Rightarrow> json go_map \<Rightarrow> json go_map \<times> json go_map" where
  "split_fields [] members resource = (members, resource)"
| "split_fields (key # keys) members resource =
     (case gm_get members key of
        None \<Rightarrow> split_fields keys members resource
      | Some value \<Rightarrow> split_fields keys (filter (\<lambda>(k, v). k \<noteq> key) members) (gm_put key value resource))"

definition splitArguments :: "jtext \<Rightarrow> adapter_capability \<Rightarrow> (jtext \<times> jtext) result" where
  "splitArguments arguments c =
     rbind (argument_fields arguments) (\<lambda>members.
       let (change, resource) = split_fields (ms_ResourceKeys (ac_MinimumScope c))
             (case members of None \<Rightarrow> [] | Some m \<Rightarrow> m) [] in
       Ok (Parsed (JObj resource),
         if \<not> capability_Write c then NoText
         else Parsed (case members of None \<Rightarrow> JNull | Some m \<Rightarrow> JObj change)))"

definition mcp_open :: "submissions \<Rightarrow> string \<Rightarrow> mcp_call \<Rightarrow> capability_request io" where
  "mcp_open s operationID c =
     io_bind (io_app (registry_Capability (gw_registry (sb_gateway s)) (mc_Service c) (mc_Operation c)))
       (\<lambda>capability.
     io_bind (io_lift (splitArguments (mc_Arguments c) capability)) (\<lambda>(resource, change).
     io_bind io_new_id (\<lambda>i.
     io_bind io_now (\<lambda>now.
       CreateRequest \<lparr>request_ID = i, request_OperationID = operationID,
         request_AgentID = ml_AgentID (mc_Caller c), request_WorkspaceID = ml_WorkspaceID (mc_Caller c),
         request_Service = mc_Service c, request_Operation = mc_Operation c,
         request_Resource = resource, request_DesiredChange = change,
         request_Reason = ''MCP tool call: '' @ mc_Tool c, request_Status = StatusReceived,
         request_ChangePreview = NoText, request_CreatedAt = now, request_UpdatedAt = now\<rparr>))))"

section \<open>Executing under a lease\<close>

definition scopeOfLease :: "lease \<Rightarrow> scope result" where
  "scopeOfLease l = (case decode_scope (lease_ResourceScope l) of None \<Rightarrow> Err CodeInternal | Some s \<Rightarrow> Ok s)"

definition advance_now ::
    "string \<Rightarrow> request_status \<Rightarrow> request_status \<Rightarrow> capability_request io" where
  "advance_now i from to = io_bind io_now (\<lambda>at. AdvanceRequest i from to at)"

definition mcp_event ::
    "capability_request \<Rightarrow> lease \<Rightarrow> scope \<Rightarrow> event_outcome \<Rightarrow> int \<Rightarrow> duration \<Rightarrow> audit_event" where
  "mcp_event request l authorized out_come status elapsed =
     empty_event\<lparr>event_OperationID := request_OperationID request, event_Type := EventAdapterExecuted,
       event_AgentID := request_AgentID request, event_WorkspaceID := request_WorkspaceID request,
       event_IdentityID := scope_IdentityID authorized, event_Service := scope_Service authorized,
       event_Operation := scope_Operation authorized,
       event_Resource := resourceText (scope_Resource authorized),
       event_ResolvedScope := encode_scope authorized, event_Verdict := VerdictAutoAllow,
       event_LeaseID := lease_ID l, event_Outcome := out_come, event_ResponseStatus := status,
       event_Duration := elapsed, event_IsRedacted := True,
       event_Metadata := string_object [(''face'', ''mcp'')]\<rparr>"

definition mcp_record ::
    "capability_request \<Rightarrow> lease \<Rightarrow> scope \<Rightarrow> event_outcome \<Rightarrow> int \<Rightarrow> duration \<Rightarrow> unit io" where
  "mcp_record request l authorized out_come status elapsed =
     io_bind (Record (mcp_event request l authorized out_come status elapsed)) (\<lambda>_. io_return ())"

text \<open>The cause comes first in what \<open>errors.Join\<close> joins, so its code is the one that is reported.\<close>

definition mcp_failed ::
    "capability_request \<Rightarrow> lease \<Rightarrow> scope \<Rightarrow> duration \<Rightarrow> code \<Rightarrow> call_outcome io" where
  "mcp_failed request l authorized elapsed cause =
     io_bind (io_try (mcp_record request l authorized OutcomeFailed 0 elapsed)) (\<lambda>_.
     io_bind (io_try (advance_now (request_ID request) StatusExecuting StatusFailed)) (\<lambda>_.
       io_fail cause))"

definition mcp_request_of ::
    "submissions \<Rightarrow> capability_request \<Rightarrow> capability_request \<Rightarrow> scope \<Rightarrow> exchange_request" where
  "mcp_request_of s request running authorized = \<lparr>xr_Service = scope_Service authorized,
     xr_Operation = scope_Operation authorized, xr_IdentityID = scope_IdentityID authorized,
     xr_Resource = scope_Resource authorized, xr_Query = [],
     xr_Body = sb_text s (request_DesiredChange running), xr_OperationID = request_OperationID request\<rparr>"

definition mcp_Send ::
    "submissions \<Rightarrow> capability_request \<Rightarrow> capability_request \<Rightarrow> scope \<Rightarrow> gate \<Rightarrow> exchange_reply result \<times> gate" where
  "mcp_Send s request running authorized =
     (let out_request = mcp_request_of s request running authorized; gw = sb_gateway s in
      gate_exchange (sends_now (gw_registry gw) out_request) (\<lambda>x. exchange_Send x out_request) gw
        (xr_IdentityID out_request))"

definition mcp_conclude ::
    "capability_request \<Rightarrow> lease \<Rightarrow> scope \<Rightarrow> instant \<Rightarrow> exchange_reply \<Rightarrow> call_outcome io" where
  "mcp_conclude running l authorized started reply =
     (let (out_come, next_status) = (if xy_StatusCode reply = 200 then (OutcomeSucceeded, StatusSucceeded)
        else (OutcomeFailed, StatusFailed)) in
      io_bind io_now (\<lambda>ended.
      io_bind (mcp_record running l authorized out_come (xy_UpstreamStatus reply) (ended - started)) (\<lambda>_.
      io_bind (advance_now (request_ID running) StatusExecuting next_status) (\<lambda>_.
        io_return (Answered (xy_Body reply))))))"

definition mcp_execute ::
    "submissions \<Rightarrow> capability_request \<Rightarrow> lease \<Rightarrow> gate \<Rightarrow> call_outcome result \<times> gate" where
  "mcp_execute s request l =
     gate_bind (on_world (io_lift (scopeOfLease l))) (\<lambda>authorized.
     gate_bind (on_world (advance_now (request_ID request) StatusAutoAllowed StatusExecuting)) (\<lambda>running.
     gate_bind (on_world (io_try (lease_Use (lease_ID l) authorized))) (\<lambda>used.
       case used of
         Inl c \<Rightarrow> on_world (mcp_failed running l authorized 0 c)
       | Inr _ \<Rightarrow>
           gate_bind (on_world io_now) (\<lambda>started g.
             case mcp_Send s request running authorized g of
               (Inl e, g1) \<Rightarrow> on_world (io_bind io_now (\<lambda>ended.
                  mcp_failed running l authorized (ended - started) (reason_of e))) g1
             | (Inr reply, g1) \<Rightarrow> on_world (mcp_conclude running l authorized started reply) g1))))"

section \<open>A call\<close>

definition mcp_Call :: "submissions \<Rightarrow> string \<Rightarrow> mcp_call \<Rightarrow> gate \<Rightarrow> call_outcome result \<times> gate" where
  "mcp_Call s operationID c =
     gate_bind (on_world (mcp_open s operationID c)) (\<lambda>request.
     gate_bind (submissions_Decide s request) (\<lambda>result.
       case out_Verdict (res_Outcome result) of
         VerdictAutoAllow \<Rightarrow>
           (case res_Lease result of
              None \<Rightarrow> on_world (io_fail CodeInternal)
            | Some l \<Rightarrow> mcp_execute s (res_Request result) l)
       | VerdictRequireApproval \<Rightarrow>
           gate_return (Refusal (''This call is waiting for a person to approve it in OpenDelo. ''
             @ ''Nothing was sent to '' @ mc_Service c @ ''.''))
       | VerdictDeny \<Rightarrow>
           gate_return (Refusal (''Refused by policy ('' @ reason_text (out_Reason (res_Outcome result))
             @ ''). '' @ ''Nothing was sent to '' @ mc_Service c @ ''.''))
       | VerdictOther v \<Rightarrow>
           gate_return (Refusal ''Refused: the gateway could not reach a decision.'')))"

end
