(* ===== verification/Mcp_Tools.thy ===== *)
theory Mcp_Tools
  imports Service_Catalog Decision
begin

text \<open>
  The list of tools the MCP server offers (\<open>internal/transport/mcpsrv/tools.go\<close>): one tool for each
  declared operation of the registered adapters, or no list at all.
\<close>

section \<open>Definitions\<close>

record tool =
  tl_Name :: string
  tl_Description :: string
  tl_InputSchema :: json

record tool_target =
  tt_Service :: string
  tt_Operation :: string

record tool_catalog =
  tc_tools :: "tool list"
  tc_byName :: "tool_target go_map"

fun rollback_text :: "rollback \<Rightarrow> string" where
  "rollback_text RollbackNone = ''none''"
| "rollback_text RollbackManual = ''manual''"
| "rollback_text RollbackAutomatic = ''automatic''"
| "rollback_text (RollbackOther s) = s"

definition describe :: "adapter_capability \<Rightarrow> string" where
  "describe c = ''Risk: '' @ risk_label_text (ac_RiskLabel c)
     @ (if capability_Write c then ''. Changes external state'' else ''. Read-only'')
     @ ''. Rollback: '' @ rollback_text (ac_Rollback c)
     @ ''. Every call is authorized individually and may require human approval.''"

text \<open>What clients do to a name before the model sees it.\<close>

definition tool_normalize :: "string \<Rightarrow> string" where
  "tool_normalize name = map (\<lambda>c. if c = CHR ''.'' then CHR ''_'' else c) name"

definition newTool :: "string \<Rightarrow> adapter_capability \<Rightarrow> tool result" where
  "newTool service c =
     rbind (capability_Validate c) (\<lambda>_.
     rbind (ToolName service (ac_Operation c)) (\<lambda>name.
       if classifyForbidden service (ac_Operation c) \<noteq> NotForbidden then Err CodeInvalidConfiguration
       else (case ac_InputSchema c of
               Parsed schema \<Rightarrow> Ok \<lparr>tl_Name = name, tl_Description = describe c, tl_InputSchema = schema\<rparr>
             | _ \<Rightarrow> Err CodeInvalidConfiguration)))"

text \<open>The tools so far, in the order of registration, what stands behind each name, and the names as
  models see them.\<close>

type_synonym tools_so_far = "tool list \<times> tool_target go_map \<times> string go_map"

definition add_tool :: "string \<Rightarrow> adapter_capability \<Rightarrow> tools_so_far \<Rightarrow> tools_so_far result" where
  "add_tool service c = (\<lambda>(tools, byName, normalized).
     rbind (newTool service c) (\<lambda>t.
       if gm_get byName (tl_Name t) \<noteq> None then Err CodeInvalidConfiguration
       else if gm_get normalized (tool_normalize (tl_Name t)) \<noteq> None then Err CodeInvalidConfiguration
       else Ok (tools @ [t],
         gm_put (tl_Name t) \<lparr>tt_Service = service, tt_Operation = ac_Operation c\<rparr> byName,
         gm_put (tool_normalize (tl_Name t)) (tl_Name t) normalized)))"

fun add_tools :: "string \<Rightarrow> adapter_capability list \<Rightarrow> tools_so_far \<Rightarrow> tools_so_far result" where
  "add_tools service [] acc = Ok acc"
| "add_tools service (c # cs) acc = rbind (add_tool service c acc) (add_tools service cs)"

fun add_services :: "'x registry \<Rightarrow> string list \<Rightarrow> tools_so_far \<Rightarrow> tools_so_far result" where
  "add_services r [] acc = Ok acc"
| "add_services r (service # services) acc =
     (case registry_Adapter r service of
        Inl e \<Rightarrow> Err (ae_Code e)
      | Inr a \<Rightarrow> rbind (add_tools service (ad_Capabilities a) acc) (add_services r services))"

text \<open>\<open>None\<close> is a missing registry.\<close>

definition NewToolCatalog :: "'x registry option \<Rightarrow> tool_catalog result" where
  "NewToolCatalog registry =
     (case registry of None \<Rightarrow> Err CodeInternal
      | Some r \<Rightarrow> rbind (add_services r (registry_Services r) ([], [], [])) (\<lambda>(tools, byName, normalized).
          Ok \<lparr>tc_tools = sort_key tl_Name tools, tc_byName = byName\<rparr>))"

definition catalog_Tools :: "tool_catalog \<Rightarrow> tool list" where
  "catalog_Tools cat = tc_tools cat"

definition catalog_Target :: "tool_catalog \<Rightarrow> string \<Rightarrow> tool_target option" where
  "catalog_Target cat name = gm_get (tc_byName cat) name"

section \<open>What a built catalog offers\<close>

text \<open>A tool that stands for an operation.\<close>

definition tool_of :: "string \<Rightarrow> adapter_capability \<Rightarrow> tool \<Rightarrow> bool" where
  "tool_of service c t \<longleftrightarrow> newTool service c = Ok t"

definition stands_for :: "(string \<times> adapter_capability) list \<Rightarrow> tools_so_far \<Rightarrow> bool" where
  "stands_for declared = (\<lambda>(tools, byName, normalized).
     list_all2 (\<lambda>(service, c) t. tool_of service c t
        \<and> gm_get byName (tl_Name t) = Some \<lparr>tt_Service = service, tt_Operation = ac_Operation c\<rparr>) declared tools
     \<and> (\<forall>name. gm_get byName name \<noteq> None \<longrightarrow> name \<in> tl_Name ` set tools)
     \<and> (\<forall>k. gm_get normalized k \<noteq> None \<longleftrightarrow> k \<in> (tool_normalize \<circ> tl_Name) ` set tools)
     \<and> distinct (map (tool_normalize \<circ> tl_Name) tools))"

lemma add_tool_Ok:
  assumes "add_tool service c acc = Ok acc'" and "stands_for declared acc"
  shows "stands_for (declared @ [(service, c)]) acc'"
proof -
  obtain tools byName normalized where acc: "acc = (tools, byName, normalized)" by (cases acc)
  from assms(1) obtain t where t: "newTool service c = Ok t" "gm_get byName (tl_Name t) = None"
    "gm_get normalized (tool_normalize (tl_Name t)) = None"
    and acc': "acc' = (tools @ [t],
         gm_put (tl_Name t) \<lparr>tt_Service = service, tt_Operation = ac_Operation c\<rparr> byName,
         gm_put (tool_normalize (tl_Name t)) (tl_Name t) normalized)"
    unfolding acc by (auto simp: add_tool_def rbind_iffs split: if_splits)
  from assms(2) have old: "list_all2 (\<lambda>(service, c) t. tool_of service c t
        \<and> gm_get byName (tl_Name t) = Some \<lparr>tt_Service = service, tt_Operation = ac_Operation c\<rparr>) declared tools"
    and rest: "\<forall>name. gm_get byName name \<noteq> None \<longrightarrow> name \<in> tl_Name ` set tools"
      "\<forall>k. gm_get normalized k \<noteq> None \<longleftrightarrow> k \<in> (tool_normalize \<circ> tl_Name) ` set tools"
      "distinct (map (tool_normalize \<circ> tl_Name) tools)"
    unfolding stands_for_def acc by auto
  have new: "tool_normalize (tl_Name t) \<notin> (tool_normalize \<circ> tl_Name) ` set tools"
    using rest(2) t(3) by metis
  let ?by = "gm_put (tl_Name t) \<lparr>tt_Service = service, tt_Operation = ac_Operation c\<rparr> byName"
  let ?leads = "\<lambda>(service', c') t'. tool_of service' c' t'
        \<and> gm_get ?by (tl_Name t') = Some \<lparr>tt_Service = service', tt_Operation = ac_Operation c'\<rparr>"
  have "list_all2 ?leads declared tools"
    using old by (rule list_all2_mono) (use t(2) in \<open>auto split: prod.splits\<close>)
  moreover have "list_all2 ?leads [(service, c)] [t]"
    using t(1) by (simp add: tool_of_def)
  ultimately have "list_all2 ?leads (declared @ [(service, c)]) (tools @ [t])"
    by (rule list_all2_appendI)
  moreover have "\<forall>name. gm_get ?by name \<noteq> None \<longrightarrow> name \<in> tl_Name ` set (tools @ [t])"
    using rest(1) by auto
  moreover have "\<forall>k. gm_get (gm_put (tool_normalize (tl_Name t)) (tl_Name t) normalized) k \<noteq> None
      \<longleftrightarrow> k \<in> (tool_normalize \<circ> tl_Name) ` set (tools @ [t])"
    using rest(2) by auto
  moreover have "distinct (map (tool_normalize \<circ> tl_Name) (tools @ [t]))"
    using rest(3) new by simp
  ultimately show ?thesis unfolding stands_for_def acc' by simp
qed

lemma add_tools_Ok:
  assumes "add_tools service cs acc = Ok acc'" and "stands_for declared acc"
  shows "stands_for (declared @ map (Pair service) cs) acc'"
  using assms
proof (induction cs arbitrary: acc declared)
  case (Cons c cs)
  then obtain acc1 where "add_tool service c acc = Ok acc1" "add_tools service cs acc1 = Ok acc'"
    by (auto simp: rbind_iffs)
  with Cons.IH [of acc1 "declared @ [(service, c)]"] Cons.prems(2) add_tool_Ok show ?case by simp
qed simp

definition declared_of :: "'x registry \<Rightarrow> string list \<Rightarrow> (string \<times> adapter_capability) list" where
  "declared_of r services = concat (map (\<lambda>s. case registry_Adapter r s of Inl e \<Rightarrow> []
     | Inr a \<Rightarrow> map (Pair s) (ad_Capabilities a)) services)"

lemma add_services_Ok:
  assumes "add_services r services acc = Ok acc'" and "stands_for declared acc"
  shows "stands_for (declared @ declared_of r services) acc'"
  using assms
proof (induction services arbitrary: acc declared)
  case (Cons s services)
  then obtain a acc1 where "registry_Adapter r s = Inr a" "add_tools s (ad_Capabilities a) acc = Ok acc1"
    "add_services r services acc1 = Ok acc'"
    by (auto simp: rbind_iffs split: sum.splits)
  with Cons.IH [of acc1 "declared @ map (Pair s) (ad_Capabilities a)"] Cons.prems(2) add_tools_Ok
  show ?case by (fastforce simp: declared_of_def)
qed (simp add: declared_of_def)

lemma list_all2_partners:
  assumes "list_all2 P xs ys"
  shows "x \<in> set xs \<Longrightarrow> \<exists>y \<in> set ys. P x y" and "y \<in> set ys \<Longrightarrow> \<exists>x \<in> set xs. P x y"
  using assms by (induction rule: list_all2_induct) auto

text \<open>C20: The list of tools is the list of declared operations.  When the start-up builds a catalog from
  a registry that \<open>New\<close> built, then each declared operation of each registered adapter has exactly one
  tool, whose name leads back to just this service and operation; every tool comes from such an
  operation, which is validated, not on the forbidden list and described by what it declares; no two
  tools have the same name, also after a client has replaced the dots; and every name that leads
  anywhere is in the list, which is sorted by name.\<close>

theorem tools_are_declared_operations:
  assumes new: "registry_New adapters = Inr r" and cat: "NewToolCatalog (Some r) = Ok cat"
  shows "(\<forall>service a c. declares adapters service a \<longrightarrow> c \<in> set (ad_Capabilities a) \<longrightarrow>
        (\<exists>t \<in> set (catalog_Tools cat). tool_of service c t
          \<and> catalog_Target cat (tl_Name t) = Some \<lparr>tt_Service = service, tt_Operation = ac_Operation c\<rparr>))
    \<and> (\<forall>t \<in> set (catalog_Tools cat). \<exists>service a c. declares adapters service a \<and> c \<in> set (ad_Capabilities a)
          \<and> capability_Validate c = Ok () \<and> classifyForbidden service (ac_Operation c) = NotForbidden
          \<and> ToolName service (ac_Operation c) = Ok (tl_Name t) \<and> tl_Description t = describe c
          \<and> ac_InputSchema c = Parsed (tl_InputSchema t)
          \<and> catalog_Target cat (tl_Name t) = Some \<lparr>tt_Service = service, tt_Operation = ac_Operation c\<rparr>)
    \<and> distinct (map (tool_normalize \<circ> tl_Name) (catalog_Tools cat))
    \<and> (\<forall>name. catalog_Target cat name \<noteq> None \<longrightarrow> name \<in> tl_Name ` set (catalog_Tools cat))
    \<and> sorted (map tl_Name (catalog_Tools cat))"
proof -
  from cat obtain tools byName normalized where
    "add_services r (registry_Services r) ([], [], []) = Ok (tools, byName, normalized)"
    and c: "cat = \<lparr>tc_tools = sort_key tl_Name tools, tc_byName = byName\<rparr>"
    by (auto simp: NewToolCatalog_def rbind_iffs)
  from add_services_Ok [OF this(1), of "[]"]
  have all: "stands_for (declared_of r (registry_Services r)) (tools, byName, normalized)"
    by (simp add: stands_for_def)
  have mem: "(service, c) \<in> set (declared_of r (registry_Services r))
      \<longleftrightarrow> (\<exists>a. declares adapters service a \<and> c \<in> set (ad_Capabilities a))" for service c
  proof -
    have "service \<in> set (registry_Services r) \<longleftrightarrow> (\<exists>a. registry_Adapter r service = Inr a)"
      by (auto simp: registry_Services_def registry_Adapter_iff dom_map_of_conv_image_fst [symmetric])
    moreover have "(service, c) \<in> set (declared_of r (registry_Services r)) \<longleftrightarrow>
        service \<in> set (registry_Services r)
        \<and> (\<exists>a. registry_Adapter r service = Inr a \<and> c \<in> set (ad_Capabilities a))"
      unfolding declared_of_def by (cases "registry_Adapter r service") (force split: sum.splits)+
    ultimately show ?thesis using registry_New_Inr(2) [OF new] by auto
  qed
  have same: "set (sort_key tl_Name tools) = set tools" by simp
  have a2: "list_all2 (\<lambda>(service, c) t. tool_of service c t
        \<and> gm_get byName (tl_Name t) = Some \<lparr>tt_Service = service, tt_Operation = ac_Operation c\<rparr>)
      (declared_of r (registry_Services r)) tools"
    and d: "distinct (map (tool_normalize \<circ> tl_Name) tools)"
    and n: "\<forall>name. gm_get byName name \<noteq> None \<longrightarrow> name \<in> tl_Name ` set tools"
    using all by (auto simp: stands_for_def)
  have fwd: "\<exists>t \<in> set tools. tool_of service c t
        \<and> gm_get byName (tl_Name t) = Some \<lparr>tt_Service = service, tt_Operation = ac_Operation c\<rparr>"
    if "(service, c) \<in> set (declared_of r (registry_Services r))" for service c
    using list_all2_partners(1) [OF a2 that] by simp
  have bwd: "\<exists>(service, c) \<in> set (declared_of r (registry_Services r)). tool_of service c t
        \<and> gm_get byName (tl_Name t) = Some \<lparr>tt_Service = service, tt_Operation = ac_Operation c\<rparr>"
    if "t \<in> set tools" for t
    using list_all2_partners(2) [OF a2 that] by blast
  have parts: "capability_Validate c = Ok () \<and> classifyForbidden service (ac_Operation c) = NotForbidden
      \<and> ToolName service (ac_Operation c) = Ok (tl_Name t) \<and> tl_Description t = describe c
      \<and> ac_InputSchema c = Parsed (tl_InputSchema t)" if "tool_of service c t" for service c t
    using that by (auto simp: tool_of_def newTool_def rbind_iffs split: if_splits jtext.splits)
  have "distinct (map (tool_normalize \<circ> tl_Name) (sort_key tl_Name tools))"
    using d by (simp add: distinct_map)
  moreover have "\<exists>service a c. declares adapters service a \<and> c \<in> set (ad_Capabilities a)
          \<and> capability_Validate c = Ok () \<and> classifyForbidden service (ac_Operation c) = NotForbidden
          \<and> ToolName service (ac_Operation c) = Ok (tl_Name t) \<and> tl_Description t = describe c
          \<and> ac_InputSchema c = Parsed (tl_InputSchema t)
          \<and> gm_get byName (tl_Name t) = Some \<lparr>tt_Service = service, tt_Operation = ac_Operation c\<rparr>"
    if "t \<in> set tools" for t
    using bwd [OF that] parts mem by blast
  ultimately show ?thesis
    unfolding c catalog_Tools_def catalog_Target_def using fwd mem n by (simp add: same) blast
qed

text \<open>The catalog of the two model providers.\<close>

definition model_adapters :: "adapter option list" where
  "model_adapters = [Some (projr (model_adapter ProviderOpenAI [])),
     Some (projr (model_adapter ProviderAnthropic []))]"

definition model_catalog :: "tool_catalog result" where
  "model_catalog = (case registry_New model_adapters of
     Inl e \<Rightarrow> Err (ae_Code e) | Inr r \<Rightarrow> NewToolCatalog (Some r))"

theorem tools_are_declared_operations_witness:
  "\<exists>r cat. registry_New model_adapters = Inr r \<and> NewToolCatalog (Some r) = Ok cat
     \<and> map tl_Name (catalog_Tools cat) = [''anthropic.completion.create'', ''anthropic.models.read'',
          ''openai.completion.create'', ''openai.models.read'']
     \<and> distinct (map (tool_normalize \<circ> tl_Name) (catalog_Tools cat))"
proof -
  have facts: "(case model_catalog of Inl e \<Rightarrow> False
     | Inr cat \<Rightarrow> map tl_Name (catalog_Tools cat) = [''anthropic.completion.create'',
          ''anthropic.models.read'', ''openai.completion.create'', ''openai.models.read''])"
    "(case registry_New model_adapters of Inl e \<Rightarrow> False | Inr r \<Rightarrow> True)" by code_simp+
  obtain r where r: "registry_New model_adapters = Inr r"
  proof (cases "registry_New model_adapters")
    case (Inl e)
    from facts(2) [unfolded Inl sum.case] show thesis ..
  qed
  obtain cat where cat: "model_catalog = Ok cat"
  proof (cases model_catalog)
    case (Inl e)
    from facts(1) [unfolded Inl sum.case] show thesis ..
  qed
  have built: "NewToolCatalog (Some r) = Ok cat"
    using cat unfolding model_catalog_def r sum.case .
  from tools_are_declared_operations [OF r this]
  have "distinct (map (tool_normalize \<circ> tl_Name) (catalog_Tools cat))" by blast
  with r built facts(1) [unfolded cat sum.case] show ?thesis
    by (intro exI [of _ r] exI [of _ cat] conjI)
qed

end
