(* ===== verification/Mcp_Server.thy ===== *)
theory Mcp_Server
  imports Mcp_Calls Mcp_Tools
begin

text \<open>
  The MCP server (\<open>internal/transport/mcpsrv\<close>: \<open>protocol.go\<close>, \<open>server.go\<close>, \<open>http.go\<close>, \<open>stdio.go\<close>): frames
  of JSON-RPC, the dispatch on their methods, and the two transports around it.  Replies are values;
  writing them to the wire is left out.
\<close>

section \<open>Frames and replies\<close>

text \<open>A raw member keeps its JSON value; \<open>None\<close> is a frame without an id, a notification.\<close>

record rpc_frame =
  fr_ID :: "json option"
  fr_Method :: string
  fr_Params :: jtext

datatype rpc_body = InitializeResult | Pong | ToolList "tool list" | ToolText json | ToolRefused string
  | RpcError int string

record rpc_response =
  rp_ID :: "json option"
  rp_Body :: rpc_body

definition codeParseError :: int where "codeParseError = -32700"
definition codeInvalidRequest :: int where "codeInvalidRequest = -32600"
definition codeMethodNotFound :: int where "codeMethodNotFound = -32601"
definition codeInternalError :: int where "codeInternalError = -32603"
definition codeApplicationError :: int where "codeApplicationError = -32000"

definition assign_raw :: "json option \<Rightarrow> json \<Rightarrow> json option option" where
  "assign_raw old j = Some (Some j)"

definition raw_text :: "json option \<Rightarrow> jtext" where
  "raw_text raw = (case raw of None \<Rightarrow> NoText | Some j \<Rightarrow> Parsed j)"

definition struct_members :: "jtext \<Rightarrow> (string \<times> json) list option" where
  "struct_members t = (case t of Parsed (JObj m) \<Rightarrow> Some m | Parsed JNull \<Rightarrow> Some [] | _ \<Rightarrow> None)"

text \<open>\<open>json.Unmarshal\<close> is a parameter.\<close>

definition decodeFrame :: "(string \<Rightarrow> jtext) \<Rightarrow> string \<Rightarrow> rpc_frame option" where
  "decodeFrame decode line =
     (if trim_space line = [] then None
      else Option.bind (struct_members (decode (trim_space line))) (\<lambda>m.
           Option.bind (json_member assign_str [] m ''jsonrpc'') (\<lambda>version.
           Option.bind (json_member assign_raw None m ''id'') (\<lambda>i.
           Option.bind (json_member assign_str [] m ''method'') (\<lambda>name.
           Option.bind (json_member assign_raw None m ''params'') (\<lambda>params.
             Some \<lparr>fr_ID = i, fr_Method = name, fr_Params = raw_text params\<rparr>))))))"

definition isNotification :: "rpc_frame \<Rightarrow> bool" where
  "isNotification f \<longleftrightarrow> fr_ID f = None"

record call_params =
  ca_Name :: string
  ca_Arguments :: jtext

definition decode_params :: "jtext \<Rightarrow> call_params option" where
  "decode_params params =
     Option.bind (struct_members params) (\<lambda>m.
     Option.bind (json_member assign_str [] m ''name'') (\<lambda>name.
     Option.bind (json_member assign_raw None m ''arguments'') (\<lambda>arguments.
       Some \<lparr>ca_Name = name, ca_Arguments = raw_text arguments\<rparr>)))"

section \<open>The server\<close>

record mcp_server =
  ms_calls :: submissions
  ms_catalog :: tool_catalog

definition mcp_authenticate :: "mcp_server \<Rightarrow> string \<Rightarrow> mcp_caller io" where
  "mcp_authenticate sv key =
     (if trim_space key = [] then io_fail CodeUnauthenticated
      else io_bind (Authenticate (gw_hash (sb_gateway (ms_calls sv))) (NewSessionKey key)
             \<lparr>pr_PID = 0, pr_ExecutableHash = []\<rparr>)
        (\<lambda>a. io_return \<lparr>ml_AgentID = agent_ID a, ml_WorkspaceID = agent_WorkspaceID a\<rparr>))"

definition errorFrom :: "string \<Rightarrow> go_error \<Rightarrow> rpc_body" where
  "errorFrom operationID e = RpcError codeApplicationError (messages (reason_of e)
     @ (if operationID = [] then [] else '' (operation_id='' @ operationID @ '')''))"

definition mcp_list :: "mcp_server \<Rightarrow> string \<Rightarrow> string \<Rightarrow> gate \<Rightarrow> rpc_body \<times> gate" where
  "mcp_list sv operationID key g =
     (case on_world (mcp_authenticate sv key) g of
        (Inl e, g1) \<Rightarrow> (errorFrom operationID e, g1)
      | (Inr caller, g1) \<Rightarrow> (ToolList (catalog_Tools (ms_catalog sv)), g1))"

definition mcp_call_tool ::
    "mcp_server \<Rightarrow> string \<Rightarrow> jtext \<Rightarrow> string \<Rightarrow> gate \<Rightarrow> rpc_body \<times> gate" where
  "mcp_call_tool sv operationID params key g =
     (case on_world (mcp_authenticate sv key) g of
        (Inl e, g1) \<Rightarrow> (errorFrom operationID e, g1)
      | (Inr caller, g1) \<Rightarrow>
     (case decode_params params of
        None \<Rightarrow> (RpcError codeInvalidRequest ''tools/call params are not valid'', g1)
      | Some p \<Rightarrow>
     (case catalog_Target (ms_catalog sv) (trim_space (ca_Name p)) of
        None \<Rightarrow> (ToolRefused ''No such tool. Call tools/list for what this gateway offers.'', g1)
      | Some t \<Rightarrow>
     (case mcp_Call (ms_calls sv) operationID
         \<lparr>mc_Caller = caller, mc_Tool = trim_space (ca_Name p),
          mc_Service = tt_Service t, mc_Operation = tt_Operation t, mc_Arguments = ca_Arguments p\<rparr> g1 of
        (Inl e, g2) \<Rightarrow> (errorFrom operationID e, g2)
      | (Inr (Refusal text), g2) \<Rightarrow> (ToolRefused text, g2)
      | (Inr (Answered body), g2) \<Rightarrow> (ToolText body, g2)))))"

definition Dispatch ::
    "mcp_server \<Rightarrow> string \<Rightarrow> rpc_frame \<Rightarrow> string \<Rightarrow> gate \<Rightarrow> rpc_response option \<times> gate" where
  "Dispatch sv operationID f key g =
     (if isNotification f then (None, g)
      else (case
        (if fr_Method f = ''initialize'' then (InitializeResult, g)
         else if fr_Method f = ''ping'' then (Pong, g)
         else if fr_Method f \<in> {''tools/list'', ''tools/call''} then
           (case gw_Check (gt_available g) of
              Inl e \<Rightarrow> (errorFrom operationID e, g)
            | Inr _ \<Rightarrow>
                if fr_Method f = ''tools/list'' then mcp_list sv operationID key g
                else mcp_call_tool sv operationID (fr_Params f) key g)
         else (RpcError codeMethodNotFound (''method not found: '' @ fr_Method f), g)) of
        (body, g1) \<Rightarrow> (Some \<lparr>rp_ID = fr_ID f, rp_Body = body\<rparr>, g1)))"

section \<open>Transports\<close>

text \<open>\<open>None\<close> is a body that cannot be read.\<close>

record mcp_http_request =
  mh_Method :: string
  mh_Origin :: string
  mh_SessionKey :: string
  mh_Body :: "string option"

datatype mcp_http_reply = HttpStatus int | HttpRpc rpc_response

definition maxBody :: nat where "maxBody = 1024 * 1024"

definition serveRPC ::
    "mcp_server \<Rightarrow> (string \<Rightarrow> jtext) \<Rightarrow> string \<Rightarrow> mcp_http_request \<Rightarrow> gate \<Rightarrow> mcp_http_reply \<times> gate" where
  "serveRPC sv decode operationID r g =
     (case mh_Body r of
        None \<Rightarrow> (HttpStatus 400, g)
      | Some body \<Rightarrow>
          (case decodeFrame decode (take maxBody body) of
             None \<Rightarrow> (HttpRpc \<lparr>rp_ID = None,
                 rp_Body = RpcError codeParseError ''request is not valid JSON''\<rparr>, g)
           | Some f \<Rightarrow>
               (case Dispatch sv operationID f (mh_SessionKey r) g of
                  (None, g1) \<Rightarrow> (HttpStatus 202, g1)
                | (Some reply, g1) \<Rightarrow> (HttpRpc reply, g1))))"

text \<open>The handler of \<open>NewHTTPHandler\<close>: an operation id comes first, then browsers are turned away.\<close>

definition mcp_http ::
    "mcp_server \<Rightarrow> (string \<Rightarrow> jtext) \<Rightarrow> mcp_http_request \<Rightarrow> gate \<Rightarrow> mcp_http_reply \<times> gate" where
  "mcp_http sv decode r g =
     (case on_world io_new_id g of
        (Inl e, g1) \<Rightarrow> (HttpRpc \<lparr>rp_ID = None,
          rp_Body = RpcError codeInternalError ''the gateway could not start this request''\<rparr>, g1)
      | (Inr operationID, g1) \<Rightarrow>
          if mh_Origin r \<noteq> [] then (HttpStatus 403, g1)
          else if mh_Method r = ''POST'' then serveRPC sv decode operationID r g1
          else if mh_Method r = ''DELETE'' then (HttpStatus 204, g1)
          else (HttpStatus 405, g1))"

text \<open>A session over a pair of streams, line by line; the operation id is the one the caller's context
  has.  A line that does not fit into the buffer with its line break ends the session.\<close>

definition stdioBuffer :: nat where "stdioBuffer = 1024 * 1024"

fun ServeStdio ::
    "mcp_server \<Rightarrow> (string \<Rightarrow> jtext) \<Rightarrow> string \<Rightarrow> string \<Rightarrow> string list \<Rightarrow> gate \<Rightarrow> rpc_response list \<times> gate" where
  "ServeStdio sv decode operationID key [] g = ([], g)"
| "ServeStdio sv decode operationID key (line # lines) g =
     (if stdioBuffer \<le> length line then ([], g)
      else (case decodeFrame decode line of
        None \<Rightarrow> (case ServeStdio sv decode operationID key lines g of (replies, g1) \<Rightarrow>
            (\<lparr>rp_ID = None, rp_Body = RpcError codeParseError ''request is not valid JSON''\<rparr> # replies, g1))
      | Some f \<Rightarrow>
          (case Dispatch sv operationID f key g of (reply, g1) \<Rightarrow>
             (case ServeStdio sv decode operationID key lines g1 of (replies, g2) \<Rightarrow>
                (case reply of None \<Rightarrow> replies | Some x \<Rightarrow> x # replies, g2)))))"

end
