(* ===== verification/Mcp_Decided.thy ===== *)
theory Mcp_Decided
  imports Mcp_Server Audited
begin

text \<open>
  What a call of a tool may have done when it returns.  The lemmas follow a call through the decision --
  whose lease is the caller's and covers what its ledger entry names -- and the two places that reach
  the network: the look before a person is asked, and the sending under a lease.
\<close>

section \<open>The lease of an allowed request\<close>

lemma decode_encode_names:
  assumes "decode_scope (encode_scope s) = Some t"
  shows "scope_AgentID t = scope_AgentID s" "scope_WorkspaceID t = scope_WorkspaceID s"
    "scope_Service t = scope_Service s" "scope_Operation t = scope_Operation s"
    "scope_IdentityID t = scope_IdentityID s"
  using assms
  by (auto simp: decode_scope_def encode_scope_def json_decode_defs json_names bind_eq_Some_conv)

lemma standing_leases_member:
  "a \<in> set (standing_leases agentID service now ls) \<Longrightarrow>
     \<exists>l \<in> set ls. al_LeaseID a = lease_ID l \<and> lease_ScopeOf l = Ok (al_Scope a)"
  by (induction ls) (auto split: if_splits sum.splits)

lemma pl_resolve_parts:
  assumes "pl_resolve p inp w = (Ok (Inr out), w1)"
  shows "scope_WorkspaceID (sr_Scope (rs_Scope out)) = request_WorkspaceID (in_Request inp)"
    and "request_scope (rs_Input out) = sr_Scope (rs_Scope out)"
    and "\<forall>a \<in> set (di_Active (rs_Input out)). \<exists>l \<in> set (db_leases (w_db w)).
           al_LeaseID a = lease_ID l \<and> lease_ScopeOf l = Ok (al_Scope a)"
proof -
  from assms obtain parsed grants wg matched w3 active conv where
    l: "learned (request_AgentID (in_Request inp)) (request_WorkspaceID (in_Request inp))
        (intent_Service parsed) w = (Ok grants, wg)"
    and st: "standing (request_AgentID (in_Request inp)) (intent_Service parsed) (tick wg) = (Ok active, w3)"
    and sc: "scope_resolve (w_clock wg (w_tick wg))
          \<lparr>si_Intent = parsed, si_AgentID = request_AgentID (in_Request inp),
           si_WorkspaceID = request_WorkspaceID (in_Request inp),
           si_Identity = match_Identity matched, si_Duration = 0, si_RequestLimit = 0\<rparr>
        = Ok conv"
    and out: "\<exists>ass. out = \<lparr>rs_Match = matched, rs_Scope = conv, rs_Risk = ass,
          rs_Input = decision_input_of p inp parsed matched conv ass grants active, rs_Grants = grants\<rparr>"
    unfolding pl_resolve_def Let_def
    by (auto simp: or_block_Ok io_lift_Ok io_bind_Ok_iff io_now_Ok io_return_Ok)
  then have i: "di_Active (rs_Input out) = active" "di_Scope (rs_Input out) = conv" "rs_Scope out = conv"
    by (auto simp: decision_input_of_def)
  have "looking.keeps (learned a b c)" for a b c
    by (auto simp: learned_def trust_Match_def MatchMemories_def list_memories_def
        intro!: looking.keeps_rules)
  from looking.keepsD [OF this l] have db: "w_db (tick wg) = w_db w" by simp
  show "scope_WorkspaceID (sr_Scope (rs_Scope out)) = request_WorkspaceID (in_Request inp)"
    using scope_resolve_Ok(3) [OF sc] i by simp
  show "request_scope (rs_Input out) = sr_Scope (rs_Scope out)" using i by simp
  from st obtain ls w4 where a: "lease_Active leaseLimit (tick wg) = (Ok ls, w4)"
    and "\<exists>now. active = standing_leases (request_AgentID (in_Request inp)) (intent_Service parsed) now ls"
    by (auto simp: standing_def io_bind_Ok_iff io_return_Ok io_now_Ok)
  then show "\<forall>a \<in> set (di_Active (rs_Input out)). \<exists>l \<in> set (db_leases (w_db w)).
           al_LeaseID a = lease_ID l \<and> lease_ScopeOf l = Ok (al_Scope a)"
    using standing_leases_member lease_Active_Ok(1) [OF a] db i(1) by fastforce
qed

lemma lease_Issue_scope:
  assumes "lease_Issue req w = (Ok l, w')"
  shows "lease_ResourceScope l = encode_scope (ir_Granted req)"
  using assms by (auto simp: lease_Issue_def IssueLease_def createLease_def io_Ok_iffs io_new_id_Ok
      rbind_iffs sql_insert_Ok toLease_def lease_row_def encodeGrant_def split: if_splits)

text \<open>An allowed request comes with a lease whose scope is for its agent and workspace and for the
  operation that the ledger entry of the answer names.\<close>

definition allowed_by :: "audit_event \<Rightarrow> capability_request \<Rightarrow> lease \<Rightarrow> bool" where
  "allowed_by e r l \<longleftrightarrow> event_Type e = EventAutoAllowed \<and> event_Verdict e = VerdictAutoAllow
     \<and> event_OperationID e = request_OperationID r
     \<and> event_AgentID e = request_AgentID r \<and> event_WorkspaceID e = request_WorkspaceID r
     \<and> (\<forall>granted. decode_scope (lease_ResourceScope l) = Some granted \<longrightarrow>
          scope_AgentID granted = request_AgentID r \<and> scope_WorkspaceID granted = request_WorkspaceID r
          \<and> scope_Service granted = event_Service e \<and> scope_Operation granted = event_Operation e
          \<and> scope_IdentityID granted = event_IdentityID e)"

lemma pl_issue_allowed:
  assumes iss: "pl_issue inp out rec (decide (rs_Input out)) w = (Ok l, w')"
    and ok: "lease_table_ok (db_leases (w_db w))" and rec: "decision_Verdict rec = VerdictAutoAllow"
    and res: "pl_resolve p inp w0 = (Ok (Inr out), w1)" and same: "db_leases (w_db w0) = db_leases (w_db w)"
  shows "\<exists>e \<in> set (db_audit (w_db w')). allowed_by e (in_Request inp) l"
proof -
  let ?s = "sr_Scope (rs_Scope out)" and ?oc = "decide (rs_Input out)"
  note P = pl_resolve_parts [OF res] and I = pl_resolve_identity(4,5) [OF res]
  from iss obtain e w2 where e: "pl_write inp out rec EventAutoAllowed OutcomeSucceeded w = (Ok e, w2)"
    and k: "(if out_MatchedLeaseID ?oc \<noteq> [] then lease_ByID (out_MatchedLeaseID ?oc)
       else issueLease \<lparr>ir_Granted = ?s, ir_ApprovalID = [],
         ir_SourceMemoryID = decision_TrustMemoryID rec, ir_IsSessionBound = False\<rparr>) w2 = (Ok l, w')"
    unfolding pl_issue_def by (rule io_bind_Ok)
  from e have w2: "w_db w2 = (w_db w)\<lparr>db_audit := db_audit (w_db w) @ [e]\<rparr>"
    and E: "event_Type e = EventAutoAllowed" "event_Verdict e = decision_Verdict rec"
      "event_OperationID e = request_OperationID (in_Request inp)"
      "event_AgentID e = request_AgentID (in_Request inp)"
      "event_WorkspaceID e = request_WorkspaceID (in_Request inp)"
      "event_Service e = scope_Service ?s" "event_Operation e = scope_Operation ?s"
      "event_IdentityID e = identity_ID (match_Identity (rs_Match out))"
    unfolding pl_write_def by (rule Record_Ok; simp add: appendParams_def)+
  show ?thesis
  proof (cases "out_MatchedLeaseID ?oc = []")
    case True
    with k have "lease_Issue \<lparr>ir_Granted = ?s, ir_ApprovalID = [],
         ir_SourceMemoryID = decision_TrustMemoryID rec, ir_IsSessionBound = False\<rparr> w2 = (Ok l, w')"
      by (simp add: issueLease_def)
    note L = lease_Issue_scope [OF this] lease_Issue_Ok [OF this]
    have "e \<in> set (db_audit (w_db w'))" using L(2) w2 by simp
    moreover have "allowed_by e (in_Request inp) l"
      unfolding allowed_by_def using E rec P(1) I decode_encode_names L(1) by simp
    ultimately show ?thesis ..
  next
    case False
    with k have "LeaseByID (out_MatchedLeaseID ?oc) w2 = (Ok l, w')" by (simp add: lease_ByID_def)
    note L = LeaseByID_Ok [OF this]
    from matched_lease_covers [OF False] obtain a where a: "a \<in> set (di_Active (rs_Input out))"
      "al_LeaseID a = out_MatchedLeaseID ?oc" "CoversIgnoringWindow (al_Scope a) ?s"
      using P(2) by auto
    with P(3) obtain x where x: "x \<in> set (db_leases (w_db w))" "al_LeaseID a = lease_ID x"
      "lease_ScopeOf x = Ok (al_Scope a)" unfolding same by blast
    have "l \<in> set (db_leases (w_db w))" using L(1) w2 by simp
    from lease_exec_same_id [OF ok this x(1)] have "l = x" using L(2) a(2) x(2) by simp
    with x(3) have "decode_scope (lease_ResourceScope l) = Some (al_Scope a)"
      by (auto simp: lease_ScopeOf_def decodeGrant_def rbind_iffs split: option.splits)
    moreover have "scope_AgentID (al_Scope a) = scope_AgentID ?s"
      "scope_WorkspaceID (al_Scope a) = scope_WorkspaceID ?s" "scope_Service (al_Scope a) = scope_Service ?s"
      "scope_Operation (al_Scope a) = scope_Operation ?s" "scope_IdentityID (al_Scope a) = scope_IdentityID ?s"
      using a(3) by (simp_all add: CoversIgnoringWindow_def covers_def split: if_splits)
    ultimately have "allowed_by e (in_Request inp) l"
      unfolding allowed_by_def using E rec P(1) I by simp
    moreover have "e \<in> set (db_audit (w_db w'))" using L(3) w2 by simp
    ultimately show ?thesis ..
  qed
qed

lemma Handle_allowed:
  assumes h: "Handle p inp w = (Ok res, w')" and ok: "lease_table_ok (db_leases (w_db w))"
    and v: "out_Verdict (res_Outcome res) = VerdictAutoAllow"
  shows "\<exists>l. res_Lease res = Some l \<and> (\<exists>e \<in> set (db_audit (w_db w')). allowed_by e (in_Request inp) l)"
  using h
proof (cases rule: Handle_Ok)
  case (1 b w1)
  from 1(2) have "out_Verdict (res_Outcome res) = VerdictDeny"
    by (auto simp: pl_failClosed_def io_bind_Ok_iff io_return_Ok)
  with v show ?thesis by simp
next
  case (2 out w1)
  let ?oc = "decide (rs_Input out)"
  from 2(3) have oc: "res_Outcome res = ?oc"
    by (auto simp: pl_conclude_def io_bind_Ok_iff io_return_Ok)
  with v have vv: "out_Verdict ?oc = VerdictAutoAllow" by simp
  from 2(3) obtain rec w2 l w3 req where rec: "recordDecision inp out ?oc w1 = (Ok rec, w2)"
    and iss: "pl_issue inp out rec ?oc w2 = (Ok l, w3)"
    and adv: "advance (in_Request inp) StatusAutoAllowed w3 = (Ok req, w')"
    and res: "res_Lease res = Some l"
    unfolding pl_conclude_def vv by (auto simp: io_bind_Ok_iff io_return_Ok)
  note R = recordDecision_Ok [OF rec] and A = advance_Ok [OF adv]
  have l: "db_leases (w_db w2) = db_leases (w_db w)" using R 2(2) by simp
  have "decision_Verdict rec = VerdictAutoAllow" using R vv by simp
  from pl_issue_allowed [OF iss _ this 2(1) l [symmetric]] ok
  obtain e where e: "e \<in> set (db_audit (w_db w3))" "allowed_by e (in_Request inp) l"
    unfolding l by blast
  moreover have "db_audit (w_db w') = db_audit (w_db w3)" by (subst A(1), simp)
  ultimately show ?thesis using res by auto
qed

section \<open>Steps that keep the lease table well-formed and the ledger growing\<close>

interpretation acting: db_history
    "\<lambda>d d'. (lease_table_ok (db_leases d) \<longrightarrow> lease_table_ok (db_leases d'))
       \<and> set (db_audit d) \<subseteq> set (db_audit d')"
  by unfold_locales auto

lemma quiet_acting: "quiet.keeps m \<Longrightarrow> acting.keeps m"
  by (simp add: quiet.keeps_def acting.keeps_def quiet_def)

lemma Record_acting: "acting.keeps (Record e)"
  unfolding Record_def prepare_def Append_def
  by (intro acting.keeps_rules acting.keeps_write) (auto simp: appendAuditEvent_Ok)

lemma lease_Issue_acting: "acting.keeps (lease_Issue req)"
proof -
  have "lease_table_ok rows" if "sql_insert (lease_check l) (lease_unique l (db_leases d)) (lease_refs l d) l
      (db_leases d) = Ok (r, rows)" "lease_table_ok (db_leases d)" for l d r rows
    using that by (auto simp: sql_insert_Ok lease_table_ok_def lease_unique_def intro!: table_ok_insert)
  then show ?thesis unfolding lease_Issue_def IssueLease_def
    by (intro acting.keeps_rules acting.keeps_write) (auto simp: createLease_def rbind_iffs)
qed

lemma lease_Use_acting: "acting.keeps (lease_Use i s)"
  using lease_Use_keeps by (simp add: acting.keeps_def using_leases.keeps_def ground_kept.keeps_def)

lemmas acting_steps = Record_acting lease_Issue_acting lease_Use_acting quiet_steps [THEN quiet_acting]

lemma pl_conclude_acting: "acting.keeps (pl_conclude p inp out oc)"
  by (cases "out_Verdict oc")
    (auto simp: pl_conclude_def pl_issue_def pl_write_def issueLease_def
      intro!: acting.keeps_rules acting_steps)

lemma Handle_acting: "acting.keeps (Handle p inp)"
  by (auto simp: Handle_def pl_failClosed_def
      intro!: acting.keeps_rules acting_steps pl_conclude_acting)

end
