(* ===== verification/Mcp_Guard.thy ===== *)
theory Mcp_Guard
  imports Mcp_Decided
begin

text \<open>
  What leaves the gateway through the MCP server: every use of the network by a call of a tool is
  either the look before a person is asked or the one sending under the lease of an allowed request.
\<close>

section \<open>Steps of the gate\<close>

definition gate_acts :: "gate \<Rightarrow> gate \<Rightarrow> bool" where
  "gate_acts g g' \<longleftrightarrow>
     (lease_table_ok (db_leases (w_db (gt_world g))) \<longrightarrow> lease_table_ok (db_leases (w_db (gt_world g'))))
     \<and> set (db_audit (w_db (gt_world g))) \<subseteq> set (db_audit (w_db (gt_world g')))"

lemma gate_acts_trans: "gate_acts a b \<Longrightarrow> gate_acts b c \<Longrightarrow> gate_acts a c"
  unfolding gate_acts_def by blast

lemma gate_acts_same: "w_db (gt_world g') = w_db (gt_world g) \<Longrightarrow> gate_acts g g'"
  by (simp add: gate_acts_def)

lemma on_world_acts:
  assumes "on_world m g = (r, g')" and "acting.keeps m"
  shows "gate_acts g g'" "gt_net g' = gt_net g" "m (gt_world g) = (r, gt_world g')"
proof -
  show m: "m (gt_world g) = (r, gt_world g')" and "gt_net g' = gt_net g"
    using assms(1) by (auto simp: on_world_def split: prod.splits)
  show "gate_acts g g'" using acting.keepsD [OF assms(2) m] by (simp add: gate_acts_def)
qed

lemma looks_acting: "looking.keeps m \<Longrightarrow> acting.keeps m"
  by (simp add: looking.keeps_def acting.keeps_def)

lemma acting_requests:
  "acting.keeps (CreateRequest r)" "acting.keeps (SaveChangePreview i t st at)"
  "acting.keeps (advance_now i fr to)"
  unfolding CreateRequest_def SaveChangePreview_def advance_now_def AdvanceRequest_def
  by (intro acting.keeps_rules acting.keeps_write;
    auto simp: createCapabilityRequest_def update_request_def rbind_iffs sql_insert_Ok Let_def
      split: option.splits)+

lemma mcp_open_acting: "acting.keeps (mcp_open s op c)"
  unfolding mcp_open_def io_app_def
  by (auto intro!: acting.keeps_rules acting_requests split: sum.splits)

lemma inputsFor_looks: "looking.keeps (inputsFor s r)"
  unfolding inputsFor_def AgentByID_def DeviceByID_def EnabledDeclarations_def IdentitiesForService_def
  by (auto intro!: looking.keeps_rules split: prod.splits)

lemma Authenticate_acting: "acting.keeps (Authenticate h k p)"
proof -
  have "acting.keeps (TouchAgent i at)" for i at
    unfolding TouchAgent_def by (intro acting.keeps_rules acting.keeps_write)
      (auto simp: update_agent_Ok rbind_iffs)
  then show ?thesis unfolding Authenticate_def AgentBySessionKeyHash_def
    by (auto intro!: acting.keeps_rules)
qed

lemma mcp_authenticate_acting: "acting.keeps (mcp_authenticate sv key)"
  unfolding mcp_authenticate_def by (intro acting.keeps_rules Authenticate_acting)

lemma gate_now_acts: "gate_acts g (snd (gate_now g))" "gt_net (snd (gate_now g)) = gt_net g"
  by (simp_all add: gate_now_def gate_acts_def)

section \<open>Looking before a person is asked\<close>

definition looked_once ::
    "gateway \<Rightarrow> methods adapter_scheme option list \<Rightarrow> exchange_request \<Rightarrow> identity \<Rightarrow> xstate \<Rightarrow> xstate \<Rightarrow> bool" where
  "looked_once gw adapters request i st st' \<longleftrightarrow> (\<exists>a source_of run d credential out.
     declares adapters (xr_Service request) a \<and> fa_Preview a = Some (source_of, run)
     \<and> d \<in> set (ad_Capabilities a) \<and> ac_Operation d = source_of (xr_Operation request)
     \<and> \<not> capability_Write d
     \<and> (\<exists>u u'. credential_Fetch (gw_credentials gw) (identity_CredentialReferenceID i) u
          = (Ok credential, u'))
     \<and> run (preview_of request credential) (xs_Sent st) = (out, xs_Sent st')
     \<and> xs_Trace st' = xs_Trace st @ [Fetched (identity_CredentialReferenceID i),
          Zeroed (identity_CredentialReferenceID i)])"

lemma gate_Preview_cases:
  assumes look: "gate_exchange ready (\<lambda>x. exchange_Preview x request) gw (xr_IdentityID request) g = (res, g')"
    and new: "registry_New adapters = Inr (gw_registry gw)"
  shows "w_db (gt_world g') = w_db (gt_world g)"
    and "gt_net g' = gt_net g
      \<or> (\<exists>i \<in> set (db_identities (w_db (gt_world g))). identity_ID i = xr_IdentityID request
           \<and> looked_once gw adapters request i (gt_net g) (gt_net g'))"
proof -
  from look obtain reference secret r net g2 where
    run: "exchange_Preview (exchange_of gw reference secret) request (gt_net g) = (r, net)"
    and g': "g' = g2\<lparr>gt_net := net\<rparr>" and res: "res = (case r of Inl e \<Rightarrow> Err (ae_Code e) | Inr a \<Rightarrow> Ok a)"
    and same: "w_db (gt_world g2) = w_db (gt_world g)" "gt_net g2 = gt_net g"
    and told: "\<forall>ref secret'. reference = Ok ref \<and> secret = Ok secret' \<longrightarrow>
       (\<exists>x \<in> set (db_identities (w_db (gt_world g))). identity_ID x = xr_IdentityID request
          \<and> identity_CredentialReferenceID x = ref)
       \<and> (\<exists>u u'. credential_Fetch (gw_credentials gw) ref u = (Ok secret', u'))"
    by (rule gate_exchange_cases)
  let ?x = "exchange_of gw reference secret"
  show "w_db (gt_world g') = w_db (gt_world g)" using g' same by simp
  show "gt_net g' = gt_net g
      \<or> (\<exists>i \<in> set (db_identities (w_db (gt_world g))). identity_ID i = xr_IdentityID request
           \<and> looked_once gw adapters request i (gt_net g) (gt_net g'))"
  proof (cases rule: exchange_Preview_cases [of ?x request "gt_net g"])
    case (idle e)
    with run g' show ?thesis by simp
  next
    case (ran a source_of f c d referenceID credential out sent')
    from ran(7) have "reference = Ok referenceID"
      by (auto simp: exchange_of_def as_app_def split: sum.splits go_error.splits)
    moreover from ran(8) have "secret = Ok credential"
      by (auto simp: exchange_of_def as_app_def split: sum.splits go_error.splits)
    ultimately obtain i u u' where i: "i \<in> set (db_identities (w_db (gt_world g)))"
      "identity_ID i = xr_IdentityID request" "identity_CredentialReferenceID i = referenceID"
      and f: "credential_Fetch (gw_credentials gw) referenceID u = (Ok credential, u')"
      using told by blast
    have a: "declares adapters (xr_Service request) a"
      using ran(1) registry_New_Inr(2) [OF new] by (simp add: exchange_of_def)
    have "registry_Capability (gw_registry gw) (xr_Service request) (source_of (xr_Operation request)) = Inr d"
      using ran(4) by (simp add: exchange_of_def)
    then obtain a' where "declares adapters (xr_Service request) a'" "d \<in> set (ad_Capabilities a')"
      "ac_Operation d = source_of (xr_Operation request)" using registry_New_Inr(3) [OF new] by blast
    moreover from this(1) a have "a' = a" using registry_New_Inr(2) [OF new] by (metis sum.inject(2))
    ultimately have "looked_once gw adapters request i (gt_net g) (gt_net g')"
      unfolding looked_once_def using a ran(2,5,9,10) f i(3) run g'
      by (intro exI [of _ a] exI [of _ source_of] exI [of _ f] exI [of _ d] exI [of _ credential]
          exI [of _ out]) auto
    with i show ?thesis by blast
  qed
qed

interpretation identities_kept: db_history "\<lambda>d d'. db_identities d' = db_identities d"
  by unfold_locales simp_all

lemma identities_kept_steps:
  "identities_kept.keeps (Record e)" "identities_kept.keeps (SaveChangePreview i t st at)"
  "identities_kept.keeps (advance_now i fr to)"
  unfolding Record_def prepare_def Append_def SaveChangePreview_def advance_now_def AdvanceRequest_def
  by (intro identities_kept.keeps_rules identities_kept.keeps_write;
    auto simp: appendAuditEvent_Ok update_request_def rbind_iffs split: option.splits)+

lemma on_world_identities:
  assumes "on_world m g = (r, g')" and "identities_kept.keeps m"
  shows "db_identities (w_db (gt_world g')) = db_identities (w_db (gt_world g))"
  using identities_kept.keepsD [OF assms(2)] assms(1) by (auto simp: on_world_def split: prod.splits)

lemma save_preview_acts:
  "gate_acts g (save_preview result changes g)" "gt_net (save_preview result changes g) = gt_net g"
  "db_identities (w_db (gt_world (save_preview result changes g))) = db_identities (w_db (gt_world g))"
proof -
  obtain now g1 where n: "gate_now g = (now, g1)" by (metis prod.exhaust)
  let ?m = "SaveChangePreview (request_ID (res_Request result))
    (Parsed (JArr (map encode_change changes))) StatusAwaitingApproval now"
  obtain r g2 where s: "on_world ?m g1 = (r, g2)" by (metis prod.exhaust)
  note G = gate_now_acts [of g, unfolded n snd_conv] and S = on_world_acts [OF s acting_requests(2)]
  have "save_preview result changes g = g2" using n s by (simp add: save_preview_def)
  then show "gate_acts g (save_preview result changes g)"
    "gt_net (save_preview result changes g) = gt_net g"
    "db_identities (w_db (gt_world (save_preview result changes g))) = db_identities (w_db (gt_world g))"
    using gate_acts_trans [OF G(1) S(1)] G(2) S(2) on_world_identities [OF s identities_kept_steps(2)] n
    by (auto simp: gate_now_def)
qed

lemma previewChange_cases:
  assumes new: "registry_New adapters = Inr (gw_registry (sb_gateway s))"
  shows "gate_acts g (previewChange s result g)
    \<and> (gt_net (previewChange s result g) = gt_net g
       \<or> (\<exists>d. res_Decision result = Some d \<and> decision_Verdict d = VerdictRequireApproval
           \<and> (\<exists>i \<in> set (db_identities (w_db (gt_world (previewChange s result g)))).
                identity_ID i = decision_IdentityID d \<and> looked_once (sb_gateway s) adapters (preview_request_of s result d) i (gt_net g)
                    (gt_net (previewChange s result g)))))"
proof (cases "\<exists>d. res_Decision result = Some d \<and> decision_Verdict d = VerdictRequireApproval")
  case False
  then have "previewChange s result g = g" by (auto simp: previewChange_def split: option.splits)
  then show ?thesis by (simp add: gate_acts_def)
next
  case True
  then obtain d where d: "res_Decision result = Some d" "decision_Verdict d = VerdictRequireApproval" by blast
  let ?rq = "preview_request_of s result d" and ?gw = "sb_gateway s"
  have id: "xr_IdentityID ?rq = decision_IdentityID d" by (simp add: preview_request_of_def)
  obtain res g1 where x: "gate_exchange (previews_now (gw_registry ?gw) ?rq)
      (\<lambda>x. exchange_Preview x ?rq) ?gw (xr_IdentityID ?rq) g = (res, g1)" by (metis prod.exhaust)
  note P = gate_Preview_cases [OF x new]
  have g': "previewChange s result g = (case res of Inl e \<Rightarrow> g1
      | Inr changes \<Rightarrow> if changes = [] then g1 else save_preview result changes g1)"
    using x d by (simp add: previewChange_def Let_def split: sum.split)
  have "gate_acts g1 (previewChange s result g) \<and> gt_net (previewChange s result g) = gt_net g1
      \<and> db_identities (w_db (gt_world (previewChange s result g))) = db_identities (w_db (gt_world g1))"
    unfolding g' using save_preview_acts by (auto simp: gate_acts_def split: sum.split)
  then show ?thesis using gate_acts_trans [OF gate_acts_same [OF P(1)]] P d id by auto
qed

section \<open>From a call to its answer\<close>

lemma mcp_open_Ok:
  assumes "mcp_open s op c w = (Ok r, w')"
  shows "request_OperationID r = op" "request_AgentID r = ml_AgentID (mc_Caller c)"
    "request_WorkspaceID r = ml_WorkspaceID (mc_Caller c)"
  using assms by (auto simp: mcp_open_def io_app_def io_Ok_iffs io_new_id_Ok CreateRequest_def
      createCapabilityRequest_def rbind_iffs sql_insert_Ok Let_def)

lemma inputsFor_request:
  "inputsFor s r w = (Ok inputs, w') \<Longrightarrow> in_Request inputs = r"
  by (auto simp: inputsFor_def io_Ok_iffs split: prod.splits)

lemma Handle_decision:
  assumes "Handle p inp w = (Ok res, w')" and "res_Decision res = Some d"
  shows "decision_Verdict d = out_Verdict (res_Outcome res)"
  using assms(1)
proof (cases rule: Handle_Ok)
  case (1 b w1)
  from 1(2) assms(2) show ?thesis by (auto simp: pl_failClosed_def io_bind_Ok_iff io_return_Ok)
next
  case (2 out w1)
  from 2(3) assms(2) obtain w2 where "recordDecision inp out (decide (rs_Input out)) w1 = (Ok d, w2)"
    and "res_Outcome res = decide (rs_Input out)"
    by (auto simp: pl_conclude_def io_bind_Ok_iff io_return_Ok)
  with recordDecision_Ok(2) show ?thesis by simp
qed

text \<open>A request that waits for a person after one look at the service.\<close>

definition waits_after_look ::
    "submissions \<Rightarrow> methods adapter_scheme option list \<Rightarrow> capability_request \<Rightarrow> pl_result \<Rightarrow> gate \<Rightarrow> gate \<Rightarrow> bool"
where
  "waits_after_look s adapters r result g g' \<longleftrightarrow> out_Verdict (res_Outcome result) = VerdictRequireApproval
      \<and> (\<exists>e \<in> set (db_audit (w_db (gt_world g'))). event_OperationID e = request_OperationID r
           \<and> event_Verdict e = VerdictRequireApproval)
      \<and> (\<exists>d. res_Decision result = Some d \<and> (\<exists>i \<in> set (db_identities (w_db (gt_world g'))).
           identity_ID i = decision_IdentityID d \<and> looked_once (sb_gateway s) adapters (preview_request_of s result d) i (gt_net g) (gt_net g')))"

text \<open>A decision: the network is at most looked at for a person's sake, and an allowed request comes with
  a lease of its own and an entry in the ledger.\<close>

lemma submissions_Decide_cases:
  assumes run: "submissions_Decide s r g = (res, g')"
    and new: "registry_New adapters = Inr (gw_registry (sb_gateway s))"
    and ok: "lease_table_ok (db_leases (w_db (gt_world g)))"
  shows "gate_acts g g'"
    and "gt_net g' = gt_net g \<or> (\<exists>result. res = Ok result \<and> waits_after_look s adapters r result g g')"
    and "\<lbrakk>res = Ok result; out_Verdict (res_Outcome result) = VerdictAutoAllow\<rbrakk> \<Longrightarrow> gt_net g' = gt_net g
      \<and> (\<exists>l. res_Lease result = Some l
           \<and> (\<exists>e \<in> set (db_audit (w_db (gt_world g'))). allowed_by e r l))"
proof -
  obtain ri g1 where i: "on_world (inputsFor s r) g = (ri, g1)" by (metis prod.exhaust)
  note I = on_world_acts [OF i looks_acting [OF inputsFor_looks]]
  have "gate_acts g g' \<and> (gt_net g' = gt_net g \<or> (\<exists>result. res = Ok result \<and> waits_after_look s adapters r result g g'))
    \<and> (\<forall>result. res = Ok result \<and> out_Verdict (res_Outcome result) = VerdictAutoAllow \<longrightarrow>
        gt_net g' = gt_net g \<and> (\<exists>l. res_Lease result = Some l
           \<and> (\<exists>e \<in> set (db_audit (w_db (gt_world g'))). allowed_by e r l)))"
  proof (cases ri)
    case (Inl e)
    with run i I show ?thesis by (auto simp: submissions_Decide_def)
  next
    case ri: (Inr inputs)
    obtain rh g2 where h: "on_world (Handle (sb_pipeline s) inputs) g1 = (rh, g2)" by (metis prod.exhaust)
    note H = on_world_acts [OF h Handle_acting]
    have req: "in_Request inputs = r" using inputsFor_request I(3) ri by blast
    show ?thesis
    proof (cases rh)
      case (Inl e)
      with run i ri h I H gate_acts_trans show ?thesis by (auto simp: submissions_Decide_def)
    next
      case (Inr result)
      with run i ri h have out: "res = Ok result" "g' = previewChange s result g2"
        by (simp_all add: submissions_Decide_def)
      note C = previewChange_cases [OF new, of g2 result, folded out(2)]
      from H(3) Inr have hd: "Handle (sb_pipeline s) inputs (gt_world g1) = (Ok result, gt_world g2)" by simp
      have acts: "gate_acts g2 g'" using C by blast
      have net: "gt_net g2 = gt_net g" using I(2) H(2) by simp
      from Handle_answered [OF hd] obtain e where
        "db_audit (w_db (gt_world g2)) = db_audit (w_db (gt_world g1)) @ [e]"
        "event_OperationID e = request_OperationID r" "event_Verdict e = out_Verdict (res_Outcome result)"
        unfolding req by blast
      moreover from this(1) have "e \<in> set (db_audit (w_db (gt_world g2)))" by simp
      ultimately have entry: "\<exists>e \<in> set (db_audit (w_db (gt_world g'))). event_OperationID e = request_OperationID r
           \<and> event_Verdict e = out_Verdict (res_Outcome result)" using acts unfolding gate_acts_def by blast
      have "gate_acts g g'" using gate_acts_trans I(1) H(1) acts by blast
      moreover have "gt_net g' = gt_net g \<or> (out_Verdict (res_Outcome result) = VerdictRequireApproval
         \<and> (\<exists>d. res_Decision result = Some d \<and> (\<exists>i \<in> set (db_identities (w_db (gt_world g'))).
           identity_ID i = decision_IdentityID d \<and> looked_once (sb_gateway s) adapters (preview_request_of s result d) i (gt_net g) (gt_net g'))))"
        using C Handle_decision [OF hd] unfolding net by auto
      moreover have "\<exists>l. res_Lease result = Some l
           \<and> (\<exists>e \<in> set (db_audit (w_db (gt_world g'))). allowed_by e r l)"
        if "out_Verdict (res_Outcome result) = VerdictAutoAllow"
      proof -
        have "lease_table_ok (db_leases (w_db (gt_world g1)))" using I(1) ok by (simp add: gate_acts_def)
        from Handle_allowed [OF hd this that] show ?thesis using acts unfolding req gate_acts_def by blast
      qed
      ultimately show ?thesis using entry out(1) unfolding waits_after_look_def by auto
    qed
  qed
  then show "gate_acts g g'"
    and "gt_net g' = gt_net g \<or> (\<exists>result. res = Ok result \<and> waits_after_look s adapters r result g g')"
    and "\<lbrakk>res = Ok result; out_Verdict (res_Outcome result) = VerdictAutoAllow\<rbrakk> \<Longrightarrow> gt_net g' = gt_net g
      \<and> (\<exists>l. res_Lease result = Some l
           \<and> (\<exists>e \<in> set (db_audit (w_db (gt_world g'))). allowed_by e r l))" by blast+
qed

section \<open>Sending under a lease\<close>

text \<open>One run of the adapter for the operation, the resource and the identity of a lease that has been
  counted; an answer is handed on with an entry in the ledger.\<close>

definition sent_under ::
    "submissions \<Rightarrow> methods adapter_scheme option list \<Rightarrow> lease \<Rightarrow> call_outcome result \<Rightarrow> gate \<Rightarrow> gate \<Rightarrow> bool"
where
  "sent_under s adapters l r g g' \<longleftrightarrow> (\<exists>authorized. decode_scope (lease_ResourceScope l) = Some authorized
     \<and> (\<exists>l' \<in> set (db_leases (w_db (gt_world g'))). lease_ID l' = lease_ID l \<and> 0 < lease_UsedRequests l')
     \<and> (\<exists>i \<in> set (db_identities (w_db (gt_world g'))). identity_ID i = scope_IdentityID authorized
          \<and> ran_once (sb_gateway s) adapters \<lparr>rt_Service = scope_Service authorized,
              rt_Operation = scope_Operation authorized, rt_Resource = scope_Resource authorized\<rparr> i
              (gt_net g) (gt_net g'))
     \<and> (\<forall>body. r = Ok (Answered body) \<longrightarrow> (\<exists>e \<in> set (db_audit (w_db (gt_world g'))).
          event_Type e = EventAdapterExecuted \<and> event_LeaseID e = lease_ID l
          \<and> event_Service e = scope_Service authorized \<and> event_Operation e = scope_Operation authorized)))"

lemma leases_kept_steps: "leases_kept.keeps (Record e)" "leases_kept.keeps (advance_now i fr to)"
proof -
  show "leases_kept.keeps (Record e)" by (rule Record_keeps_leases)
  show "leases_kept.keeps (advance_now i fr to)" unfolding advance_now_def AdvanceRequest_def
    by (intro leases_kept.keeps_rules leases_kept.keeps_write)
      (auto simp: update_request_def rbind_iffs split: option.splits)
qed

lemma closing_steps:
  "leases_kept.keeps (mcp_failed r l a t c)" "identities_kept.keeps (mcp_failed r l a t c)"
  "acting.keeps (mcp_failed r l a t c)"
  "leases_kept.keeps (mcp_conclude r l a t x)" "identities_kept.keeps (mcp_conclude r l a t x)"
  "acting.keeps (mcp_conclude r l a t x)"
  unfolding mcp_failed_def mcp_conclude_def mcp_record_def Let_def
  by (auto intro!: leases_kept.keeps_rules identities_kept.keeps_rules acting.keeps_rules
      leases_kept_steps identities_kept_steps acting_requests Record_acting split: prod.splits)

lemma on_world_leases:
  assumes "on_world m g = (r, g')" and "leases_kept.keeps m"
  shows "db_leases (w_db (gt_world g')) = db_leases (w_db (gt_world g))"
  using leases_kept.keepsD [OF assms(2)] assms(1) by (auto simp: on_world_def split: prod.splits)

text \<open>Ending a call: the tables that matter keep their rows, and an answer has its entry.\<close>

lemma mcp_conclude_answer:
  assumes "mcp_conclude r l a t x w = (Ok (Answered body), w')"
  shows "\<exists>e \<in> set (db_audit (w_db w')). event_Type e = EventAdapterExecuted \<and> event_LeaseID e = lease_ID l
     \<and> event_Service e = scope_Service a \<and> event_Operation e = scope_Operation a"
proof -
  obtain oc st where p: "(if xy_StatusCode x = 200 then (OutcomeSucceeded, StatusSucceeded)
        else (OutcomeFailed, StatusFailed)) = (oc, st)" by (metis prod.exhaust)
  from assms obtain now w1 e w2 req where
    rec: "Record (mcp_event r l a oc (xy_UpstreamStatus x) (now - t)) w1 = (Ok e, w2)"
    and adv: "advance_now (request_ID r) StatusExecuting st w2 = (Ok req, w')"
    unfolding mcp_conclude_def p Let_def by (auto simp: mcp_record_def io_bind_Ok_iff io_return_Ok)
  from rec have "w_db w2 = (w_db w1)\<lparr>db_audit := db_audit (w_db w1) @ [e]\<rparr>"
    and E: "event_Type e = EventAdapterExecuted" "event_LeaseID e = lease_ID l"
      "event_Service e = scope_Service a" "event_Operation e = scope_Operation a"
    by (rule Record_Ok; simp add: appendParams_def mcp_event_def)+
  then have "e \<in> set (db_audit (w_db w2))" by simp
  moreover have "set (db_audit (w_db w2)) \<subseteq> set (db_audit (w_db w'))"
    using acting.keepsD [OF acting_requests(3) adv] by blast
  ultimately show ?thesis using E by blast
qed

text \<open>What is common to the two ways a call ends.\<close>

definition closing :: "lease \<Rightarrow> scope \<Rightarrow> call_outcome io \<Rightarrow> bool" where
  "closing l a m \<longleftrightarrow> leases_kept.keeps m \<and> identities_kept.keeps m \<and> acting.keeps m
     \<and> (\<forall>body w w'. m w = (Ok (Answered body), w') \<longrightarrow> (\<exists>e \<in> set (db_audit (w_db w')).
          event_Type e = EventAdapterExecuted \<and> event_LeaseID e = lease_ID l
          \<and> event_Service e = scope_Service a \<and> event_Operation e = scope_Operation a))"

lemma closing_failed: "closing l a (io_bind io_now (\<lambda>ended. mcp_failed r l a (f ended) c))"
proof -
  have "io_bind io_now (\<lambda>ended. mcp_failed r l a (f ended) c) w \<noteq> (Ok x, w')" for x w w'
    by (auto simp: io_bind_Ok_iff mcp_failed_def io_fail_Ok)
  then show ?thesis unfolding closing_def
    by (auto intro!: leases_kept.keeps_rules identities_kept.keeps_rules acting.keeps_rules closing_steps)
qed

lemma closing_conclude: "closing l a (mcp_conclude r l a t x)"
  unfolding closing_def by (intro conjI allI impI closing_steps mcp_conclude_answer)

lemma on_world_closing:
  assumes "on_world m g = (r, g')" and "closing l a m"
  shows "gate_acts g g'" "gt_net g' = gt_net g"
    "db_leases (w_db (gt_world g')) = db_leases (w_db (gt_world g))"
    "db_identities (w_db (gt_world g')) = db_identities (w_db (gt_world g))"
    "\<forall>body. r = Ok (Answered body) \<longrightarrow> (\<exists>e \<in> set (db_audit (w_db (gt_world g'))).
       event_Type e = EventAdapterExecuted \<and> event_LeaseID e = lease_ID l
       \<and> event_Service e = scope_Service a \<and> event_Operation e = scope_Operation a)"
  using assms(2) on_world_acts [OF assms(1)] on_world_leases [OF assms(1)] on_world_identities [OF assms(1)]
  unfolding closing_def by blast+

lemma mcp_Send_cases:
  assumes send: "mcp_Send s request running a g = (res, g')"
    and new: "registry_New adapters = Inr (gw_registry (sb_gateway s))"
  shows "w_db (gt_world g') = w_db (gt_world g)"
    and "(\<exists>e. res = Inl e) \<and> gt_net g' = gt_net g
      \<or> (\<exists>i \<in> set (db_identities (w_db (gt_world g))). identity_ID i = scope_IdentityID a
           \<and> ran_once (sb_gateway s) adapters \<lparr>rt_Service = scope_Service a, rt_Operation = scope_Operation a,
               rt_Resource = scope_Resource a\<rparr> i (gt_net g) (gt_net g'))"
proof -
  let ?rq = "mcp_request_of s request running a"
  have rq: "xr_IdentityID ?rq = scope_IdentityID a" "xr_Service ?rq = scope_Service a"
    "xr_Operation ?rq = scope_Operation a" "xr_Resource ?rq = scope_Resource a"
    by (simp_all add: mcp_request_of_def)
  have "gate_exchange (sends_now (gw_registry (sb_gateway s)) ?rq) (\<lambda>x. exchange_Send x ?rq) (sb_gateway s)
      (xr_IdentityID ?rq) g = (res, g')" using send by (simp add: mcp_Send_def Let_def)
  from gate_Send_cases [OF this new]
  show "w_db (gt_world g') = w_db (gt_world g)"
    "(\<exists>e. res = Inl e) \<and> gt_net g' = gt_net g
      \<or> (\<exists>i \<in> set (db_identities (w_db (gt_world g))). identity_ID i = scope_IdentityID a
           \<and> ran_once (sb_gateway s) adapters \<lparr>rt_Service = scope_Service a, rt_Operation = scope_Operation a,
               rt_Resource = scope_Resource a\<rparr> i (gt_net g) (gt_net g'))" unfolding rq by simp_all
qed

lemma lease_Use_counted:
  assumes ok: "lease_table_ok (db_leases (w_db w))" and use: "lease_Use i requested w = (Ok l', w')"
  shows "l' \<in> set (db_leases (w_db w'))" "lease_ID l' = i" "0 < lease_UsedRequests l'"
proof -
  from lease_Use_Ok [OF assms] obtain l where l: "l \<in> set (db_leases (w_db w))"
    "lease_UsedRequests l' = lease_UsedRequests l + 1" "l' \<in> set (db_leases (w_db w'))" by blast
  from l(1) ok have "0 \<le> lease_UsedRequests l"
    by (auto simp: lease_table_ok_def table_ok_def list_all_iff lease_check_def)
  with l show "l' \<in> set (db_leases (w_db w'))" "0 < lease_UsedRequests l'" by simp_all
  show "lease_ID l' = i" by (rule lease_Use_ID [OF use])
qed

lemma mcp_execute_cases:
  assumes run: "mcp_execute s request l g = (r, g')"
    and new: "registry_New adapters = Inr (gw_registry (sb_gateway s))"
    and ok: "lease_table_ok (db_leases (w_db (gt_world g)))"
  shows "gate_acts g g' \<and> (gt_net g' = gt_net g \<or> sent_under s adapters l r g g')"
proof -
  obtain ra g0 where a: "on_world (io_lift (scopeOfLease l)) g = (ra, g0)" by (metis prod.exhaust)
  note A = on_world_acts [OF a acting.keeps_pure(2)]
  show ?thesis
  proof (cases ra)
    case (Inl e)
    with run a A show ?thesis by (auto simp: mcp_execute_def gate_bind_def)
  next
    case ra: (Inr authorized)
    with A(3) have dec: "decode_scope (lease_ResourceScope l) = Some authorized"
      by (auto simp: io_lift_Ok scopeOfLease_def split: option.splits)
    obtain rb g1 where b: "on_world (advance_now (request_ID request) StatusAutoAllowed StatusExecuting) g0
        = (rb, g1)" by (metis prod.exhaust)
    note B = on_world_acts [OF b acting_requests(3)]
    have acts1: "gate_acts g g1" and net1: "gt_net g1 = gt_net g" using gate_acts_trans [OF A(1) B(1)] A(2) B(2)
      by simp_all
    show ?thesis
    proof (cases rb)
      case (Inl e)
      with run a ra b acts1 net1 show ?thesis by (auto simp: mcp_execute_def gate_bind_def)
    next
      case rb: (Inr running)
      obtain ru g2 where u: "on_world (io_try (lease_Use (lease_ID l) authorized)) g1 = (ru, g2)"
        by (metis prod.exhaust)
      note U = on_world_acts [OF u acting.keeps_try [OF lease_Use_acting]]
      have acts2: "gate_acts g g2" and net2: "gt_net g2 = gt_net g"
        using gate_acts_trans [OF acts1 U(1)] net1 U(2) by simp_all
      show ?thesis
      proof (cases ru)
        case (Inl e)
        with run a ra b rb u acts2 net2 show ?thesis by (auto simp: mcp_execute_def gate_bind_def)
      next
        case ru: (Inr used)
        show ?thesis
        proof (cases used)
          case (Inl c)
          with run a ra b rb u ru have "on_world (mcp_failed running l authorized 0 c) g2 = (r, g')"
            by (simp add: mcp_execute_def gate_bind_def)
          from on_world_acts [OF this closing_steps(3)] show ?thesis
            using gate_acts_trans [OF acts2] net2 by simp
        next
          case (Inr l2)
          with U(3) ru have use: "lease_Use (lease_ID l) authorized (gt_world g1) = (Ok l2, gt_world g2)"
            by (auto simp: io_try_Ok)
          have "lease_table_ok (db_leases (w_db (gt_world g1)))" using acts1 ok
            by (simp add: gate_acts_def)
          note l2 = lease_Use_counted [OF this use]
          obtain rn g3 where n: "on_world io_now g2 = (rn, g3)" by (metis prod.exhaust)
          note N = on_world_acts [OF n acting.keeps_pure(4)]
          have n3: "w_db (gt_world g3) = w_db (gt_world g2)" "gt_net g3 = gt_net g"
            and rn: "rn = Ok (w_clock (gt_world g2) (w_tick (gt_world g2)))"
            using n net2 by (auto simp: on_world_def io_now_def)
          obtain x g4 where x: "mcp_Send s request running authorized g3 = (x, g4)" by (metis prod.exhaust)
          note X = mcp_Send_cases [OF x new]
          have acts4: "gate_acts g g4"
            using gate_acts_trans [OF acts2 gate_acts_same [of g4 g2]] X(1) n3(1) by simp
          have "\<exists>m. on_world m g4 = (r, g') \<and> closing l authorized m"
            using run a ra b rb u ru Inr n rn x closing_failed closing_conclude
            by (cases x) (auto simp: mcp_execute_def gate_bind_def)
          then obtain m where m: "on_world m g4 = (r, g')" "closing l authorized m" by blast
          note M = on_world_closing [OF m]
          have "l2 \<in> set (db_leases (w_db (gt_world g')))" using l2(1) M(3) X(1) n3(1) by simp
          moreover have "gate_acts g g'" using gate_acts_trans [OF acts4 M(1)] .
          moreover have "gt_net g' = gt_net g4" by (rule M(2))
          moreover have "db_identities (w_db (gt_world g')) = db_identities (w_db (gt_world g3))"
            using M(4) X(1) by simp
          ultimately show ?thesis using X(2) n3(2) dec l2(2,3) M(5) unfolding sent_under_def by auto
        qed
      qed
    qed
  qed
qed

section \<open>A call of a tool\<close>

definition request_for :: "string \<Rightarrow> mcp_caller \<Rightarrow> capability_request \<Rightarrow> bool" where
  "request_for op caller r \<longleftrightarrow> request_OperationID r = op \<and> request_AgentID r = ml_AgentID caller
     \<and> request_WorkspaceID r = ml_WorkspaceID caller"

text \<open>The call waits for a person, after one look.\<close>

definition call_waits ::
    "submissions \<Rightarrow> methods adapter_scheme option list \<Rightarrow> string \<Rightarrow> mcp_caller \<Rightarrow> call_outcome result
       \<Rightarrow> gate \<Rightarrow> gate \<Rightarrow> bool" where
  "call_waits s adapters op caller r g g' \<longleftrightarrow> (\<exists>text. r = Ok (Refusal text))
     \<and> (\<exists>rq result. request_for op caller rq \<and> waits_after_look s adapters rq result g g')"

text \<open>The call was allowed, and was sent under a lease.\<close>

definition call_sent ::
    "submissions \<Rightarrow> methods adapter_scheme option list \<Rightarrow> string \<Rightarrow> mcp_caller \<Rightarrow> call_outcome result
       \<Rightarrow> gate \<Rightarrow> gate \<Rightarrow> bool" where
  "call_sent s adapters op caller r g g' \<longleftrightarrow> (\<exists>rq l. request_for op caller rq
     \<and> (\<exists>e \<in> set (db_audit (w_db (gt_world g'))). allowed_by e rq l) \<and> sent_under s adapters l r g g')"

lemma mcp_Call_cases:
  assumes run: "mcp_Call s op c g = (r, g')"
    and new: "registry_New adapters = Inr (gw_registry (sb_gateway s))"
    and ok: "lease_table_ok (db_leases (w_db (gt_world g)))"
  shows "gt_net g' = gt_net g \<or> call_waits s adapters op (mc_Caller c) r g g'
    \<or> call_sent s adapters op (mc_Caller c) r g g'"
proof -
  obtain ro g1 where o: "on_world (mcp_open s op c) g = (ro, g1)" by (metis prod.exhaust)
  note O = on_world_acts [OF o mcp_open_acting]
  show ?thesis
  proof (cases ro)
    case (Inl e)
    with run o O show ?thesis by (auto simp: mcp_Call_def gate_bind_def)
  next
    case ro: (Inr rq)
    have rq: "request_for op (mc_Caller c) rq" using mcp_open_Ok [of s op c] O(3) ro
      by (auto simp: request_for_def)
    obtain rd g2 where d: "submissions_Decide s rq g1 = (rd, g2)" by (metis prod.exhaust)
    have ok1: "lease_table_ok (db_leases (w_db (gt_world g1)))" using O(1) ok by (simp add: gate_acts_def)
    note D = submissions_Decide_cases [OF d new ok1]
    show ?thesis
    proof (cases rd)
      case (Inl e)
      with run o ro d D(2) O(2) show ?thesis by (auto simp: mcp_Call_def gate_bind_def)
    next
      case rd: (Inr result)
      let ?v = "out_Verdict (res_Outcome result)"
      show ?thesis
      proof (cases "?v = VerdictAutoAllow")
        case False
        have "g' = g2 \<and> (\<exists>text. r = Ok (Refusal text))"
          using run o ro d rd False by (cases ?v) (auto simp: mcp_Call_def gate_bind_def gate_return_def)
        moreover have "gt_net g2 = gt_net g1 \<or> waits_after_look s adapters rq result g1 g2"
          using D(2) rd by auto
        moreover have "waits_after_look s adapters rq result g1 g2 \<Longrightarrow> waits_after_look s adapters rq result g g2"
          unfolding waits_after_look_def O(2) .
        ultimately show ?thesis using O(2) rq unfolding call_waits_def by auto
      next
        case True
        from D(3) [OF rd True] obtain l where net: "gt_net g2 = gt_net g1" and l: "res_Lease result = Some l"
          and e: "\<exists>e \<in> set (db_audit (w_db (gt_world g2))). allowed_by e rq l" by blast
        from run o ro d rd True l have x: "mcp_execute s (res_Request result) l g2 = (r, g')"
          by (simp add: mcp_Call_def gate_bind_def)
        have "lease_table_ok (db_leases (w_db (gt_world g2)))" using D(1) ok1 by (simp add: gate_acts_def)
        from mcp_execute_cases [OF x new this] have X: "gate_acts g2 g'"
          "gt_net g' = gt_net g2 \<or> sent_under s adapters l r g2 g'" by blast+
        have "sent_under s adapters l r g2 g' \<Longrightarrow> sent_under s adapters l r g g'"
          unfolding sent_under_def net O(2) .
        moreover have "\<exists>e \<in> set (db_audit (w_db (gt_world g'))). allowed_by e rq l"
          using e X(1) unfolding gate_acts_def by blast
        ultimately show ?thesis using X(2) net O(2) rq unfolding call_sent_def by auto
      qed
    qed
  qed
qed

lemma mcp_authenticate_Ok:
  assumes "mcp_authenticate sv key w = (Ok caller, w')"
  obtains a where "a \<in> set (db_agents (w_db w))" "agent_Status a = AgentActive"
    "agent_SessionKeyHash a = HashSessionKey (gw_hash (sb_gateway (ms_calls sv))) (NewSessionKey key)"
    "agent_SessionExpiresAt a > w_clock w (Suc (w_tick w))" "ml_AgentID caller = agent_ID a"
proof -
  from assms obtain x where au: "Authenticate (gw_hash (sb_gateway (ms_calls sv))) (NewSessionKey key)
      \<lparr>pr_PID = 0, pr_ExecutableHash = []\<rparr> w = (Ok x, w')" and c: "ml_AgentID caller = agent_ID x"
    by (auto simp: mcp_authenticate_def io_Ok_iffs split: if_splits)
  from au obtain a w2 where a: "a \<in> set (db_agents (w_db w))" "agent_Status a = AgentActive"
    "agent_SessionKeyHash a = HashSessionKey (gw_hash (sb_gateway (ms_calls sv))) (NewSessionKey key)"
    "agent_SessionExpiresAt a > w_clock w (Suc (w_tick w))"
    and t: "TouchAgent (agent_ID a) (w_clock w2 (w_tick w2)) (tick w2) = (Ok x, w')"
    by (elim Authenticate_Ok) blast
  from t have "agent_ID x = agent_ID a" by (rule TouchAgent_Ok) simp
  with a c show thesis by (intro that [of a]) simp_all
qed

section \<open>The server\<close>

definition live_session :: "mcp_server \<Rightarrow> string \<Rightarrow> world \<Rightarrow> mcp_caller \<Rightarrow> bool" where
  "live_session sv key w caller \<longleftrightarrow> (\<exists>a \<in> set (db_agents (w_db w)). agent_Status a = AgentActive
     \<and> agent_SessionKeyHash a = HashSessionKey (gw_hash (sb_gateway (ms_calls sv))) (NewSessionKey key)
     \<and> agent_SessionExpiresAt a > w_clock w (Suc (w_tick w)) \<and> ml_AgentID caller = agent_ID a)"


section \<open>A call that is sent\<close>

text \<open>The call of the DNS tool goes through under the lease that the agent already holds.\<close>

definition dns_server :: mcp_server where
  "dns_server = \<lparr>ms_calls = \<lparr>sb_pipeline = sample_pipeline ModeBalanced, sb_gateway = dns_gateway,
      sb_text = (\<lambda>t. case t of NoText \<Rightarrow> [] | _ \<Rightarrow> ''{}'')\<rparr>,
    ms_catalog = \<lparr>tc_tools = [], tc_byName = [(''dns.record.update'',
      \<lparr>tt_Service = ''dns'', tt_Operation = ''update_record''\<rparr>)]\<rparr>\<rparr>"

definition dns_mcp_gate :: gate where
  "dns_mcp_gate = \<lparr>gt_world = sample_world (empty_db\<lparr>
       db_agents := [example_agent\<lparr>agent_SessionKeyHash := HashSessionKey id (NewSessionKey ''k''),
         agent_SessionExpiresAt := 500 * millisecond\<rparr>],
       db_devices := [\<lparr>device_ID = ''dev'', device_Fingerprint = ''f'', device_Name = [],
         device_TrustStatus = DeviceTrusted, device_CreatedAt = 1, device_UpdatedAt = 1\<rparr>],
       db_workspaces := [sample_workspace],
       db_providers := [\<lparr>cp_ID = ''prov'', cp_Kind = KindLocalVault, cp_Label = ''vault'',
         cp_CreatedAt = 1, cp_UpdatedAt = 1\<rparr>],
       db_references := [\<lparr>cr_ID = ''cred'', cr_ProviderID = ''prov'', cr_ItemRef = ''dns'',
         cr_Field = ''token'', cr_Service = ''dns'', cr_AccountLabel = ''acct'',
         cr_Metadata = Parsed (JObj []), cr_Capabilities = Parsed (JArr []), cr_HealthStatus = HealthOK,
         cr_LastVerifiedAt = 1, cr_CreatedAt = 1, cr_UpdatedAt = 1\<rparr>],
       db_declarations := [example_declaration], db_identities := [example_identity],
       db_leases := [example_lease]\<rparr>),
     gt_net = fresh, gt_available = snd (gw_Serve availability_New)\<rparr>"

definition dns_frame :: rpc_frame where
  "dns_frame = \<lparr>fr_ID = Some (JNum 1), fr_Method = ''tools/call'',
     fr_Params = Parsed (JObj [(''name'', JStr ''dns.record.update''),
       (''arguments'', JObj [(''zone'', JStr ''a.test''), (''content'', JStr ''new'')])])\<rparr>"

definition dns_call :: "rpc_response option \<times> gate" where
  "dns_call = Dispatch dns_server ''op'' dns_frame ''k'' dns_mcp_gate"

fun answers_text :: "rpc_response option \<Rightarrow> bool" where
  "answers_text None = False"
| "answers_text (Some a) = (case rp_Body a of ToolText body \<Rightarrow> True | _ \<Rightarrow> False)"

lemma dns_call_runs:
  "case dns_call of (reply, g') \<Rightarrow> answers_text reply \<and> xs_Trace (gt_net g') \<noteq> []"
  by code_simp

lemma dns_registry: "registry_New [Some dns_full_adapter] = Inr (gw_registry dns_gateway)"
proof -
  have "is_ok (capability_Validate example_declared)" "trim_space ''dns'' = ''dns''"
    "ac_Operation example_declared = ''update_record''" by code_simp+
  then show ?thesis
    by (simp add: registry_New_def registry_add_def dns_full_adapter_def dns_adapter_def dns_gateway_def
        adapter.extend_def Let_def)
qed


end
