(* ===== verification/Spec2Isabelle.thy ===== *)
theory Spec2Isabelle
  imports Settling Generic_HTTP Local_Vault Mcp_Guard
begin

text \<open>
  Verification of OpenDelo, a local capability gateway written in Go.  Agents (coding assistants on
  the user's machine) ask the gateway to perform operations on external services; the gateway
  recognises the agent, finds out what is asked, which account it concerns and how far it reaches,
  assesses the risk, decides, and then denies, asks the user or issues a short-lived lease -- after
  it has written the ledger.  A request under a lease is then sent by the adapter of the service with
  a credential the agent never sees.  This theory collects the development; the theorems stand in
  the theories of the components they are about.

  \<^bold>\<open>The program and its model.\<close>  Paths are relative to \<open>src/internal\<close>.

  Foundations.
  \<^item> \<open>Go_Base\<close>, \<open>Json_Text\<close>, \<open>Path_Match\<close>, \<open>App_Error\<close>: what the code uses of Go and of its library.
    Errors are the codes of \<open>platform/apperr\<close>, with their operation where it matters; a result is a
    sum, a nil dereference is a separate outcome that only \<open>recover\<close> sees; instants and durations are
    nanoseconds; maps with string keys are sorted association lists; a JSON text is absent,
    malformed or its parsed value; \<open>path.Match\<close> is modelled with its escapes, classes and errors.
  \<^item> \<open>Records\<close> (the stored records), \<open>World\<close>, \<open>Tables\<close>: the database as lists of rows, the clock, the
    identifier source and the computations on them.  Every SQL statement is one step that may fail;
    which steps fail, what the clock reads and which identifiers come is a schedule in the world, so
    a theorem over all worlds covers every way a run can be cut short.

  From a request to a lease.
  \<^item> \<open>Agent_Identity\<close>, \<open>Agent_Auth\<close> (\<open>core/agentauth\<close>): data of agents, devices and workspaces;
    registration, session keys, authentication, confirmation of trust, disconnecting.
  \<^item> \<open>Risk\<close> (\<open>core/risk\<close>), \<open>Matcher\<close> (\<open>core/matcher\<close>), \<open>Intent\<close> (\<open>core/intent\<close>), \<open>Scope\<close>
    (\<open>core/scope\<close>), \<open>Decision\<close> (\<open>core/decision\<close>): the assessment, the identity a request uses, the
    catalog and the resolver of intents, the ten dimensions of a scope with their cover relation, and
    the branch table with its blockers and the forbidden list.
  \<^item> \<open>Lease_Repo\<close>, \<open>Lease\<close>; \<open>Approval_Repo\<close>, \<open>Approval\<close>; \<open>Trust_Repo\<close>, \<open>Trust\<close>: repositories
    (\<open>store/repo\<close>, \<open>store/queries\<close>, constraints from \<open>store/migrations\<close>) and managers
    (\<open>core/lease\<close>, \<open>core/approval\<close>, \<open>core/trust\<close>).  \<open>Request_Repo\<close>, \<open>Agent_Repo\<close>: the repositories of
    requests, decisions, identities, agents, devices and workspaces.
  \<^item> \<open>Redaction\<close>, \<open>Audit_Ledger\<close> (\<open>platform/audit\<close>, \<open>store/repo/audit.go\<close>): redaction, the recorder, the
    ledger's queries, pruning, the rows of an export.
  \<^item> \<open>Pipeline\<close>, \<open>Settlement\<close> (\<open>core/pipeline\<close>): \<open>Handle\<close>, \<open>SettleApproval\<close>, \<open>ExpireApprovals\<close>,
    \<open>ClearTrustMemory\<close>, the disconnects, each with every call that changes state in the order of
    the code.  \<open>Sample_Run\<close> is a concrete installation on which they are evaluated.  \<open>Audited\<close>,
    \<open>Handling\<close>, \<open>Settling\<close>: the properties of the composed operations.
  \<^item> \<open>Availability\<close> (\<open>core/gateway\<close>): the serving flag, with the interleaving of atomic loads and
    stores as a step relation.

  From a lease to a service.
  \<^item> \<open>Adapter_Capability\<close>, \<open>Adapter_Registry\<close> (\<open>adapter/registry\<close>: \<open>capability.go\<close>, \<open>registry.go\<close>,
    \<open>resolve.go\<close>), \<open>Service_Catalog\<close> (the operations of \<open>adapter/github\<close>, \<open>cloudflare\<close>, \<open>model\<close>, and
    \<open>assembleAdapters\<close>): what adapters declare, the checks on it, finding an operation by its path.
  \<^item> \<open>Adapter_Client\<close> (\<open>client.go\<close>), \<open>Adapter_Redact\<close> (\<open>redact.go\<close>): the outbound channel with its
    redirects and retries, and what is cut from an answer.
  \<^item> \<open>Adapter_Exec\<close>, \<open>Cloudflare_Adapter\<close>, \<open>Model_Adapter\<close>, \<open>Net_Address\<close> with \<open>Generic_HTTP\<close>: the
    execution of the four kinds of adapters, the preview of DNS changes, the cost estimate, the
    address check.  \<open>Exchange\<close> (\<open>exchange.go\<close>, \<open>preview.go\<close>): the one stretch of the program plain
    credentials pass through.
  \<^item> \<open>Credential_Repo\<close>, \<open>Credential_Registry\<close>, \<open>Unlock_Waiter\<close> (\<open>credential/registry\<close>,
    \<open>store/repo/credential.go\<close>): references to secrets, fetching from their sources, and the wait for
    a locked source as a step relation of interleaved requests.
  \<^item> \<open>Crypto_Envelope\<close>, \<open>Local_Vault\<close> (\<open>platform/crypto\<close>, \<open>credential/localvault\<close>): the sealed file, the
    lock, the idle timer and the lockout.
  \<^item> \<open>Declarations\<close> (\<open>orchestration/declare.go\<close>, \<open>store/repo/adapter.go\<close>): connecting a service.
  \<^item> \<open>Agent_Proxy\<close> (\<open>transport/proxy\<close>, \<open>cli/proxyports.go\<close>, \<open>proxyservices.go\<close>, \<open>proxyexchange.go\<close>,
    \<open>authenticator.go\<close>): the whole way of an agent's HTTP request, composed of the components above.
  \<^item> \<open>Submissions\<close> (\<open>orchestration/submissions.go\<close>), \<open>Mcp_Calls\<close> (\<open>cli/mcpcalls.go\<close>), \<open>Mcp_Tools\<close>,
    \<open>Mcp_Server\<close> (\<open>transport/mcpsrv\<close>): the other way in -- a tool call becomes a stored request, is
    decided with inputs from the tables, and is sent under its lease; the list of tools, the dispatch
    of JSON-RPC frames and the two transports.  \<open>Mcp_Decided\<close> and \<open>Mcp_Guard\<close>: what a call may have
    done when it returns.

  \<^bold>\<open>Parameters.\<close>  What the program takes from elsewhere is an argument of the definitions: the network
  and its answers, the URL and JSON libraries of Go, the resolver, SHA-256, Argon2id and
  XChaCha20-Poly1305 with the entropy source, the clock and the identifier source, what a credential
  source answers at a moment, which file operations of the vault fail.  Where a theorem needs a law of
  one of these (that opening undoes sealing, that decoding undoes encoding) the law is a hypothesis,
  and the witness of the theorem gives functions that satisfy it.

  \<^bold>\<open>Interfaces.\<close>  \<open>World.db_history\<close> is the contract between stateful components: a relation
  between database states that a computation keeps to whatever fails; it is interpreted for leases,
  approvals, memories, agents, credentials, declarations, the ledger and for the rule that the ledger
  comes first.  \<open>World.growing_table\<close> is a table whose rows are never removed and change by a given
  relation; \<open>Tables.closing\<close> a step that closes the row of an item, run over a list by sweeps and
  cascades.  \<open>Adapter_Exec.adapter_executor\<close> is what every adapter promises about the requests it
  sends, interpreted for the four adapters; \<open>Local_Vault.vault_relation\<close> and its extension
  \<open>vault_installing\<close> are relations between states of the vault that its operations keep to.  The cover
  relation of scopes and the rank of risk levels are locales of their theories.

  \<^bold>\<open>What the theorems show.\<close>
  \<^item> The decision: auto-allow happens exactly under the stated conditions, every blocker, forbidden
    operation, unknown mode or incomplete scope is a denial, high risk is never automatic, a reported
    lease covers the request.
  \<^item> The path to it: only declared operations are resolved, the first matching level decides the
    identity, the scope is minimal and does not depend on undeclared fields, covering never widens,
    risk is what the rule table specifies; declarations, scopes and tool names survive a round trip.
  \<^item> The stores: a lease is never spent beyond its limit or expiry under any interleaving of
    statements, only shrinks, and a use is covered and counted; an approval is decided once; a
    memory never covers more than was approved; what the ledger stores is redacted and pruning
    keeps to the retention; a reference to a secret never moves.
  \<^item> The composition: no sequence of pipeline operations, with any failures, produces a lease
    without an allowing ledger entry; \<open>Handle\<close> never panics and its answer, the entry and the tables
    agree with the verdict; a settlement grants once and exactly the recorded scope; a disconnect
    leaves nothing active; only live sessions authenticate and trust rises by confirmation only.
  \<^item> Execution: a client call reaches only the configured host and, on its first hop, the declared
    path; the adapters send what they declare and read before they change; an answer holds only
    declared fields; a model call fits its budget in exact arithmetic; the generic adapter stays
    outside private networks; a credential is fetched for a declared operation only and wiped.
  \<^item> Secrets: the vault refines a finite map, opens only with its password, and bounds guesses; an
    envelope that opens was sealed so; unlocking wakes whoever waits and every wait ends; nothing is
    fetched for a disconnected reference.
  \<^item> All of it together: through the agent proxy nothing is sent without a live session, a declared
    operation and a counted lease that names it, and no answer is handed on before the ledger has it;
    through the MCP server only listed tools reach the network, by one read-only look before a person
    is asked or by one sending under the lease of an allowed request; the list of tools is the list of
    declared operations.
  \<^item> Where the code does not do what its comments promise, a theorem shows the behaviour, among them
    \<open>Approval.settle_ignores_deadline\<close>, \<open>Decision.learned_ceiling_not_enforced\<close>,
    \<open>Handling.handle_never_asks_identity\<close>, \<open>Availability.stop_can_be_undone\<close>,
    \<open>Adapter_Client.redirect_leaves_the_template\<close>, \<open>Exchange.exchange_never_calls_a_model\<close>,
    \<open>Unlock_Waiter.late_waiter_misses_unlock\<close>, \<open>Declarations.connecting_leaves_disabled\<close>.

  \<^bold>\<open>Bounds.\<close>  All functions are total and no fuel is used.  Loops are structural recursion or end by a
  measure: the redirects of the HTTP client by the hops left, its attempts by the tries left, the
  masking of texts by their length; an MCP session by its lines; a waiting request takes at most five steps of its own.  The limits in theorems are
  those of the code: a thousand rows for a cascade (\<open>cascadeLimit\<close>), a hundred leases and memories
  considered for one request, two hundred leases, declarations and identities in the proxy and the
  submissions, five requests for each
  of three attempts of a client call, \<open>math.MaxInt32\<close> for counts read back.  Go's \<open>int\<close> and SQLite's
  integers are unbounded integers here; where the code narrows (\<open>decodeCount\<close>, process identifiers)
  the check is written out, and the cost estimate of the model adapter, the envelope header and
  addresses are computed on machine words.  The exactness of the estimate is shown for token counts
  below \<open>2 ^ 44\<close>; \<open>Model_Adapter.huge_token_limit_is_free\<close> shows what happens beyond.

  \<^bold>\<open>Not modelled.\<close>  An operation of a manager runs without interference from another one, except
  where a theorem speaks of interleaved statements (leases, the serving flag, waiting for an unlock).
  Detail texts of errors, logging and the byte output of JSON and CSV encoders have no influence on
  the modelled state; the \<open>Referer\<close> header a redirect adds is left out.  The console's HTTP API decodes
  requests and renders views; it, the command line, configuration, the keychain and 1Password tools,
  and the opening and migration of the database are outside.  Telling the console about a decision has
  no result and is left out of \<open>Submissions\<close>; the byte form of MCP replies is not modelled.  The generic HTTP
  adapter and the local vault are modelled as they stand; the assembled program registers no generic
  adapter, and its vault is not among the sources of the credential registry.
\<close>

end
